(* ===== verification/Prelude.thy ===== *)
theory Prelude
  imports Main "HOL-Library.Word" "HOL-Library.Sublist"
begin

text \<open>
  Shared vocabulary of the development: the machine integers of the C sources, C strings and the
  string functions the sources call, the array-scan loops, and the lemmas about them that the
  component theories rely on.

  Conventions used everywhere.

  \<^item> A C string is its contents up to the terminating NUL, a \<^typ>\<open>string\<close>; a pointer that may be
    NULL is an \<open>option\<close>. \<open>strcmp (a, b) == 0\<close> is equality.
  \<^item> \<open>strncpy (dst, src, n)\<close> into a buffer whose byte \<open>n\<close> is zero keeps the first \<open>n\<close>
    characters: \<open>strncpy n src\<close>.
  \<^item> \<open>uint16_t\<close>, \<open>uint32_t\<close> and \<open>uint64_t\<close> are words of that width; \<open>time_t\<close> (a signed 64-bit
    number of seconds since the epoch, far from its bounds) is an integer.
  \<^item> A function whose behaviour C leaves undefined on some path (a NULL dereference, a write
    outside an array) returns \<open>None\<close> there.
\<close>

section \<open>Machine integers\<close>

type_synonym u8 = "8 word"
type_synonym u16 = "16 word"
type_synonym u32 = "32 word"
type_synonym u64 = "64 word"
type_synonym time_t = int

named_theorems cstring_simps \<open>rewriting of the C string functions\<close>
named_theorems scan_simps \<open>rewriting of the array scans\<close>

section \<open>C strings\<close>

definition strncpy :: "nat \<Rightarrow> string \<Rightarrow> string" where
  "strncpy n s = take n s"

fun strstr :: "string \<Rightarrow> string \<Rightarrow> bool" where
  "strstr [] pat = (pat = [])"
| "strstr (c # cs) pat = (prefix pat (c # cs) \<or> strstr cs pat)"

definition c_string_or :: "string \<Rightarrow> string option \<Rightarrow> string" where
  "c_string_or d s = (case s of None \<Rightarrow> d | Some x \<Rightarrow> x)"

text \<open>The digits of an unsigned conversion: \<open>%u\<close>, \<open>%lx\<close>.\<close>

definition digit_char :: "nat \<Rightarrow> char" where
  "digit_char d = (if d < 10 then char_of (d + 48) else char_of (d + 87))"

function print_base :: "nat \<Rightarrow> nat \<Rightarrow> string" where
  "print_base b n =
     (if b < 2 \<or> n < b then [digit_char n]
      else print_base b (n div b) @ [digit_char (n mod b)])"
  by pat_completeness auto
termination
  by (relation "measure snd") auto

declare print_base.simps [simp del]

section \<open>Array scans\<close>

text \<open>The loop \<open>for (i = 0; i < n; i++) if (p (a[i])) return i;\<close>.\<close>

fun first_index :: "('a \<Rightarrow> bool) \<Rightarrow> 'a list \<Rightarrow> nat option" where
  "first_index p [] = None"
| "first_index p (x # xs) = (if p x then Some 0 else map_option Suc (first_index p xs))"

section \<open>Lemmas on strings\<close>

lemma length_strncpy [cstring_simps]: "length (strncpy n s) = min (length s) n"
  by (simp add: strncpy_def)

lemma strncpy_id [cstring_simps]: "length s \<le> n \<Longrightarrow> strncpy n s = s"
  by (simp add: strncpy_def)

lemma strncpy_neq: "n < length s \<Longrightarrow> strncpy n s \<noteq> s"
  by (metis length_strncpy min.absorb2 less_imp_le_nat nat_neq_iff)

lemma strncpy_idem [cstring_simps]: "strncpy n (strncpy n s) = strncpy n s"
  by (simp add: strncpy_def)

lemma strncpy_eq_Nil [cstring_simps]: "0 < n \<Longrightarrow> strncpy n s = [] \<longleftrightarrow> s = []"
  by (cases s; cases n) (auto simp: strncpy_def)

lemma strncpy_Nil [cstring_simps]: "strncpy n [] = []"
  by (simp add: strncpy_def)

lemma strstr_iff_sublist: "strstr s pat \<longleftrightarrow> sublist pat s"
  by (induction s) (auto simp: sublist_Cons_right)

lemma strstr_self [simp]: "strstr s s"
  by (simp add: strstr_iff_sublist)

lemma strstr_append: "strstr s pat \<Longrightarrow> strstr (us @ s @ vs) pat"
  by (auto simp: strstr_iff_sublist intro: sublist_order.order_trans)

section \<open>Lemmas on scans\<close>

lemma first_index_None_iff [scan_simps]:
  "first_index p xs = None \<longleftrightarrow> (\<forall>x \<in> set xs. \<not> p x)"
  by (induction xs) auto

lemma first_index_Some_iff:
  "first_index p xs = Some i \<longleftrightarrow> i < length xs \<and> p (xs ! i) \<and> (\<forall>j < i. \<not> p (xs ! j))"
proof (induction xs arbitrary: i)
  case Nil
  then show ?case by simp
next
  case (Cons x xs)
  show ?case
    by (cases i) (auto simp: Cons.IH less_Suc_eq_0_disj)
qed

lemma first_index_SomeD:
  "first_index p xs = Some i \<Longrightarrow> i < length xs \<and> p (xs ! i)"
  by (simp add: first_index_Some_iff)

lemma first_index_less: "first_index p xs = Some i \<Longrightarrow> i < length xs"
  by (simp add: first_index_Some_iff)

lemma first_index_append [scan_simps]:
  "first_index p (xs @ ys) =
     (case first_index p xs of Some i \<Rightarrow> Some i
      | None \<Rightarrow> map_option (\<lambda>i. i + length xs) (first_index p ys))"
  by (induction xs) (auto simp: option.map_comp comp_def option.map_ident split: option.splits)

lemma first_index_update_same:
  assumes "first_index p xs = Some i" and "p y"
  shows "first_index p (xs[i := y]) = Some i"
  using assms by (auto simp: first_index_Some_iff)

lemma first_index_update_other:
  assumes "\<not> p (xs ! i)" and "\<not> p y"
  shows "first_index p (xs[i := y]) = first_index p xs"
  using assms
proof (induction xs arbitrary: i)
  case Nil
  then show ?case by simp
next
  case (Cons x xs)
  then show ?case by (cases i) auto
qed

lemma first_index_cong:
  "map f xs = map g ys \<Longrightarrow> (\<And>x y. f x = g y \<Longrightarrow> p x = q y) \<Longrightarrow>
   first_index p xs = first_index q ys"
proof (induction xs arbitrary: ys)
  case Nil
  then show ?case by simp
next
  case (Cons x xs)
  then obtain z zs where ys: "ys = z # zs" by (cases ys) auto
  with Cons.prems have "f x = g z" and "map f xs = map g zs" by auto
  with Cons.IH [of zs] Cons.prems(2) ys show ?case by simp
qed

lemma find_SomeD: "find p xs = Some x \<Longrightarrow> x \<in> set xs \<and> p x"
  by (induction xs) (auto split: if_splits)

lemma find_unique:
  "distinct (map f xs) \<Longrightarrow> x \<in> set xs \<Longrightarrow> f x = k \<Longrightarrow> find (\<lambda>y. f y = k) xs = Some x"
proof (induction xs)
  case Nil
  then show ?case by simp
next
  case (Cons y ys)
  then show ?case by (cases "y = x") (force simp: image_iff)+
qed

lemma find_unique_conj:
  "distinct (map f xs) \<Longrightarrow> x \<in> set xs \<Longrightarrow> f x = k \<Longrightarrow> q x \<Longrightarrow> find (\<lambda>y. f y = k \<and> q y) xs = Some x"
proof (induction xs)
  case Nil
  then show ?case by simp
next
  case (Cons y ys)
  then show ?case by (cases "y = x") (force simp: image_iff)+
qed

end
