(* ===== verification/Keyed_Store.thy ===== *)
theory Keyed_Store
  imports Prelude
begin

text \<open>
  The contract of a table that keeps one entry per key, such as the rate limiter's table: an
  operation on a key answers and updates as a function of that key's own entry, and changes no
  other entry. Two clients of the contract are proved once: over a run of operations on any mixture
  of keys, the answers a key receives are those of its own operations run alone (isolation), and
  the entry it ends with likewise.
\<close>

section \<open>Runs\<close>

fun run_ops ::
  "('k \<Rightarrow> 'a \<Rightarrow> 's \<Rightarrow> ('r \<times> 's) option) \<Rightarrow> ('k \<times> 'a) list \<Rightarrow> 's \<Rightarrow> ('r list \<times> 's) option" where
  "run_ops step [] s = Some ([], s)"
| "run_ops step ((k, a) # ops) s =
     (case step k a s of None \<Rightarrow> None
      | Some (r, s') \<Rightarrow>
          (case run_ops step ops s' of None \<Rightarrow> None
           | Some (rs, s'') \<Rightarrow> Some (r # rs, s'')))"

fun spec_run :: "('a \<Rightarrow> 'e option \<Rightarrow> 'r \<times> 'e) \<Rightarrow> 'a list \<Rightarrow> 'e option \<Rightarrow> 'r list \<times> 'e option" where
  "spec_run spec [] e = ([], e)"
| "spec_run spec (a # as) e =
     (let (r, e') = spec a e; (rs, e'') = spec_run spec as (Some e') in (r # rs, e''))"

text \<open>The operations of one key, and the answers of one key.\<close>

definition ops_of :: "'k \<Rightarrow> ('k \<times> 'a) list \<Rightarrow> 'a list" where
  "ops_of k ops = map snd (filter (\<lambda>p. fst p = k) ops)"

definition answers_of :: "'k \<Rightarrow> ('k \<times> 'a) list \<Rightarrow> 'r list \<Rightarrow> 'r list" where
  "answers_of k ops rs = map snd (filter (\<lambda>p. fst (fst p) = k) (zip ops rs))"

lemma ops_of_simps [simp]:
  "ops_of k [] = []"
  "ops_of k ((k', a) # ops) = (if k' = k then a # ops_of k ops else ops_of k ops)"
  by (simp_all add: ops_of_def)

lemma answers_of_simps [simp]:
  "answers_of k [] rs = []"
  "answers_of k ((k', a) # ops) (r # rs) =
     (if k' = k then r # answers_of k ops rs else answers_of k ops rs)"
  by (simp_all add: answers_of_def)

lemma filter_answers_of:
  "length rs = length ops \<Longrightarrow>
   filter (\<lambda>p. P (snd (fst p)) (snd p)) (filter (\<lambda>p. fst (fst p) = k) (zip ops rs)) =
   map (\<lambda>(a, r). ((k, a), r)) (filter (\<lambda>(a, r). P a r) (zip (ops_of k ops) (answers_of k ops rs)))"
proof (induction rs ops rule: list_induct2)
  case Nil
  then show ?case by simp
next
  case (Cons r rs p ops)
  then show ?case by (cases p) simp
qed

section \<open>The contract\<close>

locale keyed_store =
  fixes inv :: "'s \<Rightarrow> bool"
    and ok :: "'k \<Rightarrow> bool"
    and get :: "'s \<Rightarrow> 'k \<Rightarrow> 'e option"
    and step :: "'k \<Rightarrow> 'a \<Rightarrow> 's \<Rightarrow> ('r \<times> 's) option"
    and spec :: "'k \<Rightarrow> 'a \<Rightarrow> 'e option \<Rightarrow> 'r \<times> 'e"
  assumes step_refines:
    "inv s \<Longrightarrow> ok k \<Longrightarrow>
     \<exists>s'. step k a s = Some (fst (spec k a (get s k)), s') \<and> inv s' \<and>
          get s' = (get s)(k \<mapsto> snd (spec k a (get s k)))"
begin

lemma run_isolated:
  assumes "inv s" and "list_all (\<lambda>p. ok (fst p)) ops"
  shows "\<exists>rs s'. run_ops step ops s = Some (rs, s') \<and> inv s' \<and> length rs = length ops \<and>
           (\<forall>k. (answers_of k ops rs, get s' k) = spec_run (spec k) (ops_of k ops) (get s k))"
  using assms
proof (induction ops arbitrary: s)
  case Nil
  then show ?case by simp
next
  case (Cons p ops)
  obtain k a where p: "p = (k, a)" by (cases p)
  from Cons.prems p have "inv s" and "ok k" by simp_all
  from step_refines [OF this, of a] obtain s1 where
    s1: "step k a s = Some (fst (spec k a (get s k)), s1)" "inv s1"
      "get s1 = (get s)(k \<mapsto> snd (spec k a (get s k)))" by blast
  from Cons.IH [OF s1(2)] Cons.prems(2) obtain rs s' where
    IH: "run_ops step ops s1 = Some (rs, s')" "inv s'" "length rs = length ops"
      "\<forall>k. (answers_of k ops rs, get s' k) = spec_run (spec k) (ops_of k ops) (get s1 k)"
    by auto
  have "(answers_of k' (p # ops) (fst (spec k a (get s k)) # rs), get s' k') =
      spec_run (spec k') (ops_of k' (p # ops)) (get s k')" for k'
    using IH(4) [rule_format, of k'] s1(3) p by (auto simp: Let_def split: prod.splits)
  with p s1 IH show ?case by auto
qed

lemma run_preserves_inv:
  assumes "inv s" and "list_all (\<lambda>p. ok (fst p)) ops" and "run_ops step ops s = Some (rs, s')"
  shows "inv s'" and "length rs = length ops"
  using run_isolated [OF assms(1,2)] assms(3) by auto

lemma run_other_key_unchanged:
  assumes "inv s" and "list_all (\<lambda>p. ok (fst p)) ops" and "run_ops step ops s = Some (rs, s')"
    and "k \<notin> fst ` set ops"
  shows "get s' k = get s k"
proof -
  from assms(4) have "ops_of k ops = []"
    by (auto simp: ops_of_def filter_empty_conv rev_image_eqI)
  with run_isolated [OF assms(1,2)] assms(3) show ?thesis
    by (metis (no_types, lifting) Pair_inject option.inject spec_run.simps(1))
qed

end

end
