(* ===== verification/Security.thy ===== *)
theory Security
  imports Keyed_Store
begin

text \<open>
  The admission control of the device control port, \<open>src/server/proxy/server/security_features.c\<close>:
  the per-key rate limiter with its penalty periods, the IP white and black lists, the port-scan
  detector, the screening of JSON text, and the token generator.

  The static variables of the C file are the fields of \<open>security_state\<close>. The rate-limit array is
  kept as the list of its used entries (\<open>g_rate_limit_table_size\<close> is the length of the list),
  with a flag for the pointer being non-NULL and the allocated capacity. The clock and the success
  of an allocation are arguments. Log output is not modelled, except the security events, which
  are appended to \<open>security_events\<close>.
\<close>

section \<open>Data\<close>

record rate_limit_entry =
  rl_key :: string
  request_count :: u32
  window_start :: time_t
  last_request :: time_t
  penalty_count :: u32
  penalty_until :: time_t

record rate_limit_config =
  window_seconds :: u32
  max_requests :: u32
  penalty_seconds :: u32
  max_penalties :: u32

record security_event =
  ev_timestamp :: time_t
  ev_type :: string
  ev_source_ip :: string
  ev_device_id :: string
  ev_description :: string

record scan_tracker =
  scan_ip :: string
  scan_ports :: "u16 list"
  first_seen :: time_t
  last_seen :: time_t

record security_state =
  g_rate_limit_config :: rate_limit_config
  rate_limit_table_allocated :: bool
  g_rate_limit_table :: "rate_limit_entry list"
  g_rate_limit_table_capacity :: nat
  g_ip_whitelist :: "string list"
  g_ip_blacklist :: "string list"
  tracker :: scan_tracker
  security_events :: "security_event list"

record security_stats =
  rate_limit_entries :: nat
  whitelist_entries :: nat
  blacklist_entries :: nat
  active_penalties :: nat
  permanent_blocks :: nat

definition default_rate_limit_config :: rate_limit_config where
  "default_rate_limit_config =
     \<lparr>window_seconds = 60, max_requests = 100, penalty_seconds = 300, max_penalties = 5\<rparr>"

text \<open>The zero-initialised \<open>static struct\<close> of \<open>detect_port_scanning\<close>.\<close>

definition empty_tracker :: scan_tracker where
  "empty_tracker = \<lparr>scan_ip = [], scan_ports = [], first_seen = 0, last_seen = 0\<rparr>"

text \<open>The C static initialisers: no table yet, empty lists.\<close>

definition initial_security_state :: security_state where
  "initial_security_state =
     \<lparr>g_rate_limit_config = default_rate_limit_config,
      rate_limit_table_allocated = False, g_rate_limit_table = [], g_rate_limit_table_capacity = 0,
      g_ip_whitelist = [], g_ip_blacklist = [], tracker = empty_tracker, security_events = []\<rparr>"

section \<open>Life cycle and configuration\<close>

definition security_features_init :: "bool \<Rightarrow> security_state \<Rightarrow> int \<times> security_state" where
  "security_features_init calloc_ok s =
     (let s1 = s\<lparr>g_rate_limit_table_capacity := 1000\<rparr>
      in if calloc_ok
         then (0, s1\<lparr>rate_limit_table_allocated := True, g_rate_limit_table := []\<rparr>)
         else (-1, s1\<lparr>rate_limit_table_allocated := False\<rparr>))"

definition security_features_cleanup :: "security_state \<Rightarrow> security_state" where
  "security_features_cleanup s =
     s\<lparr>rate_limit_table_allocated := False, g_rate_limit_table := [],
       g_rate_limit_table_capacity := 0, g_ip_whitelist := [], g_ip_blacklist := []\<rparr>"

definition at_least_one :: "u32 \<Rightarrow> u32" where
  "at_least_one n = (if 0 < n then n else 1)"

definition security_configure_rate_limit ::
  "u32 \<Rightarrow> u32 \<Rightarrow> u32 \<Rightarrow> security_state \<Rightarrow> security_state" where
  "security_configure_rate_limit max_req window_s penalty_s s =
     s\<lparr>g_rate_limit_config :=
         (g_rate_limit_config s)\<lparr>max_requests := at_least_one max_req,
                                 window_seconds := at_least_one window_s,
                                 penalty_seconds := at_least_one penalty_s\<rparr>\<rparr>"

definition security_reset_rate_limits :: "security_state \<Rightarrow> security_state" where
  "security_reset_rate_limits s = s\<lparr>g_rate_limit_table := []\<rparr>"

section \<open>Security events\<close>

definition log_security_event ::
  "time_t \<Rightarrow> string \<Rightarrow> string option \<Rightarrow> string option \<Rightarrow> string option \<Rightarrow>
   security_state \<Rightarrow> security_state" where
  "log_security_event now event_type source_ip device_id description s =
     s\<lparr>security_events := security_events s @
         [\<lparr>ev_timestamp = now, ev_type = event_type,
           ev_source_ip = c_string_or ''unknown'' source_ip,
           ev_device_id = c_string_or ''unknown'' device_id,
           ev_description = c_string_or [] description\<rparr>]\<rparr>"

section \<open>The rate limiter\<close>

text \<open>The entry that \<open>check_rate_limit\<close> writes behind the used ones for a key it has not seen.\<close>

definition new_rate_limit_entry :: "time_t \<Rightarrow> string \<Rightarrow> rate_limit_entry" where
  "new_rate_limit_entry now key =
     \<lparr>rl_key = strncpy 63 key, request_count = 0, window_start = now, last_request = 0,
      penalty_count = 0, penalty_until = 0\<rparr>"

text \<open>
  The test and update of one entry, from the penalty test to the end of the function: the verdict,
  the entry afterwards, and the security events raised.
\<close>

definition rate_limit_decide ::
  "time_t \<Rightarrow> rate_limit_config \<Rightarrow> rate_limit_entry \<Rightarrow>
   int \<times> rate_limit_entry \<times> (string \<times> string) list" where
  "rate_limit_decide now cfg e =
     (if penalty_until e > now then
        (-1, e, [(''rate_limit_penalty'', ''Request blocked due to rate limit penalty'')])
      else
        let e1 = (if now - window_start e \<ge> int (unat (window_seconds cfg))
                  then e\<lparr>window_start := now, request_count := 0\<rparr> else e)
        in if request_count e1 \<ge> max_requests cfg then
             let e2 = e1\<lparr>penalty_count := penalty_count e1 + 1,
                         penalty_until := now + int (unat (penalty_seconds cfg)),
                         request_count := 0, window_start := now\<rparr>
             in (-1, e2,
                 (''rate_limit_exceeded'', ''Rate limit exceeded, penalty applied'') #
                 (if penalty_count e2 \<ge> max_penalties cfg
                  then [(''permanent_block'',
                         ''Permanent block due to excessive rate limit violations'')]
                  else []))
           else (0, e1\<lparr>request_count := request_count e1 + 1, last_request := now\<rparr>, []))"

definition apply_decision ::
  "time_t \<Rightarrow> string \<Rightarrow> string option \<Rightarrow> nat \<Rightarrow> security_state \<Rightarrow> int \<times> security_state" where
  "apply_decision now key source_ip i s =
     (case rate_limit_decide now (g_rate_limit_config s) (g_rate_limit_table s ! i) of
        (verdict, e, evs) \<Rightarrow>
          (verdict,
           fold (\<lambda>(ty, descr). log_security_event now ty source_ip (Some key) (Some descr)) evs
             (s\<lparr>g_rate_limit_table := (g_rate_limit_table s)[i := e]\<rparr>)))"

definition check_rate_limit ::
  "time_t \<Rightarrow> bool \<Rightarrow> string option \<Rightarrow> string option \<Rightarrow> security_state \<Rightarrow>
   (int \<times> security_state) option" where
  "check_rate_limit now realloc_ok key source_ip s =
     (case key of None \<Rightarrow> Some (0, s)
      | Some k \<Rightarrow>
          if \<not> rate_limit_table_allocated s \<and> g_rate_limit_table s \<noteq> [] then None
          else
            (case first_index (\<lambda>e. rl_key e = k) (g_rate_limit_table s) of
               Some i \<Rightarrow> Some (apply_decision now k source_ip i s)
             | None \<Rightarrow>
                 let size = length (g_rate_limit_table s);
                     full = size \<ge> g_rate_limit_table_capacity s
                 in if full \<and> \<not> realloc_ok then Some (0, s)
                    else
                      let s1 = (if full
                                then s\<lparr>rate_limit_table_allocated := True,
                                       g_rate_limit_table_capacity :=
                                         g_rate_limit_table_capacity s * 2\<rparr>
                                else s)
                      in if \<not> rate_limit_table_allocated s1 \<or> size \<ge> g_rate_limit_table_capacity s1
                         then None
                         else
                           Some (apply_decision now k source_ip size
                             (s1\<lparr>g_rate_limit_table :=
                                   g_rate_limit_table s1 @ [new_rate_limit_entry now k]\<rparr>))))"

section \<open>IP lists and the two validation entry points\<close>

definition check_ip_access ::
  "time_t \<Rightarrow> string option \<Rightarrow> security_state \<Rightarrow> int \<times> security_state" where
  "check_ip_access now ip_address s =
     (case ip_address of None \<Rightarrow> (0, s)
      | Some ip \<Rightarrow>
          if first_index (\<lambda>a. a = ip) (g_ip_blacklist s) \<noteq> None
          then (-1, log_security_event now ''blacklisted_ip'' (Some ip) None
                      (Some ''Request from blacklisted IP'') s)
          else if g_ip_whitelist s \<noteq> [] \<and> first_index (\<lambda>a. a = ip) (g_ip_whitelist s) = None
          then (-1, log_security_event now ''non_whitelisted_ip'' (Some ip) None
                      (Some ''Request from non-whitelisted IP'') s)
          else (0, s))"

definition validate_device_token ::
  "time_t \<Rightarrow> bool \<Rightarrow> string option \<Rightarrow> string option \<Rightarrow> string option \<Rightarrow> security_state \<Rightarrow>
   (int \<times> security_state) option" where
  "validate_device_token now realloc_ok device_id auth_token source_ip s =
     (if device_id = None \<or> auth_token = None then Some (-1, s)
      else
        (case check_rate_limit now realloc_ok device_id source_ip s of
           None \<Rightarrow> None
         | Some (v1, s1) \<Rightarrow>
             if v1 \<noteq> 0 then Some (-1, s1)
             else if source_ip = None then Some (0, s1)
             else
               (case check_rate_limit now realloc_ok source_ip source_ip s1 of
                  None \<Rightarrow> None
                | Some (v2, s2) \<Rightarrow>
                    if v2 \<noteq> 0 then Some (-1, s2)
                    else
                      (case check_ip_access now source_ip s2 of
                         (v3, s3) \<Rightarrow> Some (if v3 \<noteq> 0 then (-1, s3) else (0, s3))))))"

text \<open>The bucket of a session: \<open>snprintf (.., "session_%.16s", session_token)\<close>.\<close>

definition session_rate_limit_key :: "string \<Rightarrow> string" where
  "session_rate_limit_key session_token = ''session_'' @ take 16 session_token"

definition validate_session_token_security ::
  "time_t \<Rightarrow> bool \<Rightarrow> string option \<Rightarrow> string option \<Rightarrow> security_state \<Rightarrow>
   (int \<times> security_state) option" where
  "validate_session_token_security now realloc_ok session_token source_ip s =
     (case session_token of None \<Rightarrow> Some (-1, s)
      | Some tok \<Rightarrow>
          (case check_rate_limit now realloc_ok (Some (session_rate_limit_key tok)) source_ip s of
             None \<Rightarrow> None
           | Some (v1, s1) \<Rightarrow>
               if v1 \<noteq> 0 then Some (-1, s1)
               else if source_ip = None then Some (0, s1)
               else
                 (case check_ip_access now source_ip s1 of
                    (v2, s2) \<Rightarrow> Some (if v2 \<noteq> 0 then (-1, s2) else (0, s2)))))"

section \<open>Port-scan detection and the temporary black list\<close>

text \<open>
  \<open>realloc\<close> and \<open>strdup\<close> may fail; \<open>schedule_blacklist_removal\<close>, called last, only logs.
\<close>

definition add_temporary_blacklist ::
  "bool \<Rightarrow> bool \<Rightarrow> string option \<Rightarrow> time_t \<Rightarrow> security_state \<Rightarrow> security_state" where
  "add_temporary_blacklist realloc_ok strdup_ok ip_address duration s =
     (case ip_address of None \<Rightarrow> s
      | Some ip \<Rightarrow>
          if first_index (\<lambda>a. a = ip) (g_ip_blacklist s) \<noteq> None then s
          else if \<not> realloc_ok then s
          else if \<not> strdup_ok then s
          else s\<lparr>g_ip_blacklist := g_ip_blacklist s @ [ip]\<rparr>)"

definition detect_port_scanning ::
  "time_t \<Rightarrow> bool \<Rightarrow> bool \<Rightarrow> string \<Rightarrow> u16 \<Rightarrow> security_state \<Rightarrow> int \<times> security_state" where
  "detect_port_scanning now realloc_ok strdup_ok source_ip port s =
     (let t0 = (if now - last_seen (tracker s) > 300 then empty_tracker else tracker s)
      in if scan_ip t0 = source_ip then
           if first_index (\<lambda>p. p = port) (scan_ports t0) = None then
             let t1 = (if length (scan_ports t0) < 10
                       then t0\<lparr>scan_ports := scan_ports t0 @ [port]\<rparr> else t0)
             in if length (scan_ports t1) \<ge> 5 \<and> now - first_seen t1 < 60
                then (-1, add_temporary_blacklist realloc_ok strdup_ok (Some source_ip) 3600
                            (log_security_event now ''port_scanning'' (Some source_ip) None
                               (Some ''Possible port scanning detected'') (s\<lparr>tracker := t1\<rparr>)))
                else (0, s\<lparr>tracker := t1\<lparr>last_seen := now\<rparr>\<rparr>)
           else (0, s\<lparr>tracker := t0\<lparr>last_seen := now\<rparr>\<rparr>)
         else
           (0, s\<lparr>tracker := t0\<lparr>scan_ip := strncpy 15 source_ip, scan_ports := [port],
                                first_seen := now, last_seen := now\<rparr>\<rparr>))"

section \<open>Screening of JSON text\<close>

definition suspicious_patterns :: "string list" where
  "suspicious_patterns =
     [''../'', [CHR ''.'', CHR ''.'', CHR 0x5C], ''/etc/'', ''/bin/'', ''/dev/'', ''<?'',
      ''<script'', ''javascript:'', ''onload='', ''onerror='', ''eval('', ''exec('', ''system('',
      ''popen('', ''fopen('']"

definition validate_json_input :: "string option \<Rightarrow> nat \<Rightarrow> int" where
  "validate_json_input json_str max_length =
     (case json_str of None \<Rightarrow> -1
      | Some js \<Rightarrow>
          let len = length js
          in if len > max_length then -1
             else if list_ex (\<lambda>i. js ! i = CHR 0x00 \<and> i < len - 1) [0..<len] then -1
             else if list_ex (strstr js) suspicious_patterns then -1
             else 0)"

section \<open>Token generation\<close>

definition hex_chars :: string where
  "hex_chars = ''0123456789abcdef''"

text \<open>The two characters the loop writes for one byte.\<close>

definition hex_high :: "u8 \<Rightarrow> char" where
  "hex_high b = hex_chars ! unat (and (drop_bit 4 b) 0x0F)"

definition hex_low :: "u8 \<Rightarrow> char" where
  "hex_low b = hex_chars ! unat (and b 0x0F)"

fun hex_fill :: "nat \<Rightarrow> u8 list \<Rightarrow> string \<Rightarrow> string" where
  "hex_fill i [] buffer = buffer"
| "hex_fill i (b # bs) buffer =
     (if i * 2 + 1 < length buffer
      then hex_fill (Suc i) bs (buffer[i * 2 := hex_high b, i * 2 + 1 := hex_low b])
      else buffer)"

text \<open>
  The buffer is its \<open>buffer_size\<close> bytes; \<open>urandom\<close> is \<open>None\<close> when the device cannot be opened and
  otherwise the bytes \<open>fread\<close> delivered.
\<close>

definition generate_secure_token ::
  "u8 list option \<Rightarrow> string option \<Rightarrow> int \<times> string option" where
  "generate_secure_token urandom buffer =
     (case buffer of None \<Rightarrow> (-1, None)
      | Some buf \<Rightarrow>
          if length buf < 32 then (-1, Some buf)
          else
            (case urandom of None \<Rightarrow> (-1, Some buf)
             | Some random_bytes \<Rightarrow>
                 if length random_bytes \<noteq> 32 then (-1, Some buf)
                 else (0, Some ((hex_fill 0 random_bytes buf)[length buf - 1 := CHR 0x00]))))"

section \<open>Statistics\<close>

definition get_security_statistics :: "time_t \<Rightarrow> security_state \<Rightarrow> security_stats" where
  "get_security_statistics now s =
     \<lparr>rate_limit_entries = length (g_rate_limit_table s),
      whitelist_entries = length (g_ip_whitelist s),
      blacklist_entries = length (g_ip_blacklist s),
      active_penalties = length (filter (\<lambda>e. penalty_until e > now) (g_rate_limit_table s)),
      permanent_blocks =
        length (filter (\<lambda>e. penalty_count e \<ge> max_penalties (g_rate_limit_config s))
                  (g_rate_limit_table s))\<rparr>"

section \<open>Invariant and abstraction of the rate-limit table\<close>

definition security_inv :: "security_state \<Rightarrow> bool" where
  "security_inv s \<longleftrightarrow>
     rate_limit_table_allocated s \<and>
     0 < g_rate_limit_table_capacity s \<and>
     length (g_rate_limit_table s) \<le> g_rate_limit_table_capacity s \<and>
     list_all (\<lambda>e. length (rl_key e) \<le> 63) (g_rate_limit_table s)"

text \<open>What the table says of a key: the first entry with that key.\<close>

definition rate_limit_lookup :: "security_state \<Rightarrow> string \<Rightarrow> rate_limit_entry option" where
  "rate_limit_lookup s k =
     map_option (nth (g_rate_limit_table s)) (first_index (\<lambda>e. rl_key e = k) (g_rate_limit_table s))"

text \<open>
  The limiter as a specification: one step of one key's entry, which a key without an entry
  starts from a fresh one.
\<close>

definition limiter_spec ::
  "rate_limit_config \<Rightarrow> string \<Rightarrow> time_t \<Rightarrow> rate_limit_entry option \<Rightarrow> int \<times> rate_limit_entry" where
  "limiter_spec cfg k now eo =
     (case rate_limit_decide now cfg
             (case eo of None \<Rightarrow> new_rate_limit_entry now k | Some e \<Rightarrow> e) of
        (verdict, e, _) \<Rightarrow> (verdict, e))"

text \<open>
  The limiter as an operation of a keyed store: a request is its arrival time and source address.
\<close>

definition limiter_step ::
  "string \<Rightarrow> time_t \<times> string option \<Rightarrow> security_state \<Rightarrow> (int \<times> security_state) option" where
  "limiter_step k req s = check_rate_limit (fst req) True (Some k) (snd req) s"

definition admitted_in :: "time_t \<Rightarrow> time_t \<Rightarrow> time_t \<Rightarrow> int \<Rightarrow> bool" where
  "admitted_in from until now verdict \<longleftrightarrow> verdict = 0 \<and> from \<le> now \<and> now < until"

section \<open>The limiter refines its specification\<close>

lemma log_security_event_fields [simp]:
  "g_rate_limit_config (log_security_event now ty ip dev descr s) = g_rate_limit_config s"
  "rate_limit_table_allocated (log_security_event now ty ip dev descr s) = rate_limit_table_allocated s"
  "g_rate_limit_table (log_security_event now ty ip dev descr s) = g_rate_limit_table s"
  "g_rate_limit_table_capacity (log_security_event now ty ip dev descr s) = g_rate_limit_table_capacity s"
  "g_ip_whitelist (log_security_event now ty ip dev descr s) = g_ip_whitelist s"
  "g_ip_blacklist (log_security_event now ty ip dev descr s) = g_ip_blacklist s"
  "tracker (log_security_event now ty ip dev descr s) = tracker s"
  by (simp_all add: log_security_event_def)

lemma fold_log_fields [simp]:
  "g_rate_limit_config (fold (\<lambda>(ty, descr). log_security_event now ty ip dev (Some descr)) evs s) = g_rate_limit_config s"
  "rate_limit_table_allocated (fold (\<lambda>(ty, descr). log_security_event now ty ip dev (Some descr)) evs s) = rate_limit_table_allocated s"
  "g_rate_limit_table (fold (\<lambda>(ty, descr). log_security_event now ty ip dev (Some descr)) evs s) = g_rate_limit_table s"
  "g_rate_limit_table_capacity (fold (\<lambda>(ty, descr). log_security_event now ty ip dev (Some descr)) evs s) = g_rate_limit_table_capacity s"
  "g_ip_whitelist (fold (\<lambda>(ty, descr). log_security_event now ty ip dev (Some descr)) evs s) = g_ip_whitelist s"
  "g_ip_blacklist (fold (\<lambda>(ty, descr). log_security_event now ty ip dev (Some descr)) evs s) = g_ip_blacklist s"
  by (induction evs arbitrary: s) (auto simp: case_prod_beta)

lemma rate_limit_decide_key [simp]:
  "rl_key (fst (snd (rate_limit_decide now cfg e))) = rl_key e"
  by (simp add: rate_limit_decide_def Let_def)

lemma new_rate_limit_entry_key [simp]: "rl_key (new_rate_limit_entry now k) = strncpy 63 k"
  by (simp add: new_rate_limit_entry_def)

lemma limiter_spec_key:
  "length k \<le> 63 \<Longrightarrow> (\<And>e. eo = Some e \<Longrightarrow> rl_key e = k) \<Longrightarrow> rl_key (snd (limiter_spec cfg k now eo)) = k"
  by (auto simp: limiter_spec_def case_prod_beta cstring_simps split: option.splits)

lemma apply_decision_result:
  "fst (apply_decision now k ip i s) = fst (rate_limit_decide now (g_rate_limit_config s) (g_rate_limit_table s ! i))"
  "g_rate_limit_table (snd (apply_decision now k ip i s)) =
     (g_rate_limit_table s)[i := fst (snd (rate_limit_decide now (g_rate_limit_config s) (g_rate_limit_table s ! i)))]"
  "g_rate_limit_config (snd (apply_decision now k ip i s)) = g_rate_limit_config s"
  "rate_limit_table_allocated (snd (apply_decision now k ip i s)) = rate_limit_table_allocated s"
  "g_rate_limit_table_capacity (snd (apply_decision now k ip i s)) = g_rate_limit_table_capacity s"
  "g_ip_whitelist (snd (apply_decision now k ip i s)) = g_ip_whitelist s"
  "g_ip_blacklist (snd (apply_decision now k ip i s)) = g_ip_blacklist s"
  by (simp_all add: apply_decision_def case_prod_beta)

lemma rate_limit_lookup_table:
  "rate_limit_lookup s k =
     map_option (nth (g_rate_limit_table s)) (first_index (\<lambda>e. rl_key e = k) (g_rate_limit_table s))"
  by (simp add: rate_limit_lookup_def)

lemma table_update_lookup:
  assumes i: "first_index (\<lambda>e. rl_key e = k) tab = Some i" and e: "rl_key e = k"
    and f: "\<And>k'. f k' = map_option (nth tab) (first_index (\<lambda>e. rl_key e = k') tab)"
    and g: "\<And>k'. g k' = map_option (nth (tab[i := e])) (first_index (\<lambda>e. rl_key e = k') (tab[i := e]))"
  shows "g = f(k \<mapsto> e)"
proof
  fix k'
  from i have len: "i < length tab" and key: "rl_key (tab ! i) = k"
    by (auto simp: first_index_Some_iff)
  show "g k' = (f(k \<mapsto> e)) k'"
  proof (cases "k' = k")
    case True
    with first_index_update_same [OF i, of e] e len g show ?thesis by simp
  next
    case False
    with key e have "first_index (\<lambda>e. rl_key e = k') (tab[i := e]) = first_index (\<lambda>e. rl_key e = k') tab"
      by (intro first_index_update_other) auto
    moreover have "map_option (nth (tab[i := e])) (first_index (\<lambda>e. rl_key e = k') tab) =
        map_option (nth tab) (first_index (\<lambda>e. rl_key e = k') tab)"
      using key False by (auto simp: option.map_comp first_index_Some_iff nth_list_update intro!: option.map_cong0)
        (metis first_index_SomeD nth_list_update_neq not_Some_eq option.simps(9))
    ultimately show ?thesis using False f g by simp
  qed
qed

lemma table_append_lookup:
  assumes "first_index (\<lambda>e. rl_key e = k) tab = None" and "rl_key e = k"
    and f: "\<And>k'. f k' = map_option (nth tab) (first_index (\<lambda>e. rl_key e = k') tab)"
    and g: "\<And>k'. g k' = map_option (nth (tab @ [e])) (first_index (\<lambda>e. rl_key e = k') (tab @ [e]))"
  shows "g = f(k \<mapsto> e)"
proof
  fix k'
  show "g k' = (f(k \<mapsto> e)) k'"
    using assms(1,2)
    by (auto simp: f g first_index_append nth_append dest: first_index_less split: option.splits)
qed

lemma check_rate_limit_refines:
  assumes inv: "security_inv s" and k: "length k \<le> 63"
  shows "\<exists>s'. check_rate_limit now True (Some k) ip s =
                 Some (fst (limiter_spec (g_rate_limit_config s) k now (rate_limit_lookup s k)), s') \<and>
               security_inv s' \<and> g_rate_limit_config s' = g_rate_limit_config s \<and>
               rate_limit_lookup s' = (rate_limit_lookup s)
                 (k \<mapsto> snd (limiter_spec (g_rate_limit_config s) k now (rate_limit_lookup s k)))"
proof (cases "first_index (\<lambda>e. rl_key e = k) (g_rate_limit_table s)")
  case (Some i)
  let ?s' = "snd (apply_decision now k ip i s)"
  from Some have i: "i < length (g_rate_limit_table s)" "rl_key (g_rate_limit_table s ! i) = k"
    by (auto simp: first_index_Some_iff)
  have spec: "limiter_spec (g_rate_limit_config s) k now (rate_limit_lookup s k) =
      (fst (rate_limit_decide now (g_rate_limit_config s) (g_rate_limit_table s ! i)),
       fst (snd (rate_limit_decide now (g_rate_limit_config s) (g_rate_limit_table s ! i))))"
    by (simp add: limiter_spec_def rate_limit_lookup_def Some case_prod_beta)
  have "security_inv ?s'"
    using inv i k by (auto simp: security_inv_def apply_decision_result list_all_length nth_list_update)
  moreover have "rate_limit_lookup ?s' = (rate_limit_lookup s)
      (k \<mapsto> fst (snd (rate_limit_decide now (g_rate_limit_config s) (g_rate_limit_table s ! i))))"
    by (rule table_update_lookup [OF Some])
      (simp_all add: i(2) rate_limit_lookup_table apply_decision_result)
  moreover have "check_rate_limit now True (Some k) ip s = Some (apply_decision now k ip i s)"
    using inv Some by (simp add: check_rate_limit_def security_inv_def)
  ultimately show ?thesis
    by (metis apply_decision_result(1,3) fst_conv prod.collapse snd_conv spec)
next
  case None
  let ?e = "new_rate_limit_entry now k" and ?n = "length (g_rate_limit_table s)"
  define s0 where "s0 = (if g_rate_limit_table_capacity s \<le> ?n
    then s\<lparr>rate_limit_table_allocated := True, g_rate_limit_table_capacity := g_rate_limit_table_capacity s * 2\<rparr>
    else s)"
  define s1 where "s1 = s0\<lparr>g_rate_limit_table := g_rate_limit_table s @ [?e]\<rparr>"
  let ?s' = "snd (apply_decision now k ip ?n s1)" and ?d = "rate_limit_decide now (g_rate_limit_config s) ?e"
  have tab: "g_rate_limit_table s1 = g_rate_limit_table s @ [?e]" and cfg: "g_rate_limit_config s1 = g_rate_limit_config s"
    by (simp_all add: s1_def s0_def)
  have tab': "g_rate_limit_table ?s' = g_rate_limit_table s @ [fst (snd ?d)]"
    by (simp add: apply_decision_result tab cfg)
  have "check_rate_limit now True (Some k) ip s = Some (apply_decision now k ip ?n s1)"
    using inv None by (auto simp: check_rate_limit_def security_inv_def Let_def s1_def s0_def)
  moreover have "security_inv ?s'"
    using inv k by (auto simp: security_inv_def apply_decision_result tab' s1_def s0_def cstring_simps)
  moreover have "rate_limit_lookup ?s' = (rate_limit_lookup s)(k \<mapsto> fst (snd ?d))"
    by (rule table_append_lookup [OF None])
      (simp_all add: k cstring_simps rate_limit_lookup_table tab')
  moreover have "limiter_spec (g_rate_limit_config s) k now (rate_limit_lookup s k) = (fst ?d, fst (snd ?d))"
    by (simp add: limiter_spec_def rate_limit_lookup_def None case_prod_beta)
  moreover have "fst (apply_decision now k ip ?n s1) = fst ?d" "g_rate_limit_config ?s' = g_rate_limit_config s"
    by (simp_all add: apply_decision_result tab cfg)
  ultimately show ?thesis
    by (metis fst_conv prod.collapse snd_conv)
qed

definition limiter_inv :: "rate_limit_config \<Rightarrow> security_state \<Rightarrow> bool" where
  "limiter_inv cfg s \<longleftrightarrow> security_inv s \<and> g_rate_limit_config s = cfg"

interpretation limiter: keyed_store "limiter_inv cfg" "\<lambda>k. length k \<le> 63" rate_limit_lookup
  limiter_step "\<lambda>k req. limiter_spec cfg k (fst req)"
  for cfg
proof unfold_locales
  fix s :: security_state and k :: string and req :: "time_t \<times> string option"
  assume "limiter_inv cfg s" and "length k \<le> 63"
  then show "\<exists>s'. limiter_step k req s =
        Some (fst (limiter_spec cfg k (fst req) (rate_limit_lookup s k)), s') \<and> limiter_inv cfg s' \<and>
      rate_limit_lookup s' = (rate_limit_lookup s)
        (k \<mapsto> snd (limiter_spec cfg k (fst req) (rate_limit_lookup s k)))"
    using check_rate_limit_refines [of s k "fst req" "snd req"]
    by (auto simp: limiter_inv_def limiter_step_def)
qed

section \<open>How many requests a key is granted\<close>

text \<open>
  The count of admitted requests with an arrival time in \<open>[from, until)\<close>, over one key's run. The
  bound is a potential of the key's entry: an entry whose window began in the interval has at most
  the rest of its quota left there, and none once it was penalised up to the end of the interval.
\<close>

definition quota_left :: "rate_limit_config \<Rightarrow> time_t \<Rightarrow> time_t \<Rightarrow> rate_limit_entry \<Rightarrow> nat" where
  "quota_left cfg from until e =
     (if from \<le> window_start e
      then (if until \<le> penalty_until e then 0 else unat (max_requests cfg) - unat (request_count e))
      else (unat (max_requests cfg) - unat (request_count e)) + unat (max_requests cfg))"

definition admissions :: "time_t \<Rightarrow> time_t \<Rightarrow> time_t list \<Rightarrow> int list \<Rightarrow> nat" where
  "admissions from until ts vs = length (filter (\<lambda>(t, v). admitted_in from until t v) (zip ts vs))"

lemma admissions_simps [simp]:
  "admissions from until [] vs = 0"
  "admissions from until (t # ts) (v # vs) =
     (if admitted_in from until t v then 1 else 0) + admissions from until ts vs"
  by (simp_all add: admissions_def)

lemma admissions_late: "list_all (\<lambda>t. until \<le> t) ts \<Longrightarrow> admissions from until ts vs = 0"
  by (induction ts vs rule: list_induct2') (auto simp: admitted_in_def admissions_def)

lemma unat_Suc_less: "(x :: 'a :: len word) < y \<Longrightarrow> unat (x + 1) = Suc (unat x)"
proof -
  assume "x < y"
  then have "unat x < unat y" by (simp add: word_less_nat_alt)
  moreover have "unat y < 2 ^ LENGTH('a)" by (rule unsigned_less)
  ultimately have "Suc (unat x) < 2 ^ LENGTH('a)" by linarith
  then show ?thesis by (simp add: unat_word_ariths(1))
qed

lemma quota_step:
  assumes w: "until - from \<le> int (unat (window_seconds cfg))"
    and p: "window_seconds cfg \<le> penalty_seconds cfg"
    and t: "from \<le> t" "t < until"
    and d: "rate_limit_decide t cfg e = (v, e', evs)"
  shows "(if v = 0 then 1 else 0) + quota_left cfg from until e' \<le> quota_left cfg from until e"
proof -
  have wp: "uint (window_seconds cfg) \<le> uint (penalty_seconds cfg)"
    using p by (simp add: word_le_def)
  consider (penalised) "penalty_until e > t"
    | (expired) "penalty_until e \<le> t" "t - window_start e \<ge> int (unat (window_seconds cfg))" "0 < max_requests cfg"
    | (zero) "penalty_until e \<le> t" "t - window_start e \<ge> int (unat (window_seconds cfg))" "max_requests cfg = 0"
    | (full) "penalty_until e \<le> t" "t - window_start e < int (unat (window_seconds cfg))" "request_count e \<ge> max_requests cfg"
    | (room) "penalty_until e \<le> t" "t - window_start e < int (unat (window_seconds cfg))" "request_count e < max_requests cfg"
    by (metis not_le word_gt_0)
  then show ?thesis
  proof cases
    case penalised
    with d show ?thesis by (simp add: rate_limit_decide_def)
  next
    case expired
    then have "v = 0" "request_count e' = 1" "window_start e' = t"
      "penalty_until e' = penalty_until e"
      using d by (auto simp: rate_limit_decide_def Let_def not_le split: if_splits)
    moreover have "unat (max_requests cfg) > 0" using expired by (simp add: unat_gt_0 word_gt_0)
    ultimately show ?thesis using expired t w by (auto simp: quota_left_def)
  next
    case zero
    then show ?thesis using d by (auto simp: rate_limit_decide_def quota_left_def Let_def split: if_splits)
  next
    case full
    then show ?thesis using d t w wp by (auto simp: rate_limit_decide_def quota_left_def Let_def split: if_splits)
  next
    case room
    then have "v = 0" "request_count e' = request_count e + 1" "window_start e' = window_start e"
      "penalty_until e' = penalty_until e"
      using d by (auto simp: rate_limit_decide_def Let_def split: if_splits)
    moreover have "unat (request_count e + 1) = Suc (unat (request_count e))"
      "unat (request_count e) < unat (max_requests cfg)"
      using room by (simp_all add: unat_Suc_less [of _ "max_requests cfg"] word_less_nat_alt)
    ultimately show ?thesis using room t by (auto simp: quota_left_def)
  qed
qed

lemma spec_run_admissions_inside:
  assumes w: "until - from \<le> int (unat (window_seconds cfg))" "window_seconds cfg \<le> penalty_seconds cfg"
    and "sorted ts" and "list_all (\<lambda>t. from \<le> t) ts"
  shows "admissions from until ts (fst (spec_run (limiter_spec cfg k) ts (Some e))) \<le> quota_left cfg from until e"
  using assms(3,4)
proof (induction ts arbitrary: e)
  case Nil
  then show ?case by simp
next
  case (Cons t ts)
  obtain v e' evs where d: "rate_limit_decide t cfg e = (v, e', evs)" by (cases "rate_limit_decide t cfg e")
  have IH: "admissions from until ts (fst (spec_run (limiter_spec cfg k) ts (Some e'))) \<le> quota_left cfg from until e'"
    using Cons by simp
  show ?case
  proof (cases "t < until")
    case True
    have "limiter_spec cfg k t (Some e) = (v, e')" by (simp add: limiter_spec_def d)
    with True quota_step [OF w _ True d] IH Cons.prems(2) show ?thesis
      by (auto simp: admitted_in_def case_prod_beta split: if_splits)
  next
    case False
    with Cons.prems have "list_all (\<lambda>t. until \<le> t) (t # ts)" by (fastforce simp: list_all_iff)
    then show ?thesis by (simp only: admissions_late)
  qed
qed

lemma spec_run_admissions:
  assumes "until - from \<le> int (unat (window_seconds cfg))" "window_seconds cfg \<le> penalty_seconds cfg"
    and "sorted ts"
  shows "admissions from until ts (fst (spec_run (limiter_spec cfg k) ts eo)) \<le> 2 * unat (max_requests cfg)"
  using assms(3)
proof (induction ts arbitrary: eo)
  case Nil
  then show ?case by simp
next
  case (Cons t ts)
  let ?e = "case eo of None \<Rightarrow> new_rate_limit_entry t k | Some e \<Rightarrow> e"
  have eo: "spec_run (limiter_spec cfg k) (t # ts) eo = spec_run (limiter_spec cfg k) (t # ts) (Some ?e)"
    by (simp add: limiter_spec_def split: option.split)
  show ?case
  proof (cases "from \<le> t")
    case True
    with Cons.prems have "list_all (\<lambda>t. from \<le> t) (t # ts)" by (fastforce simp: list_all_iff)
    from spec_run_admissions_inside [OF assms(1,2) Cons.prems this, of k ?e]
    show ?thesis unfolding eo by (rule order_trans) (auto simp: quota_left_def)
  next
    case False
    then show ?thesis
      using Cons.IH [of "Some (snd (limiter_spec cfg k t eo))"] Cons.prems
      by (simp add: case_prod_beta admitted_in_def)
  qed
qed

lemma answers_of_map_fst:
  "spec_run (\<lambda>a. f (fst a)) as eo = spec_run f (map fst as) eo"
  by (induction as arbitrary: eo) (simp_all add: case_prod_beta Let_def)

lemma sorted_ops_of:
  "sorted (map (fst \<circ> snd) ops) \<Longrightarrow> sorted (map fst (ops_of k ops))"
  by (simp add: ops_of_def comp_def sorted_filter [of "\<lambda>p. fst (snd p)"])

lemma limiter_run_verdicts:
  assumes "security_inv s" and "list_all (\<lambda>(k, _). length k \<le> 63) ops"
  shows "\<exists>rs s'. run_ops limiter_step ops s = Some (rs, s') \<and> length rs = length ops \<and>
           security_inv s' \<and>
           (\<forall>k. (answers_of k ops rs, rate_limit_lookup s' k) =
                 spec_run (limiter_spec (g_rate_limit_config s) k) (map fst (ops_of k ops)) (rate_limit_lookup s k))"
proof -
  have "limiter_inv (g_rate_limit_config s) s" using assms(1) by (simp add: limiter_inv_def)
  moreover have "list_all (\<lambda>p. length (fst p) \<le> 63) ops" using assms(2) by (simp add: split_def)
  ultimately obtain rs s' where
    "run_ops limiter_step ops s = Some (rs, s')" "limiter_inv (g_rate_limit_config s) s'" "length rs = length ops"
    "\<forall>k. (answers_of k ops rs, rate_limit_lookup s' k) =
       spec_run (\<lambda>req. limiter_spec (g_rate_limit_config s) k (fst req)) (ops_of k ops) (rate_limit_lookup s k)"
    using limiter.run_isolated by blast
  then show ?thesis
    by (auto simp: limiter_inv_def answers_of_map_fst)
qed

lemma count_admitted_zip:
  assumes "length rs = length ops"
  shows "length (filter (\<lambda>((k', t, _), v). k' = k \<and> v = 0 \<and> from \<le> t \<and> t < until) (zip ops rs)) =
         admissions from until (map fst (ops_of k ops)) (answers_of k ops rs)"
proof -
  have "filter (\<lambda>((k', t, _), v). k' = k \<and> v = 0 \<and> from \<le> t \<and> t < until) (zip ops rs) =
      filter (\<lambda>p. admitted_in from until (fst (snd (fst p))) (snd p)) (filter (\<lambda>p. fst (fst p) = k) (zip ops rs))"
    by (auto simp: admitted_in_def case_prod_beta intro!: filter_cong)
  then show ?thesis
    using filter_answers_of [OF assms, of "\<lambda>a. admitted_in from until (fst a)" k]
    by (simp add: admissions_def zip_map1 filter_map comp_def split_def)
qed

lemma spec_run_burst:
  assumes "unat (request_count e) + length ts = Suc (unat (max_requests cfg))" and "ts \<noteq> []"
    and "list_all (\<lambda>t. penalty_until e \<le> t \<and> t - window_start e < int (unat (window_seconds cfg))) ts"
  shows "\<exists>e'. spec_run (limiter_spec cfg k) ts (Some e) =
           (replicate (unat (max_requests cfg) - unat (request_count e)) 0 @ [-1], Some e') \<and>
           penalty_until e' = last ts + int (unat (penalty_seconds cfg))"
  using assms
proof (induction ts arbitrary: e)
  case Nil
  then show ?case by simp
next
  case (Cons t ts)
  show ?case
  proof (cases "request_count e < max_requests cfg")
    case True
    let ?e = "e\<lparr>request_count := request_count e + 1, last_request := t\<rparr>"
    have n: "unat (request_count e + 1) = Suc (unat (request_count e))"
      "unat (request_count e) < unat (max_requests cfg)"
      using True by (simp_all add: unat_Suc_less [of _ "max_requests cfg"] word_less_nat_alt)
    then have "ts \<noteq> []" using Cons.prems(1) by auto
    with n Cons.prems have "\<exists>e'. spec_run (limiter_spec cfg k) ts (Some ?e) =
        (replicate (unat (max_requests cfg) - unat (request_count ?e)) 0 @ [-1], Some e') \<and>
        penalty_until e' = last ts + int (unat (penalty_seconds cfg))"
      by (intro Cons.IH) auto
    moreover have "limiter_spec cfg k t (Some e) = (0, ?e)"
      using Cons.prems(3) True by (simp add: limiter_spec_def rate_limit_decide_def Let_def)
    ultimately show ?thesis
      using n \<open>ts \<noteq> []\<close> by (auto simp: Suc_diff_Suc [symmetric])
  next
    case False
    then have "unat (max_requests cfg) \<le> unat (request_count e)" by (simp add: word_less_nat_alt)
    moreover from this have "length ts = 0" using Cons.prems(1) unfolding list.size by linarith
    moreover have "fst (limiter_spec cfg k t (Some e)) = -1"
      "penalty_until (snd (limiter_spec cfg k t (Some e))) = t + int (unat (penalty_seconds cfg))"
      using Cons.prems(3) False by (simp_all add: limiter_spec_def rate_limit_decide_def Let_def not_less)
    ultimately show ?thesis by (simp add: case_prod_beta)
  qed
qed

lemma spec_run_burst_fresh:
  assumes "length ts = Suc (unat (max_requests cfg))"
    and "0 \<le> hd ts" and "list_all (\<lambda>t. hd ts \<le> t \<and> t - hd ts < int (unat (window_seconds cfg))) ts"
  shows "\<exists>e'. spec_run (limiter_spec cfg k) ts None = (replicate (unat (max_requests cfg)) 0 @ [-1], Some e') \<and>
           penalty_until e' = last ts + int (unat (penalty_seconds cfg))"
proof (cases ts)
  case Nil
  with assms(1) show ?thesis by simp
next
  case (Cons t us)
  have "spec_run (limiter_spec cfg k) ts None = spec_run (limiter_spec cfg k) ts (Some (new_rate_limit_entry t k))"
    by (simp add: Cons limiter_spec_def)
  moreover have "\<exists>e'. spec_run (limiter_spec cfg k) ts (Some (new_rate_limit_entry t k)) =
      (replicate (unat (max_requests cfg) - unat (request_count (new_rate_limit_entry t k))) 0 @ [-1], Some e') \<and>
      penalty_until e' = last ts + int (unat (penalty_seconds cfg))"
    using assms Cons by (intro spec_run_burst) (auto simp: new_rate_limit_entry_def list_all_iff)
  ultimately show ?thesis by (simp add: new_rate_limit_entry_def)
qed

lemma penalised_is_blocked:
  assumes "security_inv s" and "length k \<le> 63"
    and "rate_limit_lookup s k = Some e" and "now < penalty_until e"
  shows "\<exists>s'. check_rate_limit now True (Some k) ip s = Some (-1, s')"
  using check_rate_limit_refines [OF assms(1,2), of now ip] assms(3,4)
  by (auto simp: limiter_spec_def rate_limit_decide_def)

section \<open>Keys longer than the entry's field\<close>

lemma long_key_step:
  assumes "security_inv s" and "63 < length k" and "0 < max_requests (g_rate_limit_config s)"
    and "0 \<le> fst req"
  shows "\<exists>s'. limiter_step k req s = Some (0, s') \<and> security_inv s' \<and>
              g_rate_limit_config s' = g_rate_limit_config s \<and>
              length (g_rate_limit_table s') = Suc (length (g_rate_limit_table s))"
proof -
  have none: "first_index (\<lambda>e. rl_key e = k) (g_rate_limit_table s) = None"
    using assms(1,2) by (auto simp: first_index_None_iff security_inv_def list_all_iff)
  define s0 where "s0 = (if g_rate_limit_table_capacity s \<le> length (g_rate_limit_table s)
    then s\<lparr>rate_limit_table_allocated := True, g_rate_limit_table_capacity := g_rate_limit_table_capacity s * 2\<rparr>
    else s)"
  let ?n = "length (g_rate_limit_table s)"
    and ?s1 = "s0\<lparr>g_rate_limit_table := g_rate_limit_table s @ [new_rate_limit_entry (fst req) k]\<rparr>"
  have "limiter_step k req s = Some (apply_decision (fst req) k (snd req) ?n ?s1)"
    using assms(1) none
    by (auto simp: limiter_step_def check_rate_limit_def security_inv_def Let_def s0_def)
  moreover have "fst (apply_decision (fst req) k (snd req) ?n ?s1) = 0"
    using assms(3,4) by (auto simp: apply_decision_result rate_limit_decide_def new_rate_limit_entry_def Let_def s0_def)
  moreover have "security_inv (snd (apply_decision (fst req) k (snd req) ?n ?s1))"
    using assms(1,2) by (auto simp: security_inv_def apply_decision_result s0_def cstring_simps)
  moreover have "g_rate_limit_config (snd (apply_decision (fst req) k (snd req) ?n ?s1)) = g_rate_limit_config s"
    "length (g_rate_limit_table (snd (apply_decision (fst req) k (snd req) ?n ?s1))) = Suc ?n"
    by (simp_all add: apply_decision_result s0_def)
  ultimately show ?thesis by (metis prod.collapse)
qed

lemma long_key_run:
  assumes "security_inv s" and "63 < length k" and "0 < max_requests (g_rate_limit_config s)"
    and "list_all (\<lambda>(now, _). 0 \<le> now) reqs"
  shows "\<exists>s'. run_ops limiter_step (map (Pair k) reqs) s = Some (replicate (length reqs) 0, s') \<and>
              length (g_rate_limit_table s') = length (g_rate_limit_table s) + length reqs"
  using assms(1,3,4)
proof (induction reqs arbitrary: s)
  case Nil
  then show ?case by simp
next
  case (Cons req reqs)
  from Cons.prems(3) have "0 \<le> fst req" by (simp add: split_def)
  from long_key_step [OF Cons.prems(1) assms(2) Cons.prems(2) this] obtain s1 where
    "limiter_step k req s = Some (0, s1)" "security_inv s1" "g_rate_limit_config s1 = g_rate_limit_config s"
    "length (g_rate_limit_table s1) = Suc (length (g_rate_limit_table s))" by blast
  with Cons.IH [of s1] Cons.prems(2,3) show ?case by auto
qed

section \<open>Properties of the rate limiter\<close>

text \<open>A running server whose limiter grants 2 requests per 60 seconds, for the examples.\<close>

definition example_security_state :: security_state where
  "example_security_state =
     security_configure_rate_limit 2 60 300 (snd (security_features_init True initial_security_state))"

definition example_requests :: "(string \<times> time_t \<times> string option) list" where
  "example_requests =
     [(''a'', 10, None), (''b'', 10, None), (''a'', 11, None), (''a'', 12, None), (''b'', 13, None)]"

lemma example_security_state_facts:
  "security_inv example_security_state"
  "rate_limit_lookup example_security_state k = None"
  "max_requests (g_rate_limit_config example_security_state) = 2"
  "window_seconds (g_rate_limit_config example_security_state) = 60"
  "penalty_seconds (g_rate_limit_config example_security_state) = 300"
  by (simp_all add: example_security_state_def security_configure_rate_limit_def security_features_init_def
      initial_security_state_def security_inv_def rate_limit_lookup_def at_least_one_def Let_def)





text \<open>
  The quota is exact and the penalty holds: a key with no entry yet that makes
  \<open>max_requests + 1\<close> calls inside one window, however they interleave with calls on other keys, is
  admitted \<open>max_requests\<close> times and then refused; and every later call on it before
  \<open>penalty_seconds\<close> have passed since the refused one is refused too.
\<close>

theorem rate_limit_burst:
  assumes "security_inv s" and "list_all (\<lambda>(k, _). length k \<le> 63) ops"
    and "rate_limit_lookup s k = None" and "length k \<le> 63"
    and "ts = map fst (ops_of k ops)"
    and "length ts = Suc (unat (max_requests (g_rate_limit_config s)))" and "0 \<le> hd ts"
    and "list_all (\<lambda>t. hd ts \<le> t \<and> t - hd ts < int (unat (window_seconds (g_rate_limit_config s)))) ts"
  shows "\<exists>rs s'. run_ops limiter_step ops s = Some (rs, s') \<and>
     answers_of k ops rs = replicate (unat (max_requests (g_rate_limit_config s))) 0 @ [-1] \<and>
     (\<forall>now ip. now < last ts + int (unat (penalty_seconds (g_rate_limit_config s))) \<longrightarrow>
        (\<exists>s''. check_rate_limit now True (Some k) ip s' = Some (-1, s'')))"
proof -
  from limiter_run_verdicts [OF assms(1,2)] obtain rs s' where
    run: "run_ops limiter_step ops s = Some (rs, s')" "security_inv s'"
    and ans: "(answers_of k ops rs, rate_limit_lookup s' k) =
      spec_run (limiter_spec (g_rate_limit_config s) k) ts None"
    using assms(3,5) by metis
  from spec_run_burst_fresh [OF assms(6-8), of k] obtain e' where
    "spec_run (limiter_spec (g_rate_limit_config s) k) ts None =
       (replicate (unat (max_requests (g_rate_limit_config s))) 0 @ [-1], Some e')"
    and e': "penalty_until e' = last ts + int (unat (penalty_seconds (g_rate_limit_config s)))" by blast
  with ans have "answers_of k ops rs = replicate (unat (max_requests (g_rate_limit_config s))) 0 @ [-1]"
    and "rate_limit_lookup s' k = Some e'" by simp_all
  with run e' penalised_is_blocked [OF run(2) assms(4)] show ?thesis
    by (intro exI [of _ rs] exI [of _ s']) simp
qed

theorem rate_limit_burst_witness:
  "\<exists>rs s'. run_ops limiter_step example_requests example_security_state = Some (rs, s') \<and>
     answers_of ''a'' example_requests rs = [0, 0, -1] \<and>
     (\<forall>now ip. now < 312 \<longrightarrow> (\<exists>s''. check_rate_limit now True (Some ''a'') ip s' = Some (-1, s'')))"
proof -
  have "list_all (\<lambda>(k, _). length k \<le> 63) example_requests" "map fst (ops_of ''a'' example_requests) = [10, 11, 12]"
    "replicate 2 0 = [0 :: int, 0]"
    by (simp_all add: example_requests_def numeral_2_eq_2)
  with rate_limit_burst [of example_security_state example_requests "''a''" "[10, 11, 12]"] show ?thesis
    by (simp add: example_security_state_facts)
qed

text \<open>
  The limiter does not hold for a key of 64 characters or more, which a \<open>device_id\<close> of the
  schema's full width (\<open>VARCHAR(64)\<close>) already is: the entry stores the first 63 characters, so the
  \<open>strcmp\<close> search never finds it again. Any number of calls on such a key are all admitted, and
  each adds one more entry to the table.
\<close>

theorem rate_limit_long_key_never_limited:
  assumes "security_inv s" and "63 < length k" and "0 < max_requests (g_rate_limit_config s)"
    and "list_all (\<lambda>(now, _). 0 \<le> now) reqs"
  shows "\<exists>s'. run_ops limiter_step (map (Pair k) reqs) s = Some (replicate (length reqs) 0, s') \<and>
              length (g_rate_limit_table s') = length (g_rate_limit_table s) + length reqs"
  by (rule long_key_run [OF assms])

theorem rate_limit_long_key_never_limited_witness:
  "\<exists>s'. run_ops limiter_step (map (Pair (replicate 64 CHR ''d'')) (replicate 5 (10, None))) example_security_state =
          Some (replicate 5 0, s') \<and>
        length (g_rate_limit_table s') = length (g_rate_limit_table example_security_state) + 5"
  using rate_limit_long_key_never_limited [of example_security_state "replicate 64 CHR ''d''" "replicate 5 (10, None)"]
  by (simp add: example_security_state_facts list_all_iff)

text \<open>
  The limiter is never in an undefined state once \<open>security_features_init\<close> has succeeded, and
  always is when its allocation failed: \<open>device_manager_init\<close> continues after the failure, and the
  first call with a key then dereferences the NULL table.
\<close>

theorem rate_limit_after_init:
  "(\<forall>s. security_inv (snd (security_features_init True s))) \<and>
   (\<forall>k now ok ip. check_rate_limit now ok (Some k) ip (snd (security_features_init False initial_security_state)) = None)"
  by (simp add: security_features_init_def security_inv_def check_rate_limit_def initial_security_state_def Let_def)

section \<open>Properties of the screening, the address lists and the scan detector\<close>

text \<open>
  \<open>validate_json_input\<close> accepts exactly the texts of at most \<open>max_length\<close> bytes in which none of
  the fifteen suspicious patterns occurs anywhere; the scan for embedded NUL bytes can never
  reject a C string.
\<close>

theorem validate_json_input_accepts:
  assumes "CHR 0x00 \<notin> set js"
  shows "validate_json_input (Some js) max_length = 0 \<longleftrightarrow>
           length js \<le> max_length \<and> (\<forall>us pat vs. js = us @ pat @ vs \<longrightarrow> pat \<notin> set suspicious_patterns)"
proof -
  have "\<not> list_ex (\<lambda>i. js ! i = CHR 0x00 \<and> i < length js - 1) [0..<length js]"
    using assms by (force simp: list_ex_iff in_set_conv_nth)
  moreover have "list_ex (strstr js) suspicious_patterns \<longleftrightarrow>
      (\<exists>us pat vs. js = us @ pat @ vs \<and> pat \<in> set suspicious_patterns)"
    by (auto simp: list_ex_iff strstr_iff_sublist sublist_def)
  ultimately show ?thesis
    by (auto simp: validate_json_input_def Let_def)
qed

theorem validate_json_input_accepts_witness:
  "validate_json_input (Some ''{}'') 4096 = 0 \<longleftrightarrow>
     length ''{}'' \<le> 4096 \<and> (\<forall>us pat vs. ''{}'' = us @ pat @ vs \<longrightarrow> pat \<notin> set suspicious_patterns)"
  by (rule validate_json_input_accepts) simp

lemma check_ip_access_verdict:
  "fst (check_ip_access now (Some ip) s) =
     (if ip \<in> set (g_ip_blacklist s) \<or> (g_ip_whitelist s \<noteq> [] \<and> ip \<notin> set (g_ip_whitelist s)) then -1 else 0)"
  by (auto simp: check_ip_access_def first_index_None_iff)

lemma check_rate_limit_lists:
  "check_rate_limit now ok k ip s = Some (v, s') \<Longrightarrow>
     g_ip_blacklist s' = g_ip_blacklist s \<and> g_ip_whitelist s' = g_ip_whitelist s"
  by (auto simp: check_rate_limit_def Let_def split: option.splits if_splits
      dest!: arg_cong [where f = snd] simp: apply_decision_result)

text \<open>
  A device request that names both credentials is let through to authentication exactly when
  the limiter admits its device id, the limiter then admits its source address, and the address is not
  black-listed and is white-listed if a white list exists; a refused device id costs the address no quota.
\<close>

theorem validate_device_token_verdict:
  assumes "security_inv s" and "length dev \<le> 63" and "length ip \<le> 63"
  shows "\<exists>v1 s1 v2 s2 s'.
     check_rate_limit now True (Some dev) (Some ip) s = Some (v1, s1) \<and>
     check_rate_limit now True (Some ip) (Some ip) s1 = Some (v2, s2) \<and>
     validate_device_token now True (Some dev) (Some tok) (Some ip) s =
       Some (if v1 = 0 \<and> v2 = 0 \<and> ip \<notin> set (g_ip_blacklist s) \<and>
                (g_ip_whitelist s = [] \<or> ip \<in> set (g_ip_whitelist s)) then 0 else -1, s') \<and>
     g_rate_limit_table s' = g_rate_limit_table (if v1 = 0 then s2 else s1)"
proof -
  from check_rate_limit_refines [OF assms(1,2), of now "Some ip"] obtain v1 s1 where
    1: "check_rate_limit now True (Some dev) (Some ip) s = Some (v1, s1)" "security_inv s1" by blast
  from check_rate_limit_refines [OF 1(2) assms(3), of now "Some ip"] obtain v2 s2 where
    2: "check_rate_limit now True (Some ip) (Some ip) s1 = Some (v2, s2)" by blast
  have lists: "g_ip_blacklist s2 = g_ip_blacklist s" "g_ip_whitelist s2 = g_ip_whitelist s"
    using check_rate_limit_lists [OF 1(1)] check_rate_limit_lists [OF 2] by simp_all
  have "g_rate_limit_table (snd (check_ip_access now (Some ip) s2)) = g_rate_limit_table s2"
    by (simp add: check_ip_access_def)
  with 1(1) 2 show ?thesis
    using check_ip_access_verdict [of now ip s2]
    by (auto simp: validate_device_token_def lists split: prod.split if_splits)
qed

theorem validate_device_token_verdict_witness:
  "\<exists>v1 s1 v2 s2 s'.
     check_rate_limit 10 True (Some ''dev'') (Some ''10.0.0.1'') example_security_state = Some (v1, s1) \<and>
     check_rate_limit 10 True (Some ''10.0.0.1'') (Some ''10.0.0.1'') s1 = Some (v2, s2) \<and>
     validate_device_token 10 True (Some ''dev'') (Some ''tok'') (Some ''10.0.0.1'') example_security_state =
       Some (if v1 = 0 \<and> v2 = 0 \<and> ''10.0.0.1'' \<notin> set (g_ip_blacklist example_security_state) \<and>
                (g_ip_whitelist example_security_state = [] \<or>
                 ''10.0.0.1'' \<in> set (g_ip_whitelist example_security_state)) then 0 else -1, s') \<and>
     g_rate_limit_table s' = g_rate_limit_table (if v1 = 0 then s2 else s1)"
  by (rule validate_device_token_verdict) (simp_all add: example_security_state_facts)

section \<open>The module as a state machine\<close>

text \<open>
  One call of any entry point of the running module, between \<open>security_features_init\<close> and
  \<open>security_features_cleanup\<close>; allocation may fail at any call.
\<close>

inductive security_step :: "security_state \<Rightarrow> security_state \<Rightarrow> bool" where
  configure: "security_step s (security_configure_rate_limit m w p s)"
| reset: "security_step s (security_reset_rate_limits s)"
| event: "security_step s (log_security_event now ty ip dev descr s)"
| rate: "check_rate_limit now ok k ip s = Some (v, s') \<Longrightarrow> security_step s s'"
| access: "check_ip_access now ip s = (v, s') \<Longrightarrow> security_step s s'"
| device: "validate_device_token now ok dev tok ip s = Some (v, s') \<Longrightarrow> security_step s s'"
| session: "validate_session_token_security now ok tok ip s = Some (v, s') \<Longrightarrow> security_step s s'"
| scan: "detect_port_scanning now ok dup ip port s = (v, s') \<Longrightarrow> security_step s s'"
| blacklist: "security_step s (add_temporary_blacklist ok dup ip duration s)"

lemma security_inv_log [simp]: "security_inv (log_security_event now ty ip dev descr s) = security_inv s"
  by (simp add: security_inv_def)

lemma security_inv_check_ip [simp]: "security_inv (snd (check_ip_access now ip s)) = security_inv s"
  by (simp add: check_ip_access_def split: option.split)

lemma security_inv_blacklist [simp]:
  "security_inv (add_temporary_blacklist ok dup ip duration s) = security_inv s"
  by (simp add: add_temporary_blacklist_def security_inv_def split: option.split)

lemma security_inv_tracker [simp]: "security_inv (s\<lparr>tracker := t\<rparr>) = security_inv s"
  by (simp add: security_inv_def)

lemma security_inv_configure [simp]:
  "security_inv (security_configure_rate_limit m w p s) = security_inv s"
  by (simp add: security_configure_rate_limit_def security_inv_def)

lemma security_inv_reset [simp]: "security_inv s \<Longrightarrow> security_inv (security_reset_rate_limits s)"
  by (simp add: security_reset_rate_limits_def security_inv_def)

lemma security_inv_apply_decision:
  assumes "security_inv s" and "i < length (g_rate_limit_table s)"
  shows "security_inv (snd (apply_decision now k ip i s))"
  using assms by (auto simp: security_inv_def apply_decision_result list_all_length nth_list_update)

lemma check_rate_limit_total:
  assumes "security_inv s"
  shows "\<exists>v s'. check_rate_limit now ok k ip s = Some (v, s') \<and> security_inv s'"
proof (cases k)
  case None
  with assms show ?thesis by (simp add: check_rate_limit_def)
next
  case (Some key)
  note [simp] = Some
  show ?thesis
  proof (cases "first_index (\<lambda>e. rl_key e = key) (g_rate_limit_table s)")
    case (Some i)
    then have "check_rate_limit now ok k ip s = Some (apply_decision now key ip i s)"
      using assms by (simp add: check_rate_limit_def security_inv_def)
    with assms security_inv_apply_decision [OF assms first_index_less [OF Some]] show ?thesis
      by (metis prod.collapse)
  next
    case None
    define s0 where "s0 = (if g_rate_limit_table_capacity s \<le> length (g_rate_limit_table s)
      then s\<lparr>rate_limit_table_allocated := True, g_rate_limit_table_capacity := g_rate_limit_table_capacity s * 2\<rparr>
      else s)"
    let ?s1 = "s0\<lparr>g_rate_limit_table := g_rate_limit_table s0 @ [new_rate_limit_entry now key]\<rparr>"
    have "security_inv ?s1"
      using assms by (auto simp: security_inv_def s0_def cstring_simps)
    from security_inv_apply_decision [OF this, of "length (g_rate_limit_table s)" now key ip]
    have "security_inv (snd (apply_decision now key ip (length (g_rate_limit_table s)) ?s1))"
      by (simp add: s0_def)
    moreover have "check_rate_limit now ok k ip s =
        (if g_rate_limit_table_capacity s \<le> length (g_rate_limit_table s) \<and> \<not> ok then Some (0, s)
         else Some (apply_decision now key ip (length (g_rate_limit_table s)) ?s1))"
      using assms None by (auto simp: check_rate_limit_def security_inv_def s0_def Let_def)
    ultimately show ?thesis using assms by (metis prod.collapse)
  qed
qed

lemma check_rate_limit_inv:
  "check_rate_limit now ok k ip s = Some (v, s') \<Longrightarrow> security_inv s \<Longrightarrow> security_inv s'"
  using check_rate_limit_total [of s now ok k ip] by auto

lemma security_step_inv: "security_step s s' \<Longrightarrow> security_inv s \<Longrightarrow> security_inv s'"
proof (induction rule: security_step.induct)
  case (access now ip s v s')
  then show ?case by (metis security_inv_check_ip snd_conv)
next
  case (device now ok dev tok ip s v s')
  then show ?case
    by (auto simp: validate_device_token_def split: if_splits option.splits prod.splits dest!: check_rate_limit_inv)
      (metis security_inv_check_ip snd_conv)+
next
  case (session now ok tok ip s v s')
  then show ?case
    by (auto simp: validate_session_token_security_def split: if_splits option.splits prod.splits dest!: check_rate_limit_inv)
      (metis security_inv_check_ip snd_conv)+
next
  case (scan now ok dup ip port s v s')
  then show ?case by (auto simp: detect_port_scanning_def Let_def split: if_splits)
qed (auto dest: check_rate_limit_inv)

lemma check_ip_access_lists [simp]:
  "g_ip_blacklist (snd (check_ip_access now ip s)) = g_ip_blacklist s"
  by (simp add: check_ip_access_def split: option.split)

lemma security_step_blacklist:
  "security_step s s' \<Longrightarrow> set (g_ip_blacklist s) \<subseteq> set (g_ip_blacklist s')"
proof (induction rule: security_step.induct)
  case (rate now ok k ip s v s')
  then show ?case by (simp add: check_rate_limit_lists)
next
  case (access now ip s v s')
  then show ?case by (metis check_ip_access_lists order_refl snd_conv)
next
  case (device now ok dev tok ip s v s')
  then show ?case
    by (auto simp: validate_device_token_def split: if_splits option.splits prod.splits dest!: check_rate_limit_lists)
      (metis check_ip_access_lists snd_conv)+
next
  case (session now ok tok ip s v s')
  then show ?case
    by (auto simp: validate_session_token_security_def split: if_splits option.splits prod.splits dest!: check_rate_limit_lists)
      (metis check_ip_access_lists snd_conv)+
next
  case (scan now ok dup ip port s v s')
  then show ?case by (auto simp: detect_port_scanning_def add_temporary_blacklist_def Let_def split: if_splits)
qed (auto simp: security_configure_rate_limit_def security_reset_rate_limits_def add_temporary_blacklist_def
    split: option.splits)

lemma security_reset_reachable: "security_step\<^sup>*\<^sup>* s (security_reset_rate_limits s)"
  by (rule r_into_rtranclp) (rule security_step.reset)

lemma security_steps_inv: "security_step\<^sup>*\<^sup>* s s' \<Longrightarrow> security_inv s \<Longrightarrow> security_inv s'"
  by (induction rule: rtranclp_induct) (auto dest: security_step_inv)

lemma security_steps_blacklist:
  "security_step\<^sup>*\<^sup>* s s' \<Longrightarrow> set (g_ip_blacklist s) \<subseteq> set (g_ip_blacklist s')"
  by (induction rule: rtranclp_induct) (auto dest: security_step_blacklist)



text \<open>
  The "temporary" black list is permanent: \<open>schedule_blacklist_removal\<close> only logs, so an
  address once listed is refused by \<open>check_ip_access\<close> after every further sequence of calls, however much
  time passes, up to \<open>security_features_cleanup\<close>.
\<close>

theorem temporary_blacklist_is_permanent:
  assumes "security_step\<^sup>*\<^sup>* (add_temporary_blacklist True True (Some ip) duration s) s'"
  shows "fst (check_ip_access now (Some ip) s') = -1"
proof -
  have "ip \<in> set (g_ip_blacklist (add_temporary_blacklist True True (Some ip) duration s))"
    by (auto simp: add_temporary_blacklist_def first_index_None_iff)
  with security_steps_blacklist [OF assms] show ?thesis
    by (auto simp: check_ip_access_verdict)
qed

theorem temporary_blacklist_is_permanent_witness:
  "fst (check_ip_access 1000000 (Some ''10.0.0.1'')
     (security_reset_rate_limits (add_temporary_blacklist True True (Some ''10.0.0.1'') 3600 initial_security_state))) = -1"
  by (rule temporary_blacklist_is_permanent [OF security_reset_reachable])

section \<open>The scan detector\<close>

definition scan_step ::
  "string \<Rightarrow> time_t \<times> u16 \<Rightarrow> security_state \<Rightarrow> (int \<times> security_state) option" where
  "scan_step ip conn s = Some (detect_port_scanning (fst conn) True True ip (snd conn) s)"

lemma scan_first:
  assumes "length ip \<le> 15" and "ip \<noteq> []" and "scan_ip (tracker s) \<noteq> ip"
  shows "\<exists>s'. scan_step ip (now, port) s = Some (0, s') \<and>
     tracker s' = \<lparr>scan_ip = ip, scan_ports = [port], first_seen = now, last_seen = now\<rparr>"
  using assms by (auto simp: scan_step_def detect_port_scanning_def empty_tracker_def Let_def cstring_simps)

lemma scan_next:
  assumes "tracker s = \<lparr>scan_ip = ip, scan_ports = ports, first_seen = t0, last_seen = t1\<rparr>"
    and "now - t1 \<le> 300" and "port \<notin> set ports" and "length ports < 4"
  shows "\<exists>s'. scan_step ip (now, port) s = Some (0, s') \<and>
     tracker s' = \<lparr>scan_ip = ip, scan_ports = ports @ [port], first_seen = t0, last_seen = now\<rparr>"
  using assms by (auto simp: scan_step_def detect_port_scanning_def first_index_None_iff Let_def)

lemma scan_detected:
  assumes "tracker s = \<lparr>scan_ip = ip, scan_ports = ports, first_seen = t0, last_seen = t1\<rparr>"
    and "now - t1 \<le> 300" and "port \<notin> set ports" and "length ports = 4" and "now - t0 < 60"
  shows "\<exists>s'. scan_step ip (now, port) s = Some (-1, s') \<and> ip \<in> set (g_ip_blacklist s')"
  using assms
  by (auto simp: scan_step_def detect_port_scanning_def first_index_None_iff add_temporary_blacklist_def Let_def)

text \<open>
  An address (other than the one currently tracked) that contacts five different ports within 60 seconds is
  detected at the fifth and at no earlier one, and from then on \<open>check_ip_access\<close> refuses it.
\<close>

theorem port_scan_detected:
  assumes "length ip \<le> 15" and "ip \<noteq> []" and "scan_ip (tracker s) \<noteq> ip"
    and "sorted [t1, t2, t3, t4, t5]" and "t5 - t1 < 60" and "distinct [p1, p2, p3, p4, p5]"
  shows "\<exists>s'. run_ops scan_step [(ip, t1, p1), (ip, t2, p2), (ip, t3, p3), (ip, t4, p4), (ip, t5, p5)] s =
            Some ([0, 0, 0, 0, -1], s') \<and> (\<forall>now. fst (check_ip_access now (Some ip) s') = -1)"
proof -
  from scan_first [OF assms(1-3)] obtain s1 where
    1: "scan_step ip (t1, p1) s = Some (0, s1)" "tracker s1 = \<lparr>scan_ip = ip, scan_ports = [p1], first_seen = t1, last_seen = t1\<rparr>"
    by blast
  from scan_next [OF 1(2), of t2 p2] assms(4-6) obtain s2 where
    2: "scan_step ip (t2, p2) s1 = Some (0, s2)" "tracker s2 = \<lparr>scan_ip = ip, scan_ports = [p1, p2], first_seen = t1, last_seen = t2\<rparr>"
    by auto
  from scan_next [OF 2(2), of t3 p3] assms(4-6) obtain s3 where
    3: "scan_step ip (t3, p3) s2 = Some (0, s3)" "tracker s3 = \<lparr>scan_ip = ip, scan_ports = [p1, p2, p3], first_seen = t1, last_seen = t3\<rparr>"
    by auto
  from scan_next [OF 3(2), of t4 p4] assms(4-6) obtain s4 where
    4: "scan_step ip (t4, p4) s3 = Some (0, s4)" "tracker s4 = \<lparr>scan_ip = ip, scan_ports = [p1, p2, p3, p4], first_seen = t1, last_seen = t4\<rparr>"
    by auto
  from scan_detected [OF 4(2), of t5 p5] assms(4-6) obtain s5 where
    5: "scan_step ip (t5, p5) s4 = Some (-1, s5)" "ip \<in> set (g_ip_blacklist s5)"
    by auto
  with 1 2 3 4 show ?thesis by (simp add: check_ip_access_verdict)
qed

theorem port_scan_detected_witness:
  "\<exists>s'. run_ops scan_step [(''10.0.0.9'', 1, 21), (''10.0.0.9'', 2, 22), (''10.0.0.9'', 3, 23),
                           (''10.0.0.9'', 3, 25), (''10.0.0.9'', 60, 80)] initial_security_state =
          Some ([0, 0, 0, 0, -1], s') \<and> (\<forall>now. fst (check_ip_access now (Some ''10.0.0.9'') s') = -1)"
  by (rule port_scan_detected) (simp_all add: initial_security_state_def empty_tracker_def)

section \<open>Tokens\<close>

definition hex_text :: "u8 list \<Rightarrow> string" where
  "hex_text bs = concat (map (\<lambda>b. [hex_high b, hex_low b]) bs)"

lemma length_hex_text [simp]: "length (hex_text bs) = 2 * length bs"
  by (induction bs) (simp_all add: hex_text_def)

lemma hex_fill_prefix:
  assumes "length pre = 2 * i" and "2 * length bs \<le> length rest"
  shows "hex_fill i bs (pre @ rest) = pre @ hex_text bs @ drop (2 * length bs) rest"
  using assms
proof (induction bs arbitrary: i pre rest)
  case Nil
  then show ?case by (simp add: hex_text_def)
next
  case (Cons b bs)
  from Cons.prems(2) obtain x y rest' where rest: "rest = x # y # rest'"
    by (cases rest; cases "tl rest") auto
  have "hex_fill (Suc i) bs ((pre @ [hex_high b, hex_low b]) @ rest') =
      (pre @ [hex_high b, hex_low b]) @ hex_text bs @ drop (2 * length bs) rest'"
    using Cons.prems rest by (intro Cons.IH) auto
  with Cons.prems rest show ?case
    by (simp add: hex_text_def list_update_append mult.commute)
qed

lemma hex_digit_values:
  "unat (and (drop_bit 4 b) 0x0F) = unat (b :: u8) div 16" "unat (and b 0x0F) = unat b mod 16"
proof -
  have mask: "(0x0F :: u8) = mask 4" by (simp add: mask_eq_exp_minus_1)
  have "unat b < 256" using unsigned_less [of b] by simp
  then have "unat b div 16 mod 16 = unat b div 16" by simp
  then show "unat (and (drop_bit 4 b) 0x0F) = unat b div 16"
    by (simp add: mask flip: take_bit_eq_mask) (simp add: drop_bit_eq_div take_bit_eq_mod unat_div unat_mod)
  show "unat (and b 0x0F) = unat b mod 16"
    by (simp add: mask flip: take_bit_eq_mask) (simp add: take_bit_eq_mod unat_mod)
qed

lemma hex_chars_inj: "i < 16 \<Longrightarrow> j < 16 \<Longrightarrow> hex_chars ! i = hex_chars ! j \<Longrightarrow> i = j"
  using nth_eq_iff_index_eq [of hex_chars i j] by (simp add: hex_chars_def)

lemma hex_pair_inj: "hex_high a = hex_high b \<Longrightarrow> hex_low a = hex_low b \<Longrightarrow> a = b"
proof -
  assume h: "hex_high a = hex_high b" "hex_low a = hex_low b"
  have "unat a < 256" "unat b < 256" using unsigned_less [of a] unsigned_less [of b] by simp_all
  then have "unat a div 16 < 16" "unat b div 16 < 16" by simp_all
  with h have "unat a div 16 = unat b div 16"
    unfolding hex_high_def hex_digit_values(1) by (blast intro: hex_chars_inj)
  moreover from h have "unat a mod 16 = unat b mod 16"
    unfolding hex_low_def hex_digit_values(2) by (auto intro: hex_chars_inj)
  ultimately have "unat a = unat b" by (metis div_mult_mod_eq)
  then show "a = b" by (simp add: word_unat_eq_iff)
qed

lemma hex_text_inj: "hex_text as = hex_text bs \<Longrightarrow> as = bs"
proof (induction as arbitrary: bs)
  case Nil
  then show ?case by (cases bs) (simp_all add: hex_text_def)
next
  case (Cons a as)
  then obtain b bs' where "bs = b # bs'" by (cases bs) (simp_all add: hex_text_def)
  with Cons show ?case by (auto simp: hex_text_def dest: hex_pair_inj)
qed

text \<open>
  Into a 65-byte buffer \<open>generate_secure_token\<close> writes the 64 hexadecimal digits of the 32 random bytes and
  the terminating NUL, and different random bytes give different tokens; into a larger buffer it
  leaves the old contents from byte 64 up to the last byte, so the token is followed by whatever
  the buffer held there.
\<close>

theorem generate_secure_token_hex:
  assumes "length bs = 32" and "65 \<le> length buf"
  shows "generate_secure_token (Some bs) (Some buf) =
           (0, Some (hex_text bs @ (drop 64 buf)[length buf - 65 := CHR 0x00])) \<and>
         (length bs' = 32 \<longrightarrow> generate_secure_token (Some bs') (Some buf) = generate_secure_token (Some bs) (Some buf) \<longrightarrow>
          bs' = bs)"
proof -
  have gen: "generate_secure_token (Some cs) (Some buf) =
      (0, Some (hex_text cs @ (drop 64 buf)[length buf - 65 := CHR 0x00]))" if "length cs = 32" for cs
    using that assms(2) hex_fill_prefix [of "[]" 0 cs buf]
    by (auto simp: generate_secure_token_def list_update_append)
  show ?thesis
    using gen [OF assms(1)] gen [of bs'] assms(1) by (auto dest: hex_text_inj)
qed

theorem generate_secure_token_hex_witness:
  "generate_secure_token (Some (replicate 32 0x1f)) (Some (replicate 65 CHR ''?'')) =
     (0, Some (hex_text (replicate 32 0x1f) @ [CHR 0x00]))"
  using generate_secure_token_hex [of "replicate 32 0x1f" "replicate 65 CHR ''?''" "[]"] by simp

end
