(* ===== verification/Device_DB.thy ===== *)
theory Device_DB
  imports Prelude
begin

text \<open>
  The part of the PostgreSQL schema the device manager works on, as lists of rows, and the stored
  procedures it calls. The schema is \<open>src/init_device_db.sql\<close> with the migrations of
  \<open>src/sql/migrations\<close> applied: \<open>free_device_port\<close> and \<open>cleanup_device_sessions\<close> as in 001,
  \<open>free_device_port_pair\<close> and the reservation functions as in 005, \<open>cleanup_expired_sessions\<close> as in 008.

  A column that may be NULL is an \<open>option\<close>. Primary keys (UUIDs) are numbers, a new row taking the
  next unused one. Columns that no code under \<open>src/server\<close> reads (\<open>updated_at\<close>, \<open>allocated_at\<close> and the like) are left
  out. Time is in seconds, and the current time is an argument of each procedure. A statement that violates a constraint
  of the schema is \<open>None\<close>: the database reports an error and rolls it back.
\<close>

section \<open>Tables\<close>

record dev_row =
  d_id :: nat
  d_device_id :: string
  d_name :: "string option"
  d_type :: "string option"
  d_status :: string
  d_auth_token_hash :: string
  d_assigned_port :: "int option"
  d_preferred_port :: "int option"
  d_internal_address :: "string option"
  d_internal_port :: "int option"
  d_user_id :: "int option"
  d_enable_input_ssl :: bool
  d_enable_tunnel_ssl :: bool
  d_last_heartbeat :: "time_t option"
  d_total_bytes_sent :: int
  d_total_bytes_received :: int

record ses_row =
  s_id :: nat
  s_device :: nat
  s_token :: string
  s_client_ip :: string
  s_assigned_port :: int
  s_started_at :: time_t
  s_last_activity :: time_t
  s_expires_at :: time_t
  s_bytes_sent :: int
  s_bytes_received :: int
  s_active_connections :: int
  s_status :: string

record port_row =
  p_port :: int
  p_device :: "nat option"
  p_session :: "nat option"
  p_expires_at :: "time_t option"
  p_status :: string

record sample_row =
  t_device :: nat
  t_session :: nat
  t_recorded_at :: time_t
  t_bytes_sent_delta :: int
  t_bytes_received_delta :: int
  t_active_connections :: int

record hourly_row =
  h_device :: nat
  h_period_start :: time_t
  h_period_end :: time_t
  h_bytes_sent :: int
  h_bytes_received :: int
  h_connection_count :: int
  h_peak_connections :: int

record device_db =
  devices :: "dev_row list"
  device_sessions :: "ses_row list"
  port_allocations :: "port_row list"
  device_traffic_samples :: "sample_row list"
  device_statistics :: "hourly_row list"
  next_session_id :: nat
  statements :: nat

text \<open>\<open>UPDATE t SET f WHERE p\<close> on a list of rows.\<close>

definition sql_update :: "('r \<Rightarrow> bool) \<Rightarrow> ('r \<Rightarrow> 'r) \<Rightarrow> 'r list \<Rightarrow> 'r list" where
  "sql_update p f rows = map (\<lambda>r. if p r then f r else r) rows"

text \<open>
  One statement of the C code: it fails when the server does (\<open>db_ok\<close> says so for the n-th
  statement) or when it violates a constraint, leaving the tables as they were.
\<close>

definition exec_stmt ::
  "(nat \<Rightarrow> bool) \<Rightarrow> (device_db \<Rightarrow> ('a \<times> device_db) option) \<Rightarrow> device_db \<Rightarrow> 'a option \<times> device_db" where
  "exec_stmt db_ok stmt db =
     (let db' = db\<lparr>statements := Suc (statements db)\<rparr>
      in if db_ok (statements db)
         then (case stmt db' of None \<Rightarrow> (None, db') | Some (a, db'') \<Rightarrow> (Some a, db''))
         else (None, db'))"

definition bigint :: "int \<Rightarrow> bool" where
  "bigint n \<longleftrightarrow> - (2 ^ 63) \<le> n \<and> n < 2 ^ 63"

definition sql_integer :: "int \<Rightarrow> bool" where
  "sql_integer n \<longleftrightarrow> - (2 ^ 31) \<le> n \<and> n < 2 ^ 31"

section \<open>Stored procedures\<close>

definition freed_port_row :: "port_row \<Rightarrow> port_row" where
  "freed_port_row r = r\<lparr>p_device := None, p_session := None, p_expires_at := None, p_status := ''free''\<rparr>"

definition sql_free_device_port :: "int \<Rightarrow> device_db \<Rightarrow> bool \<times> device_db" where
  "sql_free_device_port p db =
     (let hit = (\<lambda>r. p_port r = p \<and> (p_status r = ''allocated'' \<or> p_status r = ''reserved''))
      in (list_ex hit (port_allocations db),
          db\<lparr>port_allocations := sql_update hit freed_port_row (port_allocations db)\<rparr>))"

definition sql_release_device_port_reservation :: "nat \<Rightarrow> int option \<Rightarrow> device_db \<Rightarrow> device_db" where
  "sql_release_device_port_reservation dev input_port db =
     db\<lparr>port_allocations :=
         sql_update (\<lambda>r. p_device r = Some dev \<and> p_status r = ''reserved'' \<and>
                         (case input_port of None \<Rightarrow> True | Some p \<Rightarrow> p_port r = p \<or> p_port r = p + 1))
           freed_port_row (port_allocations db)\<rparr>"

definition sql_reserve_device_port_pair :: "nat \<Rightarrow> int option \<Rightarrow> device_db \<Rightarrow> bool \<times> device_db" where
  "sql_reserve_device_port_pair dev input_port db =
     (case input_port of
        None \<Rightarrow> (True, sql_release_device_port_reservation dev None db)
      | Some p \<Rightarrow>
          if p < 6000 \<or> p > 6998 \<or> p mod 2 \<noteq> 0 then (False, db)
          else if list_ex (\<lambda>d. d_preferred_port d = Some p \<and> d_id d \<noteq> dev) (devices db) then (False, db)
          else
            let db1 = sql_release_device_port_reservation dev None db;
                usable = (\<lambda>r. (p_port r = p \<or> p_port r = p + 1) \<and>
                              (p_status r = ''free'' \<or> p_status r = ''reserved'') \<and>
                              (p_device r = None \<or> p_device r = Some dev))
            in if length (filter usable (port_allocations db1)) < 2 then (False, db1)
               else (length (filter usable (port_allocations db1)) = 2,
                     db1\<lparr>port_allocations :=
                           sql_update usable
                             (\<lambda>r. r\<lparr>p_status := ''reserved'', p_device := Some dev, p_session := None,
                                    p_expires_at := None\<rparr>)
                             (port_allocations db1)\<rparr>))"

definition sql_free_device_port_pair :: "int option \<Rightarrow> device_db \<Rightarrow> int \<times> device_db" where
  "sql_free_device_port_pair input_port db =
     (case input_port of None \<Rightarrow> (0, db)
      | Some p \<Rightarrow>
          let owner = find (\<lambda>d. d_preferred_port d = Some p) (devices db);
              (f1, db1) = sql_free_device_port p db;
              (f2, db2) = sql_free_device_port (p + 1) db1;
              db3 = (case owner of None \<Rightarrow> db2
                     | Some d \<Rightarrow> snd (sql_reserve_device_port_pair (d_id d) (d_preferred_port d) db2))
          in ((if f1 then 1 else 0) + (if f2 then 1 else 0), db3))"

text \<open>The loops that free the pair of each session they visit, adding up the counts.\<close>

fun free_pairs :: "int list \<Rightarrow> int \<Rightarrow> device_db \<Rightarrow> int \<times> device_db" where
  "free_pairs [] n db = (n, db)"
| "free_pairs (p # ps) n db =
     (case sql_free_device_port_pair (Some p) db of (k, db') \<Rightarrow> free_pairs ps (n + k) db')"

definition live_status :: "string \<Rightarrow> bool" where
  "live_status st \<longleftrightarrow> st = ''active'' \<or> st = ''connecting''"

definition sql_cleanup_device_sessions :: "time_t \<Rightarrow> string \<Rightarrow> device_db \<Rightarrow> int \<times> device_db" where
  "sql_cleanup_device_sessions now device_id db =
     (let hit = (\<lambda>s. list_ex (\<lambda>d. s_device s = d_id d \<and> d_device_id d = device_id) (devices db) \<and>
                     live_status (s_status s));
          returned = map s_assigned_port (filter hit (device_sessions db));
          db1 = db\<lparr>device_sessions :=
                    sql_update hit (\<lambda>s. s\<lparr>s_status := ''expired'', s_expires_at := now\<rparr>) (device_sessions db)\<rparr>;
          (n, db2) = free_pairs returned 0 db1
      in (n, db2\<lparr>devices :=
               sql_update (\<lambda>d. d_device_id d = device_id \<and>
                               \<not> list_ex (\<lambda>s. s_device s = d_id d \<and> s_status s = ''active'' \<and> s_expires_at s \<ge> now)
                                   (device_sessions db2))
                 (\<lambda>d. d\<lparr>d_assigned_port := None\<rparr>) (devices db2)\<rparr>))"

definition sql_cleanup_expired_sessions :: "time_t \<Rightarrow> device_db \<Rightarrow> int \<times> device_db" where
  "sql_cleanup_expired_sessions now db =
     (let stale = (\<lambda>s. s_expires_at s < now \<and> live_status (s_status s));
          (n, db1) = free_pairs (map s_assigned_port (filter stale (device_sessions db))) 0 db;
          db2 = db1\<lparr>device_sessions := sql_update stale (\<lambda>s. s\<lparr>s_status := ''expired''\<rparr>) (device_sessions db1)\<rparr>;
          db3 = db2\<lparr>port_allocations :=
                  sql_update (\<lambda>r. p_status r = ''allocated'' \<and>
                                  \<not> list_ex (\<lambda>s. live_status (s_status s) \<and> s_expires_at s \<ge> now \<and>
                                                 (p_port r = s_assigned_port s \<or> p_port r = s_assigned_port s + 1))
                                      (device_sessions db2))
                    freed_port_row (port_allocations db2)\<rparr>
      in (n, db3\<lparr>devices :=
               sql_update (\<lambda>d. d_status d = ''active'' \<and>
                               \<not> list_ex (\<lambda>s. s_device s = d_id d \<and> s_status s = ''active'' \<and> s_expires_at s \<ge> now)
                                   (device_sessions db3))
                 (\<lambda>d. d\<lparr>d_status := ''inactive'', d_assigned_port := None\<rparr>) (devices db3)\<rparr>))"

text \<open>
  The single-port allocator: the requested port if it is free, otherwise the lowest free one.
  A NULL device or session violates \<open>valid_allocation\<close>.
\<close>

definition port_available :: "time_t \<Rightarrow> (int \<Rightarrow> bool) \<Rightarrow> port_row \<Rightarrow> bool" where
  "port_available now locked r \<longleftrightarrow>
     p_status r = ''free'' \<and> (case p_expires_at r of None \<Rightarrow> True | Some t \<Rightarrow> t < now) \<and> \<not> locked (p_port r)"

definition sql_allocate_device_port ::
  "time_t \<Rightarrow> (int \<Rightarrow> bool) \<Rightarrow> nat option \<Rightarrow> nat option \<Rightarrow> int option \<Rightarrow> device_db \<Rightarrow>
   (int option \<times> device_db) option" where
  "sql_allocate_device_port now locked dev ses requested db =
     (let avail = filter (port_available now locked) (port_allocations db);
          pick = (case requested of
                    Some q \<Rightarrow> if list_ex (\<lambda>r. p_port r = q) avail then Some q
                              else (if avail = [] then None else Some (Min (p_port ` set avail)))
                  | None \<Rightarrow> if avail = [] then None else Some (Min (p_port ` set avail)))
      in case pick of None \<Rightarrow> Some (None, db)
         | Some v \<Rightarrow>
             if dev = None \<or> ses = None then None
             else Some (Some v,
               db\<lparr>port_allocations :=
                    sql_update (\<lambda>r. p_port r = v)
                      (\<lambda>r. r\<lparr>p_device := dev, p_session := ses, p_expires_at := Some (now + 3600),
                             p_status := ''allocated''\<rparr>)
                      (port_allocations db)\<rparr>))"

end
