(* ===== verification/Device_Sessions.thy ===== *)
theory Device_Sessions
  imports Security Device_DB
begin

text \<open>
  The database side of \<open>src/server/proxy/server/device_manager.c\<close>: authentication, the
  registration transaction that creates a session and allocates its port pair, heartbeats,
  statistics and session look-up. Every C function takes the success of each statement (\<open>db_ok\<close>), the
  current time where it or the database reads the clock, its arguments and the tables, and returns its
  result and the tables. \<open>get_db_connection\<close> never returns NULL (it exits the process instead), so
  the \<open>!conn\<close> branches are dead and absent. The global \<open>g_db_mutex\<close> makes each function atomic with
  respect to the others.

  OpenSSL's \<open>SHA256\<close> and the C library's \<open>rand_r\<close> are parameters.
\<close>

section \<open>Data\<close>

datatype device_status =
  DEVICE_STATUS_INACTIVE | DEVICE_STATUS_ACTIVE | DEVICE_STATUS_PENDING |
  DEVICE_STATUS_BLOCKED | DEVICE_STATUS_ERROR

datatype session_status =
  SESSION_STATUS_ACTIVE | SESSION_STATUS_EXPIRED | SESSION_STATUS_TERMINATED | SESSION_STATUS_ERROR

record device_info =
  di_device_id :: string
  di_name :: string
  di_type :: string
  di_status :: device_status
  di_assigned_port :: u16
  di_internal_address :: string
  di_internal_port :: u16
  di_tunnel_port :: u16
  di_enable_input_ssl :: bool
  di_enable_tunnel_ssl :: bool
  di_user_id :: int

record device_session =
  ds_session_token :: string
  ds_device_id :: string
  ds_assigned_port :: u16
  ds_started_at :: time_t
  ds_last_activity :: time_t
  ds_expires_at :: time_t
  ds_bytes_sent :: u64
  ds_bytes_received :: u64
  ds_active_connections :: u32
  ds_status :: session_status

text \<open>The structure after \<open>memset (.., 0, ..)\<close>.\<close>

definition zero_device_info :: device_info where
  "zero_device_info =
     \<lparr>di_device_id = [], di_name = [], di_type = [], di_status = DEVICE_STATUS_INACTIVE,
      di_assigned_port = 0, di_internal_address = [], di_internal_port = 0, di_tunnel_port = 0,
      di_enable_input_ssl = False, di_enable_tunnel_ssl = False, di_user_id = 0\<rparr>"

definition zero_device_session :: device_session where
  "zero_device_session =
     \<lparr>ds_session_token = [], ds_device_id = [], ds_assigned_port = 0, ds_started_at = 0,
      ds_last_activity = 0, ds_expires_at = 0, ds_bytes_sent = 0, ds_bytes_received = 0,
      ds_active_connections = 0, ds_status = SESSION_STATUS_ACTIVE\<rparr>"

section \<open>Values from the database\<close>

text \<open>The text form of a \<open>BOOLEAN\<close> column and its parser.\<close>

definition pg_bool_text :: "bool \<Rightarrow> string" where
  "pg_bool_text b = (if b then ''t'' else ''f'')"

definition parse_pg_bool :: "string option \<Rightarrow> bool" where
  "parse_pg_bool v =
     (case v of None \<Rightarrow> False | Some [] \<Rightarrow> False
      | Some (c # _) \<Rightarrow> c = CHR ''t'' \<or> c = CHR ''T'' \<or> c = CHR ''1'')"

text \<open>
  \<open>PQgetvalue\<close> gives an empty string for NULL, and \<open>atoi\<close> of it is 0; a cast to \<open>uint16_t\<close> keeps the
  low 16 bits.
\<close>

definition column_text :: "string option \<Rightarrow> string" where
  "column_text v = c_string_or [] v"

definition column_int :: "int option \<Rightarrow> int" where
  "column_int v = (case v of None \<Rightarrow> 0 | Some n \<Rightarrow> n)"

definition sha256_hex :: "(string \<Rightarrow> u8 list) \<Rightarrow> string option \<Rightarrow> nat \<Rightarrow> string option" where
  "sha256_hex SHA256 input output_len =
     (case input of None \<Rightarrow> None
      | Some s \<Rightarrow> if output_len < 65 then None else Some (hex_text (SHA256 s)))"

section \<open>Reading devices\<close>

text \<open>The fields both queries copy out of a row.\<close>

definition device_info_of_row :: "string \<Rightarrow> dev_row \<Rightarrow> device_info" where
  "device_info_of_row device_id d =
     zero_device_info\<lparr>di_device_id := strncpy 64 device_id,
       di_name := strncpy 255 (column_text (d_name d)),
       di_type := strncpy 64 (column_text (d_type d)),
       di_user_id := column_int (d_user_id d),
       di_internal_address := strncpy 45 (column_text (d_internal_address d)),
       di_internal_port := (case d_internal_port d of None \<Rightarrow> 0 | Some p \<Rightarrow> word_of_int p),
       di_enable_input_ssl := parse_pg_bool (Some (pg_bool_text (d_enable_input_ssl d))),
       di_enable_tunnel_ssl := parse_pg_bool (Some (pg_bool_text (d_enable_tunnel_ssl d)))\<rparr>"

definition device_manager_load_device_by_id ::
  "(nat \<Rightarrow> bool) \<Rightarrow> string option \<Rightarrow> device_db \<Rightarrow> device_info option \<times> device_db" where
  "device_manager_load_device_by_id db_ok device_id db =
     (case device_id of None \<Rightarrow> (None, db)
      | Some dev \<Rightarrow>
          (case exec_stmt db_ok (\<lambda>db. Some (find (\<lambda>d. d_device_id d = dev) (devices db), db)) db of
             (Some (Some d), db') \<Rightarrow>
               (Some ((device_info_of_row dev d)\<lparr>di_status :=
                  (if d_status d = ''active'' then DEVICE_STATUS_ACTIVE
                   else if d_status d = ''pending'' then DEVICE_STATUS_PENDING
                   else DEVICE_STATUS_INACTIVE)\<rparr>), db')
           | (_, db') \<Rightarrow> (None, db')))"

definition admissible_status :: "string \<Rightarrow> bool" where
  "admissible_status st \<longleftrightarrow> st = ''active'' \<or> st = ''pending'' \<or> st = ''connecting''"

definition device_authenticate ::
  "(string \<Rightarrow> u8 list) \<Rightarrow> (nat \<Rightarrow> bool) \<Rightarrow> string option \<Rightarrow> string option \<Rightarrow> device_db \<Rightarrow>
   device_info option \<times> device_db" where
  "device_authenticate SHA256 db_ok device_id auth_token db =
     (case (device_id, sha256_hex SHA256 auth_token 65) of
        (Some dev, Some token_hash) \<Rightarrow>
          (case exec_stmt db_ok
                  (\<lambda>db. Some (find (\<lambda>d. d_device_id d = dev \<and> d_auth_token_hash d = token_hash \<and>
                                        admissible_status (d_status d)) (devices db), db)) db of
             (Some (Some d), db') \<Rightarrow>
               (Some ((device_info_of_row dev d)\<lparr>di_status :=
                  (if d_status d = ''active'' then DEVICE_STATUS_ACTIVE else DEVICE_STATUS_PENDING)\<rparr>), db')
           | (_, db') \<Rightarrow> (None, db'))
      | _ \<Rightarrow> (None, db))"

section \<open>Session tokens\<close>

definition token_charset :: string where
  "token_charset = ''abcdefghijklmnopqrstuvwxyzABCDEFGHIJKLMNOPQRSTUVWXYZ0123456789''"

fun random_chars :: "(u32 \<Rightarrow> nat \<times> u32) \<Rightarrow> nat \<Rightarrow> u32 \<Rightarrow> string" where
  "random_chars rand_r 0 seed = []"
| "random_chars rand_r (Suc n) seed =
     (case rand_r seed of (r, seed') \<Rightarrow> token_charset ! (r mod 62) # random_chars rand_r n seed')"

text \<open>\<open>address\<close> is the pointer \<open>device_id\<close>, which the seed mixes with the clock.\<close>

definition generate_session_token ::
  "(u32 \<Rightarrow> nat \<times> u32) \<Rightarrow> time_t \<Rightarrow> u64 \<Rightarrow> nat \<Rightarrow> string option" where
  "generate_session_token rand_r now address token_len =
     (if token_len < 32 then None
      else
        let seed = ucast (xor (word_of_int now) address) :: u32;
            random_len = (if token_len > 48 then 32 else token_len div 2)
        in if random_len \<ge> 64 then None
           else Some (take (token_len - 1)
                  (print_base 16 (nat now) @ ''-'' @ random_chars rand_r random_len seed)))"

section \<open>Registration\<close>

text \<open>
  The query of \<open>register_device_session\<close>. \<open>usable\<close> is the join condition on one row of the pair, and
  \<open>pair\<close> the lowest even port whose row and whose successor's row satisfy it and whose own row no other
  transaction holds (\<open>SKIP LOCKED\<close>).
\<close>

definition pair_row_usable :: "time_t \<Rightarrow> dev_row \<Rightarrow> port_row \<Rightarrow> bool" where
  "pair_row_usable now d r \<longleftrightarrow>
     (case d_preferred_port d of
        None \<Rightarrow> p_status r = ''free'' \<and> p_device r = None
      | Some _ \<Rightarrow> (p_status r = ''free'' \<or> p_status r = ''reserved'') \<and>
                  (p_device r = None \<or> p_device r = Some (d_id d))) \<and>
     (case p_expires_at r of None \<Rightarrow> True | Some t \<Rightarrow> t \<le> now)"

definition pair_candidates :: "time_t \<Rightarrow> (int \<Rightarrow> bool) \<Rightarrow> dev_row \<Rightarrow> port_row list \<Rightarrow> int list" where
  "pair_candidates now locked d rows =
     map p_port
       (filter (\<lambda>r. pair_row_usable now d r \<and>
                    (case d_preferred_port d of None \<Rightarrow> True | Some p \<Rightarrow> p_port r = p) \<and>
                    6000 \<le> p_port r \<and> p_port r < 7000 \<and> p_port r mod 2 = 0 \<and>
                    list_ex (\<lambda>r2. p_port r2 = p_port r + 1 \<and> pair_row_usable now d r2) rows \<and>
                    \<not> locked (p_port r)) rows)"

definition new_session_row :: "time_t \<Rightarrow> u32 \<Rightarrow> nat \<Rightarrow> nat \<Rightarrow> string \<Rightarrow> string \<Rightarrow> int \<Rightarrow> ses_row" where
  "new_session_row now timeout sid dev token client_ip p =
     \<lparr>s_id = sid, s_device = dev, s_token = token, s_client_ip = client_ip, s_assigned_port = p,
      s_started_at = now, s_last_activity = now, s_expires_at = now + int (unat timeout),
      s_bytes_sent = 0, s_bytes_received = 0, s_active_connections = 0, s_status = ''active''\<rparr>"

definition sql_register_session ::
  "time_t \<Rightarrow> (int \<Rightarrow> bool) \<Rightarrow> u32 \<Rightarrow> string \<Rightarrow> string \<Rightarrow> string \<Rightarrow> device_db \<Rightarrow>
   ((int \<times> int) option \<times> device_db) option" where
  "sql_register_session now locked timeout device_id token client_ip db =
     (case find (\<lambda>d. d_device_id d = device_id \<and> admissible_status (d_status d)) (devices db) of
        None \<Rightarrow> Some (None, db)
      | Some d \<Rightarrow>
          (case pair_candidates now locked d (port_allocations db) of
             [] \<Rightarrow> Some (None, db)
           | c # cs \<Rightarrow>
               let p = fold min cs c;
                   sid = next_session_id db
               in if list_ex (\<lambda>s. s_token s = token) (device_sessions db) \<or> length token > 255 then None
                  else Some (Some (p, p + 1),
                    db\<lparr>device_sessions :=
                         device_sessions db @ [new_session_row now timeout sid (d_id d) token client_ip p],
                       next_session_id := Suc sid,
                       port_allocations :=
                         sql_update (\<lambda>r. p_port r = p \<or> p_port r = p + 1)
                           (\<lambda>r. r\<lparr>p_device := Some (d_id d), p_session := Some sid,
                                  p_expires_at := Some (now + int (unat timeout)),
                                  p_status := ''allocated''\<rparr>)
                           (port_allocations db)\<rparr>)))"

definition sql_activate_device :: "int \<Rightarrow> string \<Rightarrow> device_db \<Rightarrow> (unit \<times> device_db) option" where
  "sql_activate_device p device_id db =
     (if (6000 \<le> p \<and> p \<le> 7000) \<or> \<not> list_ex (\<lambda>d. d_device_id d = device_id) (devices db) then
        Some ((), db\<lparr>devices := sql_update (\<lambda>d. d_device_id d = device_id)
                       (\<lambda>d. d\<lparr>d_assigned_port := Some p, d_status := ''active''\<rparr>) (devices db)\<rparr>)
      else None)"

text \<open>The result is the session token and the two ports.\<close>

definition register_device_session ::
  "(u32 \<Rightarrow> nat \<times> u32) \<Rightarrow> (nat \<Rightarrow> bool) \<Rightarrow> (int \<Rightarrow> bool) \<Rightarrow> time_t \<Rightarrow> u32 \<Rightarrow> u64 \<Rightarrow>
   string \<Rightarrow> string option \<Rightarrow> nat \<Rightarrow> device_db \<Rightarrow> (string \<times> u16 \<times> u16) option \<times> device_db" where
  "register_device_session rand_r db_ok locked now session_timeout address device_id client_ip token_len db =
     (case generate_session_token rand_r now address token_len of
        None \<Rightarrow> (None, db)
      | Some token \<Rightarrow>
          let (_, db1) = exec_stmt db_ok (\<lambda>db. Some (sql_cleanup_device_sessions now device_id db)) db
          in case exec_stmt db_ok
                    (sql_register_session now locked session_timeout device_id token
                       (c_string_or ''0.0.0.0'' client_ip)) db1 of
               (Some (Some (p, q)), db2) \<Rightarrow>
                 (let input_port = word_of_int p; tunnel_port = word_of_int q
                  in case exec_stmt db_ok (sql_activate_device (uint (input_port :: u16)) device_id) db2 of
                       (Some _, db3) \<Rightarrow> (Some (token, input_port, tunnel_port), db3)
                     | (None, db3) \<Rightarrow> (None, db3))
             | (_, db2) \<Rightarrow> (None, db2))"

section \<open>Legacy session and port functions\<close>

text \<open>
  No caller remains for these. They print the device id into the query text unescaped; the model is for
  ids without quotes that fit the buffer.

  \<open>INSERT INTO device_sessions\<close> without an \<open>assigned_port\<close>: the column is \<open>NOT NULL\<close> and has no
  default, so the statement fails for every device it selects.
\<close>

definition sql_create_session :: "string \<Rightarrow> device_db \<Rightarrow> (unit \<times> device_db) option" where
  "sql_create_session device_id db =
     (if list_ex (\<lambda>d. d_device_id d = device_id) (devices db) then None else Some ((), db))"

definition device_create_session ::
  "(u32 \<Rightarrow> nat \<times> u32) \<Rightarrow> (nat \<Rightarrow> bool) \<Rightarrow> time_t \<Rightarrow> u32 \<Rightarrow> u64 \<Rightarrow> string \<Rightarrow> device_db \<Rightarrow>
   int \<times> device_session \<times> device_db" where
  "device_create_session rand_r db_ok now session_timeout address device_id db =
     (let session = zero_device_session\<lparr>ds_device_id := strncpy 64 device_id\<rparr>
      in case generate_session_token rand_r now address 256 of
           None \<Rightarrow> (-1, session, db)
         | Some token \<Rightarrow>
             let session = session\<lparr>ds_session_token := token, ds_started_at := now, ds_last_activity := now,
                                   ds_expires_at := now + int (unat session_timeout),
                                   ds_status := SESSION_STATUS_ACTIVE\<rparr>
             in case exec_stmt db_ok (sql_create_session device_id) db of
                  (Some _, db') \<Rightarrow> (0, session, db')
                | (None, db') \<Rightarrow> (-1, session, db'))"

definition allocate_port_for_device ::
  "(nat \<Rightarrow> bool) \<Rightarrow> (int \<Rightarrow> bool) \<Rightarrow> time_t \<Rightarrow> string \<Rightarrow> string \<Rightarrow> u16 \<Rightarrow> device_db \<Rightarrow> u16 \<times> device_db" where
  "allocate_port_for_device db_ok locked now device_id token requested db =
     (let req = (if requested = 0 then None else Some (uint requested))
      in case exec_stmt db_ok
                (\<lambda>db. sql_allocate_device_port now locked
                        (map_option d_id (find (\<lambda>d. d_device_id d = device_id) (devices db)))
                        (map_option s_id (find (\<lambda>s. s_token s = token) (device_sessions db))) req db) db of
           (None, db1) \<Rightarrow> (0, db1)
         | (Some v, db1) \<Rightarrow>
             let port = (word_of_int (column_int v) :: u16)
             in if port = 0 then (port, db1)
                else
                  let (_, db2) = exec_stmt db_ok (sql_activate_device (uint port) device_id) db1;
                      (_, db3) = exec_stmt db_ok
                        (\<lambda>db. if (6000 \<le> uint port \<and> uint port \<le> 7000) \<or>
                                 \<not> list_ex (\<lambda>s. s_token s = token) (device_sessions db)
                              then Some ((), db\<lparr>device_sessions := sql_update (\<lambda>s. s_token s = token)
                                     (\<lambda>s. s\<lparr>s_assigned_port := uint port\<rparr>) (device_sessions db)\<rparr>)
                              else None) db2
                  in (port, db3))"

definition free_device_port :: "(nat \<Rightarrow> bool) \<Rightarrow> u16 \<Rightarrow> device_db \<Rightarrow> int \<times> device_db" where
  "free_device_port db_ok port db =
     (case exec_stmt db_ok (\<lambda>db. Some (sql_free_device_port (uint port) db)) db of
        (Some _, db') \<Rightarrow> (0, db') | (None, db') \<Rightarrow> (-1, db'))"

section \<open>Heartbeats\<close>

definition active_session :: "string \<Rightarrow> ses_row \<Rightarrow> bool" where
  "active_session token s \<longleftrightarrow> s_token s = token \<and> s_status s = ''active''"

text \<open>
  The second statement's sub-query \<open>(SELECT device_id FROM device_sessions WHERE session_token = $1 AND status = 'active')\<close>.
\<close>

definition device_of_token :: "string \<Rightarrow> device_db \<Rightarrow> nat option" where
  "device_of_token token db = map_option s_device (find (active_session token) (device_sessions db))"

definition sql_touch_session :: "time_t \<Rightarrow> u32 \<Rightarrow> string \<Rightarrow> device_db \<Rightarrow> (nat \<times> device_db) option" where
  "sql_touch_session now timeout token db =
     Some (length (filter (active_session token) (device_sessions db)),
       db\<lparr>device_sessions := sql_update (active_session token)
            (\<lambda>s. s\<lparr>s_last_activity := now, s_expires_at := now + int (unat timeout)\<rparr>) (device_sessions db)\<rparr>)"

definition sql_touch_device :: "time_t \<Rightarrow> string \<Rightarrow> device_db \<Rightarrow> (unit \<times> device_db) option" where
  "sql_touch_device now token db =
     Some ((), db\<lparr>devices := sql_update (\<lambda>d. Some (d_id d) = device_of_token token db)
                    (\<lambda>d. d\<lparr>d_last_heartbeat := Some now, d_status := ''active''\<rparr>) (devices db)\<rparr>)"

definition update_device_heartbeat ::
  "(nat \<Rightarrow> bool) \<Rightarrow> time_t \<Rightarrow> u32 \<Rightarrow> string \<Rightarrow> device_db \<Rightarrow> int \<times> device_db" where
  "update_device_heartbeat db_ok now session_timeout token db =
     (case exec_stmt db_ok (sql_touch_session now session_timeout token) db of
        (Some n, db1) \<Rightarrow>
          if n = 0 then (-1, db1)
          else (0, snd (exec_stmt db_ok (sql_touch_device now token) db1))
      | (None, db1) \<Rightarrow> (-1, db1))"

definition get_session_by_token ::
  "(nat \<Rightarrow> bool) \<Rightarrow> string option \<Rightarrow> device_db \<Rightarrow> device_session option \<times> device_db" where
  "get_session_by_token db_ok session_token db =
     (case session_token of None \<Rightarrow> (None, db)
      | Some token \<Rightarrow>
          (case exec_stmt db_ok
                  (\<lambda>db. Some (List.find (\<lambda>(s, d). active_session token s \<and> s_device s = d_id d)
                                (List.product (device_sessions db) (devices db)), db)) db of
             (Some (Some (s, d)), db') \<Rightarrow>
               (Some (zero_device_session\<lparr>ds_session_token := strncpy 256 (s_token s),
                  ds_device_id := strncpy 64 (d_device_id d),
                  ds_assigned_port := word_of_int (s_assigned_port s),
                  ds_expires_at := s_expires_at s,
                  ds_bytes_sent := word_of_int (s_bytes_sent s),
                  ds_bytes_received := word_of_int (s_bytes_received s),
                  ds_active_connections := word_of_int (s_active_connections s),
                  ds_status := (if s_status s = ''active'' then SESSION_STATUS_ACTIVE
                                else SESSION_STATUS_EXPIRED)\<rparr>), db')
           | (_, db') \<Rightarrow> (None, db')))"

section \<open>Statistics\<close>

text \<open>
  The counters travel as decimal text into \<open>BIGINT\<close> and \<open>INTEGER\<close> parameters: a value outside the type, and a
  sum outside it, makes the statement fail.
\<close>

definition stats_parameters_ok :: "u64 \<Rightarrow> u64 \<Rightarrow> u32 \<Rightarrow> bool" where
  "stats_parameters_ok sent received connections \<longleftrightarrow>
     bigint (uint sent) \<and> bigint (uint received) \<and> sql_integer (uint connections)"

definition sql_add_session_stats ::
  "time_t \<Rightarrow> u64 \<Rightarrow> u64 \<Rightarrow> u32 \<Rightarrow> string \<Rightarrow> device_db \<Rightarrow> (unit \<times> device_db) option" where
  "sql_add_session_stats now sent received connections token db =
     (if stats_parameters_ok sent received connections \<and>
         list_all (\<lambda>s. active_session token s \<longrightarrow>
                       bigint (s_bytes_sent s + uint sent) \<and> bigint (s_bytes_received s + uint received))
           (device_sessions db)
      then Some ((), db\<lparr>device_sessions := sql_update (active_session token)
             (\<lambda>s. s\<lparr>s_bytes_sent := s_bytes_sent s + uint sent,
                    s_bytes_received := s_bytes_received s + uint received,
                    s_active_connections := uint connections, s_last_activity := now\<rparr>) (device_sessions db)\<rparr>)
      else None)"

definition sql_add_device_totals ::
  "u64 \<Rightarrow> u64 \<Rightarrow> string \<Rightarrow> device_db \<Rightarrow> (unit \<times> device_db) option" where
  "sql_add_device_totals sent received token db =
     (if bigint (uint sent) \<and> bigint (uint received) \<and>
         list_all (\<lambda>d. Some (d_id d) = device_of_token token db \<longrightarrow>
                       bigint (d_total_bytes_sent d + uint sent) \<and>
                       bigint (d_total_bytes_received d + uint received)) (devices db)
      then Some ((), db\<lparr>devices := sql_update (\<lambda>d. Some (d_id d) = device_of_token token db)
             (\<lambda>d. d\<lparr>d_total_bytes_sent := d_total_bytes_sent d + uint sent,
                    d_total_bytes_received := d_total_bytes_received d + uint received\<rparr>) (devices db)\<rparr>)
      else None)"

definition update_device_statistics ::
  "(nat \<Rightarrow> bool) \<Rightarrow> time_t \<Rightarrow> string option \<Rightarrow> u64 \<Rightarrow> u64 \<Rightarrow> u32 \<Rightarrow> device_db \<Rightarrow> int \<times> device_db" where
  "update_device_statistics db_ok now session_token sent received connections db =
     (case session_token of None \<Rightarrow> (-1, db)
      | Some token \<Rightarrow>
          (case exec_stmt db_ok (sql_add_session_stats now sent received connections token) db of
             (None, db1) \<Rightarrow> (-1, db1)
           | (Some _, db1) \<Rightarrow> (0, snd (exec_stmt db_ok (sql_add_device_totals sent received token) db1))))"

definition record_device_traffic_sample ::
  "(nat \<Rightarrow> bool) \<Rightarrow> time_t \<Rightarrow> string option \<Rightarrow> u64 \<Rightarrow> u64 \<Rightarrow> u32 \<Rightarrow> device_db \<Rightarrow> int \<times> device_db" where
  "record_device_traffic_sample db_ok now session_token sent received connections db =
     (case session_token of None \<Rightarrow> (-1, db)
      | Some token \<Rightarrow>
          (case exec_stmt db_ok
                  (\<lambda>db. if stats_parameters_ok sent received connections
                        then Some ((), db\<lparr>device_traffic_samples := device_traffic_samples db @
                               map (\<lambda>s. \<lparr>t_device = s_device s, t_session = s_id s, t_recorded_at = now,
                                         t_bytes_sent_delta = uint sent, t_bytes_received_delta = uint received,
                                         t_active_connections = uint connections\<rparr>)
                                 (filter (active_session token) (device_sessions db))\<rparr>)
                        else None) db of
             (None, db1) \<Rightarrow> (-1, db1)
           | (Some _, db1) \<Rightarrow>
               (0, snd (exec_stmt db_ok
                     (\<lambda>db. Some ((), db\<lparr>device_traffic_samples :=
                        filter (\<lambda>r. \<not> t_recorded_at r < now - 691200) (device_traffic_samples db)\<rparr>)) db1))))"

text \<open>\<open>date_trunc ('hour', NOW())\<close>, for a server time zone of whole hours.\<close>

definition date_trunc_hour :: "time_t \<Rightarrow> time_t" where
  "date_trunc_hour now = now - now mod 3600"

definition new_hourly_row :: "time_t \<Rightarrow> nat \<Rightarrow> u64 \<Rightarrow> u64 \<Rightarrow> u32 \<Rightarrow> hourly_row" where
  "new_hourly_row now dev sent received connections =
     \<lparr>h_device = dev, h_period_start = date_trunc_hour now, h_period_end = date_trunc_hour now + 3600,
      h_bytes_sent = uint sent, h_bytes_received = uint received, h_connection_count = 1,
      h_peak_connections = uint connections\<rparr>"

text \<open>\<open>ON CONFLICT (device_id, period_start) DO UPDATE\<close>: the connection count is left as it is.\<close>

definition sql_upsert_hourly ::
  "time_t \<Rightarrow> nat \<Rightarrow> u64 \<Rightarrow> u64 \<Rightarrow> u32 \<Rightarrow> hourly_row list \<Rightarrow> hourly_row list option" where
  "sql_upsert_hourly now dev sent received connections rows =
     (let hit = (\<lambda>r. h_device r = dev \<and> h_period_start r = date_trunc_hour now)
      in if list_ex hit rows then
           if list_all (\<lambda>r. hit r \<longrightarrow> bigint (h_bytes_sent r + uint sent) \<and>
                                      bigint (h_bytes_received r + uint received)) rows
           then Some (sql_update hit
                  (\<lambda>r. r\<lparr>h_bytes_sent := h_bytes_sent r + uint sent,
                         h_bytes_received := h_bytes_received r + uint received,
                         h_peak_connections := max (h_peak_connections r) (uint connections),
                         h_period_end := date_trunc_hour now + 3600\<rparr>) rows)
           else None
         else Some (rows @ [new_hourly_row now dev sent received connections]))"

definition aggregate_device_hourly_statistics ::
  "(nat \<Rightarrow> bool) \<Rightarrow> time_t \<Rightarrow> string option \<Rightarrow> u64 \<Rightarrow> u64 \<Rightarrow> u32 \<Rightarrow> device_db \<Rightarrow> int \<times> device_db" where
  "aggregate_device_hourly_statistics db_ok now session_token sent received connections db =
     (case session_token of None \<Rightarrow> (0, db)
      | Some token \<Rightarrow>
          if sent = 0 \<and> received = 0 \<and> connections = 0 then (0, db)
          else
            (case exec_stmt db_ok
                    (\<lambda>db. if \<not> stats_parameters_ok sent received connections then None
                          else case device_of_token token db of
                                 None \<Rightarrow> Some ((), db)
                               | Some dev \<Rightarrow>
                                   map_option (\<lambda>rows. ((), db\<lparr>device_statistics := rows\<rparr>))
                                     (sql_upsert_hourly now dev sent received connections (device_statistics db))) db of
               (None, db1) \<Rightarrow> (-1, db1)
             | (Some _, db1) \<Rightarrow> (0, db1)))"

section \<open>The statements that end sessions\<close>

definition sql_terminate_session :: "time_t \<Rightarrow> string \<Rightarrow> device_db \<Rightarrow> (unit \<times> device_db) option" where
  "sql_terminate_session now token db =
     Some ((), db\<lparr>device_sessions := sql_update (active_session token)
                    (\<lambda>s. s\<lparr>s_status := ''terminated'', s_expires_at := now\<rparr>) (device_sessions db)\<rparr>)"

text \<open>The database part of \<open>terminate_device_session\<close>, after the proxy was stopped.\<close>

definition terminate_session_rows ::
  "(nat \<Rightarrow> bool) \<Rightarrow> time_t \<Rightarrow> string \<Rightarrow> u16 \<Rightarrow> device_db \<Rightarrow> int \<times> device_db" where
  "terminate_session_rows db_ok now token assigned_port db =
     (case exec_stmt db_ok (sql_terminate_session now token) db of
        (None, db1) \<Rightarrow> (-1, db1)
      | (Some _, db1) \<Rightarrow>
          (0, if assigned_port \<noteq> 0
              then snd (exec_stmt db_ok
                     (\<lambda>db. Some (sql_free_device_port_pair (Some (uint assigned_port)) db)) db1)
              else db1))"

definition sessions_of_device :: "string \<Rightarrow> device_db \<Rightarrow> ses_row list" where
  "sessions_of_device device_id db =
     filter (\<lambda>s. list_ex (\<lambda>d. s_device s = d_id d \<and> d_device_id d = device_id) (devices db)) (device_sessions db)"

definition sql_terminate_device_sessions :: "time_t \<Rightarrow> string \<Rightarrow> device_db \<Rightarrow> (unit \<times> device_db) option" where
  "sql_terminate_device_sessions now device_id db =
     Some ((), db\<lparr>device_sessions :=
       sql_update (\<lambda>s. Some (s_device s) = map_option d_id (find (\<lambda>d. d_device_id d = device_id) (devices db)) \<and>
                       s_status s = ''active'')
         (\<lambda>s. s\<lparr>s_status := ''terminated'', s_expires_at := now\<rparr>) (device_sessions db)\<rparr>)"

text \<open>\<open>SELECT free_device_port_pair (ds.assigned_port) ..\<close>: over every session the device ever had.\<close>

definition sql_free_device_ports :: "string \<Rightarrow> device_db \<Rightarrow> (int \<times> device_db) option" where
  "sql_free_device_ports device_id db =
     Some (free_pairs (map s_assigned_port (sessions_of_device device_id db)) 0 db)"

definition sql_deactivate_device :: "string \<Rightarrow> device_db \<Rightarrow> (unit \<times> device_db) option" where
  "sql_deactivate_device device_id db =
     Some ((), db\<lparr>devices := sql_update (\<lambda>d. d_device_id d = device_id)
                    (\<lambda>d. d\<lparr>d_status := ''inactive'', d_assigned_port := None\<rparr>) (devices db)\<rparr>)"

text \<open>The database part of \<open>terminate_device_by_device_id\<close>, after the proxies were stopped.\<close>

definition terminate_device_rows ::
  "(nat \<Rightarrow> bool) \<Rightarrow> time_t \<Rightarrow> string \<Rightarrow> device_db \<Rightarrow> int \<times> device_db" where
  "terminate_device_rows db_ok now device_id db =
     (case exec_stmt db_ok (sql_terminate_device_sessions now device_id) db of
        (None, db1) \<Rightarrow> (-1, db1)
      | (Some _, db1) \<Rightarrow>
          let (_, db2) = exec_stmt db_ok (sql_free_device_ports device_id) db1
          in case exec_stmt db_ok (sql_deactivate_device device_id) db2 of
               (None, db3) \<Rightarrow> (-1, db3)
             | (Some _, db3) \<Rightarrow> (0, db3))"

text \<open>One round of \<open>cleanup_expired_sessions_thread\<close>, which \<open>device_manager_start\<close> also runs once.\<close>

definition cleanup_round :: "(nat \<Rightarrow> bool) \<Rightarrow> time_t \<Rightarrow> device_db \<Rightarrow> int \<times> device_db" where
  "cleanup_round db_ok now db =
     (case exec_stmt db_ok (\<lambda>db. Some (sql_cleanup_expired_sessions now db)) db of
        (Some n, db1) \<Rightarrow> (n, db1) | (None, db1) \<Rightarrow> (0, db1))"

end
