(* ===== verification/Port_Ownership.thy ===== *)
theory Port_Ownership
  imports Device_Sessions
begin

text \<open>
  Who owns which port. The invariant of the tables is that both ports of every active session
  are allocated to that session, so that two active sessions never share a port. It is kept
  by registration, heartbeats, statistics, termination of a session and the periodic clean-up, in any order
  and with any statement failing. The administrative disconnect of a device does not keep it.
\<close>

section \<open>The invariant\<close>

definition valid_allocation :: "port_row \<Rightarrow> bool" where
  "valid_allocation r \<longleftrightarrow>
     p_status r = ''allocated'' \<and> p_device r \<noteq> None \<and> p_session r \<noteq> None \<or>
     p_status r = ''free'' \<and> p_device r = None \<and> p_session r = None \<or>
     p_status r = ''reserved'' \<and> p_device r \<noteq> None \<and> p_session r = None \<or>
     p_status r = ''blocked'' \<and> p_device r = None \<and> p_session r = None"

definition port_held :: "port_row list \<Rightarrow> int \<Rightarrow> nat \<Rightarrow> bool" where
  "port_held rows p sid \<longleftrightarrow> (\<exists>r \<in> set rows. p_port r = p \<and> p_status r = ''allocated'' \<and> p_session r = Some sid)"

definition owns_pair :: "port_row list \<Rightarrow> ses_row \<Rightarrow> bool" where
  "owns_pair rows s \<longleftrightarrow> port_held rows (s_assigned_port s) (s_id s) \<and> port_held rows (s_assigned_port s + 1) (s_id s)"

definition is_active :: "ses_row \<Rightarrow> bool" where
  "is_active s \<longleftrightarrow> s_status s = ''active''"

definition db_inv :: "device_db \<Rightarrow> bool" where
  "db_inv db \<longleftrightarrow>
     distinct (map p_port (port_allocations db)) \<and>
     list_all valid_allocation (port_allocations db) \<and>
     distinct (map s_id (device_sessions db)) \<and>
     list_all (\<lambda>s. s_id s < next_session_id db) (device_sessions db) \<and>
     distinct (map s_token (device_sessions db)) \<and>
     list_all (\<lambda>s. s_status s \<noteq> ''connecting'') (device_sessions db) \<and>
     list_all (\<lambda>s. 6000 \<le> s_assigned_port s \<and> s_assigned_port s \<le> 7000) (device_sessions db) \<and>
     (\<forall>s \<in> set (device_sessions db). is_active s \<longrightarrow> owns_pair (port_allocations db) s)"

text \<open>
  A change of the port table that touches no allocated row outside the ports \<open>A\<close> and allocates nothing.
\<close>

definition frees_only :: "int set \<Rightarrow> device_db \<Rightarrow> device_db \<Rightarrow> bool" where
  "frees_only A db db' \<longleftrightarrow>
     devices db' = devices db \<and> device_sessions db' = device_sessions db \<and>
     next_session_id db' = next_session_id db \<and>
     map p_port (port_allocations db') = map p_port (port_allocations db) \<and>
     (list_all valid_allocation (port_allocations db) \<longrightarrow> list_all valid_allocation (port_allocations db')) \<and>
     (\<forall>r \<in> set (port_allocations db). p_status r = ''allocated'' \<and> p_port r \<notin> A \<longrightarrow> r \<in> set (port_allocations db')) \<and>
     (\<forall>r \<in> set (port_allocations db'). p_status r = ''allocated'' \<longrightarrow> r \<in> set (port_allocations db))"

definition pair_ports :: "int list \<Rightarrow> int set" where
  "pair_ports ps = (\<Union>p \<in> set ps. {p, p + 1})"

section \<open>Rows and updates\<close>

lemma set_sql_update: "set (sql_update p f rows) = f ` {r \<in> set rows. p r} \<union> {r \<in> set rows. \<not> p r}"
  by (auto simp: sql_update_def)

lemma map_sql_update: "(\<And>r. g (f r) = g r) \<Longrightarrow> map g (sql_update p f rows) = map g rows"
  by (simp add: sql_update_def)

lemma sum_list_update_one:
  assumes "distinct rows" and "x \<in> set rows" and "q x" and "\<And>y. y \<in> set rows \<Longrightarrow> q y \<Longrightarrow> y = x"
    and "h (f x) = h x + (n :: int)"
  shows "(\<Sum>r \<leftarrow> sql_update q f rows. h r) = (\<Sum>r \<leftarrow> rows. h r) + n"
  using assms(1,2,4)
proof (induction rows)
  case Nil
  then show ?case by simp
next
  case (Cons r rows)
  show ?case
  proof (cases "r = x")
    case True
    then have "\<not> q y" if "y \<in> set rows" for y
      using that Cons.prems(1) Cons.prems(3) [of y] by auto
    then have "sql_update q f rows = rows" unfolding sql_update_def by (simp cong: map_cong)
    with True assms(3,5) show ?thesis by (simp add: sql_update_def)
  next
    case False
    then have "\<not> q r" using Cons.prems(3) [of r] by auto
    moreover have "(\<Sum>r \<leftarrow> sql_update q f rows. h r) = (\<Sum>r \<leftarrow> rows. h r) + n"
    proof (rule Cons.IH)
      show "distinct rows" "x \<in> set rows" using Cons.prems(1,2) False by simp_all
      show "y = x" if "y \<in> set rows" "q y" for y using Cons.prems(3) that by simp
    qed
    ultimately show ?thesis by (simp add: sql_update_def)
  qed
qed

lemma port_update_frees_only:
  assumes "\<And>r. p_port (f r) = p_port r" and "\<And>r. q r \<Longrightarrow> p_status r = ''allocated'' \<Longrightarrow> p_port r \<in> A"
    and "\<And>r. p_status (f r) \<noteq> ''allocated''" and "\<And>r. valid_allocation (f r)"
  shows "frees_only A db (db\<lparr>port_allocations := sql_update q f (port_allocations db)\<rparr>)"
proof -
  have "map p_port (sql_update q f (port_allocations db)) = map p_port (port_allocations db)"
    by (rule map_sql_update) (rule assms(1))
  moreover have "list_all valid_allocation (port_allocations db) \<Longrightarrow>
      list_all valid_allocation (sql_update q f (port_allocations db))"
    using assms(4) by (auto simp: sql_update_def list_all_iff)
  moreover have "\<forall>r \<in> set (port_allocations db). p_status r = ''allocated'' \<and> p_port r \<notin> A \<longrightarrow>
      r \<in> set (sql_update q f (port_allocations db))"
    unfolding set_sql_update using assms(2) by blast
  moreover have "\<forall>r \<in> set (sql_update q f (port_allocations db)). p_status r = ''allocated'' \<longrightarrow>
      r \<in> set (port_allocations db)"
    unfolding set_sql_update using assms(3) by blast
  ultimately show ?thesis by (simp add: frees_only_def)
qed

lemma frees_only_refl [simp]: "frees_only A db db"
  by (simp add: frees_only_def)

lemma frees_only_trans:
  assumes "frees_only A db1 db2" and "frees_only B db2 db3"
  shows "frees_only (A \<union> B) db1 db3"
proof -
  note 1 = assms(1) [unfolded frees_only_def] and 2 = assms(2) [unfolded frees_only_def]
  show ?thesis
    unfolding frees_only_def
  proof (intro conjI)
    show "devices db3 = devices db1" using 1 2 by metis
    show "device_sessions db3 = device_sessions db1" using 1 2 by metis
    show "next_session_id db3 = next_session_id db1" using 1 2 by metis
    show "map p_port (port_allocations db3) = map p_port (port_allocations db1)" using 1 2 by metis
  qed (use 1 2 in blast)+
qed

lemma frees_only_mono: "frees_only A db db' \<Longrightarrow> A \<subseteq> B \<Longrightarrow> frees_only B db db'"
  by (auto simp: frees_only_def)

lemma frees_onlyD:
  assumes "frees_only A db db'"
  shows "devices db' = devices db" "device_sessions db' = device_sessions db"
    "next_session_id db' = next_session_id db"
    "map p_port (port_allocations db') = map p_port (port_allocations db)"
    "list_all valid_allocation (port_allocations db) \<Longrightarrow> list_all valid_allocation (port_allocations db')"
  using assms unfolding frees_only_def by blast+

lemma freed_port_row_fields [simp]:
  "p_port (freed_port_row r) = p_port r" "p_status (freed_port_row r) = ''free''"
  "valid_allocation (freed_port_row r)"
  by (simp_all add: freed_port_row_def valid_allocation_def)

lemma free_device_port_frees_only: "frees_only {p} db (snd (sql_free_device_port p db))"
  by (auto simp: sql_free_device_port_def Let_def intro!: port_update_frees_only)

lemma release_frees_only: "frees_only {} db (sql_release_device_port_reservation dev p db)"
  by (auto simp: sql_release_device_port_reservation_def intro!: port_update_frees_only)

lemma reserve_frees_only: "frees_only {} db (snd (sql_reserve_device_port_pair dev p db))"
proof -
  have "frees_only {} db1 (db1\<lparr>port_allocations :=
      sql_update (\<lambda>r. (p_port r = q \<or> p_port r = q + 1) \<and> (p_status r = ''free'' \<or> p_status r = ''reserved'') \<and>
                      (p_device r = None \<or> p_device r = Some dev))
        (\<lambda>r. r\<lparr>p_status := ''reserved'', p_device := Some dev, p_session := None, p_expires_at := None\<rparr>)
        (port_allocations db1)\<rparr>)" for db1 q
    by (rule port_update_frees_only) (auto simp: valid_allocation_def)
  from frees_only_trans [OF release_frees_only this] show ?thesis
    by (auto simp: sql_reserve_device_port_pair_def Let_def release_frees_only split: option.split)
qed

lemma free_pair_frees_only: "frees_only {p, p + 1} db (snd (sql_free_device_port_pair (Some p) db))"
proof -
  let ?db1 = "snd (sql_free_device_port p db)"
  let ?db2 = "snd (sql_free_device_port (p + 1) ?db1)"
  have 2: "frees_only {p, p + 1} db ?db2"
    using frees_only_trans [OF free_device_port_frees_only free_device_port_frees_only] by (simp add: insert_commute)
  have "frees_only {p, p + 1} db (snd (sql_reserve_device_port_pair dev q ?db2))" for dev q
    using frees_only_trans [OF 2 reserve_frees_only] by simp
  with 2 show ?thesis
    by (auto simp: sql_free_device_port_pair_def Let_def case_prod_beta split: option.split)
qed

lemma free_pairs_frees_only: "frees_only (pair_ports ps) db (snd (free_pairs ps n db))"
proof (induction ps arbitrary: n db)
  case Nil
  then show ?case by simp
next
  case (Cons p ps)
  show ?case
    using frees_only_trans [OF free_pair_frees_only Cons.IH]
    by (simp add: pair_ports_def case_prod_beta)
qed

section \<open>No two active sessions share a port\<close>

lemma port_held_unique:
  assumes "distinct (map p_port rows)" and "port_held rows p i" and "port_held rows p j"
  shows "i = j"
  using assms by (auto simp: port_held_def) (metis (mono_tags, lifting) distinct_map inj_on_eq_iff option.inject)

lemma db_inv_no_sharing:
  assumes "db_inv db" and "s \<in> set (device_sessions db)" and "t \<in> set (device_sessions db)"
    and "is_active s" and "is_active t"
    and "{s_assigned_port s, s_assigned_port s + 1} \<inter> {s_assigned_port t, s_assigned_port t + 1} \<noteq> {}"
  shows "s = t"
proof -
  from assms have own: "owns_pair (port_allocations db) s" "owns_pair (port_allocations db) t"
    and dp: "distinct (map p_port (port_allocations db))" and ds: "distinct (map s_id (device_sessions db))"
    by (auto simp: db_inv_def)
  from assms(6) obtain p where "p \<in> {s_assigned_port s, s_assigned_port s + 1}"
    "p \<in> {s_assigned_port t, s_assigned_port t + 1}" by blast
  with own have "port_held (port_allocations db) p (s_id s)" "port_held (port_allocations db) p (s_id t)"
    by (auto simp: owns_pair_def)
  from port_held_unique [OF dp this] have "s_id s = s_id t" .
  with ds assms(2,3) show ?thesis by (metis distinct_map inj_on_eq_iff)
qed

section \<open>Operations that end or touch sessions keep the invariant\<close>

lemma owns_pair_frees_only:
  assumes "frees_only A db db'" and "owns_pair (port_allocations db) s"
    and "s_assigned_port s \<notin> A" and "s_assigned_port s + 1 \<notin> A"
  shows "owns_pair (port_allocations db') s"
proof -
  have keep: "r \<in> set (port_allocations db) \<Longrightarrow> p_status r = ''allocated'' \<Longrightarrow> p_port r \<notin> A \<Longrightarrow>
      r \<in> set (port_allocations db')" for r
    using assms(1) unfolding frees_only_def by blast
  have "port_held (port_allocations db') p i" if "port_held (port_allocations db) p i" "p \<notin> A" for p i
    using that keep unfolding port_held_def by metis
  with assms(2-4) show ?thesis by (simp add: owns_pair_def)
qed

lemma owns_pair_cong:
  "s_id s = s_id t \<Longrightarrow> s_assigned_port s = s_assigned_port t \<Longrightarrow> owns_pair rows s = owns_pair rows t"
  by (simp add: owns_pair_def)

lemma db_inv_ending:
  assumes inv: "db_inv db" and free: "frees_only A db0 db'"
    and db0: "port_allocations db0 = port_allocations db" "next_session_id db0 = next_session_id db"
      "device_sessions db0 = map g (device_sessions db)"
    and g: "\<And>s. s_id (g s) = s_id s" "\<And>s. s_token (g s) = s_token s" "\<And>s. s_assigned_port (g s) = s_assigned_port s"
      "\<And>s. is_active (g s) \<Longrightarrow> is_active s" "\<And>s. s_status s \<noteq> ''connecting'' \<Longrightarrow> s_status (g s) \<noteq> ''connecting''"
    and keep: "\<And>s. s \<in> set (device_sessions db) \<Longrightarrow> is_active (g s) \<Longrightarrow> s_assigned_port s \<notin> A \<and> s_assigned_port s + 1 \<notin> A"
  shows "db_inv db'"
proof -
  have ports: "map p_port (port_allocations db') = map p_port (port_allocations db)"
    and valid: "list_all valid_allocation (port_allocations db) \<Longrightarrow> list_all valid_allocation (port_allocations db')"
    and ses: "device_sessions db' = map g (device_sessions db)" and nxt: "next_session_id db' = next_session_id db"
    using frees_onlyD [OF free] db0 by simp_all
  have maps: "map s_id (map g ss) = map s_id ss" "map s_token (map g ss) = map s_token ss" for ss
    by (simp_all add: g)
  have own: "owns_pair (port_allocations db') t"
    if t: "t \<in> set (device_sessions db')" "is_active t" for t
  proof -
    from t ses obtain s where s: "s \<in> set (device_sessions db)" "t = g s" by auto
    with t inv g(4) have "owns_pair (port_allocations db) s" by (auto simp: db_inv_def)
    then have "owns_pair (port_allocations db0) t" using s g db0(1) owns_pair_cong [of s t] by simp
    with owns_pair_frees_only [OF free this] keep [OF s(1)] s t g(3) show ?thesis by simp
  qed
  show ?thesis
    unfolding db_inv_def
  proof (intro conjI)
    show "distinct (map p_port (port_allocations db'))" unfolding ports using inv by (simp add: db_inv_def)
    show "list_all valid_allocation (port_allocations db')" using inv valid by (simp add: db_inv_def)
    show "distinct (map s_id (device_sessions db'))" "distinct (map s_token (device_sessions db'))"
      unfolding ses maps using inv by (simp_all add: db_inv_def)
    show "list_all (\<lambda>s. s_id s < next_session_id db') (device_sessions db')"
      "list_all (\<lambda>s. s_status s \<noteq> ''connecting'') (device_sessions db')"
      "list_all (\<lambda>s. 6000 \<le> s_assigned_port s \<and> s_assigned_port s \<le> 7000) (device_sessions db')"
      unfolding ses nxt using inv g by (simp_all add: db_inv_def list_all_iff)
  qed (use own in blast)
qed

lemma db_inv_statements [simp]: "db_inv (db\<lparr>statements := n\<rparr>) = db_inv db"
  by (simp add: db_inv_def)

lemma db_inv_devices [simp]: "db_inv (db\<lparr>devices := ds\<rparr>) = db_inv db"
  by (simp add: db_inv_def)

lemma db_inv_samples [simp]: "db_inv (db\<lparr>device_traffic_samples := ts\<rparr>) = db_inv db"
  by (simp add: db_inv_def)

lemma db_inv_hourly [simp]: "db_inv (db\<lparr>device_statistics := hs\<rparr>) = db_inv db"
  by (simp add: db_inv_def)

lemma exec_stmt_inv:
  assumes "db_inv db" and "\<And>db a db'. stmt db = Some (a, db') \<Longrightarrow> db_inv db \<Longrightarrow> db_inv db'"
  shows "db_inv (snd (exec_stmt db_ok stmt db))"
  using assms by (auto simp: exec_stmt_def Let_def split: option.split)

text \<open>Ending the sessions that satisfy \<open>q\<close> and freeing exactly their pairs.\<close>

lemma db_inv_end_sessions:
  assumes inv: "db_inv db" and free: "frees_only (pair_ports (map s_assigned_port (filter q (device_sessions db)))) db0 db'"
    and q: "\<And>s. s \<in> set (device_sessions db) \<Longrightarrow> q s \<Longrightarrow> is_active s"
    and db0: "port_allocations db0 = port_allocations db" "next_session_id db0 = next_session_id db"
      "device_sessions db0 = sql_update q f (device_sessions db)"
    and f: "\<And>s. s_id (f s) = s_id s" "\<And>s. s_token (f s) = s_token s" "\<And>s. s_assigned_port (f s) = s_assigned_port s"
      "\<And>s. \<not> is_active (f s)" "\<And>s. s_status (f s) \<noteq> ''connecting''"
  shows "db_inv db'"
proof (rule db_inv_ending [OF inv free db0(1,2) db0(3) [unfolded sql_update_def]])
  fix s
  assume s: "s \<in> set (device_sessions db)" "is_active (if q s then f s else s)"
  then have act: "\<not> q s" "is_active s" using f(4) by (auto split: if_splits)
  show "s_assigned_port s \<notin> pair_ports (map s_assigned_port (filter q (device_sessions db))) \<and>
      s_assigned_port s + 1 \<notin> pair_ports (map s_assigned_port (filter q (device_sessions db)))"
  proof (rule ccontr)
    assume "\<not> ?thesis"
    then obtain t where "t \<in> set (device_sessions db)" "q t"
      "{s_assigned_port s, s_assigned_port s + 1} \<inter> {s_assigned_port t, s_assigned_port t + 1} \<noteq> {}"
      by (auto simp: pair_ports_def)
    with db_inv_no_sharing [OF inv s(1), of t] act q show False by blast
  qed
qed (use f in \<open>auto split: if_splits\<close>)

lemma db_inv_touch:
  assumes "db_inv db" and "\<And>s. s_id (f s) = s_id s" "\<And>s. s_token (f s) = s_token s"
    "\<And>s. s_assigned_port (f s) = s_assigned_port s" "\<And>s. s_status (f s) = s_status s"
  shows "db_inv (db\<lparr>device_sessions := sql_update q f (device_sessions db)\<rparr>)"
  by (rule db_inv_ending [where g = "\<lambda>s. if q s then f s else s" and A = "{}", OF assms(1) frees_only_refl])
    (auto simp: sql_update_def is_active_def assms split: if_splits)

lemma live_is_active:
  "db_inv db \<Longrightarrow> s \<in> set (device_sessions db) \<Longrightarrow> live_status (s_status s) \<Longrightarrow> is_active s"
  by (auto simp: db_inv_def live_status_def is_active_def list_all_iff)

lemma cleanup_device_sessions_inv:
  assumes "db_inv db"
  shows "db_inv (snd (sql_cleanup_device_sessions now device_id db))"
proof -
  let ?hit = "\<lambda>s. list_ex (\<lambda>d. s_device s = d_id d \<and> d_device_id d = device_id) (devices db) \<and> live_status (s_status s)"
  let ?db1 = "db\<lparr>device_sessions := sql_update ?hit (\<lambda>s. s\<lparr>s_status := ''expired'', s_expires_at := now\<rparr>) (device_sessions db)\<rparr>"
  have "db_inv (snd (free_pairs (map s_assigned_port (filter ?hit (device_sessions db))) 0 ?db1))"
    by (rule db_inv_end_sessions [where q = ?hit and f = "\<lambda>s. s\<lparr>s_status := ''expired'', s_expires_at := now\<rparr>",
          OF assms free_pairs_frees_only])
      (auto simp: is_active_def dest: live_is_active [OF assms])
  then show ?thesis
    by (simp add: sql_cleanup_device_sessions_def Let_def case_prod_beta)
qed

lemma frees_only_sessions:
  "frees_only A db db' \<Longrightarrow> frees_only A (db\<lparr>device_sessions := ss\<rparr>) (db'\<lparr>device_sessions := ss\<rparr>)"
  unfolding frees_only_def by auto

lemma cleanup_expired_sessions_inv:
  assumes "db_inv db"
  shows "db_inv (snd (sql_cleanup_expired_sessions now db))"
proof -
  let ?stale = "\<lambda>s. s_expires_at s < now \<and> live_status (s_status s)"
    and ?f = "\<lambda>s. s\<lparr>s_status := ''expired''\<rparr>"
  let ?ps = "map s_assigned_port (filter ?stale (device_sessions db))"
  define ss where "ss = sql_update ?stale ?f (device_sessions db)"
  define db1 where "db1 = snd (free_pairs ?ps 0 db)"
  define db2 where "db2 = db1\<lparr>device_sessions := ss\<rparr>"
  have free: "frees_only (pair_ports ?ps) db db1" unfolding db1_def by (rule free_pairs_frees_only)
  have inv2: "db_inv db2"
    unfolding db2_def
    by (rule db_inv_end_sessions [OF assms frees_only_sessions [OF free], where f = ?f])
      (auto simp: is_active_def ss_def dest: live_is_active [OF assms])
  let ?dead = "\<lambda>r. p_status r = ''allocated'' \<and> \<not> list_ex (\<lambda>s. live_status (s_status s) \<and> s_expires_at s \<ge> now \<and>
      (p_port r = s_assigned_port s \<or> p_port r = s_assigned_port s + 1)) ss"
  let ?A = "{p. \<not> list_ex (\<lambda>s. live_status (s_status s) \<and> s_expires_at s \<ge> now \<and>
      (p = s_assigned_port s \<or> p = s_assigned_port s + 1)) ss}"
  have free3: "frees_only ?A db2 (db2\<lparr>port_allocations := sql_update ?dead freed_port_row (port_allocations db2)\<rparr>)"
    by (rule port_update_frees_only) auto
  have live: "live_status (s_status s) \<and> now \<le> s_expires_at s" if "s \<in> set ss" "is_active s" for s
    using that by (auto simp: ss_def set_sql_update is_active_def live_status_def)
  have "db_inv (db2\<lparr>port_allocations := sql_update ?dead freed_port_row (port_allocations db2)\<rparr>)"
    by (rule db_inv_ending [OF inv2 free3, where g = id])
      (use live in \<open>auto simp: db2_def list_ex_iff\<close>)
  moreover have "device_sessions db1 = device_sessions db" using frees_onlyD [OF free] by simp
  ultimately show ?thesis
    by (simp add: sql_cleanup_expired_sessions_def Let_def case_prod_beta db2_def db1_def ss_def)
qed

section \<open>Registration keeps the invariant\<close>

lemma fold_min_mem: "fold min cs (c :: int) \<in> set (c # cs)"
  using Min_in [of "set (c # cs)"] by (simp only: Min.set_eq_fold) simp

lemma fold_min_le: "x \<in> set (c # cs) \<Longrightarrow> fold min cs (c :: int) \<le> x"
  using Min_le [of "set (c # cs)" x] by (simp only: Min.set_eq_fold) simp

lemma pair_candidatesD:
  assumes "p \<in> set (pair_candidates now locked d rows)"
  obtains r1 r2 where "r1 \<in> set rows" "p_port r1 = p" "pair_row_usable now d r1"
    "r2 \<in> set rows" "p_port r2 = p + 1" "pair_row_usable now d r2"
    "6000 \<le> p" "p < 7000" "p mod 2 = 0" "\<not> locked p"
    "\<And>q. d_preferred_port d = Some q \<Longrightarrow> p = q"
  using assms by (auto simp: pair_candidates_def list_ex_iff split: option.splits)

lemma usable_not_allocated: "pair_row_usable now d r \<Longrightarrow> p_status r \<noteq> ''allocated''"
  by (auto simp: pair_row_usable_def split: option.splits)

text \<open>What a successful registration statement did.\<close>

lemma sql_register_sessionE:
  assumes "sql_register_session now locked timeout device_id token client_ip db = Some (Some (p, q), db')"
  obtains d where "find (\<lambda>d. d_device_id d = device_id \<and> admissible_status (d_status d)) (devices db) = Some d"
    "p \<in> set (pair_candidates now locked d (port_allocations db))"
    "\<And>c. c \<in> set (pair_candidates now locked d (port_allocations db)) \<Longrightarrow> p \<le> c"
    "q = p + 1" "\<not> list_ex (\<lambda>s. s_token s = token) (device_sessions db)"
    "db' = db\<lparr>device_sessions :=
                device_sessions db @ [new_session_row now timeout (next_session_id db) (d_id d) token client_ip p],
              next_session_id := Suc (next_session_id db),
              port_allocations :=
                sql_update (\<lambda>r. p_port r = p \<or> p_port r = p + 1)
                  (\<lambda>r. r\<lparr>p_device := Some (d_id d), p_session := Some (next_session_id db),
                         p_expires_at := Some (now + int (unat timeout)), p_status := ''allocated''\<rparr>)
                  (port_allocations db)\<rparr>"
proof (cases "find (\<lambda>d. d_device_id d = device_id \<and> admissible_status (d_status d)) (devices db)")
  case None
  with assms show thesis by (simp add: sql_register_session_def)
next
  case (Some d)
  show thesis
  proof (cases "pair_candidates now locked d (port_allocations db)")
    case Nil
    with assms Some show thesis by (simp add: sql_register_session_def)
  next
    case (Cons c cs)
    with assms Some have "p = fold min cs c" and rest: "q = p + 1"
      "\<not> list_ex (\<lambda>s. s_token s = token) (device_sessions db)"
      by (auto simp: sql_register_session_def Let_def split: if_splits)
    with Cons fold_min_mem [of cs c] fold_min_le [of _ c cs]
    have p: "p \<in> set (pair_candidates now locked d (port_allocations db))"
      "\<And>c. c \<in> set (pair_candidates now locked d (port_allocations db)) \<Longrightarrow> p \<le> c"
      by (simp_all only: Cons)
    show thesis
      by (rule that [OF Some p rest]) (use assms Some Cons \<open>p = fold min cs c\<close> in
          \<open>auto simp: sql_register_session_def Let_def split: if_splits\<close>)
  qed
qed

lemma register_session_inv:
  assumes reg: "sql_register_session now locked timeout device_id token client_ip db = Some (Some (p, q), db')"
    and inv: "db_inv db"
  shows "db_inv db'" and "q = p + 1" and "p mod 2 = 0" and "6000 \<le> p" and "p < 7000"
    and "\<exists>s \<in> set (device_sessions db'). active_session token s \<and> s_assigned_port s = p \<and>
           s_expires_at s = now + int (unat timeout) \<and> owns_pair (port_allocations db') s"
proof -
  from reg obtain d where
    p: "p \<in> set (pair_candidates now locked d (port_allocations db))" and q: "q = p + 1"
    and tok: "\<not> list_ex (\<lambda>s. s_token s = token) (device_sessions db)"
    and db': "db' = db\<lparr>device_sessions :=
                device_sessions db @ [new_session_row now timeout (next_session_id db) (d_id d) token client_ip p],
              next_session_id := Suc (next_session_id db),
              port_allocations :=
                sql_update (\<lambda>r. p_port r = p \<or> p_port r = p + 1)
                  (\<lambda>r. r\<lparr>p_device := Some (d_id d), p_session := Some (next_session_id db),
                         p_expires_at := Some (now + int (unat timeout)), p_status := ''allocated''\<rparr>)
                  (port_allocations db)\<rparr>"
    by (rule sql_register_sessionE)
  from p obtain r1 r2 where r: "r1 \<in> set (port_allocations db)" "p_port r1 = p" "pair_row_usable now d r1"
    "r2 \<in> set (port_allocations db)" "p_port r2 = p + 1" "pair_row_usable now d r2"
    and range: "6000 \<le> p" "p < 7000" "p mod 2 = 0" by (rule pair_candidatesD)
  have dist: "distinct (map p_port (port_allocations db))" using inv by (simp add: db_inv_def)
  have free: "r \<in> set (port_allocations db) \<Longrightarrow> p_port r = p \<or> p_port r = p + 1 \<Longrightarrow> p_status r \<noteq> ''allocated''" for r
    using dist r usable_not_allocated by (metis distinct_map inj_on_eq_iff)
  let ?new = "new_session_row now timeout (next_session_id db) (d_id d) token client_ip p"
  let ?f = "\<lambda>r. r\<lparr>p_device := Some (d_id d), p_session := Some (next_session_id db),
                   p_expires_at := Some (now + int (unat timeout)), p_status := ''allocated''\<rparr>"
  have mem: "?f r \<in> set (port_allocations db')" if "r \<in> set (port_allocations db)" "p_port r = p \<or> p_port r = p + 1" for r
    using that unfolding db' by (simp add: set_sql_update)
  have valid_f: "valid_allocation (?f r)" for r by (simp add: valid_allocation_def)
  have held: "port_held (port_allocations db') p (next_session_id db)" "port_held (port_allocations db') (p + 1) (next_session_id db)"
    unfolding port_held_def
    by (rule bexI [OF _ mem [OF r(1)]], simp_all add: r(2)) (rule bexI [OF _ mem [OF r(4)]], simp_all add: r(5))
  then have new: "owns_pair (port_allocations db') ?new" by (simp add: owns_pair_def new_session_row_def)
  have old: "port_held (port_allocations db') x i" if "port_held (port_allocations db) x i" for x i
  proof -
    from that obtain r where r: "r \<in> set (port_allocations db)" "p_port r = x" "p_status r = ''allocated''" "p_session r = Some i"
      unfolding port_held_def by blast
    with free have "\<not> (p_port r = p \<or> p_port r = p + 1)" by blast
    with r(1) have "r \<in> set (port_allocations db')" unfolding db' by (simp add: set_sql_update)
    with r show ?thesis unfolding port_held_def by blast
  qed
  have own: "\<forall>s \<in> set (device_sessions db'). is_active s \<longrightarrow> owns_pair (port_allocations db') s"
  proof (intro ballI impI)
    fix s
    assume s: "s \<in> set (device_sessions db')" "is_active s"
    show "owns_pair (port_allocations db') s"
    proof (cases "s = ?new")
      case True
      with new show ?thesis by simp
    next
      case False
      with s have "s \<in> set (device_sessions db)" by (simp add: db')
      with s inv have "owns_pair (port_allocations db) s" by (simp add: db_inv_def)
      with old show ?thesis by (simp add: owns_pair_def)
    qed
  qed
  show "db_inv db'"
    unfolding db_inv_def
  proof (intro conjI)
    show "distinct (map p_port (port_allocations db'))"
      using dist by (simp add: db' map_sql_update)
    show "list_all valid_allocation (port_allocations db')"
      using inv valid_f by (simp add: db' db_inv_def list_all_iff set_sql_update ball_Un)
    show "distinct (map s_id (device_sessions db'))" "list_all (\<lambda>s. s_id s < next_session_id db') (device_sessions db')"
      using inv by (auto simp: db' db_inv_def new_session_row_def list_all_iff less_Suc_eq)
    show "distinct (map s_token (device_sessions db'))"
      using inv tok by (auto simp: db' db_inv_def new_session_row_def list_ex_iff)
    show "list_all (\<lambda>s. s_status s \<noteq> ''connecting'') (device_sessions db')"
      "list_all (\<lambda>s. 6000 \<le> s_assigned_port s \<and> s_assigned_port s \<le> 7000) (device_sessions db')"
      using inv range by (simp_all add: db' db_inv_def new_session_row_def)
  qed (fact own)
  show "\<exists>s \<in> set (device_sessions db'). active_session token s \<and> s_assigned_port s = p \<and>
      s_expires_at s = now + int (unat timeout) \<and> owns_pair (port_allocations db') s"
  proof (rule bexI [of _ ?new], intro conjI)
    show "owns_pair (port_allocations db') ?new" by (fact new)
  qed (simp_all add: db' active_session_def new_session_row_def)
  show "q = p + 1" "p mod 2 = 0" "6000 \<le> p" "p < 7000" by (fact q range)+
qed

lemma register_statement_inv:
  assumes "sql_register_session now locked timeout device_id token client_ip db = Some (a, db')" and "db_inv db"
  shows "db_inv db'"
proof (cases a)
  case None
  with assms show ?thesis
    by (auto simp: sql_register_session_def Let_def split: option.splits list.splits if_splits)
next
  case (Some pq)
  with assms show ?thesis by (cases pq) (auto intro: register_session_inv(1))
qed

lemma activate_device_inv:
  "sql_activate_device p device_id db = Some (a, db') \<Longrightarrow> db_inv db \<Longrightarrow> db_inv db'"
  by (auto simp: sql_activate_device_def split: if_splits)

lemma exec_cleanup_inv:
  "db_inv db \<Longrightarrow> db_inv (snd (exec_stmt db_ok (\<lambda>db. Some (sql_cleanup_device_sessions now dev db)) db))"
  by (rule exec_stmt_inv) (auto dest: cleanup_device_sessions_inv [of _ now dev])

lemma register_device_session_inv:
  assumes "db_inv db"
  shows "db_inv (snd (register_device_session rand_r db_ok locked now timeout addr dev ip token_len db))"
proof (cases "generate_session_token rand_r now addr token_len")
  case None
  with assms show ?thesis by (simp add: register_device_session_def)
next
  case (Some token)
  let ?db1 = "snd (exec_stmt db_ok (\<lambda>db. Some (sql_cleanup_device_sessions now dev db)) db)"
  let ?reg = "exec_stmt db_ok (sql_register_session now locked timeout dev token (c_string_or ''0.0.0.0'' ip)) ?db1"
  have 2: "db_inv (snd ?reg)"
    by (rule exec_stmt_inv [OF exec_cleanup_inv [OF assms]]) (rule register_statement_inv)
  have "db_inv (snd (exec_stmt db_ok (sql_activate_device q dev) (snd ?reg)))" for q
    by (rule exec_stmt_inv [OF 2]) (rule activate_device_inv)
  with 2 Some show ?thesis
    by (auto simp: register_device_session_def case_prod_beta Let_def split: option.split)
qed

lemma touch_session_inv:
  "sql_touch_session now timeout token db = Some (n, db') \<Longrightarrow> db_inv db \<Longrightarrow> db_inv db'"
  by (auto simp: sql_touch_session_def intro!: db_inv_touch)

lemma update_device_heartbeat_inv:
  assumes "db_inv db"
  shows "db_inv (snd (update_device_heartbeat db_ok now timeout token db))"
proof -
  have 1: "db_inv (snd (exec_stmt db_ok (sql_touch_session now timeout token) db))"
    by (rule exec_stmt_inv [OF assms]) (rule touch_session_inv)
  have "db_inv (snd (exec_stmt db_ok (sql_touch_device now token) (snd (exec_stmt db_ok (sql_touch_session now timeout token) db))))"
    by (rule exec_stmt_inv [OF 1]) (auto simp: sql_touch_device_def)
  with 1 show ?thesis by (auto simp: update_device_heartbeat_def split: option.split prod.split)
qed

lemma add_session_stats_inv:
  "sql_add_session_stats now sent received connections token db = Some (n, db') \<Longrightarrow> db_inv db \<Longrightarrow> db_inv db'"
  by (auto simp: sql_add_session_stats_def intro!: db_inv_touch split: if_splits)

lemma update_device_statistics_inv:
  assumes "db_inv db"
  shows "db_inv (snd (update_device_statistics db_ok now token sent received connections db))"
proof (cases token)
  case None
  with assms show ?thesis by (simp add: update_device_statistics_def)
next
  case (Some tok)
  let ?r = "exec_stmt db_ok (sql_add_session_stats now sent received connections tok) db"
  have 1: "db_inv (snd ?r)" by (rule exec_stmt_inv [OF assms]) (rule add_session_stats_inv)
  have "db_inv (snd (exec_stmt db_ok (sql_add_device_totals sent received tok) (snd ?r)))"
    by (rule exec_stmt_inv [OF 1]) (auto simp: sql_add_device_totals_def split: if_splits)
  with 1 Some show ?thesis by (auto simp: update_device_statistics_def split: option.split prod.split)
qed

lemma record_device_traffic_sample_inv:
  assumes "db_inv db"
  shows "db_inv (snd (record_device_traffic_sample db_ok now token sent received connections db))"
  using assms by (auto simp: record_device_traffic_sample_def exec_stmt_def Let_def split: option.split if_split)

lemma aggregate_device_hourly_statistics_inv:
  assumes "db_inv db"
  shows "db_inv (snd (aggregate_device_hourly_statistics db_ok now token sent received connections db))"
  using assms by (auto simp: aggregate_device_hourly_statistics_def exec_stmt_def Let_def split: option.split if_split)

lemma cleanup_round_inv:
  assumes "db_inv db"
  shows "db_inv (snd (cleanup_round db_ok now db))"
proof -
  have "db_inv (snd (exec_stmt db_ok (\<lambda>db. Some (sql_cleanup_expired_sessions now db)) db))"
    by (rule exec_stmt_inv [OF assms]) (auto dest: cleanup_expired_sessions_inv [of _ now])
  then show ?thesis by (auto simp: cleanup_round_def split: option.split prod.split)
qed

lemma get_session_tables:
  "snd (get_session_by_token db_ok token db) = db \<or>
   snd (get_session_by_token db_ok token db) = db\<lparr>statements := Suc (statements db)\<rparr>"
  by (auto simp: get_session_by_token_def exec_stmt_def Let_def split: option.split prod.split)

lemma get_session_found:
  assumes "get_session_by_token db_ok (Some token) db = (Some ses, db')"
  obtains s where "s \<in> set (device_sessions db)" "active_session token s"
    "ds_assigned_port ses = word_of_int (s_assigned_port s)" "db' = db\<lparr>statements := Suc (statements db)\<rparr>"
proof -
  from assms obtain s d where
    "find (\<lambda>(s, d). active_session token s \<and> s_device s = d_id d) (List.product (device_sessions db) (devices db)) = Some (s, d)"
    "ds_assigned_port ses = word_of_int (s_assigned_port s)" "db' = db\<lparr>statements := Suc (statements db)\<rparr>"
    by (auto simp: get_session_by_token_def exec_stmt_def Let_def split: option.splits if_splits)
  moreover from find_SomeD [OF this(1)] have "s \<in> set (device_sessions db)" "active_session token s" by auto
  ultimately show thesis by (intro that)
qed

lemma frees_only_statements:
  "frees_only A (db\<lparr>statements := n\<rparr>) db' \<longleftrightarrow> frees_only A db db'"
  by (simp add: frees_only_def)

lemma terminate_statement_inv:
  assumes "sql_terminate_session now token db = Some (a, db')" and "db_inv db"
  shows "db_inv db'"
proof (rule db_inv_ending [OF assms(2) frees_only_refl, where A = "{}"])
  let ?g = "\<lambda>s. if active_session token s then s\<lparr>s_status := ''terminated'', s_expires_at := now\<rparr> else s"
  show "device_sessions db' = map ?g (device_sessions db)"
    using assms(1) by (auto simp: sql_terminate_session_def sql_update_def)
qed (use assms(1) in \<open>auto simp: sql_terminate_session_def is_active_def split: if_splits\<close>)

lemma terminate_and_free_inv:
  assumes inv: "db_inv db" and s: "s \<in> set (device_sessions db)" "active_session token s"
    and p: "p = s_assigned_port s"
  shows "db_inv (snd (sql_free_device_port_pair (Some p)
           (db\<lparr>device_sessions := sql_update (active_session token)
                 (\<lambda>s. s\<lparr>s_status := ''terminated'', s_expires_at := now\<rparr>) (device_sessions db), statements := n\<rparr>)))"
proof (rule db_inv_end_sessions [where q = "active_session token" and
      f = "\<lambda>s. s\<lparr>s_status := ''terminated'', s_expires_at := now\<rparr>", OF inv])
  show "frees_only (pair_ports (map s_assigned_port (filter (active_session token) (device_sessions db))))
      (db\<lparr>device_sessions := sql_update (active_session token)
                 (\<lambda>s. s\<lparr>s_status := ''terminated'', s_expires_at := now\<rparr>) (device_sessions db), statements := n\<rparr>)
      (snd (sql_free_device_port_pair (Some p)
           (db\<lparr>device_sessions := sql_update (active_session token)
                 (\<lambda>s. s\<lparr>s_status := ''terminated'', s_expires_at := now\<rparr>) (device_sessions db), statements := n\<rparr>)))"
    by (rule frees_only_mono [OF free_pair_frees_only]) (use s p in \<open>auto simp: pair_ports_def\<close>)
qed (auto simp: active_session_def is_active_def)

lemma terminate_session_rows_inv:
  assumes inv: "db_inv db" and get: "get_session_by_token db_ok (Some token) db = (Some ses, db1)"
  shows "db_inv (snd (terminate_session_rows db_ok' now token (ds_assigned_port ses) db1))"
proof -
  from get obtain s where s: "s \<in> set (device_sessions db)" "active_session token s"
    and port: "ds_assigned_port ses = word_of_int (s_assigned_port s)"
    and db1: "db1 = db\<lparr>statements := Suc (statements db)\<rparr>" by (rule get_session_found)
  have range: "6000 \<le> s_assigned_port s" "s_assigned_port s \<le> 7000"
    using inv s(1) by (auto simp: db_inv_def list_all_iff)
  then have uint: "uint (ds_assigned_port ses) = s_assigned_port s"
    by (simp add: port uint_word_of_int_eq take_bit_int_eq_self)
  let ?t = "\<lambda>n. db\<lparr>device_sessions := sql_update (active_session token)
      (\<lambda>s. s\<lparr>s_status := ''terminated'', s_expires_at := now\<rparr>) (device_sessions db), statements := n\<rparr>"
  have ended: "db_inv (?t n)" for n
    using terminate_statement_inv [OF _ inv, of now token "()"] by (simp add: sql_terminate_session_def)
  have "exec_stmt db_ok' (sql_terminate_session now token) db1 =
      (if db_ok' (Suc (statements db)) then (Some (), ?t (Suc (Suc (statements db))))
       else (None, db\<lparr>statements := Suc (Suc (statements db))\<rparr>))"
    by (simp add: exec_stmt_def sql_terminate_session_def db1 Let_def)
  moreover have "db_inv (snd (exec_stmt db_ok' (\<lambda>db. Some (sql_free_device_port_pair (Some (uint (ds_assigned_port ses))) db)) (?t n)))" for n
    using terminate_and_free_inv [OF inv s uint] ended by (simp add: exec_stmt_def Let_def split: prod.split) (metis snd_conv)
  ultimately show ?thesis
    using inv ended by (simp add: terminate_session_rows_def)
qed

section \<open>The system of table operations\<close>

text \<open>
  The operations the device manager and its clean-up thread perform on the tables, each holding
  \<open>g_db_mutex\<close>, in any order and number, with any statement failing.
\<close>

inductive db_step :: "device_db \<Rightarrow> device_db \<Rightarrow> bool" where
  load: "db_step db (snd (device_manager_load_device_by_id db_ok dev db))"
| authenticate: "db_step db (snd (device_authenticate sha db_ok dev tok db))"
| register: "db_step db (snd (register_device_session rand_r db_ok locked now timeout addr dev ip len db))"
| heartbeat: "db_step db (snd (update_device_heartbeat db_ok now timeout token db))"
| lookup: "db_step db (snd (get_session_by_token db_ok tok db))"
| stats: "db_step db (snd (update_device_statistics db_ok now tok sent received conns db))"
| sample: "db_step db (snd (record_device_traffic_sample db_ok now tok sent received conns db))"
| hourly: "db_step db (snd (aggregate_device_hourly_statistics db_ok now tok sent received conns db))"
| terminate: "get_session_by_token db_ok (Some token) db = (Some ses, db1) \<Longrightarrow>
    db_step db (snd (terminate_session_rows db_ok' now token (ds_assigned_port ses) db1))"
| cleanup: "db_step db (snd (cleanup_round db_ok now db))"

lemma db_step_inv: "db_step db db' \<Longrightarrow> db_inv db \<Longrightarrow> db_inv db'"
proof (induction rule: db_step.induct)
  case (load db db_ok dev)
  then show ?case
    by (auto simp: device_manager_load_device_by_id_def exec_stmt_def Let_def split: option.split)
next
  case (authenticate db sha db_ok dev tok)
  then show ?case
    by (auto simp: device_authenticate_def exec_stmt_def Let_def split: option.split)
next
  case (lookup db db_ok tok)
  then show ?case using get_session_tables [of db_ok tok db] by auto
qed (auto intro: register_device_session_inv update_device_heartbeat_inv update_device_statistics_inv
    record_device_traffic_sample_inv aggregate_device_hourly_statistics_inv terminate_session_rows_inv cleanup_round_inv)

lemma db_steps_inv: "db_step\<^sup>*\<^sup>* db db' \<Longrightarrow> db_inv db \<Longrightarrow> db_inv db'"
  by (induction rule: rtranclp_induct) (auto dest: db_step_inv)

text \<open>The tables as the schema creates them: ports 6000 to 7000 free, and the given devices.\<close>

definition initial_db :: "dev_row list \<Rightarrow> device_db" where
  "initial_db ds =
     \<lparr>devices = ds, device_sessions = [],
      port_allocations = map (\<lambda>p. \<lparr>p_port = p, p_device = None, p_session = None, p_expires_at = None,
                                    p_status = ''free''\<rparr>) [6000..7000],
      device_traffic_samples = [], device_statistics = [], next_session_id = 0, statements = 0\<rparr>"

lemma initial_db_inv: "db_inv (initial_db ds)"
proof -
  define ps :: "int list" where "ps = [6000..7000]"
  have "distinct ps" unfolding ps_def by (rule distinct_upto)
  then show ?thesis
    unfolding db_inv_def initial_db_def ps_def [symmetric] by (simp add: comp_def valid_allocation_def list_all_iff)
qed

section \<open>Properties\<close>


text \<open>Example tables: the pair 6000/6001, a device A whose session has expired and a device B that now has the pair.\<close>

definition example_device :: "nat \<Rightarrow> string \<Rightarrow> dev_row" where
  "example_device i name =
     \<lparr>d_id = i, d_device_id = name, d_name = None, d_type = None, d_status = ''pending'', d_auth_token_hash = [],
      d_assigned_port = None, d_preferred_port = None, d_internal_address = None, d_internal_port = None,
      d_user_id = None, d_enable_input_ssl = False, d_enable_tunnel_ssl = False, d_last_heartbeat = None,
      d_total_bytes_sent = 0, d_total_bytes_received = 0\<rparr>"

definition example_session :: "nat \<Rightarrow> nat \<Rightarrow> string \<Rightarrow> string \<Rightarrow> ses_row" where
  "example_session i dev token status = (new_session_row 0 3600 i dev token ''0.0.0.0'' 6000)\<lparr>s_status := status\<rparr>"

definition example_db :: device_db where
  "example_db =
     \<lparr>devices = [example_device 0 ''A'', example_device 1 ''B''],
      device_sessions = [example_session 0 0 ''ta'' ''expired'', example_session 1 1 ''tb'' ''active''],
      port_allocations =
        map (\<lambda>p. \<lparr>p_port = p, p_device = Some 1, p_session = Some 1, p_expires_at = Some 3600,
                  p_status = ''allocated''\<rparr>) [6000, 6001],
      device_traffic_samples = [], device_statistics = [], next_session_id = 2, statements = 0\<rparr>"

lemma example_db_inv: "db_inv example_db"
  by (simp add: example_db_def db_inv_def example_session_def new_session_row_def valid_allocation_def
      is_active_def owns_pair_def port_held_def)


lemma free_pairs_not_allocated:
  assumes "p \<in> pair_ports ps" and "r \<in> set (port_allocations (snd (free_pairs ps n db)))" and "p_port r = p"
  shows "p_status r \<noteq> ''allocated''"
  using assms
proof (induction ps arbitrary: n db)
  case Nil
  then show ?case by (simp add: pair_ports_def)
next
  case (Cons q ps)
  let ?db1 = "snd (sql_free_device_port_pair (Some q) db)"
  show ?case
  proof (cases "p \<in> pair_ports ps")
    case True
    with Cons.IH [of "n + fst (sql_free_device_port_pair (Some q) db)" ?db1] Cons.prems show ?thesis
      by (simp add: case_prod_beta)
  next
    case False
    with Cons.prems(1) have p: "p = q \<or> p = q + 1" by (simp add: pair_ports_def)
    show ?thesis
    proof
      assume alloc: "p_status r = ''allocated''"
      have "frees_only (pair_ports ps) ?db1 (snd (free_pairs (q # ps) n db))"
        using free_pairs_frees_only by (simp add: case_prod_beta)
      then have 1: "r \<in> set (port_allocations ?db1)"
        using Cons.prems(2) alloc unfolding frees_only_def by blast
      let ?a = "snd (sql_free_device_port q db)" and ?b = "snd (sql_free_device_port (q + 1) (snd (sql_free_device_port q db)))"
      have "frees_only {} ?b ?db1"
        by (auto simp: sql_free_device_port_pair_def Let_def case_prod_beta reserve_frees_only split: option.split)
      then have 2: "r \<in> set (port_allocations ?b)" using 1 alloc unfolding frees_only_def by blast
      then have 3: "r \<in> set (port_allocations ?a)"
        using free_device_port_frees_only [of "q + 1" ?a] alloc unfolding frees_only_def by blast
      from 2 3 alloc p Cons.prems(3) show False
        by (auto simp: sql_free_device_port_def Let_def set_sql_update freed_port_row_def)
    qed
  qed
qed

text \<open>
  C37. Disconnecting a device takes the ports of another: \<open>terminate_device_by_device_id\<close> frees the pair of every
  session the device ever had, also of sessions that ended long ago. When such a pair has since been given to
  another device, that device's session stays active but its ports are no longer allocated to it, and
  are on offer to the next registration.
\<close>

theorem disconnect_frees_foreign_ports:
  assumes "db_inv db"
    and "d \<in> set (devices db)" and "d_device_id d = dev" and "distinct (map d_device_id (devices db))"
    and "old \<in> set (device_sessions db)" and "s_device old = d_id d"
    and "t \<in> set (device_sessions db)" and "is_active t" and "s_device t \<noteq> d_id d"
    and "s_assigned_port t = s_assigned_port old"
    and "terminate_device_rows (\<lambda>_. True) now dev db = (rc, db')"
  shows "rc = 0 \<and> t \<in> set (device_sessions db') \<and> \<not> owns_pair (port_allocations db') t \<and>
         (\<forall>r \<in> set (port_allocations db').
            p_port r \<in> {s_assigned_port t, s_assigned_port t + 1} \<longrightarrow> p_status r \<noteq> ''allocated'')"
proof -
  define hit where "hit = (\<lambda>s :: ses_row. Some (s_device s) = map_option d_id (find (\<lambda>d. d_device_id d = dev) (devices db)) \<and> s_status s = ''active'')"
  define f where "f = (\<lambda>s :: ses_row. s\<lparr>s_status := ''terminated'', s_expires_at := now\<rparr>)"
  define db1 where "db1 = db\<lparr>device_sessions := sql_update hit f (device_sessions db), statements := Suc (Suc (statements db))\<rparr>"
  define ps where "ps = map s_assigned_port (sessions_of_device dev db1)"
  let ?db2 = "snd (free_pairs ps 0 db1)"
  have db': "rc = 0" "device_sessions db' = device_sessions ?db2" "port_allocations db' = port_allocations ?db2"
    using assms(11)
    by (auto simp: terminate_device_rows_def exec_stmt_def sql_terminate_device_sessions_def sql_free_device_ports_def
        sql_deactivate_device_def Let_def case_prod_beta db1_def ps_def hit_def f_def)
  have "find (\<lambda>d. d_device_id d = dev) (devices db) = Some d"
    by (rule find_unique [OF assms(4,2,3)])
  with assms(9) have "\<not> hit t" by (simp add: hit_def)
  then have t: "t \<in> set (device_sessions db1)" using assms(7) by (simp add: db1_def set_sql_update)
  have "s_assigned_port old \<in> set ps"
  proof (cases "hit old")
    case True
    then have "f old \<in> set (sessions_of_device dev db1)"
      using assms(2,3,5,6) by (auto simp: sessions_of_device_def db1_def set_sql_update list_ex_iff f_def)
    then have "s_assigned_port (f old) \<in> set ps" unfolding ps_def by simp
    then show ?thesis by (simp add: f_def)
  next
    case False
    then have "old \<in> set (sessions_of_device dev db1)"
      using assms(2,3,5,6) by (auto simp: sessions_of_device_def db1_def set_sql_update list_ex_iff)
    then show ?thesis unfolding ps_def by simp
  qed
  then have mem: "s_assigned_port t \<in> pair_ports ps" "s_assigned_port t + 1 \<in> pair_ports ps"
    unfolding assms(10) pair_ports_def by blast+
  then have "\<forall>r \<in> set (port_allocations db'). p_port r \<in> {s_assigned_port t, s_assigned_port t + 1} \<longrightarrow> p_status r \<noteq> ''allocated''"
    unfolding db' using free_pairs_not_allocated by blast
  moreover from this have "\<not> owns_pair (port_allocations db') t" unfolding owns_pair_def port_held_def by blast
  moreover have "device_sessions db' = device_sessions db1"
    unfolding db' by (rule frees_onlyD(2) [OF free_pairs_frees_only])
  ultimately show ?thesis using db'(1) t by simp
qed

theorem disconnect_frees_foreign_ports_witness:
  "fst (terminate_device_rows (\<lambda>_. True) 5000 ''A'' example_db) = 0 \<and>
   example_session 1 1 ''tb'' ''active'' \<in> set (device_sessions (snd (terminate_device_rows (\<lambda>_. True) 5000 ''A'' example_db))) \<and>
   \<not> owns_pair (port_allocations (snd (terminate_device_rows (\<lambda>_. True) 5000 ''A'' example_db))) (example_session 1 1 ''tb'' ''active'')"
  using disconnect_frees_foreign_ports [OF example_db_inv, of "example_device 0 ''A''" "''A''"
      "example_session 0 0 ''ta'' ''expired''" "example_session 1 1 ''tb'' ''active''" 5000
      "fst (terminate_device_rows (\<lambda>_. True) 5000 ''A'' example_db)" "snd (terminate_device_rows (\<lambda>_. True) 5000 ''A'' example_db)"]
  by (simp add: example_db_def example_device_def example_session_def new_session_row_def is_active_def)

section \<open>What registration delivers\<close>

lemma exec_stmt_SomeD:
  assumes "exec_stmt db_ok stmt db = (Some a, db')"
  shows "stmt (db\<lparr>statements := Suc (statements db)\<rparr>) = Some (a, db')"
  using assms by (auto simp: exec_stmt_def Let_def split: if_splits option.splits)

lemma cleanup_device_sessions_devices:
  "map d_device_id (devices (snd (sql_cleanup_device_sessions now dev db))) = map d_device_id (devices db)"
proof -
  have "devices (snd (free_pairs ps n db1)) = devices db1" for ps n db1
    by (rule frees_onlyD(1) [OF free_pairs_frees_only])
  then show ?thesis
    by (simp add: sql_cleanup_device_sessions_def Let_def case_prod_beta map_sql_update)
qed

lemma exec_cleanup_devices:
  "map d_device_id (devices (snd (exec_stmt db_ok (\<lambda>db. Some (sql_cleanup_device_sessions now dev db)) db))) =
   map d_device_id (devices db)"
  by (simp add: exec_stmt_def Let_def case_prod_beta cleanup_device_sessions_devices)

lemma register_device_sessionD:
  assumes "register_device_session rand_r db_ok locked now timeout addr dev ip len db = (Some (token, i, t), db')"
  obtains p q db1 db2 a where
    "db1 = snd (exec_stmt db_ok (\<lambda>db. Some (sql_cleanup_device_sessions now dev db)) db)"
    "sql_register_session now locked timeout dev token (c_string_or ''0.0.0.0'' ip)
       (db1\<lparr>statements := Suc (statements db1)\<rparr>) = Some (Some (p, q), db2)"
    "i = word_of_int p" "t = word_of_int q"
    "sql_activate_device (uint i) dev (db2\<lparr>statements := Suc (statements db2)\<rparr>) = Some (a, db')"
proof -
  define db1 where "db1 = snd (exec_stmt db_ok (\<lambda>db. Some (sql_cleanup_device_sessions now dev db)) db)"
  obtain tok where tok: "generate_session_token rand_r now addr len = Some tok"
    using assms by (cases "generate_session_token rand_r now addr len") (simp_all add: register_device_session_def)
  obtain x db2 where r2: "exec_stmt db_ok (sql_register_session now locked timeout dev tok (c_string_or ''0.0.0.0'' ip)) db1 = (x, db2)"
    by fastforce
  from assms tok r2 obtain p q where x: "x = Some (Some (p, q))"
    by (auto simp: register_device_session_def case_prod_beta db1_def [symmetric] split: option.splits)
  obtain y db3 where r3: "exec_stmt db_ok (sql_activate_device (uint (word_of_int p :: u16)) dev) db2 = (y, db3)"
    by fastforce
  from assms tok r2 x r3 have res: "y = Some ()" "db3 = db'" "tok = token" "i = word_of_int p" "t = word_of_int q"
    by (auto simp: register_device_session_def case_prod_beta db1_def [symmetric] Let_def split: option.splits)
  show thesis
    using exec_stmt_SomeD [OF r2 [unfolded x]] exec_stmt_SomeD [OF r3 [unfolded res(1)]] res
    by (intro that [OF db1_def]) simp_all
qed

lemma register_device_session_facts:
  assumes "db_inv db" and "distinct (map d_device_id (devices db))"
    and "register_device_session rand_r db_ok locked now timeout addr dev ip len db = (Some (token, i, t), db')"
  shows "even (uint i) \<and> 6000 \<le> uint i \<and> uint i < 7000 \<and> t = i + 1 \<and>
     (\<exists>s \<in> set (device_sessions db'). active_session token s \<and> s_assigned_port s = uint i \<and>
        s_expires_at s = now + int (unat timeout) \<and> owns_pair (port_allocations db') s) \<and>
     (\<forall>d \<in> set (devices db'). d_device_id d = dev \<longrightarrow>
        d_status d = ''active'' \<and> d_assigned_port d = Some (uint i) \<and>
        (\<forall>q. d_preferred_port d = Some q \<longrightarrow> uint i = q))"
proof -
  from assms(3) obtain p q db1 db2 a where
    db1: "db1 = snd (exec_stmt db_ok (\<lambda>db. Some (sql_cleanup_device_sessions now dev db)) db)"
    and reg: "sql_register_session now locked timeout dev token (c_string_or ''0.0.0.0'' ip)
       (db1\<lparr>statements := Suc (statements db1)\<rparr>) = Some (Some (p, q), db2)"
    and i: "i = word_of_int p" and t: "t = word_of_int q"
    and act: "sql_activate_device (uint i) dev (db2\<lparr>statements := Suc (statements db2)\<rparr>) = Some (a, db')"
    by (rule register_device_sessionD)
  have inv1: "db_inv (db1\<lparr>statements := Suc (statements db1)\<rparr>)"
    using exec_cleanup_inv [OF assms(1)] by (simp add: db1)
  note r = register_session_inv [OF reg inv1]
  have ui: "uint i = p" using r(4,5) by (simp add: i uint_word_of_int_eq take_bit_int_eq_self)
  have db': "db' = db2\<lparr>statements := Suc (statements db2),
      devices := sql_update (\<lambda>d. d_device_id d = dev) (\<lambda>d. d\<lparr>d_assigned_port := Some p, d_status := ''active''\<rparr>) (devices db2)\<rparr>"
    using act by (auto simp: sql_activate_device_def ui split: if_splits)
  from reg obtain d where
    d: "find (\<lambda>d. d_device_id d = dev \<and> admissible_status (d_status d)) (devices db1) = Some d"
    and pc: "p \<in> set (pair_candidates now locked d (port_allocations db1))" and dev2: "devices db2 = devices db1"
    by (rule sql_register_sessionE) auto
  from pc have pref: "\<And>q. d_preferred_port d = Some q \<Longrightarrow> p = q" by (rule pair_candidatesD)
  have dist: "distinct (map d_device_id (devices db1))"
    using assms(2) exec_cleanup_devices [of db_ok now dev db] by (simp add: db1)
  have uniq: "e = d" if "e \<in> set (devices db1)" "d_device_id e = dev" for e
    using find_SomeD [OF d] that dist by (metis distinct_map inj_on_eq_iff)
  have "\<forall>e \<in> set (devices db'). d_device_id e = dev \<longrightarrow>
      d_status e = ''active'' \<and> d_assigned_port e = Some p \<and> (\<forall>q. d_preferred_port e = Some q \<longrightarrow> p = q)"
  proof (intro ballI impI)
    fix e
    assume e: "e \<in> set (devices db')" "d_device_id e = dev"
    then obtain e0 where "e0 \<in> set (devices db1)" "d_device_id e0 = dev"
      "e = e0\<lparr>d_assigned_port := Some p, d_status := ''active''\<rparr>"
      by (auto simp: db' dev2 set_sql_update)
    with uniq [of e0] pref
    show "d_status e = ''active'' \<and> d_assigned_port e = Some p \<and> (\<forall>q. d_preferred_port e = Some q \<longrightarrow> p = q)"
      by auto
  qed
  moreover have "\<exists>s \<in> set (device_sessions db'). active_session token s \<and> s_assigned_port s = p \<and>
        s_expires_at s = now + int (unat timeout) \<and> owns_pair (port_allocations db') s"
    using r(6) by (simp add: db')
  moreover have "t = i + 1" by (simp add: i t r(2))
  ultimately show ?thesis using r(3-5) ui by (auto simp: even_iff_mod_2_eq_zero)
qed

text \<open>
  A successful registration returns an even input port in 6000..6998 with the next port as
  tunnel port, has created an active session with the returned token that holds both port rows and
  expires \<open>session_timeout\<close> seconds later, and has marked the device active on that port; a device with a fixed
  (preferred) port is given exactly that port.
\<close>

theorem register_device_session_result:
  assumes "db_inv db" and "distinct (map d_device_id (devices db))"
    and "register_device_session rand_r db_ok locked now timeout addr dev ip len db = (Some (token, i, t), db')"
  shows "even (uint i) \<and> 6000 \<le> uint i \<and> uint i < 7000 \<and> t = i + 1 \<and>
     (\<exists>s \<in> set (device_sessions db'). active_session token s \<and> s_assigned_port s = uint i \<and>
        s_expires_at s = now + int (unat timeout) \<and> owns_pair (port_allocations db') s) \<and>
     (\<forall>d \<in> set (devices db'). d_device_id d = dev \<longrightarrow>
        d_status d = ''active'' \<and> d_assigned_port d = Some (uint i) \<and>
        (\<forall>q. d_preferred_port d = Some q \<longrightarrow> uint i = q))"
  by (rule register_device_session_facts [OF assms])

definition example_free_db :: device_db where
  "example_free_db =
     \<lparr>devices = [example_device 0 ''A''], device_sessions = [],
      port_allocations =
        map (\<lambda>p. \<lparr>p_port = p, p_device = None, p_session = None, p_expires_at = None, p_status = ''free''\<rparr>) [6000, 6001],
      device_traffic_samples = [], device_statistics = [], next_session_id = 0, statements = 0\<rparr>"

lemma example_free_db_inv: "db_inv example_free_db"
  by (simp add: example_free_db_def db_inv_def valid_allocation_def)

lemma example_registration:
  "\<exists>token db'. register_device_session (\<lambda>seed. (0, seed)) (\<lambda>_. True) (\<lambda>_. False) 10 3600 0 ''A'' None 100 example_free_db =
     (Some (token, 6000, 6001), db')"
proof -
  obtain token where tok: "generate_session_token (\<lambda>seed. (0, seed)) 10 0 100 = Some token" and "length token \<le> 99"
    by (simp add: generate_session_token_def Let_def)
  then have len: "\<not> 255 < length token" by simp
  show ?thesis
    by (simp add: register_device_session_def tok exec_stmt_def sql_cleanup_device_sessions_def sql_update_def
        sql_register_session_def pair_candidates_def pair_row_usable_def admissible_status_def len
        example_free_db_def example_device_def sql_activate_device_def Let_def)
qed

theorem register_device_session_result_witness:
  "\<exists>token db'. register_device_session (\<lambda>seed. (0, seed)) (\<lambda>_. True) (\<lambda>_. False) 10 3600 0 ''A'' None 100 example_free_db =
     (Some (token, 6000, 6001), db') \<and>
     (\<exists>s \<in> set (device_sessions db'). active_session token s \<and> s_assigned_port s = 6000 \<and>
        s_expires_at s = 3610 \<and> owns_pair (port_allocations db') s)"
proof -
  from example_registration obtain token db' where
    r: "register_device_session (\<lambda>seed. (0, seed)) (\<lambda>_. True) (\<lambda>_. False) 10 3600 0 ''A'' None 100 example_free_db =
     (Some (token, 6000, 6001), db')" by blast
  with register_device_session_result [OF example_free_db_inv _ r] show ?thesis
    by (auto simp: example_free_db_def)
qed

section \<open>Authentication, heartbeats and statistics\<close>

lemma device_authenticate_facts:
  assumes "distinct (map d_device_id (devices db))" and "db_ok (statements db)"
  shows "(\<exists>info. fst (device_authenticate SHA256 db_ok (Some dev) (Some token) db) = Some info) \<longleftrightarrow>
           (\<exists>d \<in> set (devices db). d_device_id d = dev \<and> d_auth_token_hash d = hex_text (SHA256 token) \<and>
              (d_status d = ''active'' \<or> d_status d = ''pending'' \<or> d_status d = ''connecting''))" (is "?A \<longleftrightarrow> ?B")
    and "\<forall>info d. fst (device_authenticate SHA256 db_ok (Some dev) (Some token) db) = Some info \<longrightarrow>
           d \<in> set (devices db) \<longrightarrow> d_device_id d = dev \<longrightarrow>
           di_enable_input_ssl info = d_enable_input_ssl d \<and> di_enable_tunnel_ssl info = d_enable_tunnel_ssl d"
    and "snd (device_authenticate SHA256 db_ok (Some dev) (Some token) db) = db\<lparr>statements := Suc (statements db)\<rparr>"
proof -
  let ?P = "\<lambda>d. d_device_id d = dev \<and> d_auth_token_hash d = hex_text (SHA256 token) \<and> admissible_status (d_status d)"
  have auth: "device_authenticate SHA256 db_ok (Some dev) (Some token) db =
      (map_option (\<lambda>d. (device_info_of_row dev d)\<lparr>di_status :=
         (if d_status d = ''active'' then DEVICE_STATUS_ACTIVE else DEVICE_STATUS_PENDING)\<rparr>) (find ?P (devices db)),
       db\<lparr>statements := Suc (statements db)\<rparr>)"
    using assms(2) by (simp add: device_authenticate_def sha256_hex_def exec_stmt_def split: option.split)
  show "?A \<longleftrightarrow> ?B"
    using find_None_iff [of ?P "devices db"] by (cases "find ?P (devices db)") (auto simp: auth admissible_status_def dest: find_SomeD)
  show "snd (device_authenticate SHA256 db_ok (Some dev) (Some token) db) = db\<lparr>statements := Suc (statements db)\<rparr>"
    by (simp add: auth)
  show "\<forall>info d. fst (device_authenticate SHA256 db_ok (Some dev) (Some token) db) = Some info \<longrightarrow>
       d \<in> set (devices db) \<longrightarrow> d_device_id d = dev \<longrightarrow>
       di_enable_input_ssl info = d_enable_input_ssl d \<and> di_enable_tunnel_ssl info = d_enable_tunnel_ssl d"
  proof (intro allI impI)
    fix info d
    assume a: "fst (device_authenticate SHA256 db_ok (Some dev) (Some token) db) = Some info"
      "d \<in> set (devices db)" "d_device_id d = dev"
    then obtain e where e: "find ?P (devices db) = Some e"
      and info: "di_enable_input_ssl info = parse_pg_bool (Some (pg_bool_text (d_enable_input_ssl e)))"
        "di_enable_tunnel_ssl info = parse_pg_bool (Some (pg_bool_text (d_enable_tunnel_ssl e)))"
      by (auto simp: auth device_info_of_row_def)
    from find_SomeD [OF e] a assms(1) have "e = d" by (metis distinct_map inj_on_eq_iff)
    then show "di_enable_input_ssl info = d_enable_input_ssl d \<and> di_enable_tunnel_ssl info = d_enable_tunnel_ssl d"
      by (simp add: info parse_pg_bool_def pg_bool_text_def)
  qed
qed

text \<open>
  Authentication accepts a device exactly when its row holds the SHA-256 digest (in hex) of the
  presented token and its status is active, pending or connecting; the TLS flags handed to the tunnel are those of the row,
  and nothing in the tables changes.
\<close>

theorem device_authenticate_iff:
  assumes "distinct (map d_device_id (devices db))" and "db_ok (statements db)"
  shows "((\<exists>info. fst (device_authenticate SHA256 db_ok (Some dev) (Some token) db) = Some info) \<longleftrightarrow>
           (\<exists>d \<in> set (devices db). d_device_id d = dev \<and> d_auth_token_hash d = hex_text (SHA256 token) \<and>
              (d_status d = ''active'' \<or> d_status d = ''pending'' \<or> d_status d = ''connecting''))) \<and>
         (\<forall>info d. fst (device_authenticate SHA256 db_ok (Some dev) (Some token) db) = Some info \<longrightarrow>
            d \<in> set (devices db) \<longrightarrow> d_device_id d = dev \<longrightarrow>
            di_enable_input_ssl info = d_enable_input_ssl d \<and> di_enable_tunnel_ssl info = d_enable_tunnel_ssl d) \<and>
         snd (device_authenticate SHA256 db_ok (Some dev) (Some token) db) = db\<lparr>statements := Suc (statements db)\<rparr>"
  using device_authenticate_facts [where ?db_ok = db_ok, OF assms] by blast

theorem device_authenticate_iff_witness:
  "\<exists>info. fst (device_authenticate (\<lambda>_. []) (\<lambda>_. True) (Some ''A'') (Some ''secret'') example_free_db) = Some info"
proof -
  have "distinct (map d_device_id (devices example_free_db))"
    "\<exists>d \<in> set (devices example_free_db). d_device_id d = ''A'' \<and> d_auth_token_hash d = hex_text [] \<and>
       (d_status d = ''active'' \<or> d_status d = ''pending'' \<or> d_status d = ''connecting'')"
    by (simp_all add: example_free_db_def example_device_def hex_text_def)
  with device_authenticate_iff [of example_free_db "\<lambda>_. True" "\<lambda>_. []" "''A''" "''secret''"] show ?thesis by simp
qed

text \<open>
  A heartbeat succeeds exactly when an active session has the token, and then renews it for
  \<open>session_timeout\<close> seconds from now and marks its device active. It does not look at \<open>expires_at\<close>: a session whose time
  has run out but which the clean-up has not yet visited is revived.
\<close>

theorem update_device_heartbeat_effect:
  assumes "db_ok (statements db)" and "distinct (map s_token (device_sessions db))"
  shows "(fst (update_device_heartbeat db_ok now timeout token db) = 0 \<longleftrightarrow>
            (\<exists>s \<in> set (device_sessions db). s_token s = token \<and> s_status s = ''active'')) \<and>
         device_sessions (snd (update_device_heartbeat db_ok now timeout token db)) =
           map (\<lambda>s. if s_token s = token \<and> s_status s = ''active''
                    then s\<lparr>s_last_activity := now, s_expires_at := now + int (unat timeout)\<rparr> else s) (device_sessions db) \<and>
         (db_ok (Suc (statements db)) \<longrightarrow>
            (\<forall>s \<in> set (device_sessions db). s_token s = token \<longrightarrow> s_status s = ''active'' \<longrightarrow>
               (\<forall>d \<in> set (devices (snd (update_device_heartbeat db_ok now timeout token db))).
                  d_id d = s_device s \<longrightarrow> d_status d = ''active'' \<and> d_last_heartbeat d = Some now)))"
proof -
  let ?ss = "sql_update (active_session token)
      (\<lambda>s. s\<lparr>s_last_activity := now, s_expires_at := now + int (unat timeout)\<rparr>) (device_sessions db)"
  let ?db1 = "db\<lparr>device_sessions := ?ss, statements := Suc (statements db)\<rparr>"
  let ?n = "length (filter (active_session token) (device_sessions db))"
  have hb: "update_device_heartbeat db_ok now timeout token db =
      (if ?n = 0 then (-1, ?db1) else (0, snd (exec_stmt db_ok (sql_touch_device now token) ?db1)))"
    using assms(1) by (simp add: update_device_heartbeat_def exec_stmt_def sql_touch_session_def Let_def)
  have n: "?n = 0 \<longleftrightarrow> \<not> (\<exists>s \<in> set (device_sessions db). s_token s = token \<and> s_status s = ''active'')"
    by (auto simp: filter_empty_conv active_session_def)
  have ses: "device_sessions (snd (exec_stmt db_ok (sql_touch_device now token) ?db1)) = ?ss"
    by (simp add: exec_stmt_def sql_touch_device_def Let_def)
  have dev: "d_status d = ''active'' \<and> d_last_heartbeat d = Some now"
    if s: "s \<in> set (device_sessions db)" "s_token s = token" "s_status s = ''active''" and ok: "db_ok (Suc (statements db))"
      and d: "d \<in> set (devices (snd (exec_stmt db_ok (sql_touch_device now token) ?db1)))" "d_id d = s_device s" for s d
  proof -
    have "distinct (map s_token ?ss)" using assms(2) by (simp add: map_sql_update)
    moreover have "s\<lparr>s_last_activity := now, s_expires_at := now + int (unat timeout)\<rparr> \<in> set ?ss"
      using s by (auto simp: set_sql_update active_session_def)
    ultimately have "find (active_session token) ?ss = Some (s\<lparr>s_last_activity := now, s_expires_at := now + int (unat timeout)\<rparr>)"
      using s(2,3) unfolding active_session_def by (intro find_unique_conj) simp_all
    then have "device_of_token token (?db1\<lparr>statements := Suc (Suc (statements db))\<rparr>) = Some (s_device s)"
      by (simp add: device_of_token_def)
    with d ok show ?thesis
      by (auto simp: exec_stmt_def sql_touch_device_def Let_def set_sql_update)
  qed
  show ?thesis
    using n ses dev unfolding hb by (auto simp: sql_update_def active_session_def filter_empty_conv)
qed

theorem update_device_heartbeat_effect_witness:
  "fst (update_device_heartbeat (\<lambda>_. True) 9999 3600 ''tb'' example_db) = 0 \<and>
   map s_expires_at (device_sessions (snd (update_device_heartbeat (\<lambda>_. True) 9999 3600 ''tb'' example_db))) = [3600, 13599]"
  using update_device_heartbeat_effect [of "\<lambda>_. True" example_db 9999 3600 "''tb''"]
  by (simp add: example_db_def example_session_def new_session_row_def)

text \<open>What a report adds to the row of its session and to the row of its device.\<close>

abbreviation session_reported :: "u64 \<Rightarrow> u64 \<Rightarrow> u32 \<Rightarrow> time_t \<Rightarrow> ses_row \<Rightarrow> ses_row" where
  "session_reported sent received connections now s \<equiv>
     s\<lparr>s_bytes_sent := s_bytes_sent s + uint sent, s_bytes_received := s_bytes_received s + uint received,
       s_active_connections := uint connections, s_last_activity := now\<rparr>"

abbreviation device_reported :: "u64 \<Rightarrow> u64 \<Rightarrow> dev_row \<Rightarrow> dev_row" where
  "device_reported sent received d \<equiv>
     d\<lparr>d_total_bytes_sent := d_total_bytes_sent d + uint sent, d_total_bytes_received := d_total_bytes_received d + uint received\<rparr>"

lemma update_device_statistics_run:
  assumes "db_ok (statements db)" and "db_ok (Suc (statements db))"
    and "distinct (map s_token (device_sessions db))" and "distinct (map d_id (devices db))"
    and "s \<in> set (device_sessions db)" and "s_token s = token" and "s_status s = ''active''"
    and "d \<in> set (devices db)" and "d_id d = s_device s"
    and "uint connections < 2 ^ 31"
    and "s_bytes_sent s \<ge> 0" and "s_bytes_received s \<ge> 0" and "d_total_bytes_sent d \<ge> s_bytes_sent s"
    and "d_total_bytes_received d \<ge> s_bytes_received s"
    and "d_total_bytes_sent d + uint sent < 2 ^ 63" and "d_total_bytes_received d + uint received < 2 ^ 63"
  shows "update_device_statistics db_ok now (Some token) sent received connections db =
    (0, db\<lparr>device_sessions := sql_update (active_session token) (session_reported sent received connections now) (device_sessions db),
           statements := Suc (Suc (statements db)),
           devices := sql_update (\<lambda>e. d_id e = s_device s) (device_reported sent received) (devices db)\<rparr>)"
proof -
  let ?ss = "sql_update (active_session token) (session_reported sent received connections now) (device_sessions db)"
  let ?db1 = "db\<lparr>device_sessions := ?ss, statements := Suc (statements db)\<rparr>"
  let ?ds = "sql_update (\<lambda>e. d_id e = s_device s) (device_reported sent received) (devices db)"
  have only: "t = s" if "t \<in> set (device_sessions db)" "active_session token t" for t
    using that assms(3,5,6) by (metis active_session_def distinct_map inj_on_eq_iff)
  have only_d: "e = d" if "e \<in> set (devices db)" "d_id e = s_device s" for e
    using that assms(4,8,9) by (metis distinct_map inj_on_eq_iff)
  have nonneg: "0 \<le> uint sent" "0 \<le> uint received" by simp_all
  have range: "bigint (uint sent)" "bigint (uint received)" "sql_integer (uint connections)"
    "bigint (s_bytes_sent s + uint sent)" "bigint (s_bytes_received s + uint received)"
    "bigint (d_total_bytes_sent d + uint sent)" "bigint (d_total_bytes_received d + uint received)"
    using assms(10-16) nonneg uint_ge_0 [of connections] unfolding bigint_def sql_integer_def by linarith+
  have "sql_add_session_stats now sent received connections token (db\<lparr>statements := Suc (statements db)\<rparr>) = Some ((), ?db1)"
    using range only by (auto simp: sql_add_session_stats_def stats_parameters_ok_def list_all_iff)
  then have 1: "exec_stmt db_ok (sql_add_session_stats now sent received connections token) db = (Some (), ?db1)"
    using assms(1) by (simp add: exec_stmt_def)
  have "find (active_session token) ?ss = Some (session_reported sent received connections now s)"
  proof -
    have "distinct (map s_token ?ss)" using assms(3) by (simp add: map_sql_update)
    moreover have "session_reported sent received connections now s \<in> set ?ss" using assms(5-7) by (auto simp: set_sql_update active_session_def)
    ultimately show ?thesis using assms(6,7) unfolding active_session_def by (intro find_unique_conj) simp_all
  qed
  then have tok: "device_of_token token (?db1\<lparr>statements := n\<rparr>) = Some (s_device s)" for n
    by (simp add: device_of_token_def)
  have dev_ok: "\<forall>e \<in> set (devices db). d_id e = s_device s \<longrightarrow>
      bigint (d_total_bytes_sent e + uint sent) \<and> bigint (d_total_bytes_received e + uint received)"
    using range only_d by blast
  have "sql_add_device_totals sent received token (?db1\<lparr>statements := Suc (Suc (statements db))\<rparr>) =
      Some ((), ?db1\<lparr>statements := Suc (Suc (statements db)), devices := ?ds\<rparr>)"
    using range dev_ok tok by (simp add: sql_add_device_totals_def list_all_iff)
  then show ?thesis
    using assms(2) 1 by (simp add: update_device_statistics_def exec_stmt_def)
qed

text \<open>
  C31. Traffic accounting conserves bytes: when the statements succeed, the counters of the active session with
  the token and the cumulative totals of its device both grow by exactly the reported bytes, and no other session
  or device changes its counters.
\<close>

theorem update_device_statistics_conserves:
  assumes "db_ok (statements db)" and "db_ok (Suc (statements db))"
    and "distinct (map s_token (device_sessions db))" and "distinct (map d_id (devices db))"
    and "s \<in> set (device_sessions db)" and "s_token s = token" and "s_status s = ''active''"
    and "d \<in> set (devices db)" and "d_id d = s_device s"
    and "uint connections < 2 ^ 31"
    and "s_bytes_sent s \<ge> 0" and "s_bytes_received s \<ge> 0" and "d_total_bytes_sent d \<ge> s_bytes_sent s"
    and "d_total_bytes_received d \<ge> s_bytes_received s"
    and "d_total_bytes_sent d + uint sent < 2 ^ 63" and "d_total_bytes_received d + uint received < 2 ^ 63"
  shows "\<exists>db'. update_device_statistics db_ok now (Some token) sent received connections db = (0, db') \<and>
     (\<Sum>t \<leftarrow> device_sessions db'. s_bytes_sent t) = (\<Sum>t \<leftarrow> device_sessions db. s_bytes_sent t) + uint sent \<and>
     (\<Sum>e \<leftarrow> devices db'. d_total_bytes_sent e) = (\<Sum>e \<leftarrow> devices db. d_total_bytes_sent e) + uint sent \<and>
     (\<Sum>t \<leftarrow> device_sessions db'. s_bytes_received t) = (\<Sum>t \<leftarrow> device_sessions db. s_bytes_received t) + uint received \<and>
     (\<Sum>e \<leftarrow> devices db'. d_total_bytes_received e) = (\<Sum>e \<leftarrow> devices db. d_total_bytes_received e) + uint received \<and>
     (\<forall>t \<in> set (device_sessions db). s_token t \<noteq> token \<longrightarrow> t \<in> set (device_sessions db')) \<and>
     (\<forall>e \<in> set (devices db). d_id e \<noteq> s_device s \<longrightarrow> e \<in> set (devices db'))"
proof -
  let ?ss = "sql_update (active_session token) (session_reported sent received connections now) (device_sessions db)"
  let ?ds = "sql_update (\<lambda>e. d_id e = s_device s) (device_reported sent received) (devices db)"
  have only: "t = s" if "t \<in> set (device_sessions db)" "active_session token t" for t
    using that assms(3,5,6) by (metis active_session_def distinct_map inj_on_eq_iff)
  have only_d: "e = d" if "e \<in> set (devices db)" "d_id e = s_device s" for e
    using that assms(4,8,9) by (metis distinct_map inj_on_eq_iff)
  have hit: "active_session token s" using assms(6,7) by (simp add: active_session_def)
  have sums: "(\<Sum>t \<leftarrow> ?ss. s_bytes_sent t) = (\<Sum>t \<leftarrow> device_sessions db. s_bytes_sent t) + uint sent"
    "(\<Sum>t \<leftarrow> ?ss. s_bytes_received t) = (\<Sum>t \<leftarrow> device_sessions db. s_bytes_received t) + uint received"
    "(\<Sum>e \<leftarrow> ?ds. d_total_bytes_sent e) = (\<Sum>e \<leftarrow> devices db. d_total_bytes_sent e) + uint sent"
    "(\<Sum>e \<leftarrow> ?ds. d_total_bytes_received e) = (\<Sum>e \<leftarrow> devices db. d_total_bytes_received e) + uint received"
  proof -
    have dss: "distinct (device_sessions db)" and dds: "distinct (devices db)"
      using assms(3,4) by (simp_all add: distinct_map)
    show "(\<Sum>t \<leftarrow> ?ss. s_bytes_sent t) = (\<Sum>t \<leftarrow> device_sessions db. s_bytes_sent t) + uint sent"
      by (rule sum_list_update_one [where x = s, OF dss assms(5)]) (rule hit, erule (1) only, simp)
    show "(\<Sum>t \<leftarrow> ?ss. s_bytes_received t) = (\<Sum>t \<leftarrow> device_sessions db. s_bytes_received t) + uint received"
      by (rule sum_list_update_one [where x = s, OF dss assms(5)]) (rule hit, erule (1) only, simp)
    show "(\<Sum>e \<leftarrow> ?ds. d_total_bytes_sent e) = (\<Sum>e \<leftarrow> devices db. d_total_bytes_sent e) + uint sent"
      by (rule sum_list_update_one [where x = d, OF dds assms(8)]) (rule assms(9), erule (1) only_d, simp)
    show "(\<Sum>e \<leftarrow> ?ds. d_total_bytes_received e) = (\<Sum>e \<leftarrow> devices db. d_total_bytes_received e) + uint received"
      by (rule sum_list_update_one [where x = d, OF dds assms(8)]) (rule assms(9), erule (1) only_d, simp)
  qed
  show ?thesis unfolding update_device_statistics_run [OF assms] using sums by (simp add: set_sql_update active_session_def)
qed

theorem update_device_statistics_conserves_witness:
  "\<exists>db'. update_device_statistics (\<lambda>_. True) 50 (Some ''tb'') 1000 500 2 example_db = (0, db') \<and>
     (\<Sum>t \<leftarrow> device_sessions db'. s_bytes_sent t) = 1000 \<and> (\<Sum>e \<leftarrow> devices db'. d_total_bytes_sent e) = 1000 \<and>
     (\<Sum>t \<leftarrow> device_sessions db'. s_bytes_received t) = 500 \<and> (\<Sum>e \<leftarrow> devices db'. d_total_bytes_received e) = 500"
proof -
  have "(\<Sum>t \<leftarrow> device_sessions example_db. s_bytes_sent t) = 0" "(\<Sum>e \<leftarrow> devices example_db. d_total_bytes_sent e) = 0"
    "(\<Sum>t \<leftarrow> device_sessions example_db. s_bytes_received t) = 0" "(\<Sum>e \<leftarrow> devices example_db. d_total_bytes_received e) = 0"
    by (simp_all add: example_db_def example_session_def example_device_def new_session_row_def)
  moreover have "\<exists>db'. update_device_statistics (\<lambda>_. True) 50 (Some ''tb'') 1000 500 2 example_db = (0, db') \<and>
     (\<Sum>t \<leftarrow> device_sessions db'. s_bytes_sent t) = (\<Sum>t \<leftarrow> device_sessions example_db. s_bytes_sent t) + uint (1000 :: u64) \<and>
     (\<Sum>e \<leftarrow> devices db'. d_total_bytes_sent e) = (\<Sum>e \<leftarrow> devices example_db. d_total_bytes_sent e) + uint (1000 :: u64) \<and>
     (\<Sum>t \<leftarrow> device_sessions db'. s_bytes_received t) = (\<Sum>t \<leftarrow> device_sessions example_db. s_bytes_received t) + uint (500 :: u64) \<and>
     (\<Sum>e \<leftarrow> devices db'. d_total_bytes_received e) = (\<Sum>e \<leftarrow> devices example_db. d_total_bytes_received e) + uint (500 :: u64)"
    using update_device_statistics_conserves [where db = example_db and s = "example_session 1 1 ''tb'' ''active''" and
        d = "example_device 1 ''B''" and db_ok = "\<lambda>_. True" and token = "''tb''" and connections = 2 and sent = 1000 and
        received = 500 and now = 50]
    by (simp add: example_db_def example_session_def example_device_def new_session_row_def) blast
  ultimately show ?thesis by simp
qed

text \<open>
  The legacy \<open>device_create_session\<close> reports success exactly for devices that do not exist: its \<open>INSERT\<close>
  omits the mandatory \<open>assigned_port\<close>, so it fails whenever it selects a device, and it never creates a session.
\<close>

theorem device_create_session_never_creates:
  assumes "db_ok (statements db)"
  shows "(fst (device_create_session rand_r db_ok now timeout addr dev db) = 0 \<longleftrightarrow>
            (\<forall>d \<in> set (devices db). d_device_id d \<noteq> dev)) \<and>
         device_sessions (snd (snd (device_create_session rand_r db_ok now timeout addr dev db))) = device_sessions db"
proof -
  obtain token where "generate_session_token rand_r now addr 256 = Some token"
    by (simp add: generate_session_token_def Let_def)
  then show ?thesis
    using assms by (auto simp: device_create_session_def exec_stmt_def sql_create_session_def list_ex_iff Let_def)
qed

theorem device_create_session_never_creates_witness:
  "fst (device_create_session (\<lambda>seed. (0, seed)) (\<lambda>_. True) 10 3600 0 ''A'' example_free_db) \<noteq> 0"
proof -
  have "\<exists>d \<in> set (devices example_free_db). d_device_id d = ''A''"
    by (simp add: example_free_db_def example_device_def)
  with device_create_session_never_creates [of "\<lambda>_. True" example_free_db "\<lambda>seed. (0, seed)" 10 3600 0 "''A''"]
  show ?thesis by blast
qed

end
