(* ===== verification/TLS_Reload.thy ===== *)
theory TLS_Reload
  imports Prelude
begin

text \<open>
  The table of pending TLS reloads of \<open>src/server/proxy/server/device_manager.c\<close>: the control action
  \<open>reload_tls\<close> raises a flag for a device, and the device's next heartbeat takes it. The array
  \<open>g_tls_reload_pending\<close> with its count is the list of its used entries. The contract, a bounded
  set of flags, is the locale \<open>flag_set\<close>.
\<close>

section \<open>The table\<close>

definition tls_reload_pending_max :: nat where
  "tls_reload_pending_max = 128"

definition device_manager_set_tls_reload_pending :: "string option \<Rightarrow> string list \<Rightarrow> string list" where
  "device_manager_set_tls_reload_pending device_id pending =
     (case device_id of None \<Rightarrow> pending
      | Some dev \<Rightarrow>
          if dev = [] then pending
          else if first_index (\<lambda>e. e = dev) pending \<noteq> None then pending
          else if length pending < tls_reload_pending_max then pending @ [strncpy 64 dev]
          else pending)"

text \<open>The entry found is overwritten by the last one, and the count goes down.\<close>

definition device_manager_consume_tls_reload_pending ::
  "string option \<Rightarrow> string list \<Rightarrow> bool \<times> string list" where
  "device_manager_consume_tls_reload_pending device_id pending =
     (case device_id of None \<Rightarrow> (False, pending)
      | Some dev \<Rightarrow>
          (case first_index (\<lambda>e. e = dev) pending of None \<Rightarrow> (False, pending)
           | Some i \<Rightarrow>
               (True, butlast (if i < length pending - 1 then pending[i := strncpy 64 (last pending)] else pending))))"

definition tls_pending_inv :: "string list \<Rightarrow> bool" where
  "tls_pending_inv pending \<longleftrightarrow>
     distinct pending \<and> length pending \<le> tls_reload_pending_max \<and> list_all (\<lambda>e. length e \<le> 64) pending"

section \<open>The contract\<close>

datatype 'k flag_op = Raise 'k | Take 'k

fun flag_run :: "('k \<Rightarrow> 's \<Rightarrow> 's) \<Rightarrow> ('k \<Rightarrow> 's \<Rightarrow> bool \<times> 's) \<Rightarrow> 'k flag_op list \<Rightarrow> 's \<Rightarrow> 's" where
  "flag_run raise fetch [] s = s"
| "flag_run raise fetch (Raise k # ops) s = flag_run raise fetch ops (raise k s)"
| "flag_run raise fetch (Take k # ops) s = flag_run raise fetch ops (snd (fetch k s))"

fun flag_key :: "'k flag_op \<Rightarrow> 'k" where
  "flag_key (Raise k) = k"
| "flag_key (Take k) = k"

locale flag_set =
  fixes inv :: "'s \<Rightarrow> bool"
    and ok :: "'k \<Rightarrow> bool"
    and flags :: "'s \<Rightarrow> 'k set"
    and capacity :: nat
    and raise :: "'k \<Rightarrow> 's \<Rightarrow> 's"
    and fetch :: "'k \<Rightarrow> 's \<Rightarrow> bool \<times> 's"
  assumes raise_inv: "inv s \<Longrightarrow> ok k \<Longrightarrow> inv (raise k s)"
    and raise_flags: "inv s \<Longrightarrow> ok k \<Longrightarrow>
      flags (raise k s) = (if card (flags s) < capacity then insert k (flags s) else flags s)"
    and fetch_inv: "inv s \<Longrightarrow> ok k \<Longrightarrow> inv (snd (fetch k s))"
    and fetch_answer: "inv s \<Longrightarrow> ok k \<Longrightarrow> fst (fetch k s) \<longleftrightarrow> k \<in> flags s"
    and fetch_flags: "inv s \<Longrightarrow> ok k \<Longrightarrow> flags (snd (fetch k s)) = flags s - {k}"
begin

lemma run_inv:
  "inv s \<Longrightarrow> list_all (\<lambda>op. ok (flag_key op)) ops \<Longrightarrow> inv (flag_run raise fetch ops s)"
proof (induction ops arbitrary: s)
  case Nil
  then show ?case by simp
next
  case (Cons op ops)
  then show ?case by (cases op) (simp_all add: raise_inv fetch_inv)
qed

lemma run_keeps_flag:
  "inv s \<Longrightarrow> list_all (\<lambda>op. ok (flag_key op) \<and> op \<noteq> Take k) ops \<Longrightarrow> k \<in> flags s \<Longrightarrow>
   k \<in> flags (flag_run raise fetch ops s)"
proof (induction ops arbitrary: s)
  case Nil
  then show ?case by simp
next
  case (Cons op ops)
  show ?case
  proof (cases op)
    case (Raise j)
    with Cons show ?thesis by (simp add: raise_inv raise_flags)
  next
    case (Take j)
    with Cons.prems have j: "ok j" "j \<noteq> k" by simp_all
    have "k \<in> flags (flag_run raise fetch ops (snd (fetch j s)))"
      using Cons.prems j by (intro Cons.IH) (simp_all add: fetch_inv fetch_flags)
    with Take show ?thesis by simp
  qed
qed

lemma run_keeps_unraised:
  "inv s \<Longrightarrow> list_all (\<lambda>op. ok (flag_key op) \<and> op \<noteq> Raise k) ops \<Longrightarrow> k \<notin> flags s \<Longrightarrow>
   k \<notin> flags (flag_run raise fetch ops s)"
proof (induction ops arbitrary: s)
  case Nil
  then show ?case by simp
next
  case (Cons op ops)
  show ?case
  proof (cases op)
    case (Raise j)
    with Cons.prems have j: "ok j" "j \<noteq> k" by simp_all
    have "k \<notin> flags (flag_run raise fetch ops (raise j s))"
      using Cons.prems j by (intro Cons.IH) (simp_all add: raise_inv raise_flags)
    with Raise show ?thesis by simp
  next
    case (Take j)
    with Cons show ?thesis by (simp add: fetch_inv fetch_flags)
  qed
qed

lemma delivered_once:
  assumes "inv s" and "ok k" and "card (flags s) < capacity"
    and "list_all (\<lambda>op. ok (flag_key op) \<and> op \<noteq> Take k) ops"
    and "list_all (\<lambda>op. ok (flag_key op) \<and> op \<noteq> Raise k) ops'"
  shows "fst (fetch k (flag_run raise fetch ops (raise k s)))"
    and "\<not> fst (fetch k (flag_run raise fetch ops' (snd (fetch k (flag_run raise fetch ops (raise k s))))))"
proof -
  let ?s1 = "flag_run raise fetch ops (raise k s)"
  have "list_all (\<lambda>op. ok (flag_key op)) ops" using assms(4) by (simp add: list_all_iff)
  then have inv1: "inv ?s1" by (rule run_inv [OF raise_inv [OF assms(1,2)]])
  have mem: "k \<in> flags ?s1"
    by (rule run_keeps_flag [OF raise_inv [OF assms(1,2)] assms(4)]) (simp add: raise_flags assms(1-3))
  then show "fst (fetch k ?s1)" by (simp add: fetch_answer inv1 assms(2))
  let ?s2 = "flag_run raise fetch ops' (snd (fetch k ?s1))"
  have "list_all (\<lambda>op. ok (flag_key op)) ops'" using assms(5) by (simp add: list_all_iff)
  then have "inv ?s2" by (rule run_inv [OF fetch_inv [OF inv1 assms(2)]])
  moreover have "k \<notin> flags ?s2"
    by (rule run_keeps_unraised [OF fetch_inv [OF inv1 assms(2)] assms(5)]) (simp add: fetch_flags inv1 assms(2))
  ultimately show "\<not> fst (fetch k ?s2)" by (simp add: fetch_answer assms(2))
qed

end

section \<open>The table meets the contract\<close>

lemma swap_remove:
  assumes "distinct xs" and "i < length xs"
  shows "set (butlast (if i < length xs - 1 then xs[i := last xs] else xs)) = set xs - {xs ! i}"
    and "distinct (butlast (if i < length xs - 1 then xs[i := last xs] else xs))"
proof -
  from assms(2) obtain ys z where xs: "xs = ys @ [z]" by (cases xs rule: rev_cases) auto
  show "set (butlast (if i < length xs - 1 then xs[i := last xs] else xs)) = set xs - {xs ! i}"
    using assms by (auto simp: xs nth_append list_update_append set_update_distinct)
  show "distinct (butlast (if i < length xs - 1 then xs[i := last xs] else xs))"
    using assms by (auto simp: xs list_update_append distinct_list_update)
qed

lemma consume_eq:
  assumes "tls_pending_inv pending"
  shows "device_manager_consume_tls_reload_pending (Some dev) pending =
     (case first_index (\<lambda>e. e = dev) pending of None \<Rightarrow> (False, pending)
      | Some i \<Rightarrow> (True, butlast (if i < length pending - 1 then pending[i := last pending] else pending)))"
proof -
  have "strncpy 64 (last pending) = last pending" if "i < length pending - 1" for i
  proof -
    from that have "pending \<noteq> []" by auto
    with assms show ?thesis by (simp add: tls_pending_inv_def list_all_iff cstring_simps)
  qed
  then show ?thesis
    by (auto simp: device_manager_consume_tls_reload_pending_def split: option.split)
qed

interpretation tls_flags: flag_set tls_pending_inv "\<lambda>dev. dev \<noteq> [] \<and> length dev \<le> 64" set tls_reload_pending_max
  "\<lambda>dev. device_manager_set_tls_reload_pending (Some dev)"
  "\<lambda>dev. device_manager_consume_tls_reload_pending (Some dev)"
proof unfold_locales
  fix s :: "string list" and k :: string
  assume inv: "tls_pending_inv s" and k: "k \<noteq> [] \<and> length k \<le> 64"
  have idx: "first_index (\<lambda>e. e = k) s = None \<longleftrightarrow> k \<notin> set s" by (auto simp: first_index_None_iff)
  have set: "device_manager_set_tls_reload_pending (Some k) s =
      (if k \<notin> set s \<and> length s < tls_reload_pending_max then s @ [k] else s)"
    using k by (simp add: device_manager_set_tls_reload_pending_def idx cstring_simps)
  show "tls_pending_inv (device_manager_set_tls_reload_pending (Some k) s)"
    using inv k by (auto simp: set tls_pending_inv_def)
  have "card (set s) = length s" using inv by (simp add: tls_pending_inv_def distinct_card)
  then show "set (device_manager_set_tls_reload_pending (Some k) s) =
      (if card (set s) < tls_reload_pending_max then insert k (set s) else set s)"
    by (auto simp: set)
  show "fst (device_manager_consume_tls_reload_pending (Some k) s) \<longleftrightarrow> k \<in> set s"
    using idx by (auto simp: consume_eq [OF inv] split: option.split)
  have "set (snd (device_manager_consume_tls_reload_pending (Some k) s)) = set s - {k} \<and>
      tls_pending_inv (snd (device_manager_consume_tls_reload_pending (Some k) s))"
  proof (cases "first_index (\<lambda>e. e = k) s")
    case None
    with idx inv show ?thesis by (simp add: consume_eq [OF inv])
  next
    case (Some i)
    then have i: "i < length s" "s ! i = k" by (auto simp: first_index_Some_iff)
    have "distinct s" using inv by (simp add: tls_pending_inv_def)
    note sr = swap_remove [OF this i(1)]
    define s' where "s' = butlast (if i < length s - 1 then s[i := last s] else s)"
    have set': "set s' = set s - {k}" and "distinct s'" using sr i(2) by (simp_all only: s'_def)
    moreover have "length s' \<le> length s" by (simp add: s'_def)
    ultimately have "tls_pending_inv s'" using inv by (simp add: tls_pending_inv_def list_all_iff)
    moreover have "device_manager_consume_tls_reload_pending (Some k) s = (True, s')"
      by (simp only: consume_eq [OF inv] Some option.case s'_def)
    ultimately show ?thesis using set' by simp
  qed
  then show "tls_pending_inv (snd (device_manager_consume_tls_reload_pending (Some k) s))"
    "set (snd (device_manager_consume_tls_reload_pending (Some k) s)) = set s - {k}" by blast+
qed

section \<open>Properties\<close>

text \<open>
  C28. A TLS reload requested for a device (with room in the table of 128) is announced to that device exactly
  once: whatever other devices' requests and heartbeats come between, its next heartbeat finds the
  flag, and later heartbeats do not until it is requested again.
\<close>

theorem tls_reload_announced_once:
  assumes "tls_pending_inv pending" and "dev \<noteq> []" and "length dev \<le> 64"
    and "length pending < tls_reload_pending_max"
    and "list_all (\<lambda>op. flag_key op \<noteq> [] \<and> length (flag_key op) \<le> 64 \<and> op \<noteq> Take dev) ops"
    and "list_all (\<lambda>op. flag_key op \<noteq> [] \<and> length (flag_key op) \<le> 64 \<and> op \<noteq> Raise dev) ops'"
    and "raise = (\<lambda>dev. device_manager_set_tls_reload_pending (Some dev))"
    and "fetch = (\<lambda>dev. device_manager_consume_tls_reload_pending (Some dev))"
  shows "\<exists>pending'. fetch dev (flag_run raise fetch ops (raise dev pending)) = (True, pending') \<and>
           \<not> fst (fetch dev (flag_run raise fetch ops' pending'))"
proof -
  have "card (set pending) < tls_reload_pending_max"
    using assms(1,4) by (simp add: tls_pending_inv_def distinct_card)
  moreover have "list_all (\<lambda>op. (flag_key op \<noteq> [] \<and> length (flag_key op) \<le> 64) \<and> op \<noteq> Take dev) ops"
    "list_all (\<lambda>op. (flag_key op \<noteq> [] \<and> length (flag_key op) \<le> 64) \<and> op \<noteq> Raise dev) ops'"
    using assms(5,6) by (simp_all only: conj_assoc)
  ultimately have "fst (fetch dev (flag_run raise fetch ops (raise dev pending)))"
    "\<not> fst (fetch dev (flag_run raise fetch ops' (snd (fetch dev (flag_run raise fetch ops (raise dev pending))))))"
    unfolding assms(7,8) by (rule tls_flags.delivered_once [OF assms(1) conjI [OF assms(2,3)]])+
  then show ?thesis
    by (intro exI [of _ "snd (fetch dev (flag_run raise fetch ops (raise dev pending)))"]) (simp add: prod_eq_iff)
qed

theorem tls_reload_announced_once_witness:
  "\<exists>pending'. device_manager_consume_tls_reload_pending (Some ''a'')
       (device_manager_set_tls_reload_pending (Some ''a'') [''b'']) = (True, pending') \<and>
     \<not> fst (device_manager_consume_tls_reload_pending (Some ''a'') pending')"
  using tls_reload_announced_once [of "[''b'']" "''a''" "[]" "[]", OF _ _ _ _ _ _ refl refl]
  by (simp add: tls_pending_inv_def tls_reload_pending_max_def)

text \<open>
  A device id longer than the 64 characters of an entry is flagged under its truncation, so the flag never
  reaches the device: every heartbeat of it finds nothing, and each further request takes another entry.
\<close>

theorem tls_reload_long_id_lost:
  assumes "tls_pending_inv pending" and "64 < length dev" and "length pending < tls_reload_pending_max"
  shows "fst (device_manager_consume_tls_reload_pending (Some dev)
               (device_manager_set_tls_reload_pending (Some dev) pending)) = False \<and>
         length (device_manager_set_tls_reload_pending (Some dev) pending) = Suc (length pending)"
proof -
  have "dev \<notin> set pending" using assms(1,2) by (auto simp: tls_pending_inv_def list_all_iff)
  moreover have "dev \<noteq> []" using assms(2) by auto
  moreover have "strncpy 64 dev \<noteq> dev" using assms(2) by (rule strncpy_neq)
  ultimately show ?thesis
    using assms(3)
    by (auto simp: device_manager_set_tls_reload_pending_def device_manager_consume_tls_reload_pending_def
        first_index_None_iff first_index_append split: option.split)
qed

theorem tls_reload_long_id_lost_witness:
  "fst (device_manager_consume_tls_reload_pending (Some (replicate 65 CHR ''x''))
     (device_manager_set_tls_reload_pending (Some (replicate 65 CHR ''x'')) [])) = False"
  using tls_reload_long_id_lost [of "[]" "replicate 65 CHR ''x''"]
  by (simp add: tls_pending_inv_def tls_reload_pending_max_def)

end
