(* ===== verification/Dynamic_Servers.thy ===== *)
theory Dynamic_Servers
  imports Device_Sessions
begin

text \<open>
  The dynamic tunnel servers of \<open>src/server/proxy/server/proxy_server.c\<close>: the array \<open>servers\<close>, the
  heap copies of its entries that the listener threads run on, the registry of running copies, and the
  operations that start, find, reuse, stop and restart the pair of listeners of a device.

  The state holds the array (its used part), the registry of 256 entries, the heap of running copies by
  address, the process's descriptor table (entry \<open>n\<close> is what descriptor \<open>n\<close> refers to) and the OpenSSL contexts
  alive, with a count of the frees of a context that was already freed. The outcomes of the operating
  system and of OpenSSL are fields of \<open>start_env\<close>. A listener thread that was started sets its running flag;
  once told to stop it clears the flag.
\<close>

section \<open>Data\<close>

datatype fd_object = Standard_stream | Listener u16 | Plain_socket | Connection nat

record server_statistics =
  ss_bytes_received :: u64
  ss_bytes_sent :: u64
  ss_connections_count :: u32
  ss_last_update :: time_t

record proxy_server =
  ps_id :: u16
  ps_enable :: bool
  ps_input_port :: u16
  ps_input :: int
  ps_is_input_enabled :: bool
  ps_is_input_running :: bool
  ps_stop_input_running :: bool
  ps_output_port :: u16
  ps_output :: int
  ps_is_output_enabled :: bool
  ps_is_output_running :: bool
  ps_stop_output_running :: bool
  ps_enable_output_ssl :: bool
  ps_enable_input_ssl :: bool
  ps_ssl_ctx :: "nat option"
  ps_cert_file :: string
  ps_key_file :: string
  ps_device_id :: string
  ps_is_dynamic_port :: bool
  ps_statistics :: server_statistics

record local_socket =
  ls_input_local :: int
  ls_output_local :: int
  ls_is_input_connected :: bool
  ls_is_output_connected :: bool
  ls_close_output_socket :: bool

record thread_data =
  td_local_sockets :: "local_socket list"
  td_data :: proxy_server

record dynamic_server_runtime =
  rt_device_id :: string
  rt_input_port :: u16
  rt_tunnel_port :: u16
  rt_server_index :: int
  rt_connections_data :: "nat option"
  rt_active :: bool

record dyn_state =
  servers :: "proxy_server list"
  servers_count :: u16
  g_dynamic_runtimes :: "dynamic_server_runtime list"
  heap :: "nat \<Rightarrow> thread_data option"
  next_address :: nat
  fds :: "fd_object option list"
  ssl_live :: "nat list"
  next_ctx :: nat
  ssl_double_frees :: nat

text \<open>
  What the environment answers while a server is started: for each listener whether \<open>socket\<close>,
  the socket options, \<open>bind\<close> and \<open>listen\<close> succeed, the allocations, the context, and whether each thread is
  running when the starter looks.
\<close>

record start_env =
  e_realloc_ok :: bool
  e_ctx_ok :: bool
  e_in_socket_ok :: bool
  e_in_options_ok :: bool
  e_in_bind_ok :: bool
  e_out_socket_ok :: bool
  e_out_options_ok :: bool
  e_out_bind_ok :: bool
  e_malloc_ok :: bool
  e_in_thread_ok :: bool
  e_out_thread_ok :: bool

definition max_dynamic_server_runtimes :: nat where
  "max_dynamic_server_runtimes = 256"

definition count_socket_thread :: nat where
  "count_socket_thread = 25"

definition zero_statistics :: server_statistics where
  "zero_statistics = \<lparr>ss_bytes_received = 0, ss_bytes_sent = 0, ss_connections_count = 0, ss_last_update = 0\<rparr>"

definition zero_server :: proxy_server where
  "zero_server =
     \<lparr>ps_id = 0, ps_enable = False, ps_input_port = 0, ps_input = 0, ps_is_input_enabled = False, ps_is_input_running = False,
      ps_stop_input_running = False, ps_output_port = 0, ps_output = 0, ps_is_output_enabled = False,
      ps_is_output_running = False, ps_stop_output_running = False, ps_enable_output_ssl = False,
      ps_enable_input_ssl = False, ps_ssl_ctx = None, ps_cert_file = [], ps_key_file = [], ps_device_id = [],
      ps_is_dynamic_port = False, ps_statistics = zero_statistics\<rparr>"

definition zero_local_socket :: local_socket where
  "zero_local_socket =
     \<lparr>ls_input_local = 0, ls_output_local = 0, ls_is_input_connected = False, ls_is_output_connected = False,
      ls_close_output_socket = False\<rparr>"

definition zero_runtime :: dynamic_server_runtime where
  "zero_runtime =
     \<lparr>rt_device_id = [], rt_input_port = 0, rt_tunnel_port = 0, rt_server_index = 0, rt_connections_data = None,
      rt_active = False\<rparr>"

text \<open>The static initialisers, in a process with its three standard streams open.\<close>

definition initial_dyn_state :: dyn_state where
  "initial_dyn_state =
     \<lparr>servers = [], servers_count = 0, g_dynamic_runtimes = replicate max_dynamic_server_runtimes zero_runtime,
      heap = (\<lambda>_. None), next_address = 0, fds = replicate 3 (Some Standard_stream), ssl_live = [], next_ctx = 0,
      ssl_double_frees = 0\<rparr>"

section \<open>Descriptors and contexts\<close>

text \<open>\<open>socket\<close> returns the lowest descriptor not in use; \<open>close\<close> of a closed or negative one has no effect.\<close>

definition os_socket :: "fd_object option list \<Rightarrow> int \<times> fd_object option list" where
  "os_socket t =
     (case first_index (\<lambda>x. x = None) t of
        Some i \<Rightarrow> (int i, t[i := Some Plain_socket])
      | None \<Rightarrow> (int (length t), t @ [Some Plain_socket]))"

definition os_close :: "int \<Rightarrow> fd_object option list \<Rightarrow> fd_object option list" where
  "os_close fd t = (if 0 \<le> fd \<and> fd < int (length t) then t[nat fd := None] else t)"

definition os_listen :: "int \<Rightarrow> u16 \<Rightarrow> fd_object option list \<Rightarrow> fd_object option list" where
  "os_listen fd port t = (if 0 \<le> fd \<and> fd < int (length t) then t[nat fd := Some (Listener port)] else t)"

definition os_accepting :: "int \<Rightarrow> fd_object option list \<Rightarrow> bool" where
  "os_accepting fd t \<longleftrightarrow>
     0 \<le> fd \<and> fd < int (length t) \<and> (case t ! nat fd of Some (Listener _) \<Rightarrow> True | _ \<Rightarrow> False)"

definition ssl_ctx_free :: "nat \<Rightarrow> dyn_state \<Rightarrow> dyn_state" where
  "ssl_ctx_free c st =
     (if c \<in> set (ssl_live st) then st\<lparr>ssl_live := remove1 c (ssl_live st)\<rparr>
      else st\<lparr>ssl_double_frees := Suc (ssl_double_frees st)\<rparr>)"

text \<open>\<open>cleanup_ssl_context\<close> clears the pointer of the structure it is given, and of no copy of it.\<close>

definition cleanup_ssl_context :: "proxy_server \<Rightarrow> dyn_state \<Rightarrow> proxy_server \<times> dyn_state" where
  "cleanup_ssl_context srv st =
     (case ps_ssl_ctx srv of None \<Rightarrow> (srv, st) | Some c \<Rightarrow> (srv\<lparr>ps_ssl_ctx := None\<rparr>, ssl_ctx_free c st))"

definition create_server_ssl_context :: "start_env \<Rightarrow> string \<Rightarrow> string \<Rightarrow> dyn_state \<Rightarrow> nat option \<times> dyn_state" where
  "create_server_ssl_context env cert_file key_file st =
     (if cert_file = [] \<or> key_file = [] then (None, st)
      else if e_ctx_ok env
      then (Some (next_ctx st), st\<lparr>next_ctx := Suc (next_ctx st), ssl_live := next_ctx st # ssl_live st\<rparr>)
      else (None, st))"

definition init_ssl_context :: "start_env \<Rightarrow> proxy_server \<Rightarrow> dyn_state \<Rightarrow> proxy_server \<times> dyn_state" where
  "init_ssl_context env srv st =
     (let off = srv\<lparr>ps_enable_output_ssl := False, ps_enable_input_ssl := False\<rparr>
      in if (ps_enable_output_ssl srv \<or> ps_enable_input_ssl srv) \<and> (ps_cert_file srv = [] \<or> ps_key_file srv = [])
         then (off, st)
         else if ps_enable_output_ssl srv \<or> ps_enable_input_ssl srv then
           (case create_server_ssl_context env (ps_cert_file srv) (ps_key_file srv) st of
              (None, st') \<Rightarrow> (off\<lparr>ps_ssl_ctx := None\<rparr>, st')
            | (Some c, st') \<Rightarrow> (srv\<lparr>ps_ssl_ctx := Some c\<rparr>, st'))
         else (srv, st))"

section \<open>Listeners\<close>

text \<open>
  \<open>init_input_socket\<close> and \<open>init_output_socket\<close>: on a failure after \<open>socket\<close> the descriptor stays open
  in the structure.
\<close>

definition init_listener ::
  "bool \<Rightarrow> bool \<Rightarrow> bool \<Rightarrow> u16 \<Rightarrow> fd_object option list \<Rightarrow> bool \<times> int \<times> fd_object option list" where
  "init_listener socket_ok options_ok bind_ok port t =
     (if \<not> socket_ok then (False, -1, t)
      else let (fd, t1) = os_socket t
           in if \<not> options_ok then (False, fd, t1)
              else if \<not> bind_ok then (False, fd, t1)
              else (True, fd, os_listen fd port t1))"

definition server_input_init :: "start_env \<Rightarrow> proxy_server \<Rightarrow> dyn_state \<Rightarrow> bool \<times> proxy_server \<times> dyn_state" where
  "server_input_init env srv st =
     (case init_listener (e_in_socket_ok env) (e_in_options_ok env) (e_in_bind_ok env) (ps_input_port srv) (fds st) of
        (ok, fd, t) \<Rightarrow>
          (ok, srv\<lparr>ps_stop_input_running := False, ps_is_input_running := False, ps_input := fd\<rparr>, st\<lparr>fds := t\<rparr>))"

definition server_output_init :: "start_env \<Rightarrow> proxy_server \<Rightarrow> dyn_state \<Rightarrow> bool \<times> proxy_server \<times> dyn_state" where
  "server_output_init env srv st =
     (case init_listener (e_out_socket_ok env) (e_out_options_ok env) (e_out_bind_ok env) (ps_output_port srv) (fds st) of
        (ok, fd, t) \<Rightarrow>
          (ok, srv\<lparr>ps_stop_output_running := False, ps_is_output_running := False, ps_output := fd\<rparr>, st\<lparr>fds := t\<rparr>))"

text \<open>
  The structure is copied to the heap and the two threads run on the copy. When a thread is not
  running the copy is given up; the listening descriptors stay with the array entry.
\<close>

definition start_server_listening_threads ::
  "start_env \<Rightarrow> proxy_server \<Rightarrow> dyn_state \<Rightarrow> nat option \<times> proxy_server \<times> dyn_state" where
  "start_server_listening_threads env srv st =
     (if \<not> e_malloc_ok env then (None, srv, st)
      else
        let in_ok = (ps_is_input_enabled srv \<longrightarrow> e_in_thread_ok env);
            out_ok = (ps_is_output_enabled srv \<longrightarrow> e_out_thread_ok env)
        in if \<not> in_ok \<or> \<not> out_ok then (None, srv, st)
           else
             let runtime = srv\<lparr>ps_is_input_running := ps_is_input_enabled srv,
                               ps_is_output_running := ps_is_output_enabled srv\<rparr>;
                 td = \<lparr>td_local_sockets = replicate count_socket_thread zero_local_socket, td_data = runtime\<rparr>;
                 a = next_address st
             in (Some a, runtime, st\<lparr>heap := (heap st)(a \<mapsto> td), next_address := Suc a\<rparr>))"

section \<open>The registry\<close>

definition runtime_entry :: "string \<Rightarrow> u16 \<Rightarrow> u16 \<Rightarrow> int \<Rightarrow> nat \<Rightarrow> dynamic_server_runtime" where
  "runtime_entry device_id input_port tunnel_port index a =
     \<lparr>rt_device_id = strncpy 64 device_id, rt_input_port = input_port, rt_tunnel_port = tunnel_port,
      rt_server_index = index, rt_connections_data = Some a, rt_active = True\<rparr>"

definition register_dynamic_server_runtime ::
  "string \<Rightarrow> u16 \<Rightarrow> u16 \<Rightarrow> int \<Rightarrow> nat \<Rightarrow> dyn_state \<Rightarrow> dyn_state" where
  "register_dynamic_server_runtime device_id input_port tunnel_port index a st =
     (case first_index (\<lambda>r. \<not> rt_active r) (g_dynamic_runtimes st) of
        None \<Rightarrow> st
      | Some i \<Rightarrow>
          let rs = (g_dynamic_runtimes st)[i := runtime_entry device_id input_port tunnel_port index a]
          in st\<lparr>g_dynamic_runtimes :=
                 map (\<lambda>(j, r). if j \<noteq> i \<and> rt_active r \<and> rt_server_index r = index \<and> rt_device_id r \<noteq> device_id
                               then r\<lparr>rt_active := False, rt_connections_data := None\<rparr> else r)
                   (enumerate 0 rs)\<rparr>)"

section \<open>Stopping\<close>

text \<open>The loop over the connection slots closes every descriptor number that is not negative.\<close>

fun close_local_sockets ::
  "local_socket list \<Rightarrow> fd_object option list \<Rightarrow> local_socket list \<times> fd_object option list" where
  "close_local_sockets [] t = ([], t)"
| "close_local_sockets (s # ss) t =
     (let t1 = (if ls_input_local s \<ge> 0 then os_close (ls_input_local s) t else t);
          t2 = (if ls_output_local s \<ge> 0 then os_close (ls_output_local s) t1 else t1);
          s' = s\<lparr>ls_close_output_socket := True,
                 ls_input_local := (if ls_input_local s \<ge> 0 then -1 else ls_input_local s),
                 ls_output_local := (if ls_output_local s \<ge> 0 then -1 else ls_output_local s)\<rparr>;
          (ss', t3) = close_local_sockets ss t2
      in (s' # ss', t3))"

text \<open>
  Waiting at most 10 seconds for the running flags to clear. The threads run on the heap copy and clear the flags there when
  told to stop; the flags of an array entry are nobody's, and stay as they are.
\<close>

definition wait_for_runtime_threads :: "bool \<Rightarrow> proxy_server \<Rightarrow> proxy_server" where
  "wait_for_runtime_threads is_copy srv =
     (if is_copy
      then srv\<lparr>ps_is_input_running := (if ps_stop_input_running srv then False else ps_is_input_running srv),
               ps_is_output_running := (if ps_stop_output_running srv then False else ps_is_output_running srv)\<rparr>
      else srv)"

definition stop_dynamic_server_runtime :: "nat option \<Rightarrow> string option \<Rightarrow> dyn_state \<Rightarrow> dyn_state" where
  "stop_dynamic_server_runtime connections_data device_id st =
     (case connections_data of None \<Rightarrow> st
      | Some a \<Rightarrow>
          (case heap st a of None \<Rightarrow> st
           | Some td \<Rightarrow>
               let rt = td_data td
               in if (case device_id of None \<Rightarrow> False
                      | Some dev \<Rightarrow> dev \<noteq> [] \<and> ps_device_id rt \<noteq> [] \<and> ps_device_id rt \<noteq> dev)
                  then st
                  else
                    let rt1 = rt\<lparr>ps_stop_input_running := True, ps_stop_output_running := True, ps_enable := False\<rparr>;
                        (ss, t1) = close_local_sockets (td_local_sockets td) (fds st);
                        t2 = (if ps_input rt1 \<ge> 0 then os_close (ps_input rt1) t1 else t1);
                        rt2 = (if ps_input rt1 \<ge> 0 then rt1\<lparr>ps_input := -1\<rparr> else rt1);
                        t3 = (if ps_output rt2 \<ge> 0 then os_close (ps_output rt2) t2 else t2);
                        rt3 = (if ps_output rt2 \<ge> 0 then rt2\<lparr>ps_output := -1\<rparr> else rt2);
                        (rt4, st1) = cleanup_ssl_context (wait_for_runtime_threads True rt3) (st\<lparr>fds := t3\<rparr>)
                    in st1\<lparr>heap := (heap st1)(a \<mapsto> td\<lparr>td_local_sockets := ss, td_data := rt4\<rparr>)\<rparr>))"

text \<open>Which registry entries a stop request selects.\<close>

definition runtime_matches :: "string option \<Rightarrow> u16 \<Rightarrow> u16 \<Rightarrow> dynamic_server_runtime \<Rightarrow> bool" where
  "runtime_matches device_id input_port tunnel_port r =
     (let ports = (rt_input_port r = input_port \<and> rt_tunnel_port r = tunnel_port);
          given = (input_port \<noteq> 0 \<and> tunnel_port \<noteq> 0)
      in case device_id of
           Some dev \<Rightarrow>
             if dev \<noteq> [] then rt_device_id r = dev \<and> (given \<longrightarrow> ports) else given \<and> ports
         | None \<Rightarrow> given \<and> ports)"

definition slot_mismatch :: "dyn_state \<Rightarrow> dynamic_server_runtime \<Rightarrow> bool" where
  "slot_mismatch st r \<longleftrightarrow>
     0 \<le> rt_server_index r \<and> rt_server_index r < int (unat (servers_count st)) \<and>
     ps_device_id (servers st ! nat (rt_server_index r)) \<noteq> [] \<and>
     ps_device_id (servers st ! nat (rt_server_index r)) \<noteq> rt_device_id r"

definition stop_runtime_at :: "nat \<Rightarrow> dyn_state \<Rightarrow> dyn_state" where
  "stop_runtime_at i st =
     (let r = g_dynamic_runtimes st ! i;
          st1 = stop_dynamic_server_runtime (rt_connections_data r) (Some (rt_device_id r)) st
      in st1\<lparr>g_dynamic_runtimes := (g_dynamic_runtimes st1)[i := r\<lparr>rt_active := False, rt_connections_data := None\<rparr>]\<rparr>)"

definition stop_dynamic_runtimes_for_device :: "string option \<Rightarrow> u16 \<Rightarrow> u16 \<Rightarrow> dyn_state \<Rightarrow> dyn_state" where
  "stop_dynamic_runtimes_for_device device_id input_port tunnel_port st =
     fold (\<lambda>i st.
        let r = g_dynamic_runtimes st ! i
        in if rt_connections_data r \<noteq> None \<and> runtime_matches device_id input_port tunnel_port r \<and> \<not> slot_mismatch st r
           then stop_runtime_at i st else st)
       [0..<length (g_dynamic_runtimes st)] st"

definition stop_dynamic_server_for_device :: "string option \<Rightarrow> u16 \<Rightarrow> u16 \<Rightarrow> dyn_state \<Rightarrow> int \<times> dyn_state" where
  "stop_dynamic_server_for_device device_id input_port tunnel_port st =
     (if device_id = None then (-1, st)
      else (0, stop_dynamic_runtimes_for_device device_id input_port tunnel_port st))"

text \<open>The second loop of \<open>cleanup_dynamic_server_slot\<close>.\<close>

definition stop_slot_runtimes :: "int \<Rightarrow> string \<Rightarrow> dyn_state \<Rightarrow> dyn_state" where
  "stop_slot_runtimes index device_id st =
     fold (\<lambda>i st.
        let r = g_dynamic_runtimes st ! i
        in if rt_server_index r = index \<and> rt_connections_data r \<noteq> None \<and> rt_device_id r = device_id
           then stop_runtime_at i st else st)
       [0..<length (g_dynamic_runtimes st)] st"

definition cleanup_dynamic_server_slot :: "int \<Rightarrow> dyn_state \<Rightarrow> dyn_state" where
  "cleanup_dynamic_server_slot index st =
     (let valid = (0 \<le> index \<and> index < int (unat (servers_count st)));
          device_id = (if valid then strncpy 64 (ps_device_id (servers st ! nat index)) else [])
      in if device_id = [] then st
         else
           let srv0 = servers st ! nat index;
               st1 = stop_dynamic_runtimes_for_device (Some device_id) (ps_input_port srv0) (ps_output_port srv0) st;
               st2 = stop_slot_runtimes index device_id st1;
               srv = (servers st2 ! nat index)\<lparr>ps_stop_input_running := True, ps_stop_output_running := True,
                                              ps_enable := False\<rparr>;
               t1 = (if ps_input srv \<ge> 0 then os_close (ps_input srv) (fds st2) else fds st2);
               srv1 = (if ps_input srv \<ge> 0 then srv\<lparr>ps_input := -1\<rparr> else srv);
               t2 = (if ps_output srv1 \<ge> 0 then os_close (ps_output srv1) t1 else t1);
               srv2 = (if ps_output srv1 \<ge> 0 then srv1\<lparr>ps_output := -1\<rparr> else srv1);
               (srv3, st3) = cleanup_ssl_context (wait_for_runtime_threads False srv2) (st2\<lparr>fds := t2\<rparr>)
           in st3\<lparr>servers := (servers st3)[nat index := srv3]\<rparr>)"

section \<open>Finding\<close>

definition dynamic_runtime_ssl_matches :: "proxy_server \<Rightarrow> bool \<Rightarrow> bool \<Rightarrow> bool" where
  "dynamic_runtime_ssl_matches rt input_ssl tunnel_ssl \<longleftrightarrow>
     ps_enable_input_ssl rt = input_ssl \<and> ps_enable_output_ssl rt = tunnel_ssl"

definition is_runtime_listener_active :: "dyn_state \<Rightarrow> proxy_server \<Rightarrow> u16 \<Rightarrow> bool \<Rightarrow> bool" where
  "is_runtime_listener_active st rt port is_tunnel =
     (let fd = (if is_tunnel then ps_output rt else ps_input rt);
          running = (if is_tunnel then ps_is_output_running rt else ps_is_input_running rt);
          bound_port = (if is_tunnel then ps_output_port rt else ps_input_port rt)
      in ps_enable rt \<and> running \<and> fd \<ge> 0 \<and> bound_port = port \<and> os_accepting fd (fds st))"

definition runtime_healthy :: "u16 \<Rightarrow> u16 \<Rightarrow> bool \<Rightarrow> bool \<Rightarrow> dyn_state \<Rightarrow> dynamic_server_runtime \<Rightarrow> bool" where
  "runtime_healthy input_port tunnel_port input_ssl tunnel_ssl st r \<longleftrightarrow>
     rt_active r \<and> rt_input_port r = input_port \<and> rt_tunnel_port r = tunnel_port \<and>
     (case rt_connections_data r of None \<Rightarrow> False
      | Some a \<Rightarrow>
          (case heap st a of None \<Rightarrow> False
           | Some td \<Rightarrow>
               let rt = td_data td
               in ps_enable rt \<and> ps_is_input_running rt \<and> ps_is_output_running rt \<and>
                  ps_input rt \<ge> 0 \<and> ps_output rt \<ge> 0 \<and>
                  dynamic_runtime_ssl_matches rt input_ssl tunnel_ssl \<and>
                  is_runtime_listener_active st rt input_port False \<and>
                  is_runtime_listener_active st rt tunnel_port True))"

definition find_healthy_dynamic_server :: "u16 \<Rightarrow> u16 \<Rightarrow> bool \<Rightarrow> bool \<Rightarrow> dyn_state \<Rightarrow> int" where
  "find_healthy_dynamic_server input_port tunnel_port input_ssl tunnel_ssl st =
     (case first_index (runtime_healthy input_port tunnel_port input_ssl tunnel_ssl st) (g_dynamic_runtimes st) of
        None \<Rightarrow> -1 | Some i \<Rightarrow> rt_server_index (g_dynamic_runtimes st ! i))"

definition find_stopped_dynamic_server :: "string \<Rightarrow> u16 \<Rightarrow> u16 \<Rightarrow> dyn_state \<Rightarrow> int" where
  "find_stopped_dynamic_server device_id input_port tunnel_port st =
     (let used = take (unat (servers_count st)) (servers st);
          stopped = (\<lambda>srv. ps_is_dynamic_port srv \<and> \<not> ps_enable srv)
      in case first_index (\<lambda>srv. stopped srv \<and> ps_device_id srv = device_id) used of
           Some i \<Rightarrow> int i
         | None \<Rightarrow>
             (case first_index (\<lambda>srv. stopped srv \<and> ps_input_port srv = input_port \<and> ps_output_port srv = tunnel_port) used of
                Some i \<Rightarrow> int i | None \<Rightarrow> -1))"

section \<open>Starting\<close>

text \<open>\<open>certs\<close> is the certificate and key path of the device manager, when both are configured.\<close>

definition apply_dynamic_server_ssl_config ::
  "start_env \<Rightarrow> (string \<times> string) option \<Rightarrow> bool \<Rightarrow> bool \<Rightarrow> proxy_server \<Rightarrow> dyn_state \<Rightarrow> proxy_server \<times> dyn_state" where
  "apply_dynamic_server_ssl_config env certs input_ssl tunnel_ssl srv st =
     (if \<not> input_ssl \<and> \<not> tunnel_ssl then (srv, st)
      else case certs of None \<Rightarrow> (srv, st)
        | Some (cert, key) \<Rightarrow>
            init_ssl_context env
              (srv\<lparr>ps_cert_file := strncpy 255 cert, ps_key_file := strncpy 255 key,
                   ps_enable_input_ssl := (input_ssl \<or> ps_enable_input_ssl srv),
                   ps_enable_output_ssl := (tunnel_ssl \<or> ps_enable_output_ssl srv)\<rparr>) st)"

definition fresh_dynamic_server :: "time_t \<Rightarrow> string \<Rightarrow> u16 \<Rightarrow> u16 \<Rightarrow> proxy_server" where
  "fresh_dynamic_server now device_id input_port tunnel_port =
     zero_server\<lparr>ps_enable := True, ps_input_port := input_port, ps_output_port := tunnel_port,
                 ps_is_input_enabled := True, ps_is_output_enabled := True, ps_is_dynamic_port := True,
                 ps_device_id := strncpy 64 device_id, ps_statistics := zero_statistics\<lparr>ss_last_update := now\<rparr>\<rparr>"

definition put_server :: "int \<Rightarrow> proxy_server \<Rightarrow> dyn_state \<Rightarrow> dyn_state" where
  "put_server index srv st = st\<lparr>servers := (servers st)[nat index := srv]\<rparr>"

definition start_dynamic_server_at_index ::
  "start_env \<Rightarrow> time_t \<Rightarrow> (string \<times> string) option \<Rightarrow> int \<Rightarrow> string \<Rightarrow> u16 \<Rightarrow> u16 \<Rightarrow> bool \<Rightarrow> bool \<Rightarrow> dyn_state \<Rightarrow>
   int \<times> dyn_state" where
  "start_dynamic_server_at_index env now certs index device_id input_port tunnel_port input_ssl tunnel_ssl st =
     (if index < 0 \<or> index \<ge> int (unat (servers_count st)) then (-1, st)
      else
        let st0 = cleanup_dynamic_server_slot index st;
            (srv1, st1) = apply_dynamic_server_ssl_config env certs input_ssl tunnel_ssl
                            (fresh_dynamic_server now device_id input_port tunnel_port) st0;
            (in_ok, srv2, st2) = server_input_init env srv1 st1
        in if \<not> in_ok then
             let (srv3, st3) = cleanup_ssl_context (srv2\<lparr>ps_is_input_enabled := False, ps_enable := False\<rparr>) st2
             in (-1, put_server index srv3 st3)
           else
             let (out_ok, srv3, st3) = server_output_init env srv2 st2
             in if \<not> out_ok then
                  let srv4 = srv3\<lparr>ps_is_output_enabled := False, ps_enable := False\<rparr>;
                      st4 = (if ps_input srv4 \<ge> 0 then st3\<lparr>fds := os_close (ps_input srv4) (fds st3)\<rparr> else st3);
                      srv5 = (if ps_input srv4 \<ge> 0 then srv4\<lparr>ps_input := -1\<rparr> else srv4);
                      (srv6, st5) = cleanup_ssl_context srv5 st4
                  in (-1, put_server index srv6 st5)
                else
                  case start_server_listening_threads env srv3 st3 of
                    (None, srv4, st4) \<Rightarrow>
                      let t1 = (if ps_input srv4 \<ge> 0 then os_close (ps_input srv4) (fds st4) else fds st4);
                          t2 = (if ps_output srv4 \<ge> 0 then os_close (ps_output srv4) t1 else t1)
                      in (-1, put_server index
                            (srv4\<lparr>ps_enable := False, ps_input := (if ps_input srv4 \<ge> 0 then -1 else ps_input srv4),
                                  ps_output := (if ps_output srv4 \<ge> 0 then -1 else ps_output srv4)\<rparr>)
                            (st4\<lparr>fds := t2\<rparr>))
                  | (Some a, srv4, st4) \<Rightarrow>
                      let st5 = register_dynamic_server_runtime device_id input_port tunnel_port index a
                                  (put_server index srv4 st4);
                          rt = td_data (the (heap st5 a))
                      in if \<not> is_runtime_listener_active st5 rt input_port False \<or>
                            \<not> is_runtime_listener_active st5 rt tunnel_port True
                         then (-1, stop_dynamic_server_runtime (Some a) (Some device_id) st5)
                         else (index, st5))"

definition requested_ssl :: "(string \<times> string) option \<Rightarrow> device_info option \<Rightarrow> bool \<times> bool" where
  "requested_ssl certs info =
     (case info of None \<Rightarrow> (False, False)
      | Some i \<Rightarrow> (di_enable_input_ssl i \<and> certs \<noteq> None, di_enable_tunnel_ssl i \<and> certs \<noteq> None))"

definition create_dynamic_server_for_device ::
  "start_env \<Rightarrow> time_t \<Rightarrow> (string \<times> string) option \<Rightarrow> string option \<Rightarrow> u16 \<Rightarrow> u16 \<Rightarrow> device_info option \<Rightarrow> dyn_state \<Rightarrow>
   int \<times> dyn_state" where
  "create_dynamic_server_for_device env now certs device_id input_port tunnel_port info st =
     (case device_id of None \<Rightarrow> (-1, st)
      | Some dev \<Rightarrow>
          if input_port = 0 \<or> tunnel_port = 0 then (-1, st)
          else
            let (input_ssl, tunnel_ssl) = requested_ssl certs info
            in if \<not> e_realloc_ok env then (-1, st)
               else
                 let index = unat (servers_count st);
                     st1 = st\<lparr>servers := take index (servers st) @ [zero_server], servers_count := servers_count st + 1\<rparr>;
                     (started, st2) = start_dynamic_server_at_index env now certs (int index) dev input_port tunnel_port
                                        input_ssl tunnel_ssl st1
                 in (started, if started < 0 then st2\<lparr>servers_count := servers_count st2 - 1\<rparr> else st2))"

text \<open>
  \<open>loaded\<close> is what \<open>device_manager_load_device_by_id\<close> returns, consulted only when the caller passes no
  \<open>device_info\<close>. The environment of a restart attempt and of the creation after it are separate.
\<close>

definition ensure_dynamic_server_for_device ::
  "start_env \<Rightarrow> start_env \<Rightarrow> time_t \<Rightarrow> (string \<times> string) option \<Rightarrow> device_info option \<Rightarrow> string option \<Rightarrow> u16 \<Rightarrow> u16 \<Rightarrow>
   device_info option \<Rightarrow> dyn_state \<Rightarrow> int \<times> dyn_state" where
  "ensure_dynamic_server_for_device env env' now certs loaded device_id input_port tunnel_port device_info st =
     (case device_id of None \<Rightarrow> (-1, st)
      | Some dev \<Rightarrow>
          if input_port = 0 \<or> tunnel_port = 0 then (-1, st)
          else
            let info = (case device_info of None \<Rightarrow> loaded | Some i \<Rightarrow> Some i);
                (input_ssl, tunnel_ssl) = requested_ssl certs info;
                healthy = find_healthy_dynamic_server input_port tunnel_port input_ssl tunnel_ssl st
            in if healthy \<ge> 0 then (healthy, st)
               else
                 let st1 = stop_dynamic_runtimes_for_device (Some dev) input_port tunnel_port st;
                     stopped = find_stopped_dynamic_server dev input_port tunnel_port st1
                 in if stopped \<ge> 0 then
                      (case start_dynamic_server_at_index env now certs stopped dev input_port tunnel_port
                              input_ssl tunnel_ssl st1 of
                         (restarted, st2) \<Rightarrow>
                           if restarted \<ge> 0 then (restarted, st2)
                           else create_dynamic_server_for_device env' now certs (Some dev) input_port tunnel_port info st2)
                    else create_dynamic_server_for_device env' now certs (Some dev) input_port tunnel_port info st1)"

section \<open>Connection slots and shutdown\<close>

definition get_input_socket_with_output :: "local_socket list \<Rightarrow> int" where
  "get_input_socket_with_output ss =
     (case first_index (\<lambda>s. ls_is_output_connected s \<and> \<not> ls_is_input_connected s) ss of None \<Rightarrow> -1 | Some i \<Rightarrow> int i)"

definition get_free_output_socket :: "local_socket list \<Rightarrow> int" where
  "get_free_output_socket ss =
     (case first_index (\<lambda>s. \<not> ls_is_output_connected s) ss of None \<Rightarrow> -1 | Some i \<Rightarrow> int i)"

text \<open>\<open>start_index = rand () % COUNT_SOCKET_THREAD\<close>, then once around.\<close>

definition get_free_input_socket :: "nat \<Rightarrow> local_socket list \<Rightarrow> int" where
  "get_free_input_socket r ss =
     (let n = length ss; order = map (\<lambda>i. (r mod n + i) mod n) [0..<n]
      in case find (\<lambda>i. \<not> ls_is_input_connected (ss ! i)) order of None \<Rightarrow> -1 | Some i \<Rightarrow> int i)"

fun cleanup_all_ssl :: "proxy_server list \<Rightarrow> dyn_state \<Rightarrow> proxy_server list \<times> dyn_state" where
  "cleanup_all_ssl [] st = ([], st)"
| "cleanup_all_ssl (s # ss) st =
     (let (s', st1) = cleanup_ssl_context s st; (ss', st2) = cleanup_all_ssl ss st1 in (s' # ss', st2))"

definition switcher_servers_stop :: "dyn_state \<Rightarrow> dyn_state" where
  "switcher_servers_stop st =
     (let n = unat (servers_count st);
          (ss, st1) = cleanup_all_ssl (take n (servers st)) st
      in st1\<lparr>servers := ss @ drop n (servers st)\<rparr>)"

end
