(* ===== verification/Dynamic_Properties.thy ===== *)
theory Dynamic_Properties
  imports Dynamic_Servers
begin

text \<open>
  What the operations on dynamic servers guarantee, and where they fall short: a successful \<open>ensure\<close> leaves a
  healthy pair of listeners with the TLS the device asked for; a stopped slot of the array is never used
  again; stopping closes descriptor 0; the contexts of stopped servers are freed twice; a listener pair is reused
  for another device; a failed TLS context is replaced by plain listeners.
\<close>

section \<open>Frame lemmas\<close>

lemma ssl_ctx_free_frame [simp]:
  "servers (ssl_ctx_free c st) = servers st" "servers_count (ssl_ctx_free c st) = servers_count st"
  "g_dynamic_runtimes (ssl_ctx_free c st) = g_dynamic_runtimes st" "heap (ssl_ctx_free c st) = heap st"
  "next_address (ssl_ctx_free c st) = next_address st" "fds (ssl_ctx_free c st) = fds st"
  by (simp_all add: ssl_ctx_free_def)

lemma cleanup_ssl_context_frame [simp]:
  "servers (snd (cleanup_ssl_context srv st)) = servers st"
  "servers_count (snd (cleanup_ssl_context srv st)) = servers_count st"
  "g_dynamic_runtimes (snd (cleanup_ssl_context srv st)) = g_dynamic_runtimes st"
  "heap (snd (cleanup_ssl_context srv st)) = heap st"
  "next_address (snd (cleanup_ssl_context srv st)) = next_address st"
  "fds (snd (cleanup_ssl_context srv st)) = fds st"
  by (simp_all add: cleanup_ssl_context_def split: option.split)

lemma cleanup_ssl_context_server [simp]:
  "fst (cleanup_ssl_context srv st) = srv\<lparr>ps_ssl_ctx := None\<rparr>"
  by (simp add: cleanup_ssl_context_def split: option.split)

lemma stop_runtime_frame [simp]:
  "servers (stop_dynamic_server_runtime cd dev st) = servers st"
  "servers_count (stop_dynamic_server_runtime cd dev st) = servers_count st"
  "g_dynamic_runtimes (stop_dynamic_server_runtime cd dev st) = g_dynamic_runtimes st"
  "next_address (stop_dynamic_server_runtime cd dev st) = next_address st"
  by (simp_all add: stop_dynamic_server_runtime_def Let_def case_prod_beta split: option.split)

lemma stop_runtime_at_frame [simp]:
  "servers (stop_runtime_at i st) = servers st" "servers_count (stop_runtime_at i st) = servers_count st"
  "length (g_dynamic_runtimes (stop_runtime_at i st)) = length (g_dynamic_runtimes st)"
  "next_address (stop_runtime_at i st) = next_address st"
  by (simp_all add: stop_runtime_at_def Let_def)

lemma stop_runtimes_frame [simp]:
  "servers (stop_dynamic_runtimes_for_device dev p q st) = servers st"
  "servers_count (stop_dynamic_runtimes_for_device dev p q st) = servers_count st"
  "length (g_dynamic_runtimes (stop_dynamic_runtimes_for_device dev p q st)) = length (g_dynamic_runtimes st)"
  unfolding stop_dynamic_runtimes_for_device_def
  by (rule fold_invariant [where Q = "\<lambda>_. True"]; simp add: Let_def)+

text \<open>Registry entries that are free stay free while runtimes are being stopped.\<close>

definition has_free_entry :: "dyn_state \<Rightarrow> bool" where
  "has_free_entry st \<longleftrightarrow> (\<exists>r \<in> set (g_dynamic_runtimes st). \<not> rt_active r)"

lemma stop_runtime_at_free: "has_free_entry st \<Longrightarrow> has_free_entry (stop_runtime_at i st)"
proof -
  assume "has_free_entry st"
  then obtain j where j: "j < length (g_dynamic_runtimes st)" "\<not> rt_active (g_dynamic_runtimes st ! j)"
    by (auto simp: has_free_entry_def in_set_conv_nth)
  let ?rs = "g_dynamic_runtimes (stop_runtime_at i st)"
  have "\<not> rt_active (?rs ! j)" "j < length ?rs"
    using j by (cases "i = j"; simp add: stop_runtime_at_def Let_def)+
  then show ?thesis unfolding has_free_entry_def by (metis nth_mem)
qed

lemma stop_runtimes_free: "has_free_entry st \<Longrightarrow> has_free_entry (stop_dynamic_runtimes_for_device dev p q st)"
  unfolding stop_dynamic_runtimes_for_device_def
  by (rule fold_invariant [where Q = "\<lambda>_. True"]) (auto simp: Let_def stop_runtime_at_free)

lemma stop_slot_runtimes_frame [simp]:
  "servers (stop_slot_runtimes index dev st) = servers st"
  "servers_count (stop_slot_runtimes index dev st) = servers_count st"
  "length (g_dynamic_runtimes (stop_slot_runtimes index dev st)) = length (g_dynamic_runtimes st)"
  unfolding stop_slot_runtimes_def
  by (rule fold_invariant [where Q = "\<lambda>_. True"]; simp add: Let_def)+

lemma stop_slot_runtimes_free: "has_free_entry st \<Longrightarrow> has_free_entry (stop_slot_runtimes index dev st)"
  unfolding stop_slot_runtimes_def
  by (rule fold_invariant [where Q = "\<lambda>_. True"]) (auto simp: Let_def stop_runtime_at_free)

lemma has_free_entry_frame [simp]:
  "has_free_entry (st\<lparr>servers := ss\<rparr>) = has_free_entry st" "has_free_entry (st\<lparr>fds := t\<rparr>) = has_free_entry st"
  "has_free_entry (snd (cleanup_ssl_context srv st)) = has_free_entry st"
  "has_free_entry (st\<lparr>servers_count := n\<rparr>) = has_free_entry st"
  by (simp_all add: has_free_entry_def)

lemma cleanup_slot_frame [simp]:
  "servers_count (cleanup_dynamic_server_slot index st) = servers_count st"
  "length (servers (cleanup_dynamic_server_slot index st)) = length (servers st)"
  by (simp_all add: cleanup_dynamic_server_slot_def Let_def case_prod_beta)

lemma cleanup_slot_free: "has_free_entry st \<Longrightarrow> has_free_entry (cleanup_dynamic_server_slot index st)"
  by (simp add: cleanup_dynamic_server_slot_def Let_def case_prod_beta stop_slot_runtimes_free stop_runtimes_free)

section \<open>A successful start\<close>

lemma apply_ssl_config_server:
  assumes "apply_dynamic_server_ssl_config env certs input_ssl tunnel_ssl (fresh_dynamic_server now dev p q) st = (srv, st')"
    and "input_ssl \<or> tunnel_ssl \<longrightarrow> (\<exists>c k. certs = Some (c, k) \<and> c \<noteq> [] \<and> k \<noteq> [] \<and> e_ctx_ok env)"
  shows "ps_enable_input_ssl srv = input_ssl" "ps_enable_output_ssl srv = tunnel_ssl"
  using assms
  by (auto simp: apply_dynamic_server_ssl_config_def init_ssl_context_def create_server_ssl_context_def
      fresh_dynamic_server_def zero_server_def cstring_simps Let_def split: if_splits)

lemma apply_ssl_config_frame:
  assumes "apply_dynamic_server_ssl_config env certs input_ssl tunnel_ssl srv0 st = (srv, st')"
  shows "g_dynamic_runtimes st' = g_dynamic_runtimes st" "servers st' = servers st" "servers_count st' = servers_count st"
    "heap st' = heap st" "next_address st' = next_address st" "fds st' = fds st"
    "ps_is_dynamic_port srv = ps_is_dynamic_port srv0" "ps_device_id srv = ps_device_id srv0" "ps_enable srv = ps_enable srv0"
  using assms
  by (auto simp: apply_dynamic_server_ssl_config_def init_ssl_context_def create_server_ssl_context_def
      Let_def split: if_splits option.splits)

lemma server_init_frame:
  "server_input_init env srv st = (ok, srv', st') \<Longrightarrow>
     (\<exists>t. st' = st\<lparr>fds := t\<rparr>) \<and> (\<exists>fd. srv' = srv\<lparr>ps_stop_input_running := False, ps_is_input_running := False, ps_input := fd\<rparr>)"
  "server_output_init env srv st = (ok, srv', st') \<Longrightarrow>
     (\<exists>t. st' = st\<lparr>fds := t\<rparr>) \<and> (\<exists>fd. srv' = srv\<lparr>ps_stop_output_running := False, ps_is_output_running := False, ps_output := fd\<rparr>)"
  by (auto simp: server_input_init_def server_output_init_def split: prod.splits)

lemma start_threads_some:
  assumes "start_server_listening_threads env srv st = (Some a, srv', st')"
  shows "st' = st\<lparr>heap := (heap st)(a \<mapsto> \<lparr>td_local_sockets = replicate count_socket_thread zero_local_socket, td_data = srv'\<rparr>),
                  next_address := Suc a\<rparr>"
    and "srv' = srv\<lparr>ps_is_input_running := ps_is_input_enabled srv, ps_is_output_running := ps_is_output_enabled srv\<rparr>"
    and "a = next_address st"
  using assms by (auto simp: start_server_listening_threads_def Let_def split: if_splits)

lemma register_some:
  assumes "has_free_entry st"
  shows "\<exists>r \<in> set (g_dynamic_runtimes (register_dynamic_server_runtime dev p q index a st)).
           r = runtime_entry dev p q index a"
proof -
  obtain i where i: "first_index (\<lambda>r. \<not> rt_active r) (g_dynamic_runtimes st) = Some i"
    using assms by (auto simp: has_free_entry_def first_index_None_iff dest: not_None_eq [THEN iffD1])
      (metis first_index_None_iff not_None_eq)
  then have len: "i < length (g_dynamic_runtimes st)" by (rule first_index_less)
  let ?rs = "g_dynamic_runtimes (register_dynamic_server_runtime dev p q index a st)"
  have "?rs ! i = runtime_entry dev p q index a" "i < length ?rs"
    using len by (simp_all add: register_dynamic_server_runtime_def i Let_def nth_enumerate_eq)
  then show ?thesis by (metis nth_mem)
qed

lemma register_frame [simp]:
  "servers (register_dynamic_server_runtime dev p q index a st) = servers st"
  "servers_count (register_dynamic_server_runtime dev p q index a st) = servers_count st"
  "heap (register_dynamic_server_runtime dev p q index a st) = heap st"
  "fds (register_dynamic_server_runtime dev p q index a st) = fds st"
  by (simp_all add: register_dynamic_server_runtime_def Let_def split: option.split)

lemma put_server_frame [simp]:
  "servers_count (put_server index srv st) = servers_count st" "heap (put_server index srv st) = heap st"
  "g_dynamic_runtimes (put_server index srv st) = g_dynamic_runtimes st" "fds (put_server index srv st) = fds st"
  "servers (put_server index srv st) = (servers st)[nat index := srv]"
  "has_free_entry (put_server index srv st) = has_free_entry st"
  by (simp_all add: put_server_def)

text \<open>The shape of every successful start.\<close>

lemma start_success:
  assumes "start_dynamic_server_at_index env now certs index dev p q input_ssl tunnel_ssl st = (i, st')" and "0 \<le> i"
  obtains srv1 st1 srv a t where
    "apply_dynamic_server_ssl_config env certs input_ssl tunnel_ssl (fresh_dynamic_server now dev p q)
       (cleanup_dynamic_server_slot index st) = (srv1, st1)"
    "ps_enable_input_ssl srv = ps_enable_input_ssl srv1" "ps_enable_output_ssl srv = ps_enable_output_ssl srv1"
    "ps_is_dynamic_port srv" "ps_device_id srv = strncpy 64 dev" "ps_enable srv" "ps_ssl_ctx srv = ps_ssl_ctx srv1"
    "i = index" "0 \<le> index" "index < int (unat (servers_count st))"
    "st' = register_dynamic_server_runtime dev p q index a
       (put_server index srv (st1\<lparr>fds := t, heap := (heap st1)(a \<mapsto> \<lparr>td_local_sockets = replicate count_socket_thread zero_local_socket, td_data = srv\<rparr>), next_address := Suc a\<rparr>))"
    "is_runtime_listener_active st' srv p False" "is_runtime_listener_active st' srv q True"
proof -
  obtain srv1 st1 where 1: "apply_dynamic_server_ssl_config env certs input_ssl tunnel_ssl (fresh_dynamic_server now dev p q)
       (cleanup_dynamic_server_slot index st) = (srv1, st1)" by fastforce
  obtain ok2 srv2 st2 where 2: "server_input_init env srv1 st1 = (ok2, srv2, st2)" by (cases "server_input_init env srv1 st1")
  obtain ok3 srv3 st3 where 3: "server_output_init env srv2 st2 = (ok3, srv3, st3)" by (cases "server_output_init env srv2 st2")
  obtain ao srv4 st4 where 4: "start_server_listening_threads env srv3 st3 = (ao, srv4, st4)"
    by (cases "start_server_listening_threads env srv3 st3")
  have idx: "0 \<le> index" "index < int (unat (servers_count st))"
    using assms by (auto simp: start_dynamic_server_at_index_def split: if_splits)
  have ok: "ok2" "ok3"
    using assms idx by (auto simp: start_dynamic_server_at_index_def Let_def 1 2 3 case_prod_beta split: if_splits)
  have "ao \<noteq> None"
  proof
    assume "ao = None"
    with assms idx ok show False by (auto simp: start_dynamic_server_at_index_def Let_def 1 2 3 4)
  qed
  then obtain a where a: "ao = Some a" by auto
  note t = start_threads_some [OF 4 [unfolded a]]
  let ?st5 = "register_dynamic_server_runtime dev p q index a (put_server index srv4 st4)"
  have rt: "td_data (the (heap ?st5 a)) = srv4" by (simp add: t(1))
  have res: "i = index" "st' = ?st5" "is_runtime_listener_active ?st5 srv4 p False" "is_runtime_listener_active ?st5 srv4 q True"
    using assms idx ok rt by (auto simp: start_dynamic_server_at_index_def Let_def 1 2 3 4 a split: if_splits)
  from server_init_frame(1) [OF 2] server_init_frame(2) [OF 3] obtain t3 where st3: "st3 = st1\<lparr>fds := t3\<rparr>" by auto
  have srv: "ps_enable_input_ssl srv4 = ps_enable_input_ssl srv1" "ps_enable_output_ssl srv4 = ps_enable_output_ssl srv1"
    "ps_is_dynamic_port srv4 = ps_is_dynamic_port srv1" "ps_device_id srv4 = ps_device_id srv1" "ps_enable srv4 = ps_enable srv1"
    "ps_ssl_ctx srv4 = ps_ssl_ctx srv1"
    using server_init_frame(1) [OF 2] server_init_frame(2) [OF 3] t(2) by auto
  have fresh: "ps_is_dynamic_port srv1" "ps_device_id srv1 = strncpy 64 dev" "ps_enable srv1"
    using apply_ssl_config_frame [OF 1] by (simp_all add: fresh_dynamic_server_def)
  show thesis
    by (rule that [OF 1 srv(1,2) _ _ _ srv(6) res(1) idx])
      (use srv fresh res t st3 in \<open>simp_all add: t(1) st3\<close>)
qed

lemma start_healthy:
  assumes start: "start_dynamic_server_at_index env now certs index dev p q input_ssl tunnel_ssl st = (i, st')" "0 \<le> i"
    and free: "has_free_entry st"
    and ssl: "input_ssl \<or> tunnel_ssl \<longrightarrow> (\<exists>c k. certs = Some (c, k) \<and> c \<noteq> [] \<and> k \<noteq> [] \<and> e_ctx_ok env)"
  shows "\<exists>r \<in> set (g_dynamic_runtimes st'). runtime_healthy p q input_ssl tunnel_ssl st' r \<and>
           rt_device_id r = strncpy 64 dev \<and> rt_server_index r = i"
proof -
  from start obtain srv1 st1 srv a t where
    1: "apply_dynamic_server_ssl_config env certs input_ssl tunnel_ssl (fresh_dynamic_server now dev p q)
       (cleanup_dynamic_server_slot index st) = (srv1, st1)"
    and srv: "ps_enable_input_ssl srv = ps_enable_input_ssl srv1" "ps_enable_output_ssl srv = ps_enable_output_ssl srv1"
    and i: "i = index"
    and st': "st' = register_dynamic_server_runtime dev p q index a
       (put_server index srv (st1\<lparr>fds := t, heap := (heap st1)(a \<mapsto> \<lparr>td_local_sockets = replicate count_socket_thread zero_local_socket, td_data = srv\<rparr>), next_address := Suc a\<rparr>))"
    and act: "is_runtime_listener_active st' srv p False" "is_runtime_listener_active st' srv q True"
    by (rule start_success)
  have "has_free_entry (put_server index srv (st1\<lparr>fds := t, heap := (heap st1)(a \<mapsto> \<lparr>td_local_sockets = replicate count_socket_thread zero_local_socket, td_data = srv\<rparr>), next_address := Suc a\<rparr>))"
    using cleanup_slot_free [OF free, of index] apply_ssl_config_frame(1) [OF 1] by (simp add: has_free_entry_def)
  from register_some [OF this, of dev p q index a] obtain r where
    r: "r \<in> set (g_dynamic_runtimes st')" "r = runtime_entry dev p q index a" unfolding st' by blast
  have "heap st' a = Some \<lparr>td_local_sockets = replicate count_socket_thread zero_local_socket, td_data = srv\<rparr>"
    by (simp add: st')
  then have "runtime_healthy p q input_ssl tunnel_ssl st' r"
    using act srv apply_ssl_config_server [OF 1 ssl]
    by (simp add: r(2) runtime_healthy_def runtime_entry_def dynamic_runtime_ssl_matches_def
        is_runtime_listener_active_def Let_def)
  with r i show ?thesis by (auto simp: runtime_entry_def)
qed

section \<open>Stopped slots are never used again\<close>

definition slots_enabled :: "dyn_state \<Rightarrow> bool" where
  "slots_enabled st \<longleftrightarrow>
     unat (servers_count st) \<le> length (servers st) \<and>
     list_all (\<lambda>srv. ps_is_dynamic_port srv \<longrightarrow> ps_enable srv) (take (unat (servers_count st)) (servers st))"

lemma cleanup_zero_slot:
  "servers st ! nat index = zero_server \<Longrightarrow> cleanup_dynamic_server_slot index st = st"
  by (simp add: cleanup_dynamic_server_slot_def zero_server_def cstring_simps)

lemma start_servers:
  assumes "start_dynamic_server_at_index env now certs index dev p q input_ssl tunnel_ssl st = (i, st')"
  shows "servers_count st' = servers_count st \<and>
    (servers st' = servers st \<or> (\<exists>srv. servers st' = (servers (cleanup_dynamic_server_slot index st))[nat index := srv]))"
proof (cases "index < 0 \<or> index \<ge> int (unat (servers_count st))")
  case True
  with assms show ?thesis by (simp add: start_dynamic_server_at_index_def)
next
  case False
  obtain srv1 st1 where 1: "apply_dynamic_server_ssl_config env certs input_ssl tunnel_ssl (fresh_dynamic_server now dev p q)
       (cleanup_dynamic_server_slot index st) = (srv1, st1)" by fastforce
  obtain ok2 srv2 st2 where 2: "server_input_init env srv1 st1 = (ok2, srv2, st2)" by (cases "server_input_init env srv1 st1")
  obtain ok3 srv3 st3 where 3: "server_output_init env srv2 st2 = (ok3, srv3, st3)" by (cases "server_output_init env srv2 st2")
  obtain ao srv4 st4 where 4: "start_server_listening_threads env srv3 st3 = (ao, srv4, st4)"
    by (cases "start_server_listening_threads env srv3 st3")
  have st2: "servers st2 = servers (cleanup_dynamic_server_slot index st)" "servers_count st2 = servers_count st"
    using server_init_frame(1) [OF 2] apply_ssl_config_frame [OF 1] by auto
  have st3: "servers st3 = servers st2" "servers_count st3 = servers_count st2" using server_init_frame(2) [OF 3] by auto
  have st4: "servers st4 = servers st3" "servers_count st4 = servers_count st3"
    using 4 by (auto simp: start_server_listening_threads_def Let_def split: if_splits)
  show ?thesis
  proof (cases "ok2 \<and> ok3")
    case ok: False
    with assms False show ?thesis
      by (auto simp: start_dynamic_server_at_index_def Let_def 1 2 3 case_prod_beta st2 st3 split: if_splits)
  next
    case ok: True
    show ?thesis
    proof (cases ao)
      case None
      with assms False ok show ?thesis
        by (auto simp: start_dynamic_server_at_index_def Let_def 1 2 3 4 st2 st3 st4)
    next
      case (Some a)
      with assms False ok show ?thesis
        by (auto simp: start_dynamic_server_at_index_def Let_def 1 2 3 4 st2 st3 st4 split: if_splits)
    qed
  qed
qed

lemma create_slots_enabled:
  assumes create: "create_dynamic_server_for_device env now certs dev p q info st = (i, st')" and inv: "slots_enabled st"
  shows "slots_enabled st'"
    and "0 \<le> i \<Longrightarrow> i = int (unat (servers_count st)) \<and> servers_count st' = servers_count st + 1"
proof -
  let ?n = "unat (servers_count st)"
  let ?st1 = "st\<lparr>servers := take ?n (servers st) @ [zero_server], servers_count := servers_count st + 1\<rparr>"
  have n: "?n \<le> length (servers st)" using inv by (simp add: slots_enabled_def)
  have "slots_enabled st' \<and> (0 \<le> i \<longrightarrow> i = int ?n \<and> servers_count st' = servers_count st + 1)"
  proof (cases "dev = None \<or> p = 0 \<or> q = 0 \<or> \<not> e_realloc_ok env")
    case True
    with create have "st' = st" "i = -1"
      by (auto simp: create_dynamic_server_for_device_def case_prod_beta split: option.splits if_splits)
    with inv show ?thesis by simp
  next
    case False
    then obtain d where d: "dev = Some d" by auto
    obtain input_ssl tunnel_ssl where ssl: "requested_ssl certs info = (input_ssl, tunnel_ssl)" by fastforce
    obtain j st2 where start: "start_dynamic_server_at_index env now certs (int ?n) d p q input_ssl tunnel_ssl ?st1 = (j, st2)"
      by fastforce
    have clean: "cleanup_dynamic_server_slot (int ?n) ?st1 = ?st1"
      by (rule cleanup_zero_slot) (simp add: n nth_append)
    from create False d ssl start have i: "i = j" and st': "st' = (if j < 0 then st2\<lparr>servers_count := servers_count st2 - 1\<rparr> else st2)"
      by (auto simp: create_dynamic_server_for_device_def Let_def)
    note ss = start_servers [OF start, unfolded clean]
    show ?thesis
    proof (cases "j < 0")
      case True
      have "take ?n (servers st2) = take ?n (servers st)" using ss n by auto
      moreover have "?n \<le> length (servers st2)" using ss n by auto
      ultimately show ?thesis using True inv ss i by (simp add: st' slots_enabled_def)
    next
      case False
      then have "0 \<le> j" by simp
      from start this obtain srv1 st1 srv a t where
        1: "apply_dynamic_server_ssl_config env certs input_ssl tunnel_ssl (fresh_dynamic_server now d p q)
           (cleanup_dynamic_server_slot (int ?n) ?st1) = (srv1, st1)"
        and srv: "ps_enable srv" and j: "j = int ?n"
        and lt: "int ?n < int (unat (servers_count ?st1))"
        and st2: "st2 = register_dynamic_server_runtime d p q (int ?n) a
           (put_server (int ?n) srv (st1\<lparr>fds := t, heap := (heap st1)(a \<mapsto> \<lparr>td_local_sockets = replicate count_socket_thread zero_local_socket, td_data = srv\<rparr>), next_address := Suc a\<rparr>))"
        by (rule start_success)
      have s2: "servers st2 = take ?n (servers st) @ [srv]" "servers_count st2 = servers_count st + 1"
        using apply_ssl_config_frame(2,3) [OF 1 [unfolded clean]] n by (simp_all add: st2 list_update_append)
      have "unat (servers_count st + 1) = Suc ?n"
      proof -
        have "servers_count st < servers_count st + 1" using lt by (simp add: word_less_def)
        then have "servers_count st \<noteq> -1" by auto
        then show ?thesis by (metis unat_Suc_less word_order.not_eq_extremum)
      qed
      with False inv srv n i j s2 show ?thesis
        by (simp add: st' slots_enabled_def)
    qed
  qed
  then show "slots_enabled st'" "0 \<le> i \<Longrightarrow> i = int (unat (servers_count st)) \<and> servers_count st' = servers_count st + 1"
    by blast+
qed

lemma find_stopped_none:
  assumes "slots_enabled st"
  shows "find_stopped_dynamic_server dev p q st = -1"
proof -
  have "first_index (\<lambda>srv. (ps_is_dynamic_port srv \<and> \<not> ps_enable srv) \<and> P srv) (take (unat (servers_count st)) (servers st)) = None" for P
    using assms by (auto simp: slots_enabled_def first_index_None_iff list_all_iff)
  from this [of "\<lambda>srv. ps_device_id srv = dev"] this [of "\<lambda>srv. ps_input_port srv = p \<and> ps_output_port srv = q"]
  show ?thesis by (simp add: find_stopped_dynamic_server_def)
qed

lemma stop_slots_enabled: "slots_enabled (stop_dynamic_runtimes_for_device dev p q st) = slots_enabled st"
  by (simp add: slots_enabled_def)

text \<open>Under the invariant \<open>ensure\<close> is reuse, or stop and create.\<close>

lemma ensure_cases:
  assumes "slots_enabled st" and "p \<noteq> 0" and "q \<noteq> 0"
    and "requested_ssl certs (case info of None \<Rightarrow> loaded | Some i \<Rightarrow> Some i) = (input_ssl, tunnel_ssl)"
  shows "ensure_dynamic_server_for_device env env' now certs loaded (Some dev) p q info st =
     (if find_healthy_dynamic_server p q input_ssl tunnel_ssl st \<ge> 0
      then (find_healthy_dynamic_server p q input_ssl tunnel_ssl st, st)
      else create_dynamic_server_for_device env' now certs (Some dev) p q
             (case info of None \<Rightarrow> loaded | Some i \<Rightarrow> Some i) (stop_dynamic_runtimes_for_device (Some dev) p q st))"
  using assms find_stopped_none [of "stop_dynamic_runtimes_for_device (Some dev) p q st" dev p q]
  by (simp add: ensure_dynamic_server_for_device_def stop_slots_enabled Let_def)

lemma find_healthy_exists:
  assumes "find_healthy_dynamic_server p q input_ssl tunnel_ssl st \<ge> 0"
  shows "\<exists>r \<in> set (g_dynamic_runtimes st). runtime_healthy p q input_ssl tunnel_ssl st r"
  using assms by (auto simp: find_healthy_dynamic_server_def split: option.splits dest!: first_index_SomeD intro: nth_mem)

lemma create_healthy:
  assumes create: "create_dynamic_server_for_device env now certs (Some dev) p q info st = (i, st')" "0 \<le> i"
    and ssl: "requested_ssl certs info = (input_ssl, tunnel_ssl)"
    and free: "has_free_entry st" and certs: "\<And>c k. certs = Some (c, k) \<Longrightarrow> c \<noteq> [] \<and> k \<noteq> []" and ctx: "e_ctx_ok env"
  shows "\<exists>r \<in> set (g_dynamic_runtimes st'). runtime_healthy p q input_ssl tunnel_ssl st' r"
proof -
  let ?n = "unat (servers_count st)"
  let ?st1 = "st\<lparr>servers := take ?n (servers st) @ [zero_server], servers_count := servers_count st + 1\<rparr>"
  obtain j st2 where start: "start_dynamic_server_at_index env now certs (int ?n) dev p q input_ssl tunnel_ssl ?st1 = (j, st2)"
    by fastforce
  from create ssl start have "j = i" "st2 = st'"
    by (auto simp: create_dynamic_server_for_device_def Let_def split: if_splits)
  with start create(2) have start: "start_dynamic_server_at_index env now certs (int ?n) dev p q input_ssl tunnel_ssl ?st1 = (i, st')" "0 \<le> i"
    by simp_all
  have "input_ssl \<or> tunnel_ssl \<longrightarrow> (\<exists>c k. certs = Some (c, k) \<and> c \<noteq> [] \<and> k \<noteq> [] \<and> e_ctx_ok env)"
    using ssl certs ctx by (auto simp: requested_ssl_def split: option.splits)
  with start_healthy [OF start, of] free show ?thesis by auto
qed

section \<open>Properties\<close>

lemma ensure_healthy:
  assumes "slots_enabled st" and "has_free_entry st"
    and "\<And>c k. certs = Some (c, k) \<Longrightarrow> c \<noteq> [] \<and> k \<noteq> []" and "e_ctx_ok env'"
    and "ensure_dynamic_server_for_device env env' now certs loaded (Some dev) p q (Some info) st = (i, st')" and "0 \<le> i"
  shows "slots_enabled st' \<and>
     (\<exists>r \<in> set (g_dynamic_runtimes st').
        runtime_healthy p q (di_enable_input_ssl info \<and> certs \<noteq> None) (di_enable_tunnel_ssl info \<and> certs \<noteq> None) st' r)"
proof -
  have pq: "p \<noteq> 0" "q \<noteq> 0" using assms(5,6) by (auto simp: ensure_dynamic_server_for_device_def split: if_splits)
  have ssl: "requested_ssl certs (Some info) = (di_enable_input_ssl info \<and> certs \<noteq> None, di_enable_tunnel_ssl info \<and> certs \<noteq> None)"
    by (simp add: requested_ssl_def)
  note e = ensure_cases [OF assms(1) pq, of certs loaded "Some info", simplified, OF ssl, of env env' now dev]
  show ?thesis
  proof (cases "find_healthy_dynamic_server p q (di_enable_input_ssl info \<and> certs \<noteq> None) (di_enable_tunnel_ssl info \<and> certs \<noteq> None) st \<ge> 0")
    case True
    with e assms(5) have "st' = st" by simp
    with find_healthy_exists [OF True] assms(1) show ?thesis by simp
  next
    case False
    let ?st1 = "stop_dynamic_runtimes_for_device (Some dev) p q st"
    from False e assms(5) have c: "create_dynamic_server_for_device env' now certs (Some dev) p q (Some info) ?st1 = (i, st')" by simp
    from create_slots_enabled(1) [OF c] create_healthy [OF c assms(6) ssl stop_runtimes_free [OF assms(2)] assms(3,4)] assms(1)
    show ?thesis by (simp add: stop_slots_enabled)
  qed
qed

text \<open>
  When \<open>ensure_dynamic_server_for_device\<close> reports success, the registry (which had a free entry)
  holds a running copy registered for exactly the requested ports: enabled, both threads running,
  both descriptors accepting connections, and with the TLS settings the device row asks for (as far as certificates are configured).
\<close>

theorem ensure_gives_healthy_server:
  assumes "slots_enabled st" and "has_free_entry st"
    and "\<And>c k. certs = Some (c, k) \<Longrightarrow> c \<noteq> [] \<and> k \<noteq> []" and "e_ctx_ok env'"
    and "ensure_dynamic_server_for_device env env' now certs loaded (Some dev) p q (Some info) st = (i, st')" and "0 \<le> i"
  shows "slots_enabled st' \<and>
     (\<exists>r \<in> set (g_dynamic_runtimes st').
        runtime_healthy p q (di_enable_input_ssl info \<and> certs \<noteq> None) (di_enable_tunnel_ssl info \<and> certs \<noteq> None) st' r)"
  by (rule ensure_healthy [OF assms])

text \<open>A first server in a fresh process, with every system call succeeding, for the examples.\<close>

definition good_env :: start_env where
  "good_env =
     \<lparr>e_realloc_ok = True, e_ctx_ok = True, e_in_socket_ok = True, e_in_options_ok = True, e_in_bind_ok = True,
      e_out_socket_ok = True, e_out_options_ok = True, e_out_bind_ok = True, e_malloc_ok = True,
      e_in_thread_ok = True, e_out_thread_ok = True\<rparr>"

lemma initial_dyn_state_facts:
  "slots_enabled initial_dyn_state" "has_free_entry initial_dyn_state"
  "find_healthy_dynamic_server p q is ts initial_dyn_state = -1"
  "servers_count initial_dyn_state = 0"
proof -
  show "servers_count initial_dyn_state = 0" by (simp add: initial_dyn_state_def)
  show "slots_enabled initial_dyn_state" "has_free_entry initial_dyn_state"
    by (simp_all add: initial_dyn_state_def slots_enabled_def has_free_entry_def max_dynamic_server_runtimes_def zero_runtime_def)
  have "first_index (runtime_healthy p q is ts initial_dyn_state) (g_dynamic_runtimes initial_dyn_state) = None"
    unfolding first_index_None_iff by (simp add: initial_dyn_state_def runtime_healthy_def zero_runtime_def)
  then show "find_healthy_dynamic_server p q is ts initial_dyn_state = -1"
    by (simp add: find_healthy_dynamic_server_def)
qed

lemma stop_nothing:
  assumes "\<And>r. r \<in> set (g_dynamic_runtimes st) \<Longrightarrow> rt_connections_data r = None"
  shows "stop_dynamic_runtimes_for_device dev p q st = st"
  unfolding stop_dynamic_runtimes_for_device_def
  by (rule fold_invariant [where Q = "\<lambda>i. i < length (g_dynamic_runtimes st)"]) (auto simp: Let_def assms)

lemma initial_create:
  assumes "p \<noteq> 0" and "q \<noteq> 0"
  shows "fst (create_dynamic_server_for_device (good_env\<lparr>e_ctx_ok := b\<rparr>) now certs (Some dev) p q info initial_dyn_state) = 0"
    and "requested_ssl certs info = (input_ssl, tunnel_ssl) \<Longrightarrow>
      fst (start_dynamic_server_at_index (good_env\<lparr>e_ctx_ok := b\<rparr>) now certs 0 dev p q input_ssl tunnel_ssl
             (initial_dyn_state\<lparr>servers := [zero_server], servers_count := 1\<rparr>)) = 0"
proof -
  define env where "env = good_env\<lparr>e_ctx_ok := b\<rparr>"
  have start: "fst (start_dynamic_server_at_index env now certs 0 dev p q input_ssl tunnel_ssl
      (initial_dyn_state\<lparr>servers := [zero_server], servers_count := 1\<rparr>)) = 0" for input_ssl tunnel_ssl
  proof -
    let ?st1 = "initial_dyn_state\<lparr>servers := [zero_server], servers_count := 1\<rparr>"
    obtain srv st2 where 1: "apply_dynamic_server_ssl_config env certs input_ssl tunnel_ssl (fresh_dynamic_server now dev p q) ?st1 = (srv, st2)"
      by fastforce
    have clean: "cleanup_dynamic_server_slot 0 ?st1 = ?st1" by (rule cleanup_zero_slot) simp
    have srv: "ps_input_port srv = p" "ps_output_port srv = q" "ps_is_input_enabled srv" "ps_is_output_enabled srv" "ps_enable srv"
      using 1 by (auto simp: apply_dynamic_server_ssl_config_def init_ssl_context_def create_server_ssl_context_def
          fresh_dynamic_server_def Let_def split: if_splits option.splits)
    have "fds st2 = replicate 3 (Some Standard_stream)" "servers_count st2 = 1"
      using apply_ssl_config_frame [OF 1] by (simp_all add: initial_dyn_state_def)
    then have fd: "fds st2 = [Some Standard_stream, Some Standard_stream, Some Standard_stream]"
      by (simp add: numeral_3_eq_3)
    let ?srv2 = "srv\<lparr>ps_stop_input_running := False, ps_is_input_running := False, ps_input := 3\<rparr>"
    let ?t1 = "[Some Standard_stream, Some Standard_stream, Some Standard_stream, Some (Listener p)]"
    have 2: "server_input_init env srv st2 = (True, ?srv2, st2\<lparr>fds := ?t1\<rparr>)"
      by (simp add: server_input_init_def init_listener_def os_socket_def os_listen_def fd env_def good_env_def srv)
    let ?t2 = "[Some Standard_stream, Some Standard_stream, Some Standard_stream, Some (Listener p), Some (Listener q)]"
    let ?srv3 = "?srv2\<lparr>ps_stop_output_running := False, ps_is_output_running := False, ps_output := 4\<rparr>"
    have 3: "server_output_init env ?srv2 (st2\<lparr>fds := ?t1\<rparr>) = (True, ?srv3, st2\<lparr>fds := ?t2\<rparr>)"
      by (simp add: server_output_init_def init_listener_def os_socket_def os_listen_def env_def good_env_def srv)
    obtain a srv4 st4 where 4: "start_server_listening_threads env ?srv3 (st2\<lparr>fds := ?t2\<rparr>) = (Some a, srv4, st4)"
      by (simp add: start_server_listening_threads_def env_def good_env_def Let_def)
    note t = start_threads_some [OF 4]
    show ?thesis
      by (simp add: start_dynamic_server_at_index_def clean 1 2 3 4 t(1) t(2) srv
          is_runtime_listener_active_def os_accepting_def Let_def)
  qed
  obtain x y where ssl: "requested_ssl certs info = (x, y)" by fastforce
  show "fst (create_dynamic_server_for_device (good_env\<lparr>e_ctx_ok := b\<rparr>) now certs (Some dev) p q info initial_dyn_state) = 0"
    using assms start [of x y]
    by (simp add: create_dynamic_server_for_device_def ssl initial_dyn_state_def Let_def case_prod_beta env_def good_env_def)
  show "requested_ssl certs info = (input_ssl, tunnel_ssl) \<Longrightarrow>
      fst (start_dynamic_server_at_index (good_env\<lparr>e_ctx_ok := b\<rparr>) now certs 0 dev p q input_ssl tunnel_ssl
             (initial_dyn_state\<lparr>servers := [zero_server], servers_count := 1\<rparr>)) = 0"
    using start by (simp add: env_def)
qed

lemma initial_create_good:
  "p \<noteq> 0 \<Longrightarrow> q \<noteq> 0 \<Longrightarrow> fst (create_dynamic_server_for_device good_env now certs (Some dev) p q info initial_dyn_state) = 0"
  using initial_create(1) [of p q True now certs dev info] by (simp add: good_env_def)

theorem ensure_gives_healthy_server_witness:
  "\<exists>i st'. ensure_dynamic_server_for_device good_env good_env 5 (Some (''c'', ''k'')) None (Some ''A'') 6000 6001
       (Some (zero_device_info\<lparr>di_enable_tunnel_ssl := True\<rparr>)) initial_dyn_state = (i, st') \<and> 0 \<le> i \<and>
     (\<exists>r \<in> set (g_dynamic_runtimes st'). runtime_healthy 6000 6001 False True st' r)"
proof -
  let ?info = "zero_device_info\<lparr>di_enable_tunnel_ssl := True\<rparr>"
  have "stop_dynamic_runtimes_for_device (Some ''A'') 6000 6001 initial_dyn_state = initial_dyn_state"
    by (rule stop_nothing) (simp add: initial_dyn_state_def zero_runtime_def)
  then have e: "ensure_dynamic_server_for_device good_env good_env 5 (Some (''c'', ''k'')) None (Some ''A'') 6000 6001
       (Some ?info) initial_dyn_state =
      create_dynamic_server_for_device good_env 5 (Some (''c'', ''k'')) (Some ''A'') 6000 6001 (Some ?info) initial_dyn_state"
    using ensure_cases [OF initial_dyn_state_facts(1), where info = "Some ?info" and loaded = None and p = 6000 and q = 6001
        and certs = "Some (''c'', ''k'')"]
    by (simp add: requested_ssl_def initial_dyn_state_facts)
  obtain i st' where c: "create_dynamic_server_for_device good_env 5 (Some (''c'', ''k'')) (Some ''A'') 6000 6001 (Some ?info) initial_dyn_state = (i, st')"
    by fastforce
  have "i = 0" using initial_create_good [of 6000 6001 5 "Some (''c'', ''k'')" "''A''" "Some ?info"] c by simp
  with c e ensure_gives_healthy_server [OF initial_dyn_state_facts(1,2), of "Some (''c'', ''k'')" good_env good_env 5 None "''A''" 6000 6001 ?info i st']
  show ?thesis by (auto simp: good_env_def zero_device_info_def)
qed

lemma stop_no_match:
  assumes "\<And>r. r \<in> set (g_dynamic_runtimes st) \<Longrightarrow> rt_connections_data r \<noteq> None \<Longrightarrow> \<not> runtime_matches dev p q r"
  shows "stop_dynamic_runtimes_for_device dev p q st = st"
  unfolding stop_dynamic_runtimes_for_device_def
  by (rule fold_invariant [where Q = "\<lambda>i. i < length (g_dynamic_runtimes st)"]) (use assms in \<open>auto simp: Let_def\<close>)

text \<open>
  A pair of listeners is reused without regard to whose it is: when the ports given to device B are
  still served by a healthy runtime registered for another device (its session expired in the
  database, which stops no proxy), \<open>ensure\<close> for B returns that runtime and changes nothing, and a later
  stop request for B finds nothing to stop.
\<close>

theorem ensure_reuses_foreign_runtime:
  assumes "p \<noteq> 0" and "q \<noteq> 0" and "B \<noteq> []"
    and "requested_ssl certs (Some info) = (input_ssl, tunnel_ssl)"
    and "find_healthy_dynamic_server p q input_ssl tunnel_ssl st \<ge> 0"
    and "\<And>r. r \<in> set (g_dynamic_runtimes st) \<Longrightarrow> rt_connections_data r \<noteq> None \<Longrightarrow> rt_device_id r \<noteq> B"
  shows "ensure_dynamic_server_for_device env env' now certs loaded (Some B) p q (Some info) st =
           (find_healthy_dynamic_server p q input_ssl tunnel_ssl st, st) \<and>
         stop_dynamic_server_for_device (Some B) p q st = (0, st)"
proof -
  have "stop_dynamic_runtimes_for_device (Some B) p q st = st"
    by (rule stop_no_match) (use assms(3,6) in \<open>auto simp: runtime_matches_def\<close>)
  with assms show ?thesis
    by (simp add: ensure_dynamic_server_for_device_def stop_dynamic_server_for_device_def Let_def)
qed

text \<open>
  Dynamic slots below \<open>servers_count\<close> are all enabled at all times (stopping disables only the running
  copy), so the search for a stopped slot never succeeds: every stop and restart of a device's server appends a new
  entry to the array, and the count only grows.
\<close>

theorem restart_takes_new_slot:
  assumes "slots_enabled st" and "p \<noteq> 0" and "q \<noteq> 0"
    and "requested_ssl certs (Some info) = (input_ssl, tunnel_ssl)"
    and "stop_dynamic_server_for_device (Some dev) p q st = (rc, st1)"
    and "find_healthy_dynamic_server p q input_ssl tunnel_ssl st1 < 0"
    and "ensure_dynamic_server_for_device env env' now certs loaded (Some dev) p q (Some info) st1 = (i, st2)" and "0 \<le> i"
  shows "find_stopped_dynamic_server dev p q st1 = -1 \<and> i = int (unat (servers_count st)) \<and>
         servers_count st2 = servers_count st + 1 \<and> slots_enabled st2"
proof -
  have st1: "st1 = stop_dynamic_runtimes_for_device (Some dev) p q st"
    using assms(5) by (simp add: stop_dynamic_server_for_device_def)
  then have inv1: "slots_enabled st1" using assms(1) by (simp add: stop_slots_enabled)
  let ?st1 = "stop_dynamic_runtimes_for_device (Some dev) p q st1"
  have c: "create_dynamic_server_for_device env' now certs (Some dev) p q (Some info) ?st1 = (i, st2)"
    using ensure_cases [OF inv1 assms(2,3), of certs loaded "Some info" input_ssl tunnel_ssl env env' now dev] assms(4,6,7)
    by simp
  have "slots_enabled ?st1" using inv1 by (simp add: stop_slots_enabled)
  from create_slots_enabled [OF c this] assms(8) find_stopped_none [OF inv1] show ?thesis by (simp add: st1)
qed

section \<open>Descriptor 0\<close>

lemma os_close_length [simp]: "length (os_close fd t) = length t"
  by (simp add: os_close_def)

lemma os_close_keeps_closed: "i < length t \<Longrightarrow> t ! i = None \<Longrightarrow> os_close fd t ! i = None"
  by (cases "nat fd = i") (simp_all add: os_close_def)

lemma close_local_sockets_keeps_closed:
  "i < length t \<Longrightarrow> t ! i = None \<Longrightarrow> snd (close_local_sockets ss t) ! i = None \<and> length (snd (close_local_sockets ss t)) = length t"
proof (induction ss arbitrary: t)
  case Nil
  then show ?case by simp
next
  case (Cons s ss)
  then show ?case by (simp add: Let_def case_prod_beta os_close_keeps_closed)
qed

lemma close_local_sockets_zero:
  assumes "zero_local_socket \<in> set ss" and "t \<noteq> []"
  shows "snd (close_local_sockets ss t) ! 0 = None \<and> length (snd (close_local_sockets ss t)) = length t"
  using assms
proof (induction ss arbitrary: t)
  case Nil
  then show ?case by simp
next
  case (Cons s ss)
  show ?case
  proof (cases "s = zero_local_socket")
    case True
    have "os_close 0 (os_close 0 t) ! 0 = None" using Cons.prems(2) by (simp add: os_close_def)
    with Cons.prems(2) close_local_sockets_keeps_closed [of 0 "os_close 0 (os_close 0 t)" ss] True
    show ?thesis by (simp add: zero_local_socket_def Let_def case_prod_beta)
  next
    case False
    let ?t1 = "if ls_input_local s \<ge> 0 then os_close (ls_input_local s) t else t"
    let ?t2 = "if ls_output_local s \<ge> 0 then os_close (ls_output_local s) ?t1 else ?t1"
    have len: "length ?t2 = length t" by simp
    with Cons.prems have "?t2 \<noteq> []" by (metis length_0_conv)
    with Cons.IH [of ?t2] Cons.prems False len show ?thesis by (simp add: Let_def case_prod_beta)
  qed
qed

lemma stop_runtime_fds:
  assumes "heap st a = Some td" and "ps_device_id (td_data td) = dev \<or> ps_device_id (td_data td) = [] \<or> dev = []"
  shows "fds (stop_dynamic_server_runtime (Some a) (Some dev) st) =
    (let t = snd (close_local_sockets (td_local_sockets td) (fds st));
         t' = (if ps_input (td_data td) \<ge> 0 then os_close (ps_input (td_data td)) t else t)
     in if ps_output (td_data td) \<ge> 0 then os_close (ps_output (td_data td)) t' else t')"
  using assms by (auto simp: stop_dynamic_server_runtime_def Let_def case_prod_beta)

text \<open>
  Stopping a device's server closes descriptor 0: a connection slot that was never used holds the descriptor
  number 0 from the zeroed allocation, and the stop loop closes every number that is not negative. Afterwards
  whatever had descriptor 0, such as another device's listener, no longer accepts, and the next
  socket the process creates is given that number.
\<close>

theorem stop_closes_descriptor_zero:
  assumes "heap st a = Some td" and "ps_device_id (td_data td) = dev"
    and "zero_local_socket \<in> set (td_local_sockets td)" and "fds st \<noteq> []"
  shows "fds (stop_dynamic_server_runtime (Some a) (Some dev) st) ! 0 = None \<and>
         \<not> os_accepting 0 (fds (stop_dynamic_server_runtime (Some a) (Some dev) st)) \<and>
         fst (os_socket (fds (stop_dynamic_server_runtime (Some a) (Some dev) st))) = 0"
proof -
  let ?t = "snd (close_local_sockets (td_local_sockets td) (fds st))"
  let ?t' = "fds (stop_dynamic_server_runtime (Some a) (Some dev) st)"
  have t: "?t ! 0 = None" "length ?t = length (fds st)" using close_local_sockets_zero [OF assms(3,4)] by blast+
  have "?t' ! 0 = None \<and> length ?t' = length (fds st)"
    using assms t by (simp add: stop_runtime_fds Let_def os_close_keeps_closed)
  moreover from this assms(4) obtain xs where "?t' = None # xs" by (cases ?t') auto
  ultimately show ?thesis by (simp add: os_accepting_def os_socket_def)
qed

theorem stop_closes_descriptor_zero_witness:
  "fds (stop_dynamic_server_runtime (Some 0) (Some ''A'')
     (initial_dyn_state\<lparr>heap := (\<lambda>_. None)(0 \<mapsto>
        \<lparr>td_local_sockets = replicate 25 zero_local_socket, td_data = fresh_dynamic_server 0 ''A'' 6000 6001\<rparr>)\<rparr>)) ! 0 = None"
  using stop_closes_descriptor_zero [of "initial_dyn_state\<lparr>heap := (\<lambda>_. None)(0 \<mapsto>
        \<lparr>td_local_sockets = replicate 25 zero_local_socket, td_data = fresh_dynamic_server 0 ''A'' 6000 6001\<rparr>)\<rparr>" 0 _ "''A''"]
  by (simp add: initial_dyn_state_def fresh_dynamic_server_def cstring_simps)

text \<open>An example registry: one runtime, of device A on 6000/6001, healthy in slot 0.\<close>

definition example_runtime_server :: proxy_server where
  "example_runtime_server =
     (fresh_dynamic_server 0 ''A'' 6000 6001)\<lparr>ps_is_input_running := True, ps_is_output_running := True,
        ps_input := 3, ps_output := 4\<rparr>"

definition example_dyn_state :: dyn_state where
  "example_dyn_state =
     initial_dyn_state\<lparr>servers := [example_runtime_server], servers_count := 1,
       g_dynamic_runtimes := [runtime_entry ''A'' 6000 6001 0 0, zero_runtime],
       heap := (\<lambda>_. None)(0 \<mapsto> \<lparr>td_local_sockets = replicate 25 zero_local_socket, td_data = example_runtime_server\<rparr>),
       next_address := 1,
       fds := [Some Standard_stream, Some Standard_stream, Some Standard_stream, Some (Listener 6000), Some (Listener 6001)]\<rparr>"

lemma example_dyn_state_healthy: "find_healthy_dynamic_server 6000 6001 False False example_dyn_state = 0"
  by (simp add: find_healthy_dynamic_server_def example_dyn_state_def runtime_healthy_def runtime_entry_def
      example_runtime_server_def fresh_dynamic_server_def zero_server_def dynamic_runtime_ssl_matches_def
      is_runtime_listener_active_def os_accepting_def Let_def)

theorem ensure_reuses_foreign_runtime_witness:
  "ensure_dynamic_server_for_device good_env good_env 9 None None (Some ''B'') 6000 6001 (Some zero_device_info) example_dyn_state =
     (0, example_dyn_state) \<and>
   stop_dynamic_server_for_device (Some ''B'') 6000 6001 example_dyn_state = (0, example_dyn_state)"
proof -
  have "rt_device_id r \<noteq> ''B''" if "r \<in> set (g_dynamic_runtimes example_dyn_state)" for r
    using that by (auto simp: example_dyn_state_def runtime_entry_def zero_runtime_def cstring_simps)
  moreover have "requested_ssl None (Some zero_device_info) = (False, False)" by (simp add: requested_ssl_def)
  ultimately show ?thesis
    using ensure_reuses_foreign_runtime [of 6000 6001 "''B''" None zero_device_info False False example_dyn_state good_env good_env 9 None]
    by (simp add: example_dyn_state_healthy)
qed

section \<open>Contexts\<close>

lemma ssl_ctx_free_dead:
  "c \<notin> set (ssl_live st) \<Longrightarrow> c \<notin> set (ssl_live (ssl_ctx_free d st))"
  "ssl_double_frees st \<le> ssl_double_frees (ssl_ctx_free d st)"
  by (auto simp: ssl_ctx_free_def dest: notin_set_remove1)

lemma cleanup_all_ssl_mono: "ssl_double_frees st \<le> ssl_double_frees (snd (cleanup_all_ssl ss st))"
proof (induction ss arbitrary: st)
  case Nil
  then show ?case by simp
next
  case (Cons s ss)
  have "ssl_double_frees st \<le> ssl_double_frees (snd (cleanup_ssl_context s st))"
    by (simp add: cleanup_ssl_context_def ssl_ctx_free_dead split: option.split)
  also have "\<dots> \<le> ssl_double_frees (snd (cleanup_all_ssl ss (snd (cleanup_ssl_context s st))))" by (rule Cons.IH)
  finally show ?case by (simp add: case_prod_beta)
qed

lemma cleanup_all_ssl_double_free:
  assumes "s \<in> set ss" and "ps_ssl_ctx s = Some c" and "c \<notin> set (ssl_live st)"
  shows "ssl_double_frees st < ssl_double_frees (snd (cleanup_all_ssl ss st))"
  using assms(1,3)
proof (induction ss arbitrary: st)
  case Nil
  then show ?case by simp
next
  case (Cons t ss)
  let ?st1 = "snd (cleanup_ssl_context t st)"
  show ?case
  proof (cases "t = s")
    case True
    have "ssl_double_frees st < ssl_double_frees ?st1"
      using True assms(2) Cons.prems(2) by (simp add: cleanup_ssl_context_def ssl_ctx_free_def)
    also have "\<dots> \<le> ssl_double_frees (snd (cleanup_all_ssl ss ?st1))" by (rule cleanup_all_ssl_mono)
    finally show ?thesis by (simp add: case_prod_beta)
  next
    case False
    have "ssl_double_frees st \<le> ssl_double_frees ?st1" "c \<notin> set (ssl_live ?st1)"
      using Cons.prems(2) by (simp_all add: cleanup_ssl_context_def ssl_ctx_free_dead split: option.split)
    with Cons.IH [of ?st1] Cons.prems(1) False show ?thesis by (auto simp: case_prod_beta)
  qed
qed

lemma stop_runtime_ctx:
  assumes "heap st a = Some td" and "ps_device_id (td_data td) = dev" and "ps_ssl_ctx (td_data td) = Some c"
    and "distinct (ssl_live st)"
  shows "c \<notin> set (ssl_live (stop_dynamic_server_runtime (Some a) (Some dev) st))"
  using assms
  by (auto simp: stop_dynamic_server_runtime_def Let_def case_prod_beta cleanup_ssl_context_def ssl_ctx_free_def
      wait_for_runtime_threads_def)

text \<open>
  The TLS context of a stopped dynamic server is freed twice: the running copy and its array entry point to the same
  context; stopping frees it through the copy and clears only the copy's pointer, and the
  shutdown loop of \<open>switcher_servers_stop\<close> frees the entry's pointer again.
\<close>

theorem stopped_server_context_freed_twice:
  assumes "heap st a = Some td" and "ps_device_id (td_data td) = dev" and "ps_ssl_ctx (td_data td) = Some c"
    and "distinct (ssl_live st)"
    and "j < unat (servers_count st)" and "j < length (servers st)" and "ps_ssl_ctx (servers st ! j) = Some c"
  shows "ssl_double_frees (switcher_servers_stop (stop_dynamic_server_runtime (Some a) (Some dev) st)) >
         ssl_double_frees (stop_dynamic_server_runtime (Some a) (Some dev) st)"
proof -
  let ?st = "stop_dynamic_server_runtime (Some a) (Some dev) st"
  have "servers st ! j \<in> set (take (unat (servers_count ?st)) (servers ?st))"
    using assms(5,6) by (auto simp: in_set_conv_nth intro: exI [of _ j])
  from cleanup_all_ssl_double_free [OF this assms(7) stop_runtime_ctx [OF assms(1-4)]] show ?thesis
    by (simp add: switcher_servers_stop_def Let_def case_prod_beta)
qed

theorem stopped_server_context_freed_twice_witness:
  "let srv = (fresh_dynamic_server 0 ''A'' 6000 6001)\<lparr>ps_ssl_ctx := Some 7\<rparr>;
       st = initial_dyn_state\<lparr>servers := [srv], servers_count := 1, ssl_live := [7],
              heap := (\<lambda>_. None)(0 \<mapsto> \<lparr>td_local_sockets = [], td_data = srv\<rparr>)\<rparr>;
       st1 = stop_dynamic_server_runtime (Some 0) (Some ''A'') st
   in ssl_double_frees (switcher_servers_stop st1) > ssl_double_frees st1"
  unfolding Let_def
  by (rule stopped_server_context_freed_twice [where c = 7 and j = 0 and
        td = "\<lparr>td_local_sockets = [], td_data = (fresh_dynamic_server 0 ''A'' 6000 6001)\<lparr>ps_ssl_ctx := Some 7\<rparr>\<rparr>"])
    (simp_all add: fresh_dynamic_server_def cstring_simps)

theorem restart_takes_new_slot_witness:
  "\<exists>st1 i st2. stop_dynamic_server_for_device (Some ''A'') 6000 6001 initial_dyn_state = (0, st1) \<and>
     ensure_dynamic_server_for_device good_env good_env 9 None None (Some ''A'') 6000 6001 (Some zero_device_info) st1 = (i, st2) \<and>
     find_stopped_dynamic_server ''A'' 6000 6001 st1 = -1 \<and> i = 0 \<and> servers_count st2 = 1"
proof -
  have stop: "stop_dynamic_server_for_device (Some ''A'') 6000 6001 initial_dyn_state = (0, initial_dyn_state)"
    using stop_nothing [of initial_dyn_state "Some ''A''" 6000 6001]
    by (simp add: stop_dynamic_server_for_device_def initial_dyn_state_def zero_runtime_def)
  have ssl: "requested_ssl None (Some zero_device_info) = (False, False)" by (simp add: requested_ssl_def)
  obtain i st2 where e: "ensure_dynamic_server_for_device good_env good_env 9 None None (Some ''A'') 6000 6001 (Some zero_device_info) initial_dyn_state = (i, st2)"
    by fastforce
  moreover have "i = 0"
  proof -
    have "ensure_dynamic_server_for_device good_env good_env 9 None None (Some ''A'') 6000 6001 (Some zero_device_info) initial_dyn_state =
        create_dynamic_server_for_device good_env 9 None (Some ''A'') 6000 6001 (Some zero_device_info) initial_dyn_state"
      using ensure_cases [OF initial_dyn_state_facts(1), of 6000 6001 None None "Some zero_device_info" False False good_env good_env 9 "''A''"]
        stop ssl by (simp add: initial_dyn_state_facts stop_dynamic_server_for_device_def)
    moreover have "fst (create_dynamic_server_for_device good_env 9 None (Some ''A'') 6000 6001 (Some zero_device_info) initial_dyn_state) = 0"
      by (rule initial_create_good) simp_all
    ultimately show ?thesis using e by (metis fst_conv)
  qed
  ultimately show ?thesis
    using restart_takes_new_slot [OF initial_dyn_state_facts(1) _ _ ssl stop _ e] stop
    by (simp add: initial_dyn_state_facts)
qed

text \<open>
  TLS fails open: when the context cannot be created (unreadable certificate or key, key mismatch), a
  server that was to use TLS is started all the same, with TLS switched off on both sides, and reported as
  started.
\<close>

theorem tls_failure_starts_plain_listeners:
  assumes "start_dynamic_server_at_index env now certs index dev p q input_ssl tunnel_ssl st = (i, st')" and "0 \<le> i"
    and "\<not> e_ctx_ok env" and "input_ssl \<or> tunnel_ssl"
  shows "\<exists>a td. heap st' a = Some td \<and> ps_device_id (td_data td) = strncpy 64 dev \<and>
           is_runtime_listener_active st' (td_data td) p False \<and> is_runtime_listener_active st' (td_data td) q True \<and>
           \<not> ps_enable_input_ssl (td_data td) \<and> \<not> ps_enable_output_ssl (td_data td) \<and> ps_ssl_ctx (td_data td) = None"
proof -
  from assms(1,2) obtain srv1 st1 srv a t where
    1: "apply_dynamic_server_ssl_config env certs input_ssl tunnel_ssl (fresh_dynamic_server now dev p q)
       (cleanup_dynamic_server_slot index st) = (srv1, st1)"
    and srv: "ps_enable_input_ssl srv = ps_enable_input_ssl srv1" "ps_enable_output_ssl srv = ps_enable_output_ssl srv1"
      "ps_device_id srv = strncpy 64 dev" "ps_ssl_ctx srv = ps_ssl_ctx srv1"
    and st': "st' = register_dynamic_server_runtime dev p q index a
       (put_server index srv (st1\<lparr>fds := t, heap := (heap st1)(a \<mapsto> \<lparr>td_local_sockets = replicate count_socket_thread zero_local_socket, td_data = srv\<rparr>), next_address := Suc a\<rparr>))"
    and act: "is_runtime_listener_active st' srv p False" "is_runtime_listener_active st' srv q True"
    by (rule start_success)
  have "\<not> ps_enable_input_ssl srv1 \<and> \<not> ps_enable_output_ssl srv1 \<and> ps_ssl_ctx srv1 = None"
    using 1 assms(3,4)
    by (auto simp: apply_dynamic_server_ssl_config_def init_ssl_context_def create_server_ssl_context_def
        fresh_dynamic_server_def zero_server_def Let_def split: if_splits option.splits)
  with srv act show ?thesis
    by (intro exI [of _ a] exI [of _ "\<lparr>td_local_sockets = replicate count_socket_thread zero_local_socket, td_data = srv\<rparr>"])
      (simp add: st')
qed

theorem tls_failure_starts_plain_listeners_witness:
  "\<exists>st' a td. start_dynamic_server_at_index (good_env\<lparr>e_ctx_ok := False\<rparr>) 5 (Some (''c'', ''k'')) 0 ''A'' 6000 6001 True True
       (initial_dyn_state\<lparr>servers := [zero_server], servers_count := 1\<rparr>) = (0, st') \<and>
     heap st' a = Some td \<and> \<not> ps_enable_input_ssl (td_data td) \<and> \<not> ps_enable_output_ssl (td_data td)"
proof -
  let ?info = "zero_device_info\<lparr>di_enable_input_ssl := True, di_enable_tunnel_ssl := True\<rparr>"
  obtain i st' where s: "start_dynamic_server_at_index (good_env\<lparr>e_ctx_ok := False\<rparr>) 5 (Some (''c'', ''k'')) 0 ''A'' 6000 6001 True True
       (initial_dyn_state\<lparr>servers := [zero_server], servers_count := 1\<rparr>) = (i, st')" by fastforce
  moreover have "i = 0"
    using initial_create(2) [of 6000 6001 "Some (''c'', ''k'')" "Some ?info" True True False 5 "''A''"] s
    by (simp add: requested_ssl_def)
  ultimately show ?thesis
    using tls_failure_starts_plain_listeners [OF s] by (auto simp: good_env_def)
qed

end
