(* ===== verification/Device_Manager.thy ===== *)
theory Device_Manager
  imports Port_Ownership TLS_Reload Dynamic_Properties
begin

text \<open>
  The control plane of \<open>src/server/proxy/server/device_manager.c\<close>: the life cycle of the manager and the handling
  of one control connection, from the bytes read to the response written and the effects on the
  rate limiter, the tables, the dynamic servers and the TLS-reload flags, which are the components of \<open>dm_state\<close>.

  The JSON library (jansson) is a parameter: parsing, member look-up and the type tests with their values. A
  response is the list of members the handler sets, in order. What the outside world answers while a request is
  handled (statement results, \<open>SHA256\<close>, \<open>rand_r\<close>, system calls, the clock) is the record \<open>dm_env\<close>; one request is
  handled within one second of the clock. A handler is \<open>None\<close> when the rate limiter's behaviour is undefined.
\<close>

section \<open>JSON\<close>

datatype jview = JString string | JInteger int | JBoolean bool | JObject | JOther

record 'j jansson =
  json_loads :: "string \<Rightarrow> 'j option"
  json_object_get :: "'j \<Rightarrow> string \<Rightarrow> 'j option"
  json_view :: "'j \<Rightarrow> jview"

datatype jvalue = RString string | RInteger int | RBoolean bool

type_synonym response = "(string \<times> jvalue) list"

text \<open>\<open>json_is_string\<close> with \<open>json_string_value\<close>, and \<open>json_is_integer\<close> with \<open>json_integer_value\<close>, on a member.\<close>

definition string_member :: "'j jansson \<Rightarrow> 'j \<Rightarrow> string \<Rightarrow> string option" where
  "string_member J root key =
     (case json_object_get J root key of None \<Rightarrow> None
      | Some v \<Rightarrow> (case json_view J v of JString s \<Rightarrow> Some s | _ \<Rightarrow> None))"

definition integer_member :: "'j jansson \<Rightarrow> 'j \<Rightarrow> string \<Rightarrow> int option" where
  "integer_member J root key =
     (case json_object_get J root key of None \<Rightarrow> None
      | Some v \<Rightarrow> (case json_view J v of JInteger n \<Rightarrow> Some n | _ \<Rightarrow> None))"

definition object_member :: "'j jansson \<Rightarrow> 'j \<Rightarrow> string \<Rightarrow> 'j option" where
  "object_member J root key =
     (case json_object_get J root key of None \<Rightarrow> None
      | Some v \<Rightarrow> (case json_view J v of JObject \<Rightarrow> Some v | _ \<Rightarrow> None))"

definition error_response :: "string \<Rightarrow> response" where
  "error_response message = [(''status'', RString ''error''), (''message'', RString message)]"

section \<open>State\<close>

record device_manager_config =
  control_port :: u16
  port_range_start :: u16
  port_range_end :: u16
  heartbeat_interval :: u32
  session_timeout :: u32
  max_devices :: u32
  enable_ssl :: bool
  ssl_cert_file :: string
  ssl_key_file :: string
  db_host :: string
  db_name :: string
  db_user :: string
  db_password :: string

definition DEFAULT_CONFIG :: device_manager_config where
  "DEFAULT_CONFIG =
     \<lparr>control_port = 8443, port_range_start = 6000, port_range_end = 7000, heartbeat_interval = 30,
      session_timeout = 3600, max_devices = 1001, enable_ssl = False, ssl_cert_file = [], ssl_key_file = [],
      db_host = ''127.0.0.1'', db_name = ''net_port'', db_user = ''net_port_user'', db_password = []\<rparr>"

record dm_state =
  g_config :: device_manager_config
  g_initialized :: bool
  g_running :: bool
  g_ssl_ctx :: bool
  g_control_socket :: bool
  g_tls_reload_pending :: "string list"
  sec :: security_state
  db :: device_db
  dyn :: dyn_state

record dm_env =
  now :: time_t
  SHA256 :: "string \<Rightarrow> u8 list"
  rand_r :: "u32 \<Rightarrow> nat \<times> u32"
  address :: u64
  db_ok :: "nat \<Rightarrow> bool"
  locked :: "int \<Rightarrow> bool"
  realloc_ok :: bool
  restart_env :: start_env
  create_env :: start_env
  send_ok :: bool

section \<open>Life cycle\<close>

definition create_ssl_context :: "bool \<Rightarrow> bool \<Rightarrow> dm_state \<Rightarrow> int \<times> dm_state" where
  "create_ssl_context ctx_new_ok files_ok st =
     (if \<not> enable_ssl (g_config st) then (0, st)
      else if ssl_cert_file (g_config st) = [] \<or> ssl_key_file (g_config st) = [] then (-1, st)
      else if \<not> ctx_new_ok then (-1, st\<lparr>g_ssl_ctx := False\<rparr>)
      else if \<not> files_ok then (-1, st\<lparr>g_ssl_ctx := False\<rparr>)
      else (0, st\<lparr>g_ssl_ctx := True\<rparr>))"

definition device_manager_init ::
  "bool \<Rightarrow> bool \<Rightarrow> bool \<Rightarrow> device_manager_config option \<Rightarrow> dm_state \<Rightarrow> int \<times> dm_state" where
  "device_manager_init ctx_new_ok files_ok calloc_ok config st =
     (if g_initialized st then (0, st)
      else
        let st1 = st\<lparr>g_config := (case config of None \<Rightarrow> DEFAULT_CONFIG | Some c \<Rightarrow> c)\<rparr>;
            (rc, st2) = (if enable_ssl (g_config st1) then create_ssl_context ctx_new_ok files_ok st1 else (0, st1))
        in if rc \<noteq> 0 then (-1, st2)
           else (0, st2\<lparr>sec := snd (security_features_init calloc_ok (sec st2)), g_initialized := True\<rparr>))"

definition device_manager_ssl_certs_configured :: "dm_state \<Rightarrow> bool" where
  "device_manager_ssl_certs_configured st \<longleftrightarrow>
     g_initialized st \<and> ssl_cert_file (g_config st) \<noteq> [] \<and> ssl_key_file (g_config st) \<noteq> []"

definition device_manager_get_ssl_cert_paths :: "nat \<Rightarrow> nat \<Rightarrow> dm_state \<Rightarrow> (string \<times> string) option" where
  "device_manager_get_ssl_cert_paths cert_size key_size st =
     (if cert_size = 0 \<or> key_size = 0 then None
      else if \<not> device_manager_ssl_certs_configured st then None
      else Some (strncpy (cert_size - 1) (ssl_cert_file (g_config st)), strncpy (key_size - 1) (ssl_key_file (g_config st))))"

text \<open>What the dynamic servers, with their 256-byte path fields, see of the certificates.\<close>

abbreviation tunnel_certs :: "dm_state \<Rightarrow> (string \<times> string) option" where
  "tunnel_certs st \<equiv> device_manager_get_ssl_cert_paths 256 256 st"

text \<open>\<open>listen_ok\<close>: the control socket was created, bound and is listening; \<open>thread_ok\<close>: its thread was created.\<close>

definition device_manager_start :: "(nat \<Rightarrow> bool) \<Rightarrow> time_t \<Rightarrow> bool \<Rightarrow> bool \<Rightarrow> dm_state \<Rightarrow> int \<times> dm_state" where
  "device_manager_start ok t listen_ok thread_ok st =
     (if \<not> g_initialized st then (-1, st)
      else if g_running st then (0, st)
      else if \<not> listen_ok then (-1, st\<lparr>g_control_socket := False\<rparr>)
      else
        let st1 = st\<lparr>g_control_socket := True, db := snd (cleanup_round ok t (db st))\<rparr>
        in if \<not> thread_ok then (-1, st1\<lparr>g_running := False, g_control_socket := False\<rparr>)
           else (0, st1\<lparr>g_running := True\<rparr>))"

definition device_manager_stop :: "dm_state \<Rightarrow> int \<times> dm_state" where
  "device_manager_stop st =
     (if \<not> g_running st then (0, st)
      else (0, st\<lparr>g_running := False, g_control_socket := False, g_ssl_ctx := False,
                  sec := security_features_cleanup (sec st)\<rparr>))"

definition is_local_control_request :: "string option \<Rightarrow> bool" where
  "is_local_control_request client_ip =
     (case client_ip of None \<Rightarrow> False
      | Some ip \<Rightarrow> ip = ''127.0.0.1'' \<or> ip = ''::1'' \<or> ip = ''0.0.0.0'')"

section \<open>Ending sessions\<close>

definition stop_device_server :: "string \<Rightarrow> u16 \<Rightarrow> u16 \<Rightarrow> dm_state \<Rightarrow> dm_state" where
  "stop_device_server dev p q st = st\<lparr>dyn := snd (stop_dynamic_server_for_device (Some dev) p q (dyn st))\<rparr>"

definition terminate_device_session :: "dm_env \<Rightarrow> string option \<Rightarrow> dm_state \<Rightarrow> int \<times> dm_state" where
  "terminate_device_session env session_token st =
     (case session_token of None \<Rightarrow> (-1, st)
      | Some token \<Rightarrow>
          (case get_session_by_token (db_ok env) (Some token) (db st) of
             (None, db1) \<Rightarrow> (-1, st\<lparr>db := db1\<rparr>)
           | (Some session, db1) \<Rightarrow>
               let st1 = st\<lparr>db := db1\<rparr>;
                   st2 = (if ds_assigned_port session \<noteq> 0
                          then stop_device_server (ds_device_id session) (ds_assigned_port session)
                                 (ds_assigned_port session + 1) st1
                          else st1);
                   (rc, db2) = terminate_session_rows (db_ok env) (now env) token (ds_assigned_port session) (db st2)
               in (rc, st2\<lparr>db := db2\<rparr>)))"

text \<open>At most eight ports are collected; a device with no active session has all its runtimes stopped.\<close>

definition terminate_device_by_device_id :: "dm_env \<Rightarrow> string option \<Rightarrow> dm_state \<Rightarrow> int \<times> dm_state" where
  "terminate_device_by_device_id env device_id st =
     (case device_id of None \<Rightarrow> (-1, st)
      | Some dev \<Rightarrow>
          (case exec_stmt (db_ok env)
                  (\<lambda>db. Some (filter (\<lambda>s. s_status s = ''active'') (sessions_of_device dev db), db)) (db st) of
             (None, db1) \<Rightarrow> (-1, st\<lparr>db := db1\<rparr>)
           | (Some sessions, db1) \<Rightarrow>
               let ports = take 8 (filter (\<lambda>p. p \<noteq> 0) (map (\<lambda>s. word_of_int (s_assigned_port s) :: u16) sessions));
                   st1 = fold (\<lambda>p. stop_device_server dev p (p + 1)) ports (st\<lparr>db := db1\<rparr>);
                   st2 = (if sessions = [] then stop_device_server dev 0 0 st1 else st1);
                   (rc, db2) = terminate_device_rows (db_ok env) (now env) dev (db st2)
               in (rc, st2\<lparr>db := db2\<rparr>)))"

section \<open>Reloading TLS\<close>

fun latest_session :: "ses_row list \<Rightarrow> ses_row option" where
  "latest_session [] = None"
| "latest_session (s # ss) =
     (case latest_session ss of None \<Rightarrow> Some s
      | Some t \<Rightarrow> Some (if s_started_at t > s_started_at s then t else s))"

definition ensure_device_server ::
  "dm_env \<Rightarrow> string \<Rightarrow> u16 \<Rightarrow> u16 \<Rightarrow> device_info \<Rightarrow> dm_state \<Rightarrow> int \<times> dm_state" where
  "ensure_device_server env dev p q info st =
     (case ensure_dynamic_server_for_device (restart_env env) (create_env env) (now env) (tunnel_certs st) None
             (Some dev) p q (Some info) (dyn st) of
        (i, d) \<Rightarrow> (i, st\<lparr>dyn := d\<rparr>))"

definition reload_dynamic_server_tls_for_device :: "dm_env \<Rightarrow> string option \<Rightarrow> dm_state \<Rightarrow> int \<times> dm_state" where
  "reload_dynamic_server_tls_for_device env device_id st =
     (case device_id of None \<Rightarrow> (-1, st)
      | Some dev \<Rightarrow>
          if dev = [] then (-1, st)
          else
            (case exec_stmt (db_ok env)
                    (\<lambda>db. Some (latest_session (filter (\<lambda>s. s_status s = ''active'' \<and> s_expires_at s > now env)
                                  (sessions_of_device dev db)), db)) (db st) of
               (None, db1) \<Rightarrow> (-1, st\<lparr>db := db1\<rparr>)
             | (Some row, db1) \<Rightarrow>
                 let input_port = (case row of None \<Rightarrow> 0 | Some s \<Rightarrow> (word_of_int (s_assigned_port s) :: u16))
                 in if input_port = 0 then (0, st\<lparr>db := db1\<rparr>)
                    else
                      (case device_manager_load_device_by_id (db_ok env) (Some dev) db1 of
                         (None, db2) \<Rightarrow> (-1, st\<lparr>db := db2\<rparr>)
                       | (Some info, db2) \<Rightarrow>
                           let st1 = stop_device_server dev input_port (input_port + 1) (st\<lparr>db := db2\<rparr>);
                               (i, st2) = ensure_device_server env dev input_port (input_port + 1) info st1
                           in if i < 0 then (-1, st2)
                              else (0, st2\<lparr>g_tls_reload_pending :=
                                     device_manager_set_tls_reload_pending (Some dev) (g_tls_reload_pending st2)\<rparr>))))"

section \<open>Requests\<close>

definition process_registration_request ::
  "'j jansson \<Rightarrow> dm_env \<Rightarrow> 'j \<Rightarrow> string option \<Rightarrow> dm_state \<Rightarrow> (response \<times> dm_state) option" where
  "process_registration_request J env request client_ip st =
     (case (string_member J request ''device_id'', string_member J request ''auth_token'') of
        (Some device_id, Some auth_token) \<Rightarrow>
          (case validate_device_token (now env) (realloc_ok env) (Some device_id) (Some auth_token) client_ip (sec st) of
             None \<Rightarrow> None
           | Some (v, sec1) \<Rightarrow>
               let st1 = st\<lparr>sec := sec1\<rparr>
               in if v \<noteq> 0 then Some (error_response ''Rate limit exceeded'', st1)
                  else
                    (case device_authenticate (SHA256 env) (db_ok env) (Some device_id) (Some auth_token) (db st1) of
                       (None, db1) \<Rightarrow> Some (error_response ''Authentication failed'', st1\<lparr>db := db1\<rparr>)
                     | (Some info0, db1) \<Rightarrow>
                         (case register_device_session (rand_r env) (db_ok env) (locked env) (now env)
                                 (session_timeout (g_config st1)) (address env) device_id None 257 db1 of
                            (None, db2) \<Rightarrow> Some (error_response ''Failed to create session'', st1\<lparr>db := db2\<rparr>)
                          | (Some (token, input_port, tunnel_port), db2) \<Rightarrow>
                              let info = info0\<lparr>di_tunnel_port := tunnel_port, di_assigned_port := input_port\<rparr>;
                                  (i, st2) = ensure_device_server env device_id input_port tunnel_port info (st1\<lparr>db := db2\<rparr>)
                              in if i < 0 then
                                   Some (error_response ''Failed to start device proxy'',
                                         snd (terminate_device_session env (Some token) st2))
                                 else
                                   let certs = device_manager_ssl_certs_configured st2
                                   in Some
                                     ([(''status'', RString ''authenticated''),
                                       (''assigned_port'', RInteger (uint input_port)),
                                       (''tunnel_port'', RInteger (uint tunnel_port)),
                                       (''input_tls'', RBoolean (di_enable_input_ssl info \<and> certs)),
                                       (''tunnel_tls'', RBoolean (di_enable_tunnel_ssl info \<and> certs)),
                                       (''session_token'', RString token),
                                       (''heartbeat_interval'', RInteger (uint (heartbeat_interval (g_config st2)))),
                                       (''server_time'', RInteger (now env))] @
                                      (if di_internal_address info \<noteq> []
                                       then [(''internal_address'', RString (di_internal_address info))] else []) @
                                      (if di_internal_port info \<noteq> 0
                                       then [(''internal_port'', RInteger (uint (di_internal_port info)))] else []),
                                      st2))))
      | _ \<Rightarrow> Some (error_response ''Missing device_id or auth_token'', st))"

text \<open>
  The traffic figures of a heartbeat: \<open>statistics\<close> first, then \<open>traffic\<close>, whose connection count
  overrides and whose byte counts serve only when \<open>statistics\<close> had none.
\<close>

definition heartbeat_statistics :: "'j jansson \<Rightarrow> 'j \<Rightarrow> u64 \<times> u64 \<times> u32 \<times> bool" where
  "heartbeat_statistics J request =
     (case object_member J request ''statistics'' of None \<Rightarrow> (0, 0, 0, False)
      | Some o' \<Rightarrow>
          let connections = (case integer_member J o' ''connections'' of None \<Rightarrow> 0 | Some n \<Rightarrow> word_of_int n)
          in case (integer_member J o' ''bytes_sent'', integer_member J o' ''bytes_received'') of
               (Some a, Some b) \<Rightarrow> (word_of_int a, word_of_int b, connections, True)
             | _ \<Rightarrow> (0, 0, connections, False))"

definition heartbeat_traffic :: "'j jansson \<Rightarrow> 'j \<Rightarrow> u64 \<times> u64 \<times> u32 \<times> bool \<Rightarrow> u64 \<times> u64 \<times> u32 \<times> bool" where
  "heartbeat_traffic J request figures =
     (case figures of (sent, received, connections, has_traffic) \<Rightarrow>
        (case object_member J request ''traffic'' of None \<Rightarrow> figures
         | Some o' \<Rightarrow>
             let connections' = (case integer_member J o' ''active_connections'' of None \<Rightarrow> connections | Some n \<Rightarrow> word_of_int n)
             in if has_traffic then (sent, received, connections', True)
                else case (integer_member J o' ''bytes_sent'', integer_member J o' ''bytes_received'') of
                       (Some a, Some b) \<Rightarrow> (word_of_int a, word_of_int b, connections', True)
                     | _ \<Rightarrow> (sent, received, connections', False)))"

text \<open>The part of a heartbeat that makes sure the device's tunnel is up.\<close>

definition heartbeat_ensure :: "dm_env \<Rightarrow> string \<Rightarrow> dm_state \<Rightarrow> dm_state" where
  "heartbeat_ensure env token st =
     (case get_session_by_token (db_ok env) (Some token) (db st) of
        (None, db1) \<Rightarrow> st\<lparr>db := db1\<rparr>
      | (Some session, db1) \<Rightarrow>
          let st1 = st\<lparr>db := db1\<rparr>
          in if ds_assigned_port session = 0 then st1
             else
               let (loaded, db2) = device_manager_load_device_by_id (db_ok env) (Some (ds_device_id session)) db1;
                   info = (case loaded of Some i \<Rightarrow> i
                           | None \<Rightarrow> zero_device_info\<lparr>di_device_id := strncpy 64 (ds_device_id session)\<rparr>)
               in snd (ensure_device_server env (ds_device_id session) (ds_assigned_port session)
                         (ds_assigned_port session + 1) info (st1\<lparr>db := db2\<rparr>)))"

definition heartbeat_record :: "dm_env \<Rightarrow> string \<Rightarrow> u64 \<times> u64 \<times> u32 \<times> bool \<Rightarrow> device_db \<Rightarrow> device_db" where
  "heartbeat_record env token figures db0 =
     (case figures of (sent, received, connections, has_traffic) \<Rightarrow>
        let db2 = (if has_traffic then
                     let db1 = snd (update_device_statistics (db_ok env) (now env) (Some token) sent received connections db0)
                     in snd (aggregate_device_hourly_statistics (db_ok env) (now env) (Some token) sent received connections db1)
                   else db0)
        in snd (record_device_traffic_sample (db_ok env) (now env) (Some token) sent received connections db2))"

definition heartbeat_tls :: "dm_env \<Rightarrow> string \<Rightarrow> dm_state \<Rightarrow> response \<times> dm_state" where
  "heartbeat_tls env token st =
     (case get_session_by_token (db_ok env) (Some token) (db st) of
        (None, db1) \<Rightarrow> ([], st\<lparr>db := db1\<rparr>)
      | (Some session, db1) \<Rightarrow>
          let (loaded, db2) = device_manager_load_device_by_id (db_ok env) (Some (ds_device_id session)) db1;
              info = (case loaded of Some i \<Rightarrow> i | None \<Rightarrow> zero_device_info);
              certs = device_manager_ssl_certs_configured st;
              (flag, pending) = device_manager_consume_tls_reload_pending (Some (ds_device_id session)) (g_tls_reload_pending st)
          in ([(''input_tls'', RBoolean (di_enable_input_ssl info \<and> certs)),
               (''tunnel_tls'', RBoolean (di_enable_tunnel_ssl info \<and> certs))] @
              (if flag then [(''reload_tls'', RBoolean True)] else []),
              st\<lparr>db := db2, g_tls_reload_pending := pending\<rparr>))"

definition process_heartbeat_request ::
  "'j jansson \<Rightarrow> dm_env \<Rightarrow> 'j \<Rightarrow> string option \<Rightarrow> dm_state \<Rightarrow> (response \<times> dm_state) option" where
  "process_heartbeat_request J env request client_ip st =
     (case string_member J request ''session_token'' of
        None \<Rightarrow> Some (error_response ''Missing session_token'', st)
      | Some token \<Rightarrow>
          (case validate_session_token_security (now env) (realloc_ok env) (Some token) client_ip (sec st) of
             None \<Rightarrow> None
           | Some (v, sec1) \<Rightarrow>
               let st1 = st\<lparr>sec := sec1\<rparr>
               in if v \<noteq> 0 then Some (error_response ''Rate limit exceeded'', st1)
                  else
                    let (rc, db1) = update_device_heartbeat (db_ok env) (now env) (session_timeout (g_config st1)) token (db st1);
                        st2 = st1\<lparr>db := db1\<rparr>
                    in if rc \<noteq> 0 then
                         Some (error_response ''Session terminated'' @ [(''force_disconnect'', RBoolean True)], st2)
                       else
                         let st3 = heartbeat_ensure env token st2;
                             figures = heartbeat_traffic J request (heartbeat_statistics J request);
                             st4 = st3\<lparr>db := heartbeat_record env token figures (db st3)\<rparr>;
                             (tls, st5) = heartbeat_tls env token st4
                         in Some (tls @ [(''status'', RString ''ok''), (''timestamp'', RInteger (now env))], st5)))"

definition process_statistics_request :: "'j jansson \<Rightarrow> dm_env \<Rightarrow> 'j \<Rightarrow> dm_state \<Rightarrow> response \<times> dm_state" where
  "process_statistics_request J env request st =
     (case string_member J request ''session_token'' of
        None \<Rightarrow> (error_response ''Missing session_token'', st)
      | Some token \<Rightarrow>
          (case get_session_by_token (db_ok env) (Some token) (db st) of
             (None, db1) \<Rightarrow> (error_response ''Invalid session token'', st\<lparr>db := db1\<rparr>)
           | (Some _, db1) \<Rightarrow>
               let db2 = (case (integer_member J request ''bytes_sent'', integer_member J request ''bytes_received'') of
                            (Some a, Some b) \<Rightarrow>
                              snd (update_device_statistics (db_ok env) (now env) (Some token) (word_of_int a) (word_of_int b)
                                     (case integer_member J request ''connections'' of None \<Rightarrow> 0 | Some n \<Rightarrow> word_of_int n) db1)
                          | _ \<Rightarrow> db1)
               in ([(''status'', RString ''ok''), (''timestamp'', RInteger (now env))], st\<lparr>db := db2\<rparr>)))"

definition process_admin_disconnect_request :: "'j jansson \<Rightarrow> dm_env \<Rightarrow> 'j \<Rightarrow> dm_state \<Rightarrow> response \<times> dm_state" where
  "process_admin_disconnect_request J env request st =
     (case string_member J request ''device_id'' of
        None \<Rightarrow> (error_response ''Missing device_id'', st)
      | Some dev \<Rightarrow>
          (case terminate_device_by_device_id env (Some dev) st of
             (rc, st1) \<Rightarrow>
               if rc \<noteq> 0 then (error_response ''Failed to disconnect device'', st1)
               else ([(''status'', RString ''ok''), (''message'', RString ''Device disconnected''),
                      (''device_id'', RString dev)], st1)))"

section \<open>Dispatch\<close>

text \<open>
  The result is the return code, the responses handed to \<open>send_json_response\<close> and the state. \<open>send_ok\<close> says
  whether the one response of the connection could be delivered completely.
\<close>

definition send_json_response :: "dm_env \<Rightarrow> response \<Rightarrow> int" where
  "send_json_response env r = (if send_ok env then 0 else -1)"

definition dispatch_disconnect ::
  "'j jansson \<Rightarrow> dm_env \<Rightarrow> 'j \<Rightarrow> string option \<Rightarrow> dm_state \<Rightarrow> int \<times> response list \<times> dm_state" where
  "dispatch_disconnect J env root client_ip st =
     (if \<not> is_local_control_request client_ip then (0, [error_response ''Unauthorized control request''], st)
      else
        (case string_member J root ''device_id'' of
           None \<Rightarrow> (0, [error_response ''Missing device_id''], st)
         | Some dev \<Rightarrow>
             let r = [(''status'', RString ''ok''), (''message'', RString ''Device disconnect initiated''),
                      (''device_id'', RString dev)]
             in if send_json_response env r \<noteq> 0 then (-1, [r], st)
                else
                  (case terminate_device_by_device_id env (Some dev) st of
                     (rc, st1) \<Rightarrow> (if rc \<noteq> 0 then -1 else 0, [r], st1))))"

definition dispatch_reload_tls ::
  "'j jansson \<Rightarrow> dm_env \<Rightarrow> 'j \<Rightarrow> string option \<Rightarrow> dm_state \<Rightarrow> response \<times> dm_state" where
  "dispatch_reload_tls J env root client_ip st =
     (if \<not> is_local_control_request client_ip then (error_response ''Unauthorized control request'', st)
      else
        (case string_member J root ''device_id'' of
           None \<Rightarrow> (error_response ''Missing device_id'', st)
         | Some dev \<Rightarrow>
             (case reload_dynamic_server_tls_for_device env (Some dev) st of
                (rc, st1) \<Rightarrow>
                  if rc \<noteq> 0
                  then (error_response ''Failed to reload TLS settings'' @ [(''device_id'', RString dev)], st1)
                  else ([(''status'', RString ''ok''), (''message'', RString ''Dynamic server TLS reload initiated''),
                         (''device_id'', RString dev)], st1))))"

definition process_json_message ::
  "'j jansson \<Rightarrow> dm_env \<Rightarrow> string \<Rightarrow> string option \<Rightarrow> dm_state \<Rightarrow> (int \<times> response list \<times> dm_state) option" where
  "process_json_message J env json_str client_ip st =
     (if validate_json_input (Some json_str) 4096 \<noteq> 0
      then Some (-1, [error_response ''Invalid request payload''], st)
      else
        (case json_loads J json_str of
           None \<Rightarrow> Some (-1, [error_response ''Invalid JSON''], st)
         | Some root \<Rightarrow>
             (case string_member J root ''action'' of
                None \<Rightarrow> Some (-1, [error_response (''Missing '' @ [CHR 0x27] @ ''action'' @ [CHR 0x27] @ '' field'')], st)
              | Some action \<Rightarrow>
                  if action = ''register'' then
                    map_option (\<lambda>(r, st1). (0, [r], st1)) (process_registration_request J env root client_ip st)
                  else if action = ''heartbeat'' then
                    map_option (\<lambda>(r, st1). (0, [r], st1)) (process_heartbeat_request J env root client_ip st)
                  else if action = ''statistics'' then
                    (case process_statistics_request J env root st of (r, st1) \<Rightarrow> Some (0, [r], st1))
                  else if action = ''disconnect'' then Some (dispatch_disconnect J env root client_ip st)
                  else if action = ''reload_tls'' then
                    (case dispatch_reload_tls J env root client_ip st of (r, st1) \<Rightarrow> Some (0, [r], st1))
                  else if action = ''reset_rate_limits'' then
                    (if \<not> is_local_control_request client_ip
                     then Some (0, [error_response ''Unauthorized control request''], st)
                     else Some (0, [[(''status'', RString ''ok''), (''message'', RString ''Rate limits reset'')]],
                                st\<lparr>sec := security_reset_rate_limits (sec st)\<rparr>))
                  else Some (0, [error_response ''Unknown action''], st))))"

text \<open>
  One connection: \<open>ssl_accept_ok\<close> covers the TLS object and handshake, \<open>received\<close> is what the single read of at most 4095
  bytes delivered, \<open>None\<close> when it failed. The buffer is then a C string, which ends at the first NUL byte.
\<close>

definition handle_device_connection ::
  "'j jansson \<Rightarrow> dm_env \<Rightarrow> bool \<Rightarrow> string option \<Rightarrow> string \<Rightarrow> dm_state \<Rightarrow> (int \<times> response list \<times> dm_state) option" where
  "handle_device_connection J env ssl_accept_ok received client_ip st =
     (if enable_ssl (g_config st) \<and> \<not> g_ssl_ctx st then Some (-1, [], st)
      else if enable_ssl (g_config st) \<and> \<not> ssl_accept_ok then Some (-1, [], st)
      else
        (case received of None \<Rightarrow> Some (-1, [], st)
         | Some bytes \<Rightarrow>
             let buffer = take 4095 bytes
             in if buffer = [] then Some (-1, [], st)
                else process_json_message J env (takeWhile (\<lambda>c. c \<noteq> CHR 0x00) buffer) (Some client_ip) st))"

text \<open>
  \<open>control_server_thread\<close>: the connections accepted while the manager runs, one after the other.
\<close>

fun control_server_loop ::
  "'j jansson \<Rightarrow> (dm_env \<times> bool \<times> string option \<times> string) list \<Rightarrow> dm_state \<Rightarrow> (response list list \<times> dm_state) option" where
  "control_server_loop J [] st = Some ([], st)"
| "control_server_loop J ((env, ssl_ok, received, ip) # conns) st =
     (if \<not> g_running st then Some ([], st)
      else
        (case handle_device_connection J env ssl_ok received ip st of None \<Rightarrow> None
         | Some (rc, out, st1) \<Rightarrow>
             (case control_server_loop J conns st1 of None \<Rightarrow> None
              | Some (outs, st2) \<Rightarrow> Some (out # outs, st2))))"

section \<open>Start-up from the server's configuration\<close>

text \<open>
  \<open>src/server/proxy/server/proxy_server_device_integration.c\<close>: the configuration it builds, and the
  start of the manager. \<open>servers_res\<close> is the result of \<open>servers_init\<close>.
\<close>

definition nonempty_path :: "string option \<Rightarrow> string" where
  "nonempty_path f = (case f of None \<Rightarrow> [] | Some s \<Rightarrow> strncpy 255 s)"

definition integration_config :: "u16 \<Rightarrow> string option \<Rightarrow> string option \<Rightarrow> device_manager_config" where
  "integration_config port cert_file key_file =
     \<lparr>control_port = port, port_range_start = 6000, port_range_end = 7000, heartbeat_interval = 30,
      session_timeout = 3600, max_devices = 1001,
      enable_ssl = (nonempty_path cert_file \<noteq> [] \<and> nonempty_path key_file \<noteq> []),
      ssl_cert_file = nonempty_path cert_file, ssl_key_file = nonempty_path key_file,
      db_host = ''127.0.0.1'', db_name = ''net_port'', db_user = ''net_port_user'', db_password = []\<rparr>"

record startup_env =
  su_ctx_new_ok :: bool
  su_files_ok :: bool
  su_calloc_ok :: bool
  su_db_ok :: "nat \<Rightarrow> bool"
  su_time :: time_t
  su_listen_ok :: bool
  su_thread_ok :: bool

definition init_device_manager_from_config ::
  "startup_env \<Rightarrow> u16 \<Rightarrow> string option \<Rightarrow> string option \<Rightarrow> bool \<times> dm_state \<Rightarrow> int \<times> bool \<times> dm_state" where
  "init_device_manager_from_config e port cert_file key_file s =
     (case s of (enabled, st) \<Rightarrow>
        (case device_manager_init (su_ctx_new_ok e) (su_files_ok e) (su_calloc_ok e)
                (Some (integration_config port cert_file key_file)) st of
           (rc, st1) \<Rightarrow> if rc \<noteq> 0 then (-1, enabled, st1) else (0, True, st1)))"

definition servers_init_with_device_management ::
  "startup_env \<Rightarrow> int \<Rightarrow> u16 \<Rightarrow> string option \<Rightarrow> string option \<Rightarrow> bool \<times> dm_state \<Rightarrow> int \<times> bool \<times> dm_state" where
  "servers_init_with_device_management e servers_res port cert_file key_file s =
     (if servers_res < 0 then (-1, s)
      else
        let (rc, s1) = (if \<not> fst s then init_device_manager_from_config e port cert_file key_file s else (0, s))
        in if rc \<noteq> 0 then (servers_res, s1)
           else
             (case device_manager_start (su_db_ok e) (su_time e) (su_listen_ok e) (su_thread_ok e) (snd s1) of
                (rc2, st2) \<Rightarrow> (servers_res, if rc2 \<noteq> 0 then False else fst s1, st2)))"

definition device_management_shutdown :: "bool \<times> dm_state \<Rightarrow> bool \<times> dm_state" where
  "device_management_shutdown s = (if fst s then (False, snd (device_manager_stop (snd s))) else s)"

end
