(* ===== verification/Control_Plane.thy ===== *)
theory Control_Plane
  imports Device_Manager
begin

text \<open>
  Properties of the control plane: what every connection is answered, who may do what, what the requests do to the tables
  and to the dynamic servers, and how the flags of a TLS reload reach a device. The handlers of \<open>Device_Manager\<close> are
  composed of the operations of the component theories, and so are their proofs.
\<close>

section \<open>Every connection is answered, and safely\<close>

lemma validate_device_token_total:
  assumes "security_inv s"
  shows "\<exists>v s'. validate_device_token n ok dev tok ip s = Some (v, s') \<and> security_inv s'"
proof -
  have "validate_device_token n ok dev tok ip s \<noteq> None"
    using check_rate_limit_total [OF assms, of n ok dev ip] check_rate_limit_total [of _ n ok ip ip]
    by (fastforce simp: validate_device_token_def split: option.splits prod.splits if_splits)
  with assms show ?thesis by (auto intro: security_step_inv [OF security_step.device])
qed

lemma validate_session_token_total:
  assumes "security_inv s"
  shows "\<exists>v s'. validate_session_token_security n ok tok ip s = Some (v, s') \<and> security_inv s'"
proof -
  have "validate_session_token_security n ok tok ip s \<noteq> None"
    using check_rate_limit_total [OF assms, of n ok "map_option session_rate_limit_key tok" ip]
    by (cases tok) (auto simp: validate_session_token_security_def split: option.splits prod.splits if_splits)
  with assms show ?thesis by (auto intro: security_step_inv [OF security_step.session])
qed

text \<open>The part of the state that only the life-cycle operations write.\<close>

definition dm_frame :: "dm_state \<Rightarrow> device_manager_config \<times> bool \<times> bool \<times> bool \<times> bool" where
  "dm_frame st = (g_config st, g_ssl_ctx st, g_running st, g_initialized st, g_control_socket st)"

lemma dm_frame_simps [simp]:
  "dm_frame (st\<lparr>db := d\<rparr>) = dm_frame st" "dm_frame (st\<lparr>dyn := y\<rparr>) = dm_frame st"
  "dm_frame (st\<lparr>sec := s\<rparr>) = dm_frame st" "dm_frame (st\<lparr>g_tls_reload_pending := p\<rparr>) = dm_frame st"
  by (simp_all add: dm_frame_def)

lemma sec_frames [simp]:
  "sec (stop_device_server dev p q st) = sec st" "g_config (stop_device_server dev p q st) = g_config st"
  "dm_frame (stop_device_server dev p q st) = dm_frame st" "db (stop_device_server dev p q st) = db st"
  "g_tls_reload_pending (stop_device_server dev p q st) = g_tls_reload_pending st"
  "g_initialized (stop_device_server dev p q st) = g_initialized st"
  "sec (snd (ensure_device_server env dev p q info st)) = sec st" "db (snd (ensure_device_server env dev p q info st)) = db st"
  "dm_frame (snd (ensure_device_server env dev p q info st)) = dm_frame st"
  "g_config (snd (ensure_device_server env dev p q info st)) = g_config st"
  "g_initialized (snd (ensure_device_server env dev p q info st)) = g_initialized st"
  "g_tls_reload_pending (snd (ensure_device_server env dev p q info st)) = g_tls_reload_pending st"
  by (simp_all add: stop_device_server_def ensure_device_server_def split: prod.split)

lemma terminate_device_session_frame [simp]:
  "sec (snd (terminate_device_session env tok st)) = sec st"
  "dm_frame (snd (terminate_device_session env tok st)) = dm_frame st"
  by (auto simp: terminate_device_session_def Let_def split: option.split prod.split)

lemma fold_stop_frame:
  "sec (fold (\<lambda>p. stop_device_server dev p (p + 1)) ps st) = sec st \<and>
   dm_frame (fold (\<lambda>p. stop_device_server dev p (p + 1)) ps st) = dm_frame st \<and>
   db (fold (\<lambda>p. stop_device_server dev p (p + 1)) ps st) = db st"
  by (induction ps arbitrary: st) simp_all

lemma terminate_device_frame [simp]:
  "sec (snd (terminate_device_by_device_id env dev st)) = sec st"
  "dm_frame (snd (terminate_device_by_device_id env dev st)) = dm_frame st"
  by (auto simp: terminate_device_by_device_id_def Let_def fold_stop_frame split: option.split prod.split)

lemma reload_tls_frame [simp]:
  "sec (snd (reload_dynamic_server_tls_for_device env dev st)) = sec st"
  "dm_frame (snd (reload_dynamic_server_tls_for_device env dev st)) = dm_frame st"
  by (auto simp: reload_dynamic_server_tls_for_device_def Let_def case_prod_beta split: option.split)

lemma heartbeat_parts_frame [simp]:
  "sec (heartbeat_ensure env token st) = sec st" "dm_frame (heartbeat_ensure env token st) = dm_frame st"
  "sec (snd (heartbeat_tls env token st)) = sec st" "dm_frame (snd (heartbeat_tls env token st)) = dm_frame st"
  by (auto simp: heartbeat_ensure_def heartbeat_tls_def Let_def case_prod_beta split: option.split prod.split)

lemma registration_total:
  assumes "security_inv (sec st)"
  shows "\<exists>r st'. process_registration_request J env root ip st = Some (r, st') \<and> security_inv (sec st') \<and> dm_frame st' = dm_frame st"
proof (cases "string_member J root ''device_id'' = None \<or> string_member J root ''auth_token'' = None")
  case True
  with assms show ?thesis by (auto simp: process_registration_request_def split: option.split)
next
  case False
  then obtain dev tok where m: "string_member J root ''device_id'' = Some dev" "string_member J root ''auth_token'' = Some tok" by auto
  from validate_device_token_total [OF assms, of "now env" "realloc_ok env" "Some dev" "Some tok" ip] obtain v sec1 where
    v: "validate_device_token (now env) (realloc_ok env) (Some dev) (Some tok) ip (sec st) = Some (v, sec1)" "security_inv sec1" by blast
  show ?thesis
    by (auto simp: process_registration_request_def m v Let_def case_prod_beta split: option.split prod.split)
qed

lemma heartbeat_total:
  assumes "security_inv (sec st)"
  shows "\<exists>r st'. process_heartbeat_request J env root ip st = Some (r, st') \<and> security_inv (sec st') \<and> dm_frame st' = dm_frame st"
proof (cases "string_member J root ''session_token''")
  case None
  with assms show ?thesis by (simp add: process_heartbeat_request_def)
next
  case (Some token)
  from validate_session_token_total [OF assms, of "now env" "realloc_ok env" "Some token" ip] obtain v sec1 where
    v: "validate_session_token_security (now env) (realloc_ok env) (Some token) ip (sec st) = Some (v, sec1)" "security_inv sec1"
    by blast
  show ?thesis
    by (simp add: process_heartbeat_request_def Some v Let_def case_prod_beta)
qed

lemma small_requests_frame [simp]:
  "sec (snd (process_statistics_request J env root st)) = sec st"
  "dm_frame (snd (process_statistics_request J env root st)) = dm_frame st"
  "sec (snd (snd (dispatch_disconnect J env root ip st))) = sec st"
  "dm_frame (snd (snd (dispatch_disconnect J env root ip st))) = dm_frame st"
  "sec (snd (dispatch_reload_tls J env root ip st)) = sec st"
  "dm_frame (snd (dispatch_reload_tls J env root ip st)) = dm_frame st"
  "length (fst (snd (dispatch_disconnect J env root ip st))) = 1"
  by (simp_all add: process_statistics_request_def dispatch_disconnect_def dispatch_reload_tls_def Let_def case_prod_beta
        split: option.split)

lemma process_json_message_total:
  assumes "security_inv (sec st)"
  shows "\<exists>rc r st'. process_json_message J env js ip st = Some (rc, [r], st') \<and> security_inv (sec st') \<and> dm_frame st' = dm_frame st"
proof -
  note hb = heartbeat_total [OF assms, of J env _ ip] and reg = registration_total [OF assms, of J env _ ip]
  have one: "\<exists>r. xs = [r]" if "length xs = 1" for xs :: "response list" using that by (cases xs) auto
  have dis: "\<exists>rc r st'. dispatch_disconnect J env root ip st = (rc, [r], st') \<and> security_inv (sec st') \<and> dm_frame st' = dm_frame st"
    for root using one [OF small_requests_frame(7), of J env root ip st] small_requests_frame(3,4) [of J env root ip st] assms
    by (metis prod.collapse)
  have reset: "security_inv (security_reset_rate_limits (sec st))"
    using assms by (rule security_step_inv [OF security_step.reset])
  show ?thesis
  proof (cases "validate_json_input (Some js) 4096 \<noteq> 0 \<or> json_loads J js = None")
    case True
    with assms show ?thesis by (auto simp: process_json_message_def)
  next
    case False
    then obtain root where root: "validate_json_input (Some js) 4096 = 0" "json_loads J js = Some root" by auto
    show ?thesis
    proof (cases "string_member J root ''action''")
      case None
      with assms root show ?thesis by (simp add: process_json_message_def)
    next
      case (Some action)
      from hb [of root] reg [of root] dis [of root] reset assms show ?thesis
        by (auto simp: process_json_message_def root Some case_prod_beta)
    qed
  qed
qed

text \<open>Whether a connection gets as far as being answered.\<close>

definition answered :: "bool \<Rightarrow> string option \<Rightarrow> dm_state \<Rightarrow> bool" where
  "answered ssl_ok received st \<longleftrightarrow>
     (enable_ssl (g_config st) \<longrightarrow> g_ssl_ctx st \<and> ssl_ok) \<and> received \<noteq> None \<and> received \<noteq> Some []"

lemma handle_device_connection_total:
  assumes "security_inv (sec st)"
  shows "\<exists>rc out st'. handle_device_connection J env ssl_ok received ip st = Some (rc, out, st') \<and>
           length out = (if answered ssl_ok received st then 1 else 0) \<and> security_inv (sec st') \<and> dm_frame st' = dm_frame st"
  using process_json_message_total [OF assms, of J env _ "Some ip"] assms
  by (fastforce simp: handle_device_connection_def answered_def Let_def split: option.split)

lemma dm_frameD:
  assumes "dm_frame st' = dm_frame st"
  shows "g_config st' = g_config st" "g_ssl_ctx st' = g_ssl_ctx st" "g_running st' = g_running st"
    "g_initialized st' = g_initialized st" "answered ok rcv st' = answered ok rcv st"
  using assms by (simp_all add: dm_frame_def answered_def)

lemma control_server_loop_total:
  assumes "security_inv (sec st)" and "g_running st"
  shows "\<exists>outs st'. control_server_loop J conns st = Some (outs, st') \<and>
           map length outs = map (\<lambda>(env, ssl_ok, received, ip). if answered ssl_ok received st then 1 else 0) conns \<and>
           security_inv (sec st') \<and> dm_frame st' = dm_frame st"
  using assms
proof (induction conns arbitrary: st)
  case Nil
  then show ?case by simp
next
  case (Cons c conns)
  obtain env ssl_ok received ip where c: "c = (env, ssl_ok, received, ip)" by (cases c) auto
  from handle_device_connection_total [OF Cons.prems(1), of J env ssl_ok received ip] obtain rc out st1 where
    h: "handle_device_connection J env ssl_ok received ip st = Some (rc, out, st1)"
      "length out = (if answered ssl_ok received st then 1 else 0)" "security_inv (sec st1)"
    and f: "dm_frame st1 = dm_frame st" by blast
  from Cons.IH [OF h(3)] dm_frameD(3) [OF f] Cons.prems(2) obtain outs st2 where
    l: "control_server_loop J conns st1 = Some (outs, st2)"
      "map length outs = map (\<lambda>(env, ssl_ok, received, ip). if answered ssl_ok received st1 then 1 else 0) conns"
      "security_inv (sec st2)" "dm_frame st2 = dm_frame st1" by auto
  from l(2) have "map length outs = map (\<lambda>(env, ssl_ok, received, ip). if answered ssl_ok received st then 1 else 0) conns"
    by (simp only: dm_frameD(5) [OF f])
  with Cons.prems(2) h l f show ?case by (auto simp: c)
qed

section \<open>Examples\<close>

text \<open>A JSON library that reads every text as one fixed object, and a start-up and a request environment in which all succeeds.\<close>

definition example_json :: "(string \<times> jview) list \<Rightarrow> ((string \<times> jview) list + jview) jansson" where
  "example_json members =
     \<lparr>json_loads = (\<lambda>s. Some (Inl members)),
      json_object_get = (\<lambda>j k. case j of Inl m \<Rightarrow> map_option Inr (map_of m k) | Inr _ \<Rightarrow> None),
      json_view = (\<lambda>j. case j of Inl _ \<Rightarrow> JObject | Inr v \<Rightarrow> v)\<rparr>"

definition example_startup :: startup_env where
  "example_startup =
     \<lparr>su_ctx_new_ok = True, su_files_ok = True, su_calloc_ok = True, su_db_ok = (\<lambda>_. True), su_time = 0,
      su_listen_ok = True, su_thread_ok = True\<rparr>"

definition example_env :: dm_env where
  "example_env =
     \<lparr>now = 100, SHA256 = (\<lambda>_. replicate 32 0), rand_r = (\<lambda>s. (0, s)), address = 0, db_ok = (\<lambda>_. True),
      locked = (\<lambda>_. False), realloc_ok = True, restart_env = good_env, create_env = good_env,
      send_ok = True\<rparr>"

definition initial_dm_state :: "device_db \<Rightarrow> dm_state" where
  "initial_dm_state d =
     \<lparr>g_config = DEFAULT_CONFIG, g_initialized = False, g_running = False, g_ssl_ctx = False, g_control_socket = False,
      g_tls_reload_pending = [], sec = initial_security_state, db = d, dyn = initial_dyn_state\<rparr>"

section \<open>Properties of the control plane\<close>

lemma initialised_limiter:
  assumes "device_manager_init a b True c st = (0, st')" and "\<not> g_initialized st"
  shows "security_inv (sec st')"
  using assms
  by (auto simp: device_manager_init_def Let_def case_prod_beta security_features_init_def security_inv_def
      split: if_splits)


text \<open>The manager after a start-up without certificates over given tables.\<close>

definition example_running :: "device_db \<Rightarrow> dm_state" where
  "example_running d = snd (snd (servers_init_with_device_management example_startup 0 8443 None None (False, initial_dm_state d)))"

lemma example_running_facts:
  "servers_init_with_device_management example_startup 0 8443 None None (False, initial_dm_state d) = (0, True, example_running d)"
  "su_calloc_ok example_startup" "\<not> g_initialized (initial_dm_state d)"
  "answered ok rcv (example_running d) = (rcv \<noteq> None \<and> rcv \<noteq> Some [])"
  "g_running (example_running d)" "g_initialized (example_running d)" "dyn (example_running d) = initial_dyn_state"
  "db (example_running d) = snd (cleanup_round (\<lambda>_. True) 0 d)"
  "sec (example_running d) = snd (security_features_init True initial_security_state)"
  "g_config (example_running d) = integration_config 8443 None None" "g_tls_reload_pending (example_running d) = []"
  by (simp_all add: example_running_def answered_def servers_init_with_device_management_def init_device_manager_from_config_def
      device_manager_init_def device_manager_start_def example_startup_def initial_dm_state_def integration_config_def
      nonempty_path_def security_features_init_def Let_def case_prod_beta)


text \<open>
  C13. The administrative actions are reserved to the local host: sent from any other address,
  \<open>disconnect\<close>, \<open>reload_tls\<close> and \<open>reset_rate_limits\<close> are answered with an authorisation error and leave the whole state (tables,
  servers, limiter, flags) as it was, whatever else the request contains.
\<close>

theorem control_actions_local_only:
  assumes "ip \<notin> {''127.0.0.1'', ''::1'', ''0.0.0.0''}"
    and "answered ssl_ok (Some bytes) st"
    and "js = takeWhile (\<lambda>c. c \<noteq> CHR 0x00) (take 4095 bytes)" and "validate_json_input (Some js) 4096 = 0"
    and "json_loads J js = Some root" and "string_member J root ''action'' = Some action"
    and "action \<in> {''disconnect'', ''reload_tls'', ''reset_rate_limits''}"
  shows "handle_device_connection J env ssl_ok (Some bytes) ip st =
           Some (0, [error_response ''Unauthorized control request''], st)"
  using assms
  by (auto simp: handle_device_connection_def answered_def process_json_message_def is_local_control_request_def
      dispatch_disconnect_def dispatch_reload_tls_def Let_def)

theorem control_actions_local_only_witness:
  "handle_device_connection (example_json [(''action'', JString ''disconnect''), (''device_id'', JString ''dev-1'')]) example_env False
     (Some ''{}'') ''192.0.2.1'' (example_running (initial_db [])) =
   Some (0, [error_response ''Unauthorized control request''], example_running (initial_db []))"
  by (rule control_actions_local_only [where js = "''{}''" and action = "''disconnect''"
        and root = "Inl [(''action'', JString ''disconnect''), (''device_id'', JString ''dev-1'')]"])
    (simp_all add: example_running_facts(4) example_json_def string_member_def validate_json_input_def suspicious_patterns_def)

text \<open>
  The manager cannot be restarted safely: \<open>device_manager_stop\<close> frees the limiter's table and sets its capacity to 0 but
  leaves \<open>g_initialized\<close> set, so a following \<open>device_manager_init\<close> does nothing and \<open>device_manager_start\<close> succeeds; with TLS on every
  connection is then refused for want of a context, and without TLS the first registration writes past a table of no entries.
\<close>

theorem restart_leaves_limiter_unusable:
  assumes "g_initialized st" and "g_running st"
    and "device_manager_init c f a config (snd (device_manager_stop st)) = (rc, st1)"
    and "device_manager_start ok t True True st1 = (rc', st2)"
    and "string_member J root ''device_id'' = Some dev" and "string_member J root ''auth_token'' = Some tok" and "realloc_ok env"
  shows "rc = 0 \<and> rc' = 0 \<and> g_running st2 \<and> process_registration_request J env root (Some ip) st2 = None \<and>
         (enable_ssl (g_config st) \<longrightarrow> handle_device_connection J env ssl_ok received ip st2 = Some (-1, [], st2))"
proof -
  have st1: "rc = 0" "st1 = snd (device_manager_stop st)"
    using assms(1-3) by (auto simp: device_manager_init_def device_manager_stop_def)
  have st2: "rc' = 0" "g_running st2" "sec st2 = security_features_cleanup (sec st)" "g_ssl_ctx st2 = False" "g_config st2 = g_config st"
    using assms(1,2,4) by (auto simp: st1 device_manager_start_def device_manager_stop_def Let_def)
  have "validate_device_token (now env) True (Some dev) (Some tok) (Some ip) (sec st2) = None"
    by (simp add: st2 validate_device_token_def check_rate_limit_def security_features_cleanup_def)
  then have "process_registration_request J env root (Some ip) st2 = None"
    using assms(5-7) by (simp add: process_registration_request_def)
  with st1 st2 show ?thesis by (simp add: handle_device_connection_def)
qed

theorem restart_leaves_limiter_unusable_witness:
  "process_registration_request (example_json [(''device_id'', JString ''a''), (''auth_token'', JString ''b'')]) example_env
     (Inl [(''device_id'', JString ''a''), (''auth_token'', JString ''b'')]) (Some ''192.0.2.1'')
     (snd (device_manager_start (\<lambda>_. True) 0 True True
       (snd (device_manager_init True True True None (snd (device_manager_stop (example_running (initial_db [])))))))) = None"
  using restart_leaves_limiter_unusable [OF example_running_facts(6,5) prod.collapse [symmetric] prod.collapse [symmetric],
      of "example_json [(''device_id'', JString ''a''), (''auth_token'', JString ''b'')]"
      "Inl [(''device_id'', JString ''a''), (''auth_token'', JString ''b'')]" "''a''" "''b''" example_env
      True True True None "initial_db []" "\<lambda>_. True" 0 "''192.0.2.1''"]
  by (simp add: string_member_def example_json_def example_env_def)

section \<open>The tables under the control server\<close>

lemma load_device_inv: "db_inv d \<Longrightarrow> db_inv (snd (device_manager_load_device_by_id ok dev d))"
  by (rule db_step_inv [OF db_step.load])

lemma get_session_inv: "db_inv d \<Longrightarrow> db_inv (snd (get_session_by_token ok tok d))"
  by (rule db_step_inv [OF db_step.lookup])

lemma authenticate_inv: "db_inv d \<Longrightarrow> db_inv (snd (device_authenticate sha ok dev tok d))"
  by (rule db_step_inv [OF db_step.authenticate])

lemma terminate_device_session_inv:
  assumes "db_inv (db st)"
  shows "db_inv (db (snd (terminate_device_session env tok st)))"
proof (cases tok)
  case None
  with assms show ?thesis by (simp add: terminate_device_session_def)
next
  case (Some token)
  obtain s db1 where g: "get_session_by_token (db_ok env) (Some token) (db st) = (s, db1)" by fastforce
  show ?thesis
  proof (cases s)
    case None
    with get_session_inv [OF assms, of "db_ok env" "Some token"] show ?thesis
      by (simp add: terminate_device_session_def Some g)
  next
    case (Some ses)
    from terminate_session_rows_inv [OF assms g [unfolded Some], of "db_ok env" "now env"]
    show ?thesis by (auto simp: terminate_device_session_def \<open>tok = _\<close> g Some Let_def case_prod_beta)
  qed
qed

text \<open>The five ways a registration request ends.\<close>

lemma registration_cases:
  assumes "process_registration_request J env root ip st = Some (r, st')"
  obtains (refused) m sec1 where "r = error_response m" "st' = st\<lparr>sec := sec1\<rparr>"
  | (unauthenticated) sec1 dev tok db1 where "device_authenticate (SHA256 env) (db_ok env) (Some dev) (Some tok) (db st) = (None, db1)"
      "r = error_response ''Authentication failed''" "st' = st\<lparr>sec := sec1, db := db1\<rparr>"
  | (no_session) sec1 dev tok info db1 db2 where
      "device_authenticate (SHA256 env) (db_ok env) (Some dev) (Some tok) (db st) = (Some info, db1)"
      "register_device_session (rand_r env) (db_ok env) (locked env) (now env) (session_timeout (g_config st)) (address env) dev None 257 db1 = (None, db2)"
      "r = error_response ''Failed to create session''" "st' = st\<lparr>sec := sec1, db := db2\<rparr>"
  | (no_proxy) sec1 dev tok info db1 token p q db2 i st2 where
      "device_authenticate (SHA256 env) (db_ok env) (Some dev) (Some tok) (db st) = (Some info, db1)"
      "register_device_session (rand_r env) (db_ok env) (locked env) (now env) (session_timeout (g_config st)) (address env) dev None 257 db1 =
         (Some (token, p, q), db2)"
      "ensure_device_server env dev p q (info\<lparr>di_tunnel_port := q, di_assigned_port := p\<rparr>) (st\<lparr>sec := sec1, db := db2\<rparr>) = (i, st2)"
      "i < 0" "r = error_response ''Failed to start device proxy''" "st' = snd (terminate_device_session env (Some token) st2)"
  | (registered) sec1 dev tok info db1 token p q db2 i where
      "string_member J root ''device_id'' = Some dev" "string_member J root ''auth_token'' = Some tok"
      "device_authenticate (SHA256 env) (db_ok env) (Some dev) (Some tok) (db st) = (Some info, db1)"
      "register_device_session (rand_r env) (db_ok env) (locked env) (now env) (session_timeout (g_config st)) (address env) dev None 257 db1 =
         (Some (token, p, q), db2)"
      "ensure_device_server env dev p q (info\<lparr>di_tunnel_port := q, di_assigned_port := p\<rparr>) (st\<lparr>sec := sec1, db := db2\<rparr>) = (i, st')"
      "0 \<le> i"
      "take 8 r = [(''status'', RString ''authenticated''), (''assigned_port'', RInteger (uint p)), (''tunnel_port'', RInteger (uint q)),
         (''input_tls'', RBoolean (di_enable_input_ssl info \<and> device_manager_ssl_certs_configured st)),
         (''tunnel_tls'', RBoolean (di_enable_tunnel_ssl info \<and> device_manager_ssl_certs_configured st)),
         (''session_token'', RString token), (''heartbeat_interval'', RInteger (uint (heartbeat_interval (g_config st)))),
         (''server_time'', RInteger (now env))]"
proof (cases "string_member J root ''device_id'' = None \<or> string_member J root ''auth_token'' = None")
  case True
  with assms have "r = error_response ''Missing device_id or auth_token''" "st' = st\<lparr>sec := sec st\<rparr>"
    by (auto simp: process_registration_request_def split: option.splits)
  then show thesis by (rule refused)
next
  case False
  then obtain dev tok where m: "string_member J root ''device_id'' = Some dev" "string_member J root ''auth_token'' = Some tok" by auto
  obtain v sec1 where v: "validate_device_token (now env) (realloc_ok env) (Some dev) (Some tok) ip (sec st) = Some (v, sec1)"
    using assms by (auto simp: process_registration_request_def m split: option.splits)
  note eq = process_registration_request_def [of J env root ip st] m v
  obtain a db1 where a: "device_authenticate (SHA256 env) (db_ok env) (Some dev) (Some tok) (db st) = (a, db1)" by fastforce
  obtain x db2 where x: "register_device_session (rand_r env) (db_ok env) (locked env) (now env) (session_timeout (g_config st))
     (address env) dev None 257 db1 = (x, db2)" by fastforce
  show thesis
  proof (cases "v \<noteq> 0")
    case True
    with assms have "r = error_response ''Rate limit exceeded''" "st' = st\<lparr>sec := sec1\<rparr>" by (simp_all add: eq)
    then show thesis by (rule refused)
  next
    case v0: False
    show thesis
    proof (cases a)
      case None
      with assms a v0 have "r = error_response ''Authentication failed''" "st' = st\<lparr>sec := sec1, db := db1\<rparr>" by (simp_all add: eq)
      with a None show thesis by (intro unauthenticated) simp_all
    next
      case a': (Some info)
      show thesis
      proof (cases x)
        case None
        with assms a a' x v0 have "r = error_response ''Failed to create session''" "st' = st\<lparr>sec := sec1, db := db2\<rparr>" by (simp_all add: eq)
        with a a' x None show thesis by (intro no_session [of dev tok info db1 db2 sec1]) simp_all
      next
        case x': (Some y)
        obtain token p q where y: "y = (token, p, q)" by (cases y) auto
        obtain i st2 where e: "ensure_device_server env dev p q (info\<lparr>di_tunnel_port := q, di_assigned_port := p\<rparr>)
            (st\<lparr>sec := sec1, db := db2\<rparr>) = (i, st2)" by fastforce
        have certs: "device_manager_ssl_certs_configured st2 = device_manager_ssl_certs_configured st" "g_config st2 = g_config st"
          using sec_frames(10,11) [of env dev p q "info\<lparr>di_tunnel_port := q, di_assigned_port := p\<rparr>" "st\<lparr>sec := sec1, db := db2\<rparr>"]
          by (simp_all add: e device_manager_ssl_certs_configured_def)
        show thesis
        proof (cases "i < 0")
          case True
          with assms a a' x x' y v0 e have "r = error_response ''Failed to start device proxy''"
            "st' = snd (terminate_device_session env (Some token) st2)" by (simp_all add: eq)
          with a a' x x' y e True show thesis by (intro no_proxy [of dev tok info db1 token p q db2 sec1 i st2]) simp_all
        next
          case False
          with assms a a' x x' y v0 e have "st' = st2" by (simp add: eq Let_def)
          moreover from False assms a a' x x' y v0 e
          have "take 8 r = [(''status'', RString ''authenticated''), (''assigned_port'', RInteger (uint p)), (''tunnel_port'', RInteger (uint q)),
              (''input_tls'', RBoolean (di_enable_input_ssl info \<and> device_manager_ssl_certs_configured st)),
              (''tunnel_tls'', RBoolean (di_enable_tunnel_ssl info \<and> device_manager_ssl_certs_configured st)),
              (''session_token'', RString token), (''heartbeat_interval'', RInteger (uint (heartbeat_interval (g_config st)))),
              (''server_time'', RInteger (now env))]"
            by (auto simp: eq Let_def certs)
          ultimately show thesis using m a a' x x' y e False by (intro registered [of dev tok info db1 token p q db2 sec1 i]) simp_all
        qed
      qed
    qed
  qed
qed

lemma registration_db_inv:
  assumes "process_registration_request J env root ip st = Some (r, st')" and inv: "db_inv (db st)"
  shows "db_inv (db st')"
  using assms(1)
proof (cases rule: registration_cases)
  case refused
  with inv show ?thesis by simp
next
  case (unauthenticated sec1 dev tok db1)
  with authenticate_inv [OF inv, of "SHA256 env" "db_ok env" "Some dev" "Some tok"] show ?thesis by simp
next
  case (no_session sec1 dev tok info db1 db2)
  with register_device_session_inv [OF authenticate_inv [OF inv, of "SHA256 env" "db_ok env" "Some dev" "Some tok"]] show ?thesis
    by (metis dm_state.select_convs(8) dm_state.update_convs(8) dm_state.surjective snd_conv)
next
  case (no_proxy sec1 dev tok info db1 token p q db2 i st2)
  with register_device_session_inv [OF authenticate_inv [OF inv, of "SHA256 env" "db_ok env" "Some dev" "Some tok"]]
  have "db_inv db2" by (metis snd_conv)
  moreover have "db st2 = db2" using sec_frames(8) [of env dev p q] no_proxy(3) by (metis dm_state.select_convs(8) dm_state.update_convs(8) dm_state.surjective snd_conv)
  ultimately show ?thesis using no_proxy by (simp add: terminate_device_session_inv)
next
  case (registered sec1 dev tok info db1 token p q db2 i)
  with register_device_session_inv [OF authenticate_inv [OF inv, of "SHA256 env" "db_ok env" "Some dev" "Some tok"]]
  have "db_inv db2" by (metis snd_conv)
  moreover have "db st' = db2" using sec_frames(8) [of env dev p q] registered(5) by (metis dm_state.select_convs(8) dm_state.update_convs(8) dm_state.surjective snd_conv)
  ultimately show ?thesis by simp
qed

lemma heartbeat_parts_inv:
  assumes "db_inv (db st)"
  shows "db_inv (db (heartbeat_ensure env token st))" "db_inv (heartbeat_record env token figures (db st))"
    "db_inv (db (snd (heartbeat_tls env token st)))"
proof -
  note g = get_session_inv [OF assms, of "db_ok env" "Some token"]
  note l = load_device_inv [OF g, of "db_ok env"]
  show "db_inv (db (heartbeat_ensure env token st))"
    using g l by (auto simp: heartbeat_ensure_def Let_def case_prod_beta split: option.split prod.split)
  show "db_inv (db (snd (heartbeat_tls env token st)))"
    using g l by (auto simp: heartbeat_tls_def Let_def case_prod_beta split: option.split prod.split)
  show "db_inv (heartbeat_record env token figures (db st))"
    using assms
    by (auto simp: heartbeat_record_def Let_def split: prod.split
        intro!: record_device_traffic_sample_inv aggregate_device_hourly_statistics_inv update_device_statistics_inv)
qed

lemma heartbeat_db_inv:
  assumes "process_heartbeat_request J env root ip st = Some (r, st')" and inv: "db_inv (db st)"
  shows "db_inv (db st')"
proof -
  have hb: "db_inv (snd (update_device_heartbeat ok t to token (db st)))" for ok t to token
    by (rule update_device_heartbeat_inv [OF inv])
  show ?thesis
    using assms(1) inv
    by (auto simp: process_heartbeat_request_def Let_def case_prod_beta hb
        split: option.splits prod.splits if_splits intro!: heartbeat_parts_inv)
qed

lemma query_inv: "db_inv d \<Longrightarrow> exec_stmt ok (\<lambda>d. Some (f d, d)) d = (x, d') \<Longrightarrow> db_inv d'"
  by (auto simp: exec_stmt_def Let_def split: if_splits)

lemma statistics_db_inv:
  assumes "db_inv (db st)"
  shows "db_inv (db (snd (process_statistics_request J env root st)))"
proof (cases "string_member J root ''session_token''")
  case None
  with assms show ?thesis by (simp add: process_statistics_request_def)
next
  case (Some token)
  obtain s d where g: "get_session_by_token (db_ok env) (Some token) (db st) = (s, d)" by fastforce
  with get_session_inv [OF assms, of "db_ok env" "Some token"] have "db_inv d" by simp
  with update_device_statistics_inv [OF this] show ?thesis
    by (auto simp: process_statistics_request_def Some g Let_def split: option.split)
qed

lemma reload_tls_db_inv:
  assumes "db_inv (db st)"
  shows "db_inv (db (snd (reload_dynamic_server_tls_for_device env dev st)))"
proof (cases "dev = None \<or> dev = Some []")
  case True
  with assms show ?thesis by (auto simp: reload_dynamic_server_tls_for_device_def)
next
  case False
  then obtain c where c: "dev = Some c" "c \<noteq> []" by auto
  obtain row d where q: "exec_stmt (db_ok env)
      (\<lambda>db. Some (latest_session (filter (\<lambda>s. s_status s = ''active'' \<and> s_expires_at s > now env) (sessions_of_device c db)), db)) (db st) =
      (row, d)" by fastforce
  have d: "db_inv d" by (rule query_inv [OF assms q])
  from load_device_inv [OF d, of "db_ok env" dev] d show ?thesis
    by (auto simp: reload_dynamic_server_tls_for_device_def c q Let_def case_prod_beta split: option.split prod.split)
qed

lemma process_json_message_db_inv:
  assumes "process_json_message J env js ip st = Some (rc, out, st')" and inv: "db_inv (db st)"
    and "\<And>root. json_loads J js = Some root \<Longrightarrow> string_member J root ''action'' = Some ''disconnect'' \<Longrightarrow> \<not> is_local_control_request ip"
  shows "db_inv (db st')"
proof (cases "validate_json_input (Some js) 4096 \<noteq> 0 \<or> json_loads J js = None")
  case True
  with assms(1) have "st' = st" by (auto simp: process_json_message_def split: if_splits)
  with inv show ?thesis by simp
next
  case False
  then obtain root where root: "validate_json_input (Some js) 4096 = 0" "json_loads J js = Some root" by auto
  show ?thesis
  proof (cases "string_member J root ''action''")
    case None
    with assms root show ?thesis by (simp add: process_json_message_def)
  next
    case (Some action)
    have "db_inv (db (snd (dispatch_reload_tls J env root ip st)))"
      using inv reload_tls_db_inv [OF inv] by (auto simp: dispatch_reload_tls_def case_prod_beta split: option.split)
    moreover have "action = ''disconnect'' \<Longrightarrow> snd (snd (dispatch_disconnect J env root ip st)) = st"
      using assms(3) [OF root(2)] Some by (simp add: dispatch_disconnect_def)
    ultimately show ?thesis
      using assms(1) inv statistics_db_inv [OF inv, of J env root]
      by (auto simp: process_json_message_def root Some case_prod_beta prod_eq_iff split: if_splits
          dest: registration_db_inv heartbeat_db_inv)
  qed
qed

text \<open>The request text the handler sees, and whether a connection is an administrative disconnect.\<close>

definition request_text :: "string \<Rightarrow> string" where
  "request_text bytes = takeWhile (\<lambda>c. c \<noteq> CHR 0x00) (take 4095 bytes)"

definition admin_disconnect :: "'j jansson \<Rightarrow> string option \<Rightarrow> string \<Rightarrow> bool" where
  "admin_disconnect J received ip \<longleftrightarrow>
     is_local_control_request (Some ip) \<and>
     (case received of None \<Rightarrow> False
      | Some bytes \<Rightarrow>
          (case json_loads J (request_text bytes) of None \<Rightarrow> False
           | Some root \<Rightarrow> string_member J root ''action'' = Some ''disconnect''))"

lemma handle_device_connection_db_inv:
  assumes "handle_device_connection J env ok received ip st = Some (rc, out, st')" and "db_inv (db st)"
    and "\<not> admin_disconnect J received ip"
  shows "db_inv (db st')"
proof (cases "process_json_message J env (request_text (the received)) (Some ip) st = Some (rc, out, st') \<and> received \<noteq> None")
  case True
  then show ?thesis
    by (elim conjE process_json_message_db_inv [OF _ assms(2)]) (use assms(3) in \<open>auto simp: admin_disconnect_def\<close>)
next
  case False
  with assms show ?thesis
    by (auto simp: handle_device_connection_def request_text_def Let_def split: if_splits option.splits)
qed

lemma control_server_loop_db_inv:
  assumes "control_server_loop J conns st = Some (outs, st')" and "db_inv (db st)"
    and "list_all (\<lambda>(env, ok, received, ip). \<not> admin_disconnect J received ip) conns"
  shows "db_inv (db st')"
  using assms
proof (induction conns arbitrary: st outs)
  case Nil
  then show ?case by simp
next
  case (Cons c conns)
  obtain env ok received ip where c: "c = (env, ok, received, ip)" by (cases c) auto
  show ?case
  proof (cases "g_running st")
    case False
    with Cons.prems show ?thesis by (simp add: c)
  next
    case True
    with Cons.prems(1) obtain rc out st1 outs' where
      h: "handle_device_connection J env ok received ip st = Some (rc, out, st1)" and l: "control_server_loop J conns st1 = Some (outs', st')"
      by (auto simp: c split: option.splits)
    from Cons.prems(3) have "\<not> admin_disconnect J received ip"
      "list_all (\<lambda>(env, ok, received, ip). \<not> admin_disconnect J received ip) conns" by (simp_all add: c)
    with Cons.IH [OF l] handle_device_connection_db_inv [OF h Cons.prems(2)] show ?thesis by blast
  qed
qed

text \<open>
  C3. Exclusive ports end to end: when the manager was started over tables satisfying the invariant (the schema's initial
  tables do), then after any sequence of control connections, arbitrary bytes from arbitrary addresses with any
  statement or system call failing, but no administrative disconnect, every active session holds both its port
  rows and no two active sessions have a port in common.
\<close>

theorem control_server_ports_exclusive:
  assumes "servers_init_with_device_management e servers_res port cert key (enabled, st0) = (rc, True, st)" and "0 \<le> servers_res"
    and "db_inv (db st0)" and "control_server_loop J conns st = Some (outs, st')"
    and "list_all (\<lambda>(env, ok, received, ip). \<not> admin_disconnect J received ip) conns"
  shows "(\<forall>s \<in> set (device_sessions (db st')). is_active s \<longrightarrow> owns_pair (port_allocations (db st')) s) \<and>
     (\<forall>s \<in> set (device_sessions (db st')). \<forall>t \<in> set (device_sessions (db st')). is_active s \<longrightarrow> is_active t \<longrightarrow>
        {s_assigned_port s, s_assigned_port s + 1} \<inter> {s_assigned_port t, s_assigned_port t + 1} \<noteq> {} \<longrightarrow> s = t)"
proof -
  have init: "db (snd (device_manager_init a b c cfg s)) = db s" for a b c cfg s
    by (simp add: device_manager_init_def create_ssl_context_def Let_def case_prod_beta)
  have start: "db_inv (db s) \<Longrightarrow> db_inv (db (snd (device_manager_start ok t l th s)))" for ok t l th s
    by (simp add: device_manager_start_def Let_def cleanup_round_inv)
  have "db_inv (db st)"
    using assms(1,2,3) init start
    by (auto simp: servers_init_with_device_management_def init_device_manager_from_config_def Let_def case_prod_beta
        prod_eq_iff split: if_splits)
  then have inv: "db_inv (db st')" by (rule control_server_loop_db_inv [OF assms(4) _ assms(5)])
  from db_inv_no_sharing [OF inv] inv show ?thesis unfolding db_inv_def by blast
qed

lemma example_running_limiter: "security_inv (sec (example_running d))"
  by (simp add: example_running_facts(9) security_features_init_def security_inv_def)

theorem control_server_ports_exclusive_witness:
  "\<exists>outs st'. control_server_loop
       (example_json [(''action'', JString ''register''), (''device_id'', JString ''A''), (''auth_token'', JString ''secret'')])
       [(example_env, False, Some ''{}'', ''192.0.2.1''), (example_env, False, Some ''{}'', ''127.0.0.1'')]
       (example_running example_free_db) = Some (outs, st') \<and>
     (\<forall>s \<in> set (device_sessions (db st')). is_active s \<longrightarrow> owns_pair (port_allocations (db st')) s)"
proof -
  let ?J = "example_json [(''action'', JString ''register''), (''device_id'', JString ''A''), (''auth_token'', JString ''secret'')]"
  let ?conns = "[(example_env, False, Some ''{}'', ''192.0.2.1''), (example_env, False, Some ''{}'', ''127.0.0.1'')]"
  from control_server_loop_total [OF example_running_limiter example_running_facts(5), of ?J ?conns] obtain outs st' where
    l: "control_server_loop ?J ?conns (example_running example_free_db) = Some (outs, st')" by blast
  have "list_all (\<lambda>(env, ok, received, ip). \<not> admin_disconnect ?J received ip) ?conns"
    by (simp add: admin_disconnect_def example_json_def string_member_def)
  with control_server_ports_exclusive [OF example_running_facts(1) _ _ l] show ?thesis
    using l by (auto simp: initial_dm_state_def example_free_db_inv simp del: control_server_loop.simps)
qed

section \<open>What a registration promises\<close>

lemma tunnel_certs_nonempty:
  "tunnel_certs st = Some (c, k) \<Longrightarrow> c \<noteq> [] \<and> k \<noteq> []"
  by (auto simp: device_manager_get_ssl_cert_paths_def device_manager_ssl_certs_configured_def cstring_simps split: if_splits)

lemma tunnel_certs_configured: "tunnel_certs st \<noteq> None \<longleftrightarrow> device_manager_ssl_certs_configured st"
  by (simp add: device_manager_get_ssl_cert_paths_def)

lemma ensure_device_server_healthy:
  assumes "ensure_device_server env dev p q info st = (i, st')" and "0 \<le> i"
    and "slots_enabled (dyn st)" and "has_free_entry (dyn st)" and "e_ctx_ok (create_env env)"
  shows "\<exists>r \<in> set (g_dynamic_runtimes (dyn st')).
           runtime_healthy p q (di_enable_input_ssl info \<and> device_manager_ssl_certs_configured st)
             (di_enable_tunnel_ssl info \<and> device_manager_ssl_certs_configured st) (dyn st') r"
proof -
  obtain d where e: "ensure_dynamic_server_for_device (restart_env env) (create_env env) (now env) (tunnel_certs st) None
      (Some dev) p q (Some info) (dyn st) = (i, d)" and "dyn st' = d"
    using assms(1) by (auto simp: ensure_device_server_def split: prod.splits)
  then show ?thesis
    using ensure_healthy [OF assms(3,4) tunnel_certs_nonempty [of st] assms(5) e assms(2)]
    unfolding tunnel_certs_configured by simp
qed

text \<open>
  C2. What \<open>authenticated\<close> means: when a registration is answered so, the request named a device whose row holds the digest of the
  presented token in an admissible status, the announced input port and its successor are held by a new active session with
  the announced token that lasts \<open>session_timeout\<close> seconds, and a healthy pair of listeners runs on exactly
  these ports with exactly the TLS settings announced (the registry of running servers having a free entry and
  the TLS context being created).
\<close>

theorem registration_sound:
  assumes "process_registration_request J env root ip st = Some (r, st')" and "(''status'', RString ''authenticated'') \<in> set r"
    and "db_inv (db st)" and "distinct (map d_device_id (devices (db st)))"
    and "slots_enabled (dyn st)" and "has_free_entry (dyn st)" and "e_ctx_ok (create_env env)"
  shows "\<exists>dev tok d token p q input_tls tunnel_tls.
      string_member J root ''device_id'' = Some dev \<and> string_member J root ''auth_token'' = Some tok \<and>
      d \<in> set (devices (db st)) \<and> d_device_id d = dev \<and> d_auth_token_hash d = hex_text (SHA256 env tok) \<and>
      admissible_status (d_status d) \<and>
      {(''assigned_port'', RInteger (uint p)), (''tunnel_port'', RInteger (uint q)), (''session_token'', RString token),
       (''input_tls'', RBoolean input_tls), (''tunnel_tls'', RBoolean tunnel_tls)} \<subseteq> set r \<and>
      6000 \<le> uint p \<and> uint p < 7000 \<and> uint q = uint p + 1 \<and>
      (\<exists>s \<in> set (device_sessions (db st')). active_session token s \<and> s_assigned_port s = uint p \<and>
         s_expires_at s = now env + int (unat (session_timeout (g_config st))) \<and> owns_pair (port_allocations (db st')) s) \<and>
      (\<exists>x \<in> set (g_dynamic_runtimes (dyn st')). runtime_healthy p q input_tls tunnel_tls (dyn st') x)"
  using assms(1)
proof (cases rule: registration_cases)
  case (registered sec1 dev tok info db1 token p q db2 i)
  have ok: "db_ok env (statements (db st))"
    using registered(3) by (auto simp: device_authenticate_def sha256_hex_def exec_stmt_def Let_def split: if_splits)
  note auth = device_authenticate_facts [where ?db_ok = "db_ok env", OF assms(4) ok, of "SHA256 env" dev tok]
  obtain d where d: "d \<in> set (devices (db st))" "d_device_id d = dev" "d_auth_token_hash d = hex_text (SHA256 env tok)"
    "admissible_status (d_status d)" using auth(1) registered(3) by (auto simp: admissible_status_def)
  have db1: "db1 = (db st)\<lparr>statements := Suc (statements (db st))\<rparr>" using auth(3) registered(3) by simp
  have f: "even (uint p) \<and> 6000 \<le> uint p \<and> uint p < 7000 \<and> q = p + 1 \<and>
     (\<exists>s \<in> set (device_sessions db2). active_session token s \<and> s_assigned_port s = uint p \<and>
        s_expires_at s = now env + int (unat (session_timeout (g_config st))) \<and> owns_pair (port_allocations db2) s)"
    using register_device_session_facts [OF _ _ registered(4)] assms(3,4) by (auto simp: db1)
  have q: "uint q = uint p + 1" using f by (simp add: uint_plus_if')
  have db': "db st' = db2" using sec_frames(8) [of env dev p q] registered(5)
    by (metis dm_state.select_convs(8) dm_state.update_convs(8) dm_state.surjective snd_conv)
  let ?certs = "device_manager_ssl_certs_configured st"
  have "\<exists>x \<in> set (g_dynamic_runtimes (dyn st')).
      runtime_healthy p q (di_enable_input_ssl info \<and> ?certs) (di_enable_tunnel_ssl info \<and> ?certs) (dyn st') x"
    using ensure_device_server_healthy [OF registered(5,6)] assms(5-7)
    by (simp add: device_manager_ssl_certs_configured_def)
  moreover have "{(''assigned_port'', RInteger (uint p)), (''tunnel_port'', RInteger (uint q)), (''session_token'', RString token),
       (''input_tls'', RBoolean (di_enable_input_ssl info \<and> ?certs)), (''tunnel_tls'', RBoolean (di_enable_tunnel_ssl info \<and> ?certs))} \<subseteq> set r"
    using set_take_subset [of 8 r] unfolding registered(7) by auto
  ultimately show ?thesis
    using registered(1,2) d f q unfolding db'
    by (intro exI [of _ dev] exI [of _ tok] exI [of _ d] exI [of _ token] exI [of _ p] exI [of _ q]
        exI [of _ "di_enable_input_ssl info \<and> ?certs"] exI [of _ "di_enable_tunnel_ssl info \<and> ?certs"] conjI) simp_all
qed (use assms(2) in \<open>auto simp: error_response_def\<close>)

text \<open>Example: device A, whose row holds the digest of its token, registers with a manager that has just been started.\<close>

definition register_state :: dm_state where
  "register_state = (example_running (initial_db []))\<lparr>db := example_free_db\<rparr>"

definition register_env :: dm_env where
  "register_env = example_env\<lparr>SHA256 := (\<lambda>_. [])\<rparr>"

definition register_request :: "(string \<times> jview) list" where
  "register_request = [(''action'', JString ''register''), (''device_id'', JString ''A''), (''auth_token'', JString ''secret'')]"

lemma register_state_facts:
  "db register_state = example_free_db" "dyn register_state = initial_dyn_state"
  "g_config register_state = integration_config 8443 None None"
  "sec register_state = snd (security_features_init True initial_security_state)"
  by (simp_all add: register_state_def example_running_facts)

lemma register_request_members:
  "string_member (example_json ms) (Inl register_request) ''device_id'' = Some ''A''"
  "string_member (example_json ms) (Inl register_request) ''auth_token'' = Some ''secret''"
  by (simp_all add: string_member_def example_json_def register_request_def)

lemma register_limits:
  "\<exists>sec1. validate_device_token 100 True (Some ''A'') (Some ''secret'') (Some ''192.0.2.1'') (sec register_state) = Some (0, sec1)"
  by (simp add: register_state_facts validate_device_token_def check_rate_limit_def security_features_init_def initial_security_state_def
      apply_decision_def rate_limit_decide_def new_rate_limit_entry_def default_rate_limit_config_def check_ip_access_def cstring_simps Let_def)

lemma register_authenticates:
  "\<exists>info. device_authenticate (\<lambda>_. []) (\<lambda>_. True) (Some ''A'') (Some ''secret'') example_free_db =
     (Some info, example_free_db\<lparr>statements := Suc 0\<rparr>)"
  by (simp add: device_authenticate_def sha256_hex_def exec_stmt_def example_free_db_def example_device_def hex_text_def
      admissible_status_def)

lemma random_chars_length: "length (random_chars rr n seed) = n"
  by (induction n arbitrary: seed) (simp_all split: prod.split)

lemma register_ports:
  "\<exists>token db'. register_device_session (\<lambda>seed. (0, seed)) (\<lambda>_. True) (\<lambda>_. False) 100 3600 0 ''A'' None 257
      (example_free_db\<lparr>statements := Suc 0\<rparr>) = (Some (token, 6000, 6001), db')"
proof -
  obtain token where tok: "generate_session_token (\<lambda>seed. (0, seed)) 100 0 257 = Some token" and "length token \<le> 255"
    by (simp add: generate_session_token_def print_base.simps Let_def random_chars_length)
  then have len: "\<not> 255 < length token" by simp
  show ?thesis
    by (simp add: register_device_session_def tok exec_stmt_def sql_cleanup_device_sessions_def sql_update_def
        sql_register_session_def pair_candidates_def pair_row_usable_def admissible_status_def len
        example_free_db_def example_device_def sql_activate_device_def Let_def)
qed

lemma register_starts:
  "\<exists>st'. ensure_device_server register_env ''A'' 6000 6001 info (register_state\<lparr>sec := s, db := d\<rparr>) = (0, st')"
proof -
  let ?st = "register_state\<lparr>sec := s, db := d\<rparr>"
  have "stop_dynamic_runtimes_for_device (Some ''A'') 6000 6001 initial_dyn_state = initial_dyn_state"
    by (rule stop_nothing) (simp add: initial_dyn_state_def zero_runtime_def)
  moreover obtain x y where ssl: "requested_ssl (tunnel_certs ?st) (Some info) = (x, y)" by fastforce
  ultimately have "ensure_dynamic_server_for_device good_env good_env 100 (tunnel_certs ?st) None (Some ''A'') 6000 6001
      (Some info) initial_dyn_state =
      create_dynamic_server_for_device good_env 100 (tunnel_certs ?st) (Some ''A'') 6000 6001 (Some info) initial_dyn_state"
    using ensure_cases [OF initial_dyn_state_facts(1), where info = "Some info" and loaded = None and p = 6000 and q = 6001
        and certs = "tunnel_certs ?st", of x y]
    by (simp add: initial_dyn_state_facts)
  then have "fst (ensure_dynamic_server_for_device good_env good_env 100 (tunnel_certs ?st) None (Some ''A'') 6000 6001
      (Some info) initial_dyn_state) = 0"
    by (simp add: initial_create_good)
  then show ?thesis
    by (simp add: ensure_device_server_def register_state_facts register_env_def example_env_def case_prod_beta)
qed

lemma register_accepted:
  "\<exists>r st'. process_registration_request (example_json ms) register_env (Inl register_request) (Some ''192.0.2.1'') register_state =
     Some (r, st') \<and> (''status'', RString ''authenticated'') \<in> set r"
proof -
  from register_limits obtain sec1 where
    1: "validate_device_token 100 True (Some ''A'') (Some ''secret'') (Some ''192.0.2.1'') (sec register_state) = Some (0, sec1)" ..
  from register_authenticates obtain info where
    2: "device_authenticate (\<lambda>_. []) (\<lambda>_. True) (Some ''A'') (Some ''secret'') example_free_db =
     (Some info, example_free_db\<lparr>statements := Suc 0\<rparr>)" ..
  from register_ports obtain token db' where
    3: "register_device_session (\<lambda>seed. (0, seed)) (\<lambda>_. True) (\<lambda>_. False) 100 3600 0 ''A'' None 257
      (example_free_db\<lparr>statements := Suc 0\<rparr>) = (Some (token, 6000, 6001), db')" by blast
  from register_starts obtain st' where
    4: "ensure_device_server register_env ''A'' 6000 6001 (info\<lparr>di_tunnel_port := 6001, di_assigned_port := 6000\<rparr>)
      (register_state\<lparr>sec := sec1, db := db'\<rparr>) = (0, st')" by blast
  have env: "now register_env = 100" "realloc_ok register_env" "SHA256 register_env = (\<lambda>_. [])" "db_ok register_env = (\<lambda>_. True)"
    "rand_r register_env = (\<lambda>s. (0, s))" "locked register_env = (\<lambda>_. False)" "address register_env = 0"
    by (simp_all add: register_env_def example_env_def)
  show ?thesis
    by (simp add: process_registration_request_def register_request_members 1 2 3 4 env register_state_facts(1,3) integration_config_def Let_def)
qed

theorem registration_sound_witness:
  "\<exists>r st' token x. process_registration_request (example_json []) register_env (Inl register_request) (Some ''192.0.2.1'') register_state =
     Some (r, st') \<and> (''session_token'', RString token) \<in> set r \<and>
     x \<in> set (g_dynamic_runtimes (dyn st')) \<and> rt_connections_data x \<noteq> None"
proof -
  from register_accepted obtain r st' where
    r: "process_registration_request (example_json []) register_env (Inl register_request) (Some ''192.0.2.1'') register_state = Some (r, st')"
      "(''status'', RString ''authenticated'') \<in> set r" by blast
  have "distinct (map d_device_id (devices (db register_state)))" by (simp add: register_state_facts example_free_db_def)
  from registration_sound [OF r _ this] obtain token p q input_tls tunnel_tls x where
    "(''session_token'', RString token) \<in> set r" "x \<in> set (g_dynamic_runtimes (dyn st'))"
    "runtime_healthy p q input_tls tunnel_tls (dyn st') x"
    by (auto simp: register_state_facts example_free_db_inv initial_dyn_state_facts register_env_def example_env_def good_env_def)
  with r show ?thesis by (auto simp: runtime_healthy_def split: option.splits)
qed

section \<open>Heartbeats and TLS reloads\<close>

text \<open>What identifies sessions and devices, which a heartbeat never changes.\<close>

definition db_keys :: "device_db \<Rightarrow> (string \<times> string \<times> nat) list \<times> (nat \<times> string) list" where
  "db_keys d = (map (\<lambda>s. (s_token s, s_status s, s_device s)) (device_sessions d), map (\<lambda>e. (d_id e, d_device_id e)) (devices d))"

lemma db_keys_simps [simp]:
  "db_keys (d\<lparr>statements := n\<rparr>) = db_keys d" "db_keys (d\<lparr>device_traffic_samples := xs\<rparr>) = db_keys d"
  "db_keys (d\<lparr>device_statistics := hs\<rparr>) = db_keys d"
  by (simp_all add: db_keys_def)

lemma exec_stmt_keys:
  assumes "\<And>d a d'. stmt d = Some (a, d') \<Longrightarrow> db_keys d' = db_keys d"
  shows "db_keys (snd (exec_stmt ok stmt d)) = db_keys d"
  using assms by (auto simp: exec_stmt_def Let_def split: option.split)

lemma update_device_heartbeat_keys: "db_keys (snd (update_device_heartbeat ok t to token d)) = db_keys d"
proof -
  have 1: "db_keys (snd (exec_stmt ok (sql_touch_session t to token) d)) = db_keys d"
    by (rule exec_stmt_keys) (auto simp: sql_touch_session_def db_keys_def sql_update_def)
  have 2: "db_keys (snd (exec_stmt ok (sql_touch_device t token) e)) = db_keys e" for e
    by (rule exec_stmt_keys) (auto simp: sql_touch_device_def db_keys_def sql_update_def)
  from 1 2 show ?thesis
    by (auto simp: update_device_heartbeat_def split: option.split prod.split)
qed

lemma update_device_statistics_keys: "db_keys (snd (update_device_statistics ok t tok a b c d)) = db_keys d"
proof (cases tok)
  case None
  then show ?thesis by (simp add: update_device_statistics_def)
next
  case (Some token)
  have 1: "db_keys (snd (exec_stmt ok (sql_add_session_stats t a b c token) d)) = db_keys d"
    by (rule exec_stmt_keys) (auto simp: sql_add_session_stats_def db_keys_def sql_update_def split: if_splits)
  have 2: "db_keys (snd (exec_stmt ok (sql_add_device_totals a b token) e)) = db_keys e" for e
    by (rule exec_stmt_keys) (auto simp: sql_add_device_totals_def db_keys_def sql_update_def split: if_splits)
  from 1 2 show ?thesis
    by (auto simp: update_device_statistics_def Some split: option.split prod.split)
qed

lemma statistics_tables_keys:
  "db_keys (snd (record_device_traffic_sample ok t tok a b c d)) = db_keys d"
  "db_keys (snd (aggregate_device_hourly_statistics ok t tok a b c d)) = db_keys d"
  by (auto simp: record_device_traffic_sample_def aggregate_device_hourly_statistics_def exec_stmt_def Let_def
      split: option.split if_split)

lemma read_keys:
  "db_keys (snd (get_session_by_token ok tok d)) = db_keys d"
  "db_keys (snd (device_manager_load_device_by_id ok dev d)) = db_keys d"
  using get_session_tables [of ok tok d]
  by (auto simp: device_manager_load_device_by_id_def exec_stmt_def Let_def split: option.split)

lemma heartbeat_parts_keys:
  "db_keys (db (heartbeat_ensure env token st)) = db_keys (db st)"
  "db_keys (heartbeat_record env token figures d) = db_keys d"
proof -
  note g = read_keys(1) [of "db_ok env" "Some token" "db st"]
  show "db_keys (db (heartbeat_ensure env token st)) = db_keys (db st)"
    using g read_keys(2)
    by (auto simp: heartbeat_ensure_def Let_def case_prod_beta split: option.split prod.split)
  show "db_keys (heartbeat_record env token figures d) = db_keys d"
    by (simp add: heartbeat_record_def Let_def statistics_tables_keys update_device_statistics_keys split: prod.split)
qed

lemma map_eq_member: "map f xs = map f ys \<Longrightarrow> y \<in> set ys \<Longrightarrow> \<exists>x \<in> set xs. f x = f y"
  by (metis imageE image_eqI list.set_map)

lemma get_session_device:
  assumes "db_keys d = db_keys d0" and "ok (statements d)"
    and "distinct (map s_token (device_sessions d0))" and "distinct (map d_id (devices d0))"
    and "s \<in> set (device_sessions d0)" and "active_session token s" and "e \<in> set (devices d0)" and "d_id e = s_device s"
  shows "\<exists>ses. get_session_by_token ok (Some token) d = (Some ses, d\<lparr>statements := Suc (statements d)\<rparr>) \<and>
           ds_device_id ses = strncpy 64 (d_device_id e)"
proof -
  let ?p = "\<lambda>(s, e). active_session token s \<and> s_device s = d_id e"
  have ks: "map (\<lambda>s. (s_token s, s_status s, s_device s)) (device_sessions d) = map (\<lambda>s. (s_token s, s_status s, s_device s)) (device_sessions d0)"
    "map (\<lambda>e. (d_id e, d_device_id e)) (devices d) = map (\<lambda>e. (d_id e, d_device_id e)) (devices d0)"
    using assms(1) by (simp_all add: db_keys_def)
  obtain s1 where s1: "s1 \<in> set (device_sessions d)" "active_session token s1" "s_device s1 = s_device s"
    using map_eq_member [OF ks(1) assms(5)] assms(6) by (auto simp: active_session_def)
  obtain e1 where e1: "e1 \<in> set (devices d)" "d_id e1 = d_id e"
    using map_eq_member [OF ks(2) assms(7)] by auto
  obtain x where x: "find ?p (List.product (device_sessions d) (devices d)) = Some x"
    using s1 e1 assms(8) by (cases "find ?p (List.product (device_sessions d) (devices d))") (force simp: find_None_iff)+
  from find_SomeD [OF x] obtain s2 e2 where x2: "x = (s2, e2)" "s2 \<in> set (device_sessions d)" "e2 \<in> set (devices d)"
    "active_session token s2" "s_device s2 = d_id e2" by auto
  have "s_device s2 = s_device s"
  proof -
    obtain s3 where "s3 \<in> set (device_sessions d0)" "s_token s3 = s_token s2" "s_device s3 = s_device s2"
      using map_eq_member [OF ks(1) [symmetric] x2(2)] by auto
    with assms(3,5,6) x2(4) show ?thesis by (metis active_session_def distinct_map inj_on_eq_iff)
  qed
  then have "d_device_id e2 = d_device_id e"
  proof -
    assume dev: "s_device s2 = s_device s"
    obtain e3 where "e3 \<in> set (devices d0)" "d_id e3 = d_id e2" "d_device_id e3 = d_device_id e2"
      using map_eq_member [OF ks(2) [symmetric] x2(3)] by auto
    with assms(4,7,8) x2(5) dev show ?thesis by (metis distinct_map inj_on_eq_iff)
  qed
  with x x2 assms(2) show ?thesis
    by (simp add: get_session_by_token_def exec_stmt_def split_def)
qed

text \<open>
  A heartbeat delivers the pending TLS reload: when the database answers, the heartbeat of an active session is answered
  \<open>ok\<close>, its answer carries \<open>reload_tls\<close> exactly when a reload is pending for the session's device, and afterwards
  that flag and no other is gone.
\<close>

theorem heartbeat_delivers_reload:
  assumes "string_member J root ''session_token'' = Some token"
    and "validate_session_token_security (now env) (realloc_ok env) (Some token) ip (sec st) = Some (0, sec1)"
    and "\<And>n. db_ok env n" and "distinct (map s_token (device_sessions (db st)))" and "distinct (map d_id (devices (db st)))"
    and "s \<in> set (device_sessions (db st))" and "active_session token s" and "d \<in> set (devices (db st))" and "d_id d = s_device s"
    and "tls_pending_inv (g_tls_reload_pending st)" and "d_device_id d \<noteq> []" and "length (d_device_id d) \<le> 64"
  shows "\<exists>r st'. process_heartbeat_request J env root ip st = Some (r, st') \<and> (''status'', RString ''ok'') \<in> set r \<and>
     ((''reload_tls'', RBoolean True) \<in> set r \<longleftrightarrow> d_device_id d \<in> set (g_tls_reload_pending st)) \<and>
     set (g_tls_reload_pending st') = set (g_tls_reload_pending st) - {d_device_id d}"
proof -
  let ?st1 = "st\<lparr>sec := sec1\<rparr>"
  obtain rc db1 where hb: "update_device_heartbeat (db_ok env) (now env) (session_timeout (g_config st)) token (db st) = (rc, db1)"
    by fastforce
  have "filter (active_session token) (device_sessions (db st)) \<noteq> []" using assms(6,7) by (auto simp: filter_empty_conv)
  with hb have rc: "rc = 0"
    by (auto simp: update_device_heartbeat_def exec_stmt_def sql_touch_session_def assms(3) Let_def)
  define st3 where "st3 = heartbeat_ensure env token (?st1\<lparr>db := db1\<rparr>)"
  define st4 where "st4 = st3\<lparr>db := heartbeat_record env token (heartbeat_traffic J root (heartbeat_statistics J root)) (db st3)\<rparr>"
  have "db_keys db1 = db_keys (db st)" using update_device_heartbeat_keys [of "db_ok env" "now env" _ token "db st"] hb by (metis snd_conv)
  then have keys: "db_keys (db st4) = db_keys (db st)" by (simp add: st4_def st3_def heartbeat_parts_keys)
  have pend: "g_tls_reload_pending st4 = g_tls_reload_pending st"
    by (auto simp: st4_def st3_def heartbeat_ensure_def Let_def case_prod_beta split: option.split prod.split)
  from get_session_device [OF keys, of "db_ok env" s token d] assms obtain ses where
    ses: "get_session_by_token (db_ok env) (Some token) (db st4) = (Some ses, (db st4)\<lparr>statements := Suc (statements (db st4))\<rparr>)"
      "ds_device_id ses = d_device_id d" by (auto simp: cstring_simps)
  obtain tls st5 where t: "heartbeat_tls env token st4 = (tls, st5)" by fastforce
  have r: "process_heartbeat_request J env root ip st = Some (tls @ [(''status'', RString ''ok''), (''timestamp'', RInteger (now env))], st5)"
    using assms(1,2) hb rc t by (simp add: process_heartbeat_request_def Let_def st4_def st3_def)
  note flag = tls_flags.fetch_answer [OF assms(10) conjI [OF assms(11,12)]] tls_flags.fetch_flags [OF assms(10) conjI [OF assms(11,12)]]
  obtain f p' where c: "device_manager_consume_tls_reload_pending (Some (d_device_id d)) (g_tls_reload_pending st) = (f, p')" by fastforce
  have p': "g_tls_reload_pending st5 = p'" and "\<exists>a b. tls = (''input_tls'', a) # (''tunnel_tls'', b) # (if f then [(''reload_tls'', RBoolean True)] else [])"
    using t by (simp_all add: heartbeat_tls_def ses pend c Let_def case_prod_beta) (auto simp flip: append_Cons)
  then have "(''reload_tls'', RBoolean True) \<in> set tls \<longleftrightarrow> f" by auto
  moreover have "f \<longleftrightarrow> d_device_id d \<in> set (g_tls_reload_pending st)" "set p' = set (g_tls_reload_pending st) - {d_device_id d}"
    using flag by (simp_all only: c fst_conv snd_conv)
  ultimately show ?thesis using r p' by simp
qed

definition heartbeat_state :: dm_state where
  "heartbeat_state = (example_running (initial_db []))\<lparr>db := example_db, g_tls_reload_pending := [''B'']\<rparr>"

lemma heartbeat_limits:
  "\<exists>sec1. validate_session_token_security 100 True (Some ''tb'') (Some ''192.0.2.1'') (sec heartbeat_state) = Some (0, sec1)"
  by (simp add: heartbeat_state_def example_running_facts validate_session_token_security_def session_rate_limit_key_def check_rate_limit_def
      security_features_init_def initial_security_state_def apply_decision_def rate_limit_decide_def new_rate_limit_entry_def
      default_rate_limit_config_def check_ip_access_def cstring_simps Let_def)

theorem heartbeat_delivers_reload_witness:
  "\<exists>r st'. process_heartbeat_request (example_json []) example_env (Inl [(''session_token'', JString ''tb'')]) (Some ''192.0.2.1'') heartbeat_state =
     Some (r, st') \<and> (''reload_tls'', RBoolean True) \<in> set r \<and> g_tls_reload_pending st' = []"
proof -
  from heartbeat_limits obtain sec1 where
    "validate_session_token_security (now example_env) (realloc_ok example_env) (Some ''tb'') (Some ''192.0.2.1'') (sec heartbeat_state) = Some (0, sec1)"
    by (auto simp: example_env_def)
  from heartbeat_delivers_reload [OF _ this, of "example_json []" "Inl [(''session_token'', JString ''tb'')]"
      "device_sessions example_db ! 1" "devices example_db ! 1"]
  show ?thesis
    by (auto simp: heartbeat_state_def example_db_def example_session_def example_device_def new_session_row_def active_session_def
        string_member_def example_json_def example_env_def tls_pending_inv_def tls_reload_pending_max_def)
qed

section \<open>Session tokens\<close>

text \<open>
  A session token is guessable: the generator is seeded with the clock and the address of a buffer cut to 32 bits, so for any \<open>rand_r\<close>
  no more than 2^32 tokens exist for a given second, although a token carries 32 characters of a
  62-letter alphabet behind its time prefix. And a registration whose generator repeats a token already
  in the table (two in one second, with the buffer at the same address) creates no session.
\<close>

theorem session_token_guessable:
  assumes "generate_session_token rr t addr 257 = Some token" and "token \<in> s_token ` set (device_sessions d)"
  shows "card {x. \<exists>addr. generate_session_token rr t addr 257 = Some x} \<le> 2 ^ 32 \<and>
         (\<forall>p q d'. sql_register_session t lk timeout dev token ip d \<noteq> Some (Some (p, q), d'))"
proof -
  let ?f = "\<lambda>seed :: u32. take 256 (print_base 16 (nat t) @ ''-'' @ random_chars rr 32 seed)"
  have "{x. \<exists>addr. generate_session_token rr t addr 257 = Some x} \<subseteq> range ?f"
    by (auto simp: generate_session_token_def Let_def)
  then have "card {x. \<exists>addr. generate_session_token rr t addr 257 = Some x} \<le> card (range ?f)"
    by (intro card_mono) simp_all
  also have "\<dots> \<le> card (UNIV :: u32 set)" by (rule card_image_le) simp
  also have "\<dots> = 2 ^ 32" by (simp add: card_word)
  finally have "card {x. \<exists>addr. generate_session_token rr t addr 257 = Some x} \<le> 2 ^ 32" .
  moreover have "sql_register_session t lk timeout dev token ip d \<noteq> Some (Some (p, q), d')" for p q d'
    using assms(2) by (auto simp: sql_register_session_def list_ex_iff Let_def split: option.splits list.splits)
  ultimately show ?thesis by blast
qed

theorem session_token_guessable_witness:
  "\<exists>token. generate_session_token (\<lambda>s. (0, s)) 100 7 257 = Some token \<and>
     (\<nexists>p q d'. sql_register_session 100 (\<lambda>_. False) 3600 ''A'' token ''0.0.0.0''
       (example_free_db\<lparr>device_sessions := [example_session 0 0 token ''expired'']\<rparr>) = Some (Some (p, q), d'))"
proof -
  obtain token where t: "generate_session_token (\<lambda>s. (0, s)) 100 7 257 = Some token"
    by (simp add: generate_session_token_def Let_def)
  have "token \<in> s_token ` set (device_sessions (example_free_db\<lparr>device_sessions := [example_session 0 0 token ''expired'']\<rparr>))"
    by (simp add: example_session_def new_session_row_def)
  from session_token_guessable [OF t this, of "\<lambda>_. False" 3600 "''A''" "''0.0.0.0''"] t show ?thesis by blast
qed

end
