(* ===== verification/Client_Device.thy ===== *)
theory Client_Device
  imports Control_Plane
begin

text \<open>
  The device side of the control protocol: \<open>src/client/proxy/client/proxy_client_device_integration.c\<close> (registration, the
  tunnel settings derived from it, re-registration), \<open>device_heartbeat.c\<close> (the heartbeat thread) and the parts of \<open>proxy_client.c\<close> they
  call (traffic counters, the TLS context, starting and dropping the proxy connections).

  The static variables of the three files are the fields of \<open>client_state\<close>. One request and its response on the control port are
  an observation, \<open>exchange\<close>: which of the system and library calls succeeded and the text that was received. The JSON library is
  the parameter the server's model has. A fixed-size character array is the text it holds.
\<close>

section \<open>Data\<close>

datatype device_registration_status =
  DEVICE_STATUS_DISCONNECTED | DEVICE_STATUS_REGISTERED | DEVICE_STATUS_CONNECTED | DEVICE_STATUS_RECONNECTING

datatype heartbeat_status =
  HEARTBEAT_STATUS_DISCONNECTED | HEARTBEAT_STATUS_CONNECTED | HEARTBEAT_STATUS_TIMEOUT | HEARTBEAT_STATUS_ERROR

record device_registration_state =
  rs_device_id :: string
  rs_auth_token :: string
  rs_server_host :: string
  rs_server_port :: u16
  rs_assigned_port :: u16
  rs_tunnel_port :: u16
  rs_input_tls :: bool
  rs_tunnel_tls :: bool
  rs_internal_address :: string
  rs_internal_port :: u16
  rs_status :: device_registration_status
  rs_session_token :: string
  rs_registered_at :: time_t
  rs_heartbeat_interval :: u32

record heartbeat_config =
  hc_device_id :: string
  hc_session_token :: string
  hc_server_host :: string
  hc_server_port :: u16
  hc_assigned_port :: u16
  hc_heartbeat_interval :: u32
  hc_heartbeat_timeout :: u32
  hc_connection_timeout :: u32
  hc_max_failures :: u32
  hc_enable_ssl :: bool
  hc_ssl_ctx :: bool

record heartbeat_manager =
  hm_config :: heartbeat_config
  hm_status :: heartbeat_status
  hm_last_sent :: time_t
  hm_last_received :: time_t
  hm_fail_count :: u32
  hm_reconnect_attempts :: u32
  hm_allow_reconnect :: bool

text \<open>One proxy connection, \<open>proxy_server_connection_t\<close>; a descriptor below 0 is closed.\<close>

record client_conn =
  is_starting_input :: bool
  is_running_input :: bool
  stop_running_input :: bool
  conn_input :: int
  conn_ssl_input :: bool
  is_starting_output :: bool
  is_running_output :: bool
  stop_running_output :: bool
  conn_output :: int
  conn_ssl_output :: bool

text \<open>\<open>proxy_server_thread_data_t\<close>; \<open>connections\<close> is None before the array is allocated.\<close>

record client_settings =
  connections :: "client_conn list option"
  connections_count :: int
  timeout_seconds :: int
  input_address :: string
  input_port :: u16
  output_address :: string
  output_port :: u16
  disable_timeout :: bool
  ssl_ctx :: bool
  enable_tunnel_ssl :: bool
  enable_output_ssl :: bool
  ca_file :: string

datatype fd_event = Fd_shutdown int | Fd_close int

record client_state =
  g_device_state :: device_registration_state
  g_device_registration_enabled :: bool
  g_device_session_revoked :: bool
  g_registration_wait_running :: bool
  g_device_control_ssl_ctx :: bool
  g_device_control_ssl_enabled :: bool
  g_registration_ca_file :: string
  g_heartbeat_config :: heartbeat_config
  g_cli_output_host :: bool
  g_cli_output_port :: bool
  g_port_host_base :: u16
  g_port_range_start :: u16
  g_tunnel_port_override :: u16
  g_heartbeat_manager :: heartbeat_manager
  g_heartbeat_running :: bool
  g_tls_sync_pending :: bool
  threads_data :: client_settings
  sent_since_last :: u64
  received_since_last :: u64
  fd_log :: "fd_event list"

section \<open>Traffic counters\<close>

definition client_traffic_add_sent :: "u64 \<Rightarrow> client_state \<Rightarrow> client_state" where
  "client_traffic_add_sent bytes st = (if bytes = 0 then st else st\<lparr>sent_since_last := sent_since_last st + bytes\<rparr>)"

definition client_traffic_add_received :: "u64 \<Rightarrow> client_state \<Rightarrow> client_state" where
  "client_traffic_add_received bytes st = (if bytes = 0 then st else st\<lparr>received_since_last := received_since_last st + bytes\<rparr>)"

definition client_traffic_reset_since_last :: "client_state \<Rightarrow> client_state" where
  "client_traffic_reset_since_last st = st\<lparr>sent_since_last := 0, received_since_last := 0\<rparr>"

definition client_traffic_get_active_connections :: "client_settings \<Rightarrow> int" where
  "client_traffic_get_active_connections s =
     (case connections s of None \<Rightarrow> 0
      | Some cs \<Rightarrow> int (length (filter (\<lambda>c. is_running_input c \<and> is_running_output c) (take (nat (connections_count s)) cs))))"

section \<open>TLS contexts\<close>

text \<open>\<open>ctx_ok\<close>: \<open>SSL_CTX_new\<close> succeeded; \<open>load_ok\<close>: the CA file was loaded.\<close>

definition create_client_ssl_context :: "bool \<Rightarrow> bool \<Rightarrow> string \<Rightarrow> bool" where
  "create_client_ssl_context ctx_ok load_ok ca \<longleftrightarrow> ca \<noteq> [] \<and> ctx_ok \<and> load_ok"

definition create_device_control_ssl_context :: "bool \<Rightarrow> bool \<Rightarrow> string option \<Rightarrow> bool" where
  "create_device_control_ssl_context ctx_ok load_ok ca \<longleftrightarrow>
     ctx_ok \<and> (case ca of None \<Rightarrow> True | Some f \<Rightarrow> f = [] \<or> load_ok)"

text \<open>None is \<open>exit\<close>.\<close>

definition ensure_client_ssl_context :: "bool \<Rightarrow> bool \<Rightarrow> bool \<Rightarrow> client_settings \<Rightarrow> (int \<times> client_settings) option" where
  "ensure_client_ssl_context fatal_on_error ctx_ok load_ok s =
     (if \<not> (enable_tunnel_ssl s \<or> enable_output_ssl s) then Some (0, s\<lparr>ssl_ctx := False\<rparr>)
      else if ssl_ctx s then Some (0, s)
      else if ca_file s = [] then Some (-1, s\<lparr>enable_tunnel_ssl := False, enable_output_ssl := False\<rparr>)
      else if create_client_ssl_context ctx_ok load_ok (ca_file s) then Some (0, s\<lparr>ssl_ctx := True\<rparr>)
      else if fatal_on_error then None
      else Some (-1, s\<lparr>enable_tunnel_ssl := False, enable_output_ssl := False\<rparr>))"

definition refresh_client_ssl_context :: "bool \<Rightarrow> bool \<Rightarrow> client_state \<Rightarrow> client_state" where
  "refresh_client_ssl_context ctx_ok load_ok st =
     (case ensure_client_ssl_context False ctx_ok load_ok (threads_data st) of
        None \<Rightarrow> st | Some (_, s) \<Rightarrow> st\<lparr>threads_data := s\<rparr>)"

section \<open>Starting and dropping the proxy connections\<close>

text \<open>
  What \<open>server_input_start\<close> saw: no memory for the parameter, no thread, or a thread that ended its starting phase with the given
  running flag, descriptor and TLS object.
\<close>

datatype input_start = No_parameter | No_thread | Thread_started bool int bool

definition server_input_start :: "input_start \<Rightarrow> client_conn \<Rightarrow> client_conn" where
  "server_input_start ob c =
     (if is_running_input c then c
      else
        let c1 = c\<lparr>is_starting_input := True, stop_running_input := False\<rparr>
        in case ob of
             No_parameter \<Rightarrow> c1\<lparr>is_starting_input := False\<rparr>
           | No_thread \<Rightarrow> c1\<lparr>is_starting_input := False\<rparr>
           | Thread_started running fd tls \<Rightarrow>
               c1\<lparr>is_starting_input := False, is_running_input := running, conn_input := fd, conn_ssl_input := tls\<rparr>)"

definition zero_conn :: client_conn where
  "zero_conn =
     \<lparr>is_starting_input = False, is_running_input = False, stop_running_input = False, conn_input = 0, conn_ssl_input = False,
      is_starting_output = False, is_running_output = False, stop_running_output = False, conn_output = 0, conn_ssl_output = False\<rparr>"

definition open_fds :: "client_conn \<Rightarrow> int list" where
  "open_fds c = filter (\<lambda>fd. 0 \<le> fd) [conn_input c, conn_output c]"

definition stop_flags :: "client_conn \<Rightarrow> client_conn" where
  "stop_flags c = c\<lparr>stop_running_input := True, stop_running_output := True\<rparr>"

definition switcher_servers_drop_active_connections :: "client_state \<Rightarrow> client_state" where
  "switcher_servers_drop_active_connections st =
     (case connections (threads_data st) of None \<Rightarrow> st
      | Some cs \<Rightarrow>
          st\<lparr>threads_data := (threads_data st)\<lparr>connections := Some (map stop_flags cs)\<rparr>,
             fd_log := fd_log st @ concat (map (\<lambda>c. map Fd_shutdown (open_fds c)) cs)\<rparr>)"

definition close_fds :: "client_conn \<Rightarrow> client_conn" where
  "close_fds c =
     (let c1 = (if 0 \<le> conn_input c then c\<lparr>conn_input := -1\<rparr> else c)
      in if 0 \<le> conn_output c1 then c1\<lparr>conn_output := -1\<rparr> else c1)"

definition reset_conn :: "client_conn \<Rightarrow> client_conn" where
  "reset_conn c =
     c\<lparr>stop_running_input := False, stop_running_output := False, is_running_input := False, is_running_output := False,
       is_starting_input := False, is_starting_output := False\<rparr>"

definition switcher_servers_restart_input_threads :: "(nat \<Rightarrow> input_start) \<Rightarrow> client_state \<Rightarrow> client_state" where
  "switcher_servers_restart_input_threads starts st =
     (case connections (threads_data st) of None \<Rightarrow> st
      | Some cs \<Rightarrow>
          st\<lparr>threads_data := (threads_data st)\<lparr>connections :=
               Some (map (\<lambda>(i, c). server_input_start (starts i) (reset_conn (close_fds (stop_flags c)))) (enumerate 0 cs))\<rparr>,
             fd_log := fd_log st @ concat (map (\<lambda>c. concat (map (\<lambda>fd. [Fd_shutdown fd, Fd_close fd]) (open_fds c))) cs)\<rparr>)"

text \<open>\<open>switcher_servers_start\<close>: None is the \<open>exit\<close> of a failed TLS context.\<close>

definition switcher_servers_start_client ::
  "bool \<Rightarrow> bool \<Rightarrow> bool \<Rightarrow> (nat \<Rightarrow> input_start) \<Rightarrow> client_state \<Rightarrow> (int \<times> client_state) option" where
  "switcher_servers_start_client ctx_ok load_ok malloc_ok starts st =
     (case ensure_client_ssl_context True ctx_ok load_ok (threads_data st) of
        None \<Rightarrow> None
      | Some (_, s) \<Rightarrow>
          if \<not> malloc_ok then Some (-1, st\<lparr>threads_data := s\<lparr>connections := None\<rparr>\<rparr>)
          else Some (0, st\<lparr>threads_data := s\<lparr>connections :=
                 Some (map (\<lambda>i. server_input_start (starts i) zero_conn) [0..<nat (connections_count s)])\<rparr>\<rparr>))"

section \<open>Settings derived from the registration\<close>

definition device_registration_set_control_tls :: "string option \<Rightarrow> bool \<Rightarrow> client_state \<Rightarrow> client_state" where
  "device_registration_set_control_tls ca tls st =
     st\<lparr>g_device_control_ssl_enabled := tls,
        g_registration_ca_file := (case ca of None \<Rightarrow> [] | Some f \<Rightarrow> strncpy 511 f)\<rparr>"

definition apply_tunnel_tls_client_settings :: "client_state \<Rightarrow> client_state" where
  "apply_tunnel_tls_client_settings st =
     (if \<not> rs_tunnel_tls (g_device_state st)
      then st\<lparr>threads_data := (threads_data st)\<lparr>enable_tunnel_ssl := False, ca_file := []\<rparr>\<rparr>
      else if g_registration_ca_file st = [] then st
      else st\<lparr>threads_data := (threads_data st)\<lparr>enable_tunnel_ssl := True, ca_file := strncpy 255 (g_registration_ca_file st)\<rparr>\<rparr>)"

definition tunnel_connect_port :: "client_state \<Rightarrow> u16" where
  "tunnel_connect_port st =
     (if g_tunnel_port_override st \<noteq> 0 then g_tunnel_port_override st
      else if g_port_host_base st \<noteq> 0
      then g_port_host_base st + (rs_tunnel_port (g_device_state st) - g_port_range_start st)
      else rs_tunnel_port (g_device_state st))"

definition apply_tunnel_settings :: "client_state \<Rightarrow> client_state" where
  "apply_tunnel_settings st =
     apply_tunnel_tls_client_settings
       (st\<lparr>threads_data := (threads_data st)\<lparr>input_address := strncpy 31 (rs_server_host (g_device_state st)),
                                            input_port := tunnel_connect_port st\<rparr>\<rparr>)"

definition apply_output_target_from_registration :: "client_state \<Rightarrow> client_state" where
  "apply_output_target_from_registration st =
     (let d = g_device_state st;
          s1 = (if g_cli_output_host st then threads_data st
                else if rs_internal_address d \<noteq> [] then (threads_data st)\<lparr>output_address := strncpy 31 (rs_internal_address d)\<rparr>
                else if rs_internal_port d \<noteq> 0 then (threads_data st)\<lparr>output_address := ''127.0.0.1''\<rparr>
                else threads_data st);
          s2 = (if \<not> g_cli_output_port st \<and> rs_internal_port d \<noteq> 0 then s1\<lparr>output_port := rs_internal_port d\<rparr> else s1)
      in st\<lparr>threads_data := s2\<rparr>)"

definition validate_output_target :: "client_settings \<Rightarrow> int" where
  "validate_output_target s = (if output_port s = 0 then -1 else if output_address s = [] then -1 else 0)"

section \<open>The control connection\<close>

record exchange =
  ex_socket :: bool
  ex_address :: bool
  ex_connect :: bool
  ex_ctx_new :: bool
  ex_ca_loaded :: bool
  ex_ssl_new :: bool
  ex_handshake :: bool
  ex_serialised :: bool
  ex_sent_all :: bool
  ex_received :: "string option"
  ex_time :: time_t

definition ensure_device_control_ssl_ctx :: "exchange \<Rightarrow> client_state \<Rightarrow> int \<times> client_state" where
  "ensure_device_control_ssl_ctx ob st =
     (if \<not> g_device_control_ssl_enabled st then (0, st)
      else if g_device_control_ssl_ctx st then (0, st)
      else if create_device_control_ssl_context (ex_ctx_new ob) (ex_ca_loaded ob)
                (if g_registration_ca_file st = [] then None else Some (g_registration_ca_file st))
      then (0, st\<lparr>g_device_control_ssl_ctx := True\<rparr>)
      else (-1, st))"

definition device_control_connect :: "exchange \<Rightarrow> client_state \<Rightarrow> int \<times> client_state" where
  "device_control_connect ob st =
     (if \<not> ex_socket ob then (-1, st)
      else if \<not> ex_address ob then (-1, st)
      else if \<not> ex_connect ob then (-1, st)
      else if \<not> g_device_control_ssl_enabled st then (0, st)
      else case ensure_device_control_ssl_ctx ob st of
             (rc, st1) \<Rightarrow> if rc \<noteq> 0 then (-1, st1)
                         else if \<not> ex_ssl_new ob \<or> \<not> ex_handshake ob then (-1, st1)
                         else (0, st1))"

text \<open>
  The text that \<open>recv\<close> or \<open>SSL_read\<close> put into the 4096-byte buffer: at most 4095 bytes of the response, None when nothing came.
\<close>

definition received_text :: "exchange \<Rightarrow> string option" where
  "received_text ob = (case ex_received ob of None \<Rightarrow> None | Some s \<Rightarrow> if s = [] then None else Some (take 4095 s))"

definition boolean_member :: "'j jansson \<Rightarrow> 'j \<Rightarrow> string \<Rightarrow> bool option" where
  "boolean_member J root key =
     (case json_object_get J root key of None \<Rightarrow> None
      | Some v \<Rightarrow> (case json_view J v of JBoolean b \<Rightarrow> Some b | _ \<Rightarrow> None))"

section \<open>Requests\<close>

text \<open>The documents the client builds; \<open>json_dumps\<close> of one of them is what it sends. The only real numbers in them are 0.0.\<close>

datatype jdoc = DString string | DInteger int | DReal int | DBool bool | DArray "jdoc list" | DObject "(string \<times> jdoc) list"

definition registration_request :: "string \<Rightarrow> time_t \<Rightarrow> client_state \<Rightarrow> jdoc" where
  "registration_request version t st =
     DObject
       [(''action'', DString ''register''), (''device_id'', DString (rs_device_id (g_device_state st))),
        (''auth_token'', DString (rs_auth_token (g_device_state st))), (''version'', DString ''1.0''),
        (''capabilities'', DArray [DString ''tcp'', DString ''ssl'']),
        (''metadata'', DObject [(''client_version'', DString version), (''platform'', DString ''linux''), (''start_time'', DInteger t)])]"

text \<open>
  The traffic counters are read twice while the heartbeat is built, once for \<open>statistics\<close> and once for \<open>traffic\<close>: \<open>mid\<close> are the bytes the
  relay threads added in between.
\<close>

definition heartbeat_request :: "time_t \<Rightarrow> u64 \<times> u64 \<Rightarrow> client_state \<Rightarrow> jdoc" where
  "heartbeat_request t mid st =
     DObject
       [(''action'', DString ''heartbeat''),
        (''session_token'', DString (hc_session_token (hm_config (g_heartbeat_manager st)))), (''status'', DString ''healthy''),
        (''statistics'', DObject
           [(''connections'', DInteger (client_traffic_get_active_connections (threads_data st))),
            (''bytes_sent'', DInteger (sint (sent_since_last st))),
            (''bytes_received'', DInteger (sint (received_since_last st))),
            (''cpu_usage'', DReal 0), (''memory_usage'', DReal 0), (''uptime'', DInteger t)]),
        (''traffic'', DObject
           [(''bytes_sent'', DInteger (sint (sent_since_last st + fst mid))),
            (''bytes_received'', DInteger (sint (received_since_last st + snd mid))),
            (''active_connections'', DInteger (client_traffic_get_active_connections (threads_data st)))])]"

section \<open>Registration\<close>

definition zero_registration_state :: device_registration_state where
  "zero_registration_state =
     \<lparr>rs_device_id = [], rs_auth_token = [], rs_server_host = [], rs_server_port = 0, rs_assigned_port = 0, rs_tunnel_port = 0,
      rs_input_tls = False, rs_tunnel_tls = False, rs_internal_address = [], rs_internal_port = 0,
      rs_status = DEVICE_STATUS_DISCONNECTED, rs_session_token = [], rs_registered_at = 0, rs_heartbeat_interval = 0\<rparr>"

definition device_registration_init ::
  "string option \<Rightarrow> string option \<Rightarrow> string option \<Rightarrow> u16 \<Rightarrow> client_state \<Rightarrow> int \<times> client_state" where
  "device_registration_init device_id auth_token server_host port st =
     (case (device_id, auth_token, server_host) of
        (Some dev, Some tok, Some host) \<Rightarrow>
          (0, st\<lparr>g_device_state := zero_registration_state\<lparr>rs_device_id := strncpy 64 dev, rs_auth_token := strncpy 256 tok,
                     rs_server_host := strncpy 256 host, rs_server_port := port\<rparr>,
                 g_heartbeat_config :=
                   \<lparr>hc_device_id = strncpy 64 dev, hc_session_token = [], hc_server_host = strncpy 256 host, hc_server_port = port,
                    hc_assigned_port = 0, hc_heartbeat_interval = 30, hc_heartbeat_timeout = 90, hc_connection_timeout = 10,
                    hc_max_failures = 3, hc_enable_ssl = g_device_control_ssl_enabled st, hc_ssl_ctx = g_device_control_ssl_ctx st\<rparr>,
                 g_device_registration_enabled := True\<rparr>)
      | _ \<Rightarrow> (-1, st))"

text \<open>The branch for the answer \<open>authenticated\<close>.\<close>

definition accept_registration :: "'j jansson \<Rightarrow> 'j \<Rightarrow> time_t \<Rightarrow> client_state \<Rightarrow> int \<times> client_state" where
  "accept_registration J response t st =
     (case (integer_member J response ''assigned_port'', string_member J response ''session_token'') of
        (Some port, Some token) \<Rightarrow>
          let d = g_device_state st;
              assigned = (word_of_int port :: u16);
              d1 = d\<lparr>rs_assigned_port := assigned,
                     rs_tunnel_port := (case integer_member J response ''tunnel_port'' of
                        Some q \<Rightarrow> word_of_int q | None \<Rightarrow> assigned + 1),
                     rs_session_token := strncpy 256 token,
                     rs_heartbeat_interval := (case integer_member J response ''heartbeat_interval'' of
                        Some n \<Rightarrow> word_of_int n | None \<Rightarrow> rs_heartbeat_interval d),
                     rs_internal_address := (case string_member J response ''internal_address'' of
                        Some a \<Rightarrow> strncpy 31 a | None \<Rightarrow> []),
                     rs_internal_port := (case integer_member J response ''internal_port'' of
                        Some n \<Rightarrow> word_of_int n | None \<Rightarrow> 0),
                     rs_input_tls := (boolean_member J response ''input_tls'' = Some True),
                     rs_tunnel_tls := (boolean_member J response ''tunnel_tls'' = Some True),
                     rs_status := DEVICE_STATUS_REGISTERED,
                     rs_registered_at := t\<rparr>
          in (0, st\<lparr>g_device_state := d1,
                    g_heartbeat_config := (g_heartbeat_config st)\<lparr>hc_session_token := rs_session_token d1,
                       hc_assigned_port := assigned, hc_heartbeat_interval := rs_heartbeat_interval d1,
                       hc_enable_ssl := g_device_control_ssl_enabled st, hc_ssl_ctx := g_device_control_ssl_ctx st\<rparr>\<rparr>)
      | _ \<Rightarrow> (-1, st))"

definition device_register_with_server :: "'j jansson \<Rightarrow> exchange \<Rightarrow> client_state \<Rightarrow> int \<times> client_state" where
  "device_register_with_server J ob st =
     (if \<not> g_device_registration_enabled st then (-1, st)
      else case device_control_connect ob st of
        (rc, st1) \<Rightarrow>
          if rc \<noteq> 0 then (-1, st1)
          else if \<not> ex_serialised ob \<or> \<not> ex_sent_all ob then (-1, st1)
          else (case received_text ob of None \<Rightarrow> (-1, st1)
                | Some buffer \<Rightarrow>
                    (case json_loads J buffer of None \<Rightarrow> (-1, st1)
                     | Some response \<Rightarrow>
                         (case string_member J response ''status'' of None \<Rightarrow> (-1, st1)
                          | Some status \<Rightarrow>
                              if status = ''authenticated'' then accept_registration J response (ex_time ob) st1
                              else (-1, st1)))))"

text \<open>
  The retry loop. An attempt is the reading of \<open>global_graceful_shutdown\<close> at the head of the loop and the exchange. The result is None while
  the loop is still running.
\<close>

fun device_register_until_allowed ::
  "'j jansson \<Rightarrow> (bool \<times> exchange) list \<Rightarrow> client_state \<Rightarrow> (int \<times> client_state) option" where
  "device_register_until_allowed J [] st = None"
| "device_register_until_allowed J ((shutdown, ob) # obs) st =
     (if shutdown then Some (-1, st)
      else case device_register_with_server J ob st of
             (rc, st1) \<Rightarrow> if rc = 0 then Some (0, st1\<lparr>g_device_session_revoked := False\<rparr>)
                         else device_register_until_allowed J obs st1)"

text \<open>What the surroundings answer when settings are applied: the TLS context and the threads that are started.\<close>

record apply_env =
  ae_ctx_ok :: bool
  ae_load_ok :: bool
  ae_starts :: "nat \<Rightarrow> input_start"

definition heartbeat_update_config :: "heartbeat_config \<Rightarrow> client_state \<Rightarrow> client_state" where
  "heartbeat_update_config c st = st\<lparr>g_heartbeat_manager := (g_heartbeat_manager st)\<lparr>hm_config := c\<rparr>\<rparr>"

definition device_apply_reregistration :: "apply_env \<Rightarrow> client_state \<Rightarrow> int \<times> client_state" where
  "device_apply_reregistration env st =
     (let st1 = st\<lparr>g_heartbeat_config := (g_heartbeat_config st)\<lparr>hc_session_token := rs_session_token (g_device_state st),
                                                              hc_assigned_port := rs_assigned_port (g_device_state st)\<rparr>\<rparr>;
          st2 = apply_output_target_from_registration (apply_tunnel_settings st1)
      in if validate_output_target (threads_data st2) \<noteq> 0 then (-1, st2)
         else
           let st3 = heartbeat_update_config (g_heartbeat_config st2) (refresh_client_ssl_context (ae_ctx_ok env) (ae_load_ok env) st2);
               st4 = st3\<lparr>g_device_state := (g_device_state st3)\<lparr>rs_status := DEVICE_STATUS_CONNECTED\<rparr>\<rparr>
           in (0, switcher_servers_restart_input_threads (ae_starts env) st4))"

definition device_apply_tls_settings_update :: "apply_env \<Rightarrow> bool \<Rightarrow> bool \<Rightarrow> bool \<Rightarrow> client_state \<Rightarrow> client_state" where
  "device_apply_tls_settings_update env input_tls tunnel_tls force_reload st =
     (if rs_input_tls (g_device_state st) = input_tls \<and> rs_tunnel_tls (g_device_state st) = tunnel_tls \<and> \<not> force_reload then st
      else
        let st1 = st\<lparr>g_device_state := (g_device_state st)\<lparr>rs_input_tls := input_tls, rs_tunnel_tls := tunnel_tls\<rparr>\<rparr>;
            st2 = refresh_client_ssl_context (ae_ctx_ok env) (ae_load_ok env) (apply_tunnel_settings st1)
        in switcher_servers_restart_input_threads (ae_starts env) (switcher_servers_drop_active_connections st2))"

definition registration_wait_thread ::
  "'j jansson \<Rightarrow> apply_env \<Rightarrow> (bool \<times> exchange) list \<Rightarrow> client_state \<Rightarrow> client_state option" where
  "registration_wait_thread J env obs st =
     (case device_register_until_allowed J obs st of None \<Rightarrow> None
      | Some (rc, st1) \<Rightarrow>
          if rc \<noteq> 0 then Some (st1\<lparr>g_registration_wait_running := False\<rparr>)
          else
            (case device_apply_reregistration env (st1\<lparr>g_device_session_revoked := False\<rparr>) of
               (rc2, st2) \<Rightarrow>
                 Some ((if rc2 \<noteq> 0
                        then st2\<lparr>g_device_state := (g_device_state st2)\<lparr>rs_status := DEVICE_STATUS_DISCONNECTED\<rparr>,
                                 g_device_session_revoked := True\<rparr>
                        else st2)\<lparr>g_registration_wait_running := False\<rparr>)))"

text \<open>\<open>thread_ok\<close>: the waiting thread was created. The result says whether it was.\<close>

definition device_start_registration_wait :: "bool \<Rightarrow> client_state \<Rightarrow> bool \<times> client_state" where
  "device_start_registration_wait thread_ok st =
     (if g_registration_wait_running st then (False, st)
      else
        let st1 = switcher_servers_drop_active_connections (st\<lparr>g_registration_wait_running := True, g_device_session_revoked := True\<rparr>)
        in if thread_ok then (True, st1) else (False, st1\<lparr>g_registration_wait_running := False\<rparr>))"

definition reconnect_device :: "bool \<Rightarrow> client_state \<Rightarrow> client_state" where
  "reconnect_device thread_ok st =
     snd (device_start_registration_wait thread_ok
            (st\<lparr>g_device_state := (g_device_state st)\<lparr>rs_status := DEVICE_STATUS_RECONNECTING\<rparr>\<rparr>))"

section \<open>Heartbeats\<close>

definition heartbeat_request_tls_sync :: "client_state \<Rightarrow> client_state" where
  "heartbeat_request_tls_sync st = st\<lparr>g_tls_sync_pending := True\<rparr>"

definition heartbeat_manager_init :: "heartbeat_config option \<Rightarrow> client_state \<Rightarrow> int \<times> client_state" where
  "heartbeat_manager_init config st =
     (case config of None \<Rightarrow> (-1, st)
      | Some c \<Rightarrow>
          (0, st\<lparr>g_heartbeat_manager :=
                 \<lparr>hm_config = c, hm_status = HEARTBEAT_STATUS_DISCONNECTED, hm_last_sent = 0, hm_last_received = 0,
                  hm_fail_count = 0, hm_reconnect_attempts = 0, hm_allow_reconnect = True\<rparr>\<rparr>))"

definition heartbeat_manager_start :: "bool \<Rightarrow> client_state \<Rightarrow> int \<times> client_state" where
  "heartbeat_manager_start thread_ok st =
     (if g_heartbeat_running st then (0, st)
      else if hc_device_id (hm_config (g_heartbeat_manager st)) = [] \<or> hc_session_token (hm_config (g_heartbeat_manager st)) = []
      then (-1, st)
      else if \<not> thread_ok then (-1, st\<lparr>g_heartbeat_running := False\<rparr>)
      else (0, st\<lparr>g_heartbeat_running := True\<rparr>))"

definition heartbeat_manager_stop :: "client_state \<Rightarrow> int \<times> client_state" where
  "heartbeat_manager_stop st = (if \<not> g_heartbeat_running st then (0, st) else (0, st\<lparr>g_heartbeat_running := False\<rparr>))"

definition start_device_heartbeat :: "bool \<Rightarrow> client_state \<Rightarrow> int \<times> client_state" where
  "start_device_heartbeat thread_ok st =
     (if rs_status (g_device_state st) \<noteq> DEVICE_STATUS_REGISTERED then (-1, st)
      else
        let st1 = st\<lparr>g_heartbeat_config := (g_heartbeat_config st)\<lparr>hc_enable_ssl := g_device_control_ssl_enabled st,
                                                                 hc_ssl_ctx := g_device_control_ssl_ctx st\<rparr>\<rparr>;
            (rc, st2) = heartbeat_manager_init (Some (g_heartbeat_config st1)) st1
        in if rc \<noteq> 0 then (-1, st2)
           else case heartbeat_manager_start thread_ok st2 of
                  (rc2, st3) \<Rightarrow>
                    if rc2 \<noteq> 0 then (-1, st3)
                    else (0, st3\<lparr>g_device_state := (g_device_state st3)\<lparr>rs_status := DEVICE_STATUS_CONNECTED\<rparr>\<rparr>))"

datatype heartbeat_result = HEARTBEAT_SEND_OK | HEARTBEAT_SEND_FAILED | HEARTBEAT_SEND_SESSION_TERMINATED

text \<open>
  What one heartbeat sees: the exchange, the bytes added between the two readings of the counters (\<open>ho_mid\<close>) and from then until the
  response was read (\<open>ho_late\<close>), whether the registration thread could be created, and the surroundings of a TLS update.
\<close>

record heartbeat_obs =
  ho_exchange :: exchange
  ho_mid :: "u64 \<times> u64"
  ho_late :: "u64 \<times> u64"
  ho_thread_ok :: bool
  ho_apply :: apply_env

definition add_traffic :: "u64 \<times> u64 \<Rightarrow> client_state \<Rightarrow> client_state" where
  "add_traffic d st = client_traffic_add_received (snd d) (client_traffic_add_sent (fst d) st)"

definition heartbeat_connected :: "exchange \<Rightarrow> client_state \<Rightarrow> bool" where
  "heartbeat_connected ob st \<longleftrightarrow>
     ex_socket ob \<and> ex_address ob \<and> ex_connect ob \<and>
     (\<not> hc_enable_ssl (hm_config (g_heartbeat_manager st)) \<or>
      hc_ssl_ctx (hm_config (g_heartbeat_manager st)) \<and> ex_ssl_new ob \<and> ex_handshake ob)"

definition heartbeat_answer_ok :: "'j jansson \<Rightarrow> 'j \<Rightarrow> heartbeat_obs \<Rightarrow> client_state \<Rightarrow> client_state" where
  "heartbeat_answer_ok J response ob st =
     (let st1 = client_traffic_reset_since_last
                  (st\<lparr>g_heartbeat_manager := (g_heartbeat_manager st)\<lparr>hm_last_received := ex_time (ho_exchange ob)\<rparr>\<rparr>)
      in case (boolean_member J response ''input_tls'', boolean_member J response ''tunnel_tls'') of
           (Some input_tls, Some tunnel_tls) \<Rightarrow>
             device_apply_tls_settings_update (ho_apply ob) input_tls tunnel_tls
               (boolean_member J response ''reload_tls'' = Some True) st1
         | _ \<Rightarrow> st1)"

definition session_ended :: "'j jansson \<Rightarrow> 'j \<Rightarrow> string \<Rightarrow> bool" where
  "session_ended J response status \<longleftrightarrow>
     (let message = (case string_member J response ''message'' of Some m \<Rightarrow> m | None \<Rightarrow> status)
      in boolean_member J response ''force_disconnect'' = Some True \<or> strstr message ''Session terminated'' \<or>
         strstr message ''Invalid session'')"

definition send_heartbeat :: "'j jansson \<Rightarrow> heartbeat_obs \<Rightarrow> client_state \<Rightarrow> heartbeat_result \<times> client_state" where
  "send_heartbeat J ob st =
     (let ex = ho_exchange ob;
          st1 = add_traffic (ho_late ob) (add_traffic (ho_mid ob) st)
      in if \<not> heartbeat_connected ex st then (HEARTBEAT_SEND_FAILED, st1)
         else if \<not> ex_serialised ex \<or> \<not> ex_sent_all ex then (HEARTBEAT_SEND_FAILED, st1)
         else (case received_text ex of None \<Rightarrow> (HEARTBEAT_SEND_FAILED, st1)
                    | Some buffer \<Rightarrow>
                        (case json_loads J buffer of None \<Rightarrow> (HEARTBEAT_SEND_FAILED, st1)
                         | Some response \<Rightarrow>
                             (case string_member J response ''status'' of None \<Rightarrow> (HEARTBEAT_SEND_FAILED, st1)
                              | Some status \<Rightarrow>
                                  if status = ''ok'' then (HEARTBEAT_SEND_OK, heartbeat_answer_ok J response ob st1)
                                  else if session_ended J response status then
                                    (HEARTBEAT_SEND_SESSION_TERMINATED,
                                     snd (device_start_registration_wait (ho_thread_ok ob)
                                            (st1\<lparr>g_heartbeat_manager :=
                                                   (g_heartbeat_manager st1)\<lparr>hm_status := HEARTBEAT_STATUS_DISCONNECTED\<rparr>\<rparr>)))
                                  else (HEARTBEAT_SEND_FAILED, st1)))))"

text \<open>The branches of the heartbeat thread on the three results.\<close>

definition heartbeat_sent :: "time_t \<Rightarrow> client_state \<Rightarrow> client_state" where
  "heartbeat_sent t st =
     st\<lparr>g_heartbeat_manager := (g_heartbeat_manager st)\<lparr>hm_last_sent := t, hm_fail_count := 0,
          hm_status := HEARTBEAT_STATUS_CONNECTED, hm_reconnect_attempts := 0\<rparr>,
        g_tls_sync_pending := False\<rparr>"

definition heartbeat_failed :: "bool \<Rightarrow> client_state \<Rightarrow> client_state" where
  "heartbeat_failed thread_ok st =
     (let m = (g_heartbeat_manager st)\<lparr>hm_fail_count := hm_fail_count (g_heartbeat_manager st) + 1,
                                       hm_status := HEARTBEAT_STATUS_DISCONNECTED\<rparr>;
          st1 = st\<lparr>g_heartbeat_manager := m\<rparr>
      in if \<not> g_device_session_revoked st1 \<and> hm_fail_count m \<ge> hc_max_failures (hm_config m)
         then let st2 = snd (device_start_registration_wait thread_ok st1)
              in st2\<lparr>g_heartbeat_manager := (g_heartbeat_manager st2)\<lparr>hm_fail_count := 0\<rparr>\<rparr>
         else st1)"

definition check_heartbeat_timeout :: "time_t \<Rightarrow> client_state \<Rightarrow> client_state" where
  "check_heartbeat_timeout t st =
     (let m = g_heartbeat_manager st
      in if hm_status m = HEARTBEAT_STATUS_CONNECTED \<and> hm_last_received m > 0 \<and>
            t > hm_last_received m + int (unat (hc_heartbeat_timeout (hm_config m)))
         then st\<lparr>g_heartbeat_manager := m\<lparr>hm_status := HEARTBEAT_STATUS_TIMEOUT\<rparr>\<rparr> else st)"

definition heartbeat_due :: "time_t \<Rightarrow> client_state \<Rightarrow> bool" where
  "heartbeat_due t st \<longleftrightarrow>
     g_tls_sync_pending st \<or>
     t \<ge> hm_last_sent (g_heartbeat_manager st) + int (unat (hc_heartbeat_interval (hm_config (g_heartbeat_manager st))))"

text \<open>One pass of the loop of \<open>heartbeat_thread_func\<close>, with the clock reading.\<close>

definition heartbeat_round :: "'j jansson \<Rightarrow> time_t \<Rightarrow> heartbeat_obs \<Rightarrow> client_state \<Rightarrow> client_state" where
  "heartbeat_round J t ob st =
     (if g_device_session_revoked st then st
      else
        check_heartbeat_timeout t
          (if heartbeat_due t st then
             (case send_heartbeat J ob st of
                (HEARTBEAT_SEND_OK, st1) \<Rightarrow> heartbeat_sent t st1
              | (HEARTBEAT_SEND_SESSION_TERMINATED, st1) \<Rightarrow>
                  st1\<lparr>g_heartbeat_manager := (g_heartbeat_manager st1)\<lparr>hm_status := HEARTBEAT_STATUS_DISCONNECTED\<rparr>\<rparr>
              | (HEARTBEAT_SEND_FAILED, st1) \<Rightarrow> heartbeat_failed (ho_thread_ok ob) st1)
           else st))"

record heartbeat_stats =
  hs_last_sent :: time_t
  hs_last_received :: time_t
  hs_fail_count :: u32
  hs_reconnect_attempts :: u32
  hs_status :: heartbeat_status
  seconds_since_last_sent :: "32 word"
  seconds_since_last_received :: "32 word"

definition heartbeat_get_statistics :: "time_t \<Rightarrow> client_state \<Rightarrow> heartbeat_stats" where
  "heartbeat_get_statistics t st =
     (let m = g_heartbeat_manager st
      in \<lparr>hs_last_sent = hm_last_sent m, hs_last_received = hm_last_received m, hs_fail_count = hm_fail_count m,
          hs_reconnect_attempts = hm_reconnect_attempts m, hs_status = hm_status m,
          seconds_since_last_sent = (if hm_last_sent m > 0 then word_of_int (t - hm_last_sent m) else -1),
          seconds_since_last_received = (if hm_last_received m > 0 then word_of_int (t - hm_last_received m) else -1)\<rparr>)"

section \<open>Cleaning up\<close>

definition device_registration_cleanup :: "client_state \<Rightarrow> client_state" where
  "device_registration_cleanup st =
     (if \<not> g_device_registration_enabled st then st
      else let st1 = snd (heartbeat_manager_stop st)
           in st1\<lparr>g_device_registration_enabled := False,
                  g_device_state := (g_device_state st1)\<lparr>rs_status := DEVICE_STATUS_DISCONNECTED\<rparr>,
                  g_device_control_ssl_ctx := False\<rparr>)"

section \<open>The command line of device mode\<close>

text \<open>\<open>atoi\<close>: optional white space and sign, then the longest run of digits (as long as the value is in range).\<close>

definition is_space :: "char \<Rightarrow> bool" where
  "is_space c \<longleftrightarrow> of_char c \<in> {9, 10, 11, 12, 13, 32 :: nat}"

definition is_digit :: "char \<Rightarrow> bool" where
  "is_digit c \<longleftrightarrow> 48 \<le> (of_char c :: nat) \<and> (of_char c :: nat) \<le> 57"

definition digits_value :: "string \<Rightarrow> int" where
  "digits_value s = fold (\<lambda>c n. 10 * n + (int (of_char c) - 48)) (takeWhile is_digit s) 0"

definition atoi :: "string \<Rightarrow> int" where
  "atoi s =
     (case dropWhile is_space s of
        [] \<Rightarrow> 0
      | c # cs \<Rightarrow> if c = CHR ''-'' then - digits_value cs else if c = CHR ''+'' then digits_value cs else digits_value (c # cs))"

record device_cli =
  cli_device_id :: "string option"
  cli_auth_token :: "string option"
  cli_registration_server :: "string option"
  cli_registration_port :: u16
  cli_registration_ca_file :: string
  cli_registration_no_ssl :: bool
  cli_tunnel_port_override :: u16
  cli_port_host_base :: u16
  cli_port_range_start :: u16

definition initial_cli :: device_cli where
  "initial_cli =
     \<lparr>cli_device_id = None, cli_auth_token = None, cli_registration_server = None, cli_registration_port = 8443,
      cli_registration_ca_file = [], cli_registration_no_ssl = False, cli_tunnel_port_override = 0, cli_port_host_base = 0,
      cli_port_range_start = 6000\<rparr>"

definition argv_has_flag :: "string list \<Rightarrow> string \<Rightarrow> bool" where
  "argv_has_flag args flag = list_ex (\<lambda>a. a = flag) args"

definition value_flag :: "string \<Rightarrow> bool" where
  "value_flag a \<longleftrightarrow>
     a \<in> {''--device-id'', ''--device-token'', ''--registration-server'', ''--registration-port'', ''--tunnel-port'',
          ''--port-host-base'', ''--port-range-start'', ''--registration-ca-file'', ''--ca-file'', ''-a'', ''-p_in''}"

definition set_value_flag :: "string \<Rightarrow> string \<Rightarrow> device_cli \<Rightarrow> device_cli" where
  "set_value_flag a v c =
     (if a = ''--device-id'' then c\<lparr>cli_device_id := Some v\<rparr>
      else if a = ''--device-token'' then c\<lparr>cli_auth_token := Some v\<rparr>
      else if a = ''--registration-server'' then c\<lparr>cli_registration_server := Some v\<rparr>
      else if a = ''--registration-port'' then c\<lparr>cli_registration_port := word_of_int (atoi v)\<rparr>
      else if a = ''--tunnel-port'' then c\<lparr>cli_tunnel_port_override := word_of_int (atoi v)\<rparr>
      else if a = ''--port-host-base'' then c\<lparr>cli_port_host_base := word_of_int (atoi v)\<rparr>
      else if a = ''--port-range-start'' then c\<lparr>cli_port_range_start := word_of_int (atoi v)\<rparr>
      else if a = ''--registration-ca-file'' then c\<lparr>cli_registration_ca_file := strncpy 511 v\<rparr>
      else if a = ''--ca-file'' \<or> a = ''-a'' then
        (if cli_registration_ca_file c = [] then c\<lparr>cli_registration_ca_file := strncpy 511 v\<rparr> else c)
      else c\<lparr>cli_tunnel_port_override := word_of_int (atoi v)\<rparr>)"

text \<open>The loop over the arguments (without \<open>argv[0]\<close>): a flag that takes a value needs one more argument, otherwise it is skipped.\<close>

fun parse_device_args :: "string list \<Rightarrow> device_cli \<Rightarrow> device_cli" where
  "parse_device_args [] c = c"
| "parse_device_args [a] c = (if a = ''--registration-no-ssl'' then c\<lparr>cli_registration_no_ssl := True\<rparr> else c)"
| "parse_device_args (a # v # rest) c =
     (if value_flag a then parse_device_args rest (set_value_flag a v c)
      else if a = ''--registration-no-ssl'' then parse_device_args (v # rest) (c\<lparr>cli_registration_no_ssl := True\<rparr>)
      else parse_device_args (v # rest) c)"

text \<open>None: the client is still waiting for its registration, or it exits because of the TLS context.\<close>

definition main_with_device_registration ::
  "'j jansson \<Rightarrow> (bool \<times> exchange) list \<Rightarrow> bool \<Rightarrow> bool \<Rightarrow> apply_env \<Rightarrow> string list \<Rightarrow> client_state \<Rightarrow> (int \<times> client_state) option" where
  "main_with_device_registration J obs thread_ok malloc_ok env args st =
     (let c = parse_device_args args initial_cli;
          st1 = st\<lparr>g_cli_output_host := argv_has_flag args ''--host_out'', g_cli_output_port := argv_has_flag args ''-p_out'',
                   g_tunnel_port_override := cli_tunnel_port_override c, g_port_host_base := cli_port_host_base c,
                   g_port_range_start := cli_port_range_start c\<rparr>
      in if cli_device_id c = None \<or> cli_auth_token c = None \<or> cli_registration_server c = None then Some (-1, st1)
         else
           let st2 = device_registration_set_control_tls
                       (if cli_registration_ca_file c = [] then None else Some (cli_registration_ca_file c))
                       (\<not> cli_registration_no_ssl c) st1;
               (rc, st3) = device_registration_init (cli_device_id c) (cli_auth_token c) (cli_registration_server c)
                             (cli_registration_port c) st2
           in if rc \<noteq> 0 then Some (-1, st3)
              else
                (case device_register_until_allowed J obs st3 of
                   None \<Rightarrow> None
                 | Some (rc2, st4) \<Rightarrow>
                     if rc2 \<noteq> 0 then Some (-1, st4)
                     else
                       let st5 = apply_output_target_from_registration (apply_tunnel_settings st4)
                       in if validate_output_target (threads_data st5) \<noteq> 0 then Some (-1, st5)
                          else switcher_servers_start_client (ae_ctx_ok env) (ae_load_ok env) malloc_ok (ae_starts env)
                                 (snd (start_device_heartbeat thread_ok st5))))"

end
