(* ===== verification/Client_Properties.thy ===== *)
theory Client_Properties
  imports Client_Device
begin

text \<open>
  Properties of the device side, and of the device and the server together. The two sides share one JSON library: a parser \<open>loads\<close>
  and a printer \<open>dumps\<close> of documents with \<open>loads (dumps d) = Some d\<close> for the documents exchanged, which is what jansson documents of \<open>json_loads\<close> and
  \<open>json_dumps\<close>.
\<close>

section \<open>One JSON library for both sides\<close>

definition doc_json :: "(string \<Rightarrow> jdoc option) \<Rightarrow> jdoc jansson" where
  "doc_json loads =
     \<lparr>json_loads = loads,
      json_object_get = (\<lambda>d k. case d of DObject ms \<Rightarrow> map_of ms k | _ \<Rightarrow> None),
      json_view = (\<lambda>d. case d of DString s \<Rightarrow> JString s | DInteger n \<Rightarrow> JInteger n | DBool b \<Rightarrow> JBoolean b
                      | DObject _ \<Rightarrow> JObject | _ \<Rightarrow> JOther)\<rparr>"

fun value_doc :: "jvalue \<Rightarrow> jdoc" where
  "value_doc (RString s) = DString s"
| "value_doc (RInteger n) = DInteger n"
| "value_doc (RBoolean b) = DBool b"

definition response_doc :: "response \<Rightarrow> jdoc" where
  "response_doc r = DObject (map (\<lambda>(k, v). (k, value_doc v)) r)"

lemma doc_json_sel [simp]: "json_loads (doc_json loads) = loads"
  by (simp add: doc_json_def)

lemma map_of_response: "map_of (map (\<lambda>(k, v). (k, value_doc v)) r) k = map_option value_doc (map_of r k)"
  by (induction r) auto

lemma response_members:
  "string_member (doc_json loads) (response_doc r) k = (case map_of r k of Some (RString s) \<Rightarrow> Some s | _ \<Rightarrow> None)"
  "integer_member (doc_json loads) (response_doc r) k = (case map_of r k of Some (RInteger n) \<Rightarrow> Some n | _ \<Rightarrow> None)"
  "boolean_member (doc_json loads) (response_doc r) k = (case map_of r k of Some (RBoolean b) \<Rightarrow> Some b | _ \<Rightarrow> None)"
  by (auto simp: string_member_def integer_member_def boolean_member_def doc_json_def response_doc_def map_of_response
      split: option.splits jvalue.splits)

text \<open>An exchange in which every call succeeds and the whole answer is read.\<close>

definition exchange_ok :: "(jdoc \<Rightarrow> string) \<Rightarrow> response \<Rightarrow> exchange \<Rightarrow> bool" where
  "exchange_ok dumps r ob \<longleftrightarrow>
     ex_socket ob \<and> ex_address ob \<and> ex_connect ob \<and> ex_ctx_new ob \<and> ex_ca_loaded ob \<and> ex_ssl_new ob \<and> ex_handshake ob \<and>
     ex_serialised ob \<and> ex_sent_all ob \<and> ex_received ob = Some (dumps (response_doc r)) \<and>
     dumps (response_doc r) \<noteq> [] \<and> length (dumps (response_doc r)) \<le> 4095"

lemma exchange_connects:
  assumes "exchange_ok dumps r ob"
  shows "\<exists>ctx. device_control_connect ob st = (0, st\<lparr>g_device_control_ssl_ctx := ctx\<rparr>)"
  using assms
  by (cases "g_device_control_ssl_ctx st")
    (auto simp: exchange_ok_def device_control_connect_def ensure_device_control_ssl_ctx_def create_device_control_ssl_context_def
      intro: exI [of _ "g_device_control_ssl_ctx st"] exI [of _ True] split: option.splits)

lemma exchange_received: "exchange_ok dumps r ob \<Longrightarrow> received_text ob = Some (dumps (response_doc r))"
  by (simp add: exchange_ok_def received_text_def)

section \<open>Registration, both sides\<close>

lemma session_token_length:
  assumes "register_device_session rr ok lk t to addr dev ip len d = (Some (token, i, q), d')"
  shows "length token \<le> 255"
proof -
  from assms obtain p q' d1 d2 where
    "sql_register_session t lk to dev token (c_string_or ''0.0.0.0'' ip) (d1\<lparr>statements := Suc (statements d1)\<rparr>) = Some (Some (p, q'), d2)"
    by (elim register_device_sessionD) blast
  then show ?thesis by (auto simp: sql_register_session_def Let_def split: option.splits list.splits if_splits)
qed

lemma map_of_take: "k \<in> fst ` set (take n xs) \<Longrightarrow> map_of xs k = map_of (take n xs) k"
proof (induction xs arbitrary: n)
  case Nil
  then show ?case by simp
next
  case (Cons x xs)
  then show ?case by (cases n) auto
qed

text \<open>
  C8. Registration end to end. The client sends its registration document, the server answers \<open>authenticated\<close>, and the answer
  arrives whole. Then the client's call succeeds, and what it stored is what the server allocated: the session token is that of an active session
  in the server's table, the two ports are the pair that this session owns, the heartbeat interval is the server's, the TLS flags are the
  announced ones, and the next heartbeat presents that token.
\<close>

theorem registration_end_to_end:
  assumes library: "loads (dumps (registration_request version t st)) = Some (registration_request version t st)"
      "loads (dumps (response_doc r)) = Some (response_doc r)"
    and server: "process_json_message (doc_json loads) env (dumps (registration_request version t st)) ip srv = Some (0, [r], srv')"
    and answer: "(''status'', RString ''authenticated'') \<in> set r"
    and table: "db_inv (db srv)" "distinct (map d_device_id (devices (db srv)))"
    and enabled: "g_device_registration_enabled st" and arrives: "exchange_ok dumps r ob"
  shows "\<exists>st' s. device_register_with_server (doc_json loads) ob st = (0, st') \<and>
           s \<in> set (device_sessions (db srv')) \<and> active_session (rs_session_token (g_device_state st')) s \<and>
           s_assigned_port s = uint (rs_assigned_port (g_device_state st')) \<and>
           rs_tunnel_port (g_device_state st') = rs_assigned_port (g_device_state st') + 1 \<and>
           owns_pair (port_allocations (db srv')) s \<and>
           rs_heartbeat_interval (g_device_state st') = heartbeat_interval (g_config srv) \<and>
           (''tunnel_tls'', RBoolean (rs_tunnel_tls (g_device_state st'))) \<in> set r \<and>
           hc_session_token (g_heartbeat_config st') = rs_session_token (g_device_state st')"
proof -
  let ?J = "doc_json loads" and ?req = "registration_request version t st"
  have "string_member ?J ?req ''action'' = Some ''register''"
    by (simp add: string_member_def doc_json_def registration_request_def)
  with server library have "process_registration_request ?J env ?req ip srv = Some (r, srv')"
    by (auto simp: process_json_message_def split: if_splits option.splits)
  then show ?thesis
  proof (cases rule: registration_cases)
    case (registered sec1 dev tok info db1 token p q db2 i)
    have ok: "db_ok env (statements (db srv))"
      using registered(3) by (auto simp: device_authenticate_def sha256_hex_def exec_stmt_def Let_def split: if_splits)
    have db1: "db1 = (db srv)\<lparr>statements := Suc (statements (db srv))\<rparr>"
      using device_authenticate_facts(3) [where ?db_ok = "db_ok env", OF table(2) ok, of "SHA256 env" dev tok] registered(3) by simp
    have f: "q = p + 1 \<and>
       (\<exists>s \<in> set (device_sessions db2). active_session token s \<and> s_assigned_port s = uint p \<and> owns_pair (port_allocations db2) s)"
      using register_device_session_facts [OF _ _ registered(4)] table by (auto simp: db1)
    have db': "db srv' = db2" using sec_frames(8) [of env dev p q] registered(5)
      by (metis dm_state.select_convs(8) dm_state.update_convs(8) dm_state.surjective snd_conv)
    have tok: "length token \<le> 255" by (rule session_token_length [OF registered(4)])
    let ?in = "di_enable_input_ssl info \<and> device_manager_ssl_certs_configured srv"
    let ?tun = "di_enable_tunnel_ssl info \<and> device_manager_ssl_certs_configured srv"
    have m: "map_of r ''status'' = Some (RString ''authenticated'')" "map_of r ''assigned_port'' = Some (RInteger (uint p))"
      "map_of r ''tunnel_port'' = Some (RInteger (uint q))" "map_of r ''session_token'' = Some (RString token)"
      "map_of r ''heartbeat_interval'' = Some (RInteger (uint (heartbeat_interval (g_config srv))))"
      "map_of r ''tunnel_tls'' = Some (RBoolean ?tun)"
      by (subst map_of_take [of _ 8]; simp add: registered(7))+
    obtain ctx where c: "device_control_connect ob st = (0, st\<lparr>g_device_control_ssl_ctx := ctx\<rparr>)"
      using exchange_connects [OF arrives] by blast
    let ?st' = "snd (accept_registration ?J (response_doc r) (ex_time ob) (st\<lparr>g_device_control_ssl_ctx := ctx\<rparr>))"
    have acc: "fst (accept_registration ?J (response_doc r) (ex_time ob) (st\<lparr>g_device_control_ssl_ctx := ctx\<rparr>)) = 0"
      by (simp add: accept_registration_def response_members m Let_def)
    then have "device_register_with_server ?J ob st = (0, ?st')"
      using enabled arrives c
      by (simp add: device_register_with_server_def exchange_received [OF arrives] library response_members m)
        (simp add: exchange_ok_def prod_eq_iff)
    moreover have "rs_session_token (g_device_state ?st') = token" "rs_assigned_port (g_device_state ?st') = p"
      "rs_tunnel_port (g_device_state ?st') = q" "rs_heartbeat_interval (g_device_state ?st') = heartbeat_interval (g_config srv)"
      "rs_tunnel_tls (g_device_state ?st') = ?tun" "hc_session_token (g_heartbeat_config ?st') = token"
      using tok by (simp_all add: accept_registration_def response_members m Let_def strncpy_id)
    moreover have "(''tunnel_tls'', RBoolean ?tun) \<in> set r" by (rule map_of_SomeD [OF m(6)])
    ultimately show ?thesis using f unfolding db' by (intro exI [of _ ?st']) auto
  qed (use answer in \<open>auto simp: error_response_def\<close>)
qed

text \<open>Example: the device A of the server's examples, with a client that has just been initialised.\<close>

lemma registration_request_depends:
  assumes "string_member J root ''device_id'' = string_member J' root' ''device_id''"
    and "string_member J root ''auth_token'' = string_member J' root' ''auth_token''"
  shows "process_registration_request J env root ip st = process_registration_request J' env root' ip st"
  by (simp add: process_registration_request_def assms)

definition zero_settings :: client_settings where
  "zero_settings =
     \<lparr>connections = None, connections_count = 1, timeout_seconds = 900, input_address = ''82.146.44.140'', input_port = 0,
      output_address = ''127.0.0.1'', output_port = 22, disable_timeout = False, ssl_ctx = False, enable_tunnel_ssl = False,
      enable_output_ssl = False, ca_file = []\<rparr>"

definition zero_heartbeat_config :: heartbeat_config where
  "zero_heartbeat_config =
     \<lparr>hc_device_id = [], hc_session_token = [], hc_server_host = [], hc_server_port = 0, hc_assigned_port = 0,
      hc_heartbeat_interval = 0, hc_heartbeat_timeout = 0, hc_connection_timeout = 0, hc_max_failures = 0, hc_enable_ssl = False,
      hc_ssl_ctx = False\<rparr>"

text \<open>The static initialisers of the client, with the settings \<open>main\<close> puts in place.\<close>

definition initial_client_state :: client_state where
  "initial_client_state =
     \<lparr>g_device_state = zero_registration_state, g_device_registration_enabled = False, g_device_session_revoked = False,
      g_registration_wait_running = False, g_device_control_ssl_ctx = False, g_device_control_ssl_enabled = True,
      g_registration_ca_file = [], g_heartbeat_config = zero_heartbeat_config, g_cli_output_host = False, g_cli_output_port = False,
      g_port_host_base = 0, g_port_range_start = 6000, g_tunnel_port_override = 0,
      g_heartbeat_manager =
        \<lparr>hm_config = zero_heartbeat_config, hm_status = HEARTBEAT_STATUS_DISCONNECTED, hm_last_sent = 0, hm_last_received = 0,
         hm_fail_count = 0, hm_reconnect_attempts = 0, hm_allow_reconnect = False\<rparr>,
      g_heartbeat_running = False, g_tls_sync_pending = False, threads_data = zero_settings, sent_since_last = 0,
      received_since_last = 0, fd_log = []\<rparr>"

definition example_client :: client_state where
  "example_client = snd (device_registration_init (Some ''A'') (Some ''secret'') (Some ''192.0.2.9'') 8443 initial_client_state)"

definition example_exchange :: "string \<Rightarrow> exchange" where
  "example_exchange s =
     \<lparr>ex_socket = True, ex_address = True, ex_connect = True, ex_ctx_new = True, ex_ca_loaded = True, ex_ssl_new = True,
      ex_handshake = True, ex_serialised = True, ex_sent_all = True, ex_received = Some s, ex_time = 100\<rparr>"

lemma example_client_device:
  "rs_device_id (g_device_state example_client) = ''A''" "rs_auth_token (g_device_state example_client) = ''secret''"
  "g_device_registration_enabled example_client"
  by (simp_all add: example_client_def device_registration_init_def strncpy_def)

theorem registration_end_to_end_witness:
  "\<exists>J ob r srv' st' s. process_registration_request J register_env (registration_request ''1'' 0 example_client)
       (Some ''192.0.2.1'') register_state = Some (r, srv') \<and>
     device_register_with_server J ob example_client = (0, st') \<and>
     s \<in> set (device_sessions (db srv')) \<and> s_token s = rs_session_token (g_device_state st')"
proof -
  let ?req = "registration_request ''1'' 0 example_client"
  have members: "string_member (doc_json loads) ?req ''device_id'' = Some ''A''"
    "string_member (doc_json loads) ?req ''auth_token'' = Some ''secret''"
    "string_member (doc_json loads) ?req ''action'' = Some ''register''" for loads
    by (simp_all add: string_member_def doc_json_def registration_request_def example_client_device)
  from register_accepted obtain r srv' where
    "process_registration_request (example_json []) register_env (Inl register_request) (Some ''192.0.2.1'') register_state = Some (r, srv')"
    and auth: "(''status'', RString ''authenticated'') \<in> set r" by blast
  then have r: "process_registration_request (doc_json loads) register_env ?req (Some ''192.0.2.1'') register_state = Some (r, srv')" for loads
    using registration_request_depends [of "doc_json loads" ?req "example_json []" "Inl register_request"]
    by (simp add: members register_request_members)
  define loads where "loads = (\<lambda>s. if s = ''{}'' then Some ?req else Some (response_doc r))"
  define dumps where "dumps = (\<lambda>d. if d = ?req then ''{}'' else ''{ }'')"
  have "response_doc r \<noteq> ?req"
  proof
    assume "response_doc r = ?req"
    then have "map (\<lambda>(k, v). (k, value_doc v)) r =
        [(''action'', DString ''register''), (''device_id'', DString ''A''), (''auth_token'', DString ''secret''),
         (''version'', DString ''1.0''), (''capabilities'', DArray [DString ''tcp'', DString ''ssl'']),
         (''metadata'', DObject [(''client_version'', DString ''1''), (''platform'', DString ''linux''), (''start_time'', DInteger 0)])]"
      by (simp add: response_doc_def registration_request_def example_client_device)
    moreover have "(''status'', DString ''authenticated'') \<in> set (map (\<lambda>(k, v). (k, value_doc v)) r)"
      using auth by force
    ultimately show False by simp
  qed
  then have lib: "loads (dumps ?req) = Some ?req" "loads (dumps (response_doc r)) = Some (response_doc r)"
    "exchange_ok dumps r (example_exchange (dumps (response_doc r)))"
    by (simp_all add: loads_def dumps_def exchange_ok_def example_exchange_def)
  have "validate_json_input (Some (dumps ?req)) 4096 = 0"
    by (simp add: dumps_def validate_json_input_def suspicious_patterns_def upt_conv_Cons)
  with lib(1) members(3) [of loads] r [of loads]
  have m: "process_json_message (doc_json loads) register_env (dumps ?req) (Some ''192.0.2.1'') register_state = Some (0, [r], srv')"
    by (simp add: process_json_message_def)
  have "distinct (map d_device_id (devices (db register_state)))" by (simp add: register_state_facts example_free_db_def)
  from registration_end_to_end [OF lib(1,2) m auth _ this example_client_device(3) lib(3)]
  obtain st' s where "device_register_with_server (doc_json loads) (example_exchange (dumps (response_doc r))) example_client = (0, st')"
    "s \<in> set (device_sessions (db srv'))" "active_session (rs_session_token (g_device_state st')) s"
    by (auto simp: register_state_facts(1) example_free_db_inv)
  with r [of loads] show ?thesis unfolding active_session_def by blast
qed

section \<open>Traffic reports\<close>

lemma server_reads_heartbeat:
  "heartbeat_traffic (doc_json loads) (heartbeat_request t mid st) (heartbeat_statistics (doc_json loads) (heartbeat_request t mid st)) =
     (sent_since_last st, received_since_last st, word_of_int (client_traffic_get_active_connections (threads_data st)), True)"
  by (simp add: heartbeat_traffic_def heartbeat_statistics_def object_member_def integer_member_def doc_json_def heartbeat_request_def)

lemma add_traffic_counters [simp]:
  "sent_since_last (add_traffic d st) = sent_since_last st + fst d"
  "received_since_last (add_traffic d st) = received_since_last st + snd d"
  by (simp_all add: add_traffic_def client_traffic_add_sent_def client_traffic_add_received_def)

text \<open>Nothing but the relay threads and an acknowledged heartbeat touches the counters.\<close>

definition counters :: "client_state \<Rightarrow> u64 \<times> u64" where
  "counters st = (sent_since_last st, received_since_last st)"

lemma counters_frame [simp]:
  "counters (switcher_servers_drop_active_connections st) = counters st"
  "counters (switcher_servers_restart_input_threads starts st) = counters st"
  "counters (refresh_client_ssl_context a b st) = counters st"
  "counters (apply_tunnel_settings st) = counters st"
  "counters (st\<lparr>g_device_state := d\<rparr>) = counters st"
  "counters (st\<lparr>g_heartbeat_manager := m\<rparr>) = counters st"
  by (simp_all add: counters_def switcher_servers_drop_active_connections_def switcher_servers_restart_input_threads_def
      refresh_client_ssl_context_def apply_tunnel_settings_def apply_tunnel_tls_client_settings_def split: option.splits)

lemma counters_frame_control [simp]:
  "counters (snd (device_start_registration_wait ok st)) = counters st"
  "counters (device_apply_tls_settings_update env i u f st) = counters st"
  "counters (check_heartbeat_timeout t st) = counters st"
  "counters (heartbeat_sent t st) = counters st"
  "counters (heartbeat_failed ok st) = counters st"
proof -
  show 1: "counters (snd (device_start_registration_wait ok st)) = counters st" for st
    using counters_frame(1) [of "st\<lparr>g_registration_wait_running := True, g_device_session_revoked := True\<rparr>"]
    by (simp add: device_start_registration_wait_def Let_def counters_def)
  show "counters (device_apply_tls_settings_update env i u f st) = counters st"
    by (simp add: device_apply_tls_settings_update_def Let_def)
  show "counters (check_heartbeat_timeout t st) = counters st"
    by (simp add: check_heartbeat_timeout_def Let_def)
  show "counters (heartbeat_sent t st) = counters st"
    by (simp add: heartbeat_sent_def counters_def)
  show "counters (heartbeat_failed ok st) = counters st"
    by (simp add: heartbeat_failed_def Let_def 1)
qed

lemma counters_answer_ok [simp]: "counters (heartbeat_answer_ok J response ob st) = (0, 0)"
  by (auto simp: heartbeat_answer_ok_def Let_def split: option.splits)
    (simp_all add: counters_def client_traffic_reset_since_last_def)

lemma send_heartbeat_counters:
  "counters (snd (send_heartbeat J ob st)) =
     (if fst (send_heartbeat J ob st) = HEARTBEAT_SEND_OK then (0, 0)
      else (sent_since_last st + fst (ho_mid ob) + fst (ho_late ob), received_since_last st + snd (ho_mid ob) + snd (ho_late ob)))"
  by (simp add: send_heartbeat_def Let_def split: option.splits) (simp add: counters_def)

text \<open>
  A ledger of the bytes in one direction: what the relay threads counted, what the server read from the heartbeats it acknowledged, and what was
  counted between the reading of the counters and their reset.
\<close>

record ledger =
  relayed :: "u64 \<times> u64"
  acknowledged :: "u64 \<times> u64"
  overwritten :: "u64 \<times> u64"

definition both :: "u64 \<times> u64 \<Rightarrow> u64 \<times> u64 \<Rightarrow> u64 \<times> u64" where
  "both a b = (fst a + fst b, snd a + snd b)"

datatype client_event = Relay_bytes "u64 \<times> u64" | Heartbeat_pass time_t heartbeat_obs

definition server_figures :: "(string \<Rightarrow> jdoc option) \<Rightarrow> time_t \<Rightarrow> heartbeat_obs \<Rightarrow> client_state \<Rightarrow> u64 \<times> u64" where
  "server_figures loads t ob st =
     (let req = heartbeat_request t (ho_mid ob) st
      in case heartbeat_traffic (doc_json loads) req (heartbeat_statistics (doc_json loads) req) of
           (sent, received, _) \<Rightarrow> (sent, received))"

fun client_event_step :: "(string \<Rightarrow> jdoc option) \<Rightarrow> client_event \<Rightarrow> ledger \<times> client_state \<Rightarrow> ledger \<times> client_state" where
  "client_event_step loads (Relay_bytes d) (l, st) = (l\<lparr>relayed := both (relayed l) d\<rparr>, add_traffic d st)"
| "client_event_step loads (Heartbeat_pass t ob) (l, st) =
     (let sends = (\<not> g_device_session_revoked st \<and> heartbeat_due t st);
          during = both (ho_mid ob) (ho_late ob);
          ok = (sends \<and> fst (send_heartbeat (doc_json loads) ob st) = HEARTBEAT_SEND_OK);
          l1 = (if sends then l\<lparr>relayed := both (relayed l) during\<rparr> else l);
          l2 = (if ok then l1\<lparr>acknowledged := both (acknowledged l1) (server_figures loads t ob st),
                              overwritten := both (overwritten l1) during\<rparr> else l1)
      in (l2, heartbeat_round (doc_json loads) t ob st))"

definition empty_ledger :: ledger where
  "empty_ledger = \<lparr>relayed = (0, 0), acknowledged = (0, 0), overwritten = (0, 0)\<rparr>"

definition balanced :: "u64 \<times> u64 \<Rightarrow> ledger \<times> client_state \<Rightarrow> bool" where
  "balanced c0 s \<longleftrightarrow>
     both c0 (relayed (fst s)) = both (counters (snd s)) (both (acknowledged (fst s)) (overwritten (fst s)))"

lemma heartbeat_round_counters:
  "counters (heartbeat_round J t ob st) =
     (if g_device_session_revoked st \<or> \<not> heartbeat_due t st then counters st else counters (snd (send_heartbeat J ob st)))"
  by (cases "send_heartbeat J ob st") (auto simp: heartbeat_round_def split: heartbeat_result.splits)

lemma balanced_step:
  assumes "balanced c0 (l, st)"
  shows "balanced c0 (client_event_step loads e (l, st))"
proof (cases e)
  case (Relay_bytes d)
  with assms show ?thesis by (auto simp: balanced_def both_def counters_def algebra_simps)
next
  case (Heartbeat_pass t ob)
  have f: "server_figures loads t ob st = counters st"
    by (simp add: server_figures_def server_reads_heartbeat counters_def Let_def)
  show ?thesis
    using assms unfolding Heartbeat_pass
    by (auto simp: balanced_def both_def f heartbeat_round_counters send_heartbeat_counters Let_def)
      (auto simp: counters_def algebra_simps)
qed

lemma balanced_run: "balanced c0 s \<Longrightarrow> balanced c0 (fold (client_event_step loads) es s)"
proof (induction es arbitrary: s)
  case Nil
  then show ?case by simp
next
  case (Cons e es)
  then show ?case using balanced_step by (cases s) auto
qed

fun quiet :: "client_event \<Rightarrow> bool" where
  "quiet (Relay_bytes d) = True"
| "quiet (Heartbeat_pass t ob) = (ho_mid ob = (0, 0) \<and> ho_late ob = (0, 0))"

lemma quiet_run:
  "list_all quiet es \<Longrightarrow> overwritten l = (0, 0) \<Longrightarrow> overwritten (fst (fold (client_event_step loads) es (l, st))) = (0, 0)"
proof (induction es arbitrary: l st)
  case Nil
  then show ?case by simp
next
  case (Cons e es)
  obtain l1 st1 where e: "client_event_step loads e (l, st) = (l1, st1)" by fastforce
  with Cons.prems have "overwritten l1 = (0, 0)"
    by (cases e) (auto simp: Let_def both_def split: if_splits)
  with Cons e show ?case by simp
qed

text \<open>
  C14. The client's traffic reports balance. Over any sequence of relayed bytes and passes of the heartbeat thread, with any answers, what was
  relayed is what the server read from the heartbeats it acknowledged, plus what is still counted, plus what the relay threads
  counted between the building of an acknowledged heartbeat and the reset of the counters (in each direction, modulo \<open>2 ^ 64\<close>). A failed
  heartbeat loses nothing; if nothing is relayed during the heartbeats, nothing is lost at all.
\<close>

theorem client_traffic_conserved:
  assumes "fold (client_event_step loads) es (empty_ledger, st) = (l, st')"
  shows "both (counters st) (relayed l) = both (counters st') (both (acknowledged l) (overwritten l)) \<and>
         (list_all quiet es \<longrightarrow> both (counters st) (relayed l) = both (counters st') (acknowledged l))"
proof -
  have "balanced (counters st) (empty_ledger, st)" by (simp add: balanced_def both_def empty_ledger_def)
  from balanced_run [OF this, of loads es] assms have "balanced (counters st) (l, st')" by simp
  moreover have "list_all quiet es \<Longrightarrow> overwritten l = (0, 0)"
    using quiet_run [of es empty_ledger loads st] assms by (simp add: empty_ledger_def)
  ultimately show ?thesis by (auto simp: balanced_def both_def)
qed

definition quiet_obs :: "exchange \<Rightarrow> heartbeat_obs" where
  "quiet_obs ex =
     \<lparr>ho_exchange = ex, ho_mid = (0, 0), ho_late = (0, 0), ho_thread_ok = True,
      ho_apply = \<lparr>ae_ctx_ok = True, ae_load_ok = True, ae_starts = (\<lambda>_. No_thread)\<rparr>\<rparr>"

text \<open>Example: 1000 bytes are relayed, a heartbeat is acknowledged, and one during which 7 more bytes were sent.\<close>

definition example_events :: "client_event list" where
  "example_events =
     [Relay_bytes (1000, 0), Heartbeat_pass 100 (quiet_obs (example_exchange ''ok'')), Relay_bytes (5, 0),
      Heartbeat_pass 200 ((quiet_obs (example_exchange ''ok''))\<lparr>ho_late := (7, 0)\<rparr>)]"

definition ok_loads :: "string \<Rightarrow> jdoc option" where
  "ok_loads s = Some (DObject [(''status'', DString ''ok'')])"

theorem client_traffic_conserved_witness:
  "\<exists>l st'. fold (client_event_step ok_loads) example_events (empty_ledger, initial_client_state) = (l, st') \<and>
     both (counters initial_client_state) (relayed l) = both (counters st') (both (acknowledged l) (overwritten l)) \<and>
     overwritten l = (7, 0)"
proof -
  obtain l st' where r: "fold (client_event_step ok_loads) example_events (empty_ledger, initial_client_state) = (l, st')"
    by fastforce
  moreover have "overwritten (fst (fold (client_event_step ok_loads) example_events (empty_ledger, initial_client_state))) = (7, 0)"
    by (simp add: example_events_def initial_client_state_def heartbeat_due_def send_heartbeat_def quiet_obs_def example_exchange_def
        heartbeat_connected_def zero_heartbeat_config_def received_text_def ok_loads_def string_member_def doc_json_def
        empty_ledger_def both_def heartbeat_round_def check_heartbeat_timeout_def heartbeat_sent_def heartbeat_answer_ok_def
        boolean_member_def client_traffic_reset_since_last_def add_traffic_def client_traffic_add_sent_def
        client_traffic_add_received_def Let_def)
  ultimately show ?thesis using client_traffic_conserved [OF r] by auto
qed

section \<open>Lost heartbeats and recovery\<close>

fun heartbeat_rounds :: "'j jansson \<Rightarrow> (time_t \<times> heartbeat_obs) list \<Rightarrow> client_state \<Rightarrow> client_state" where
  "heartbeat_rounds J [] st = st"
| "heartbeat_rounds J ((t, ob) # obs) st = heartbeat_rounds J obs (heartbeat_round J t ob st)"

text \<open>An exchange that fails whatever the server would say.\<close>

definition exchange_fails :: "exchange \<Rightarrow> bool" where
  "exchange_fails ex \<longleftrightarrow> \<not> ex_socket ex \<or> \<not> ex_connect ex \<or> \<not> ex_sent_all ex \<or> ex_received ex = None"

lemma send_heartbeat_fails:
  "exchange_fails (ho_exchange ob) \<Longrightarrow>
   send_heartbeat J ob st = (HEARTBEAT_SEND_FAILED, add_traffic (ho_late ob) (add_traffic (ho_mid ob) st))"
  by (auto simp: send_heartbeat_def exchange_fails_def heartbeat_connected_def received_text_def Let_def)

lemma add_traffic_frame [simp]:
  "g_heartbeat_manager (add_traffic d st) = g_heartbeat_manager st"
  "g_device_session_revoked (add_traffic d st) = g_device_session_revoked st"
  "g_registration_wait_running (add_traffic d st) = g_registration_wait_running st"
  by (simp_all add: add_traffic_def client_traffic_add_sent_def client_traffic_add_received_def)

lemma failed_round:
  assumes "\<not> g_device_session_revoked st" and "heartbeat_due t st" and "exchange_fails (ho_exchange ob)"
  shows "heartbeat_round J t ob st = heartbeat_failed (ho_thread_ok ob) (add_traffic (ho_late ob) (add_traffic (ho_mid ob) st))"
proof -
  let ?st = "heartbeat_failed (ho_thread_ok ob) (add_traffic (ho_late ob) (add_traffic (ho_mid ob) st))"
  have "hm_status (g_heartbeat_manager ?st) = HEARTBEAT_STATUS_DISCONNECTED"
    by (simp add: heartbeat_failed_def device_start_registration_wait_def switcher_servers_drop_active_connections_def Let_def
        split: option.splits)
  with assms show ?thesis by (simp add: heartbeat_round_def send_heartbeat_fails check_heartbeat_timeout_def Let_def)
qed

text \<open>The connections have all been told to stop.\<close>

definition all_dropped :: "client_state \<Rightarrow> bool" where
  "all_dropped st \<longleftrightarrow>
     (case connections (threads_data st) of None \<Rightarrow> True
      | Some cs \<Rightarrow> list_all (\<lambda>c. stop_running_input c \<and> stop_running_output c) cs)"

lemma drop_all_dropped: "all_dropped (switcher_servers_drop_active_connections st)"
  by (simp add: all_dropped_def switcher_servers_drop_active_connections_def stop_flags_def list_all_iff split: option.splits)

lemma drop_frame [simp]:
  "g_heartbeat_manager (switcher_servers_drop_active_connections st) = g_heartbeat_manager st"
  "g_device_session_revoked (switcher_servers_drop_active_connections st) = g_device_session_revoked st"
  "g_registration_wait_running (switcher_servers_drop_active_connections st) = g_registration_wait_running st"
  "g_device_state (switcher_servers_drop_active_connections st) = g_device_state st"
  by (simp_all add: switcher_servers_drop_active_connections_def split: option.splits)

lemma all_dropped_manager [simp]: "all_dropped (st\<lparr>g_heartbeat_manager := m\<rparr>) = all_dropped st"
  by (simp add: all_dropped_def)

text \<open>A failure below the limit only counts; the one that reaches it starts the registration.\<close>

lemma heartbeat_failed_below:
  assumes "unat (hm_fail_count (g_heartbeat_manager st)) + 1 < unat (hc_max_failures (hm_config (g_heartbeat_manager st)))"
  shows "g_device_session_revoked (heartbeat_failed ok st) = g_device_session_revoked st"
    and "g_registration_wait_running (heartbeat_failed ok st) = g_registration_wait_running st"
    and "g_heartbeat_manager (heartbeat_failed ok st) =
           (g_heartbeat_manager st)\<lparr>hm_fail_count := hm_fail_count (g_heartbeat_manager st) + 1,
                                   hm_status := HEARTBEAT_STATUS_DISCONNECTED\<rparr>"
    and "unat (hm_fail_count (g_heartbeat_manager st) + 1) = unat (hm_fail_count (g_heartbeat_manager st)) + 1"
proof -
  have "unat (hc_max_failures (hm_config (g_heartbeat_manager st))) < 2 ^ 32"
    using unsigned_less [of "hc_max_failures (hm_config (g_heartbeat_manager st))", where ?'a = nat] by simp
  with assms show u: "unat (hm_fail_count (g_heartbeat_manager st) + 1) = unat (hm_fail_count (g_heartbeat_manager st)) + 1"
    by (simp add: unat_word_ariths)
  with assms have "\<not> hc_max_failures (hm_config (g_heartbeat_manager st)) \<le> hm_fail_count (g_heartbeat_manager st) + 1"
    by (simp add: word_le_nat_alt)
  then show "g_device_session_revoked (heartbeat_failed ok st) = g_device_session_revoked st"
    "g_registration_wait_running (heartbeat_failed ok st) = g_registration_wait_running st"
    "g_heartbeat_manager (heartbeat_failed ok st) =
       (g_heartbeat_manager st)\<lparr>hm_fail_count := hm_fail_count (g_heartbeat_manager st) + 1,
                               hm_status := HEARTBEAT_STATUS_DISCONNECTED\<rparr>"
    by (simp_all add: heartbeat_failed_def Let_def)
qed

lemma heartbeat_failed_reaches:
  assumes "unat (hm_fail_count (g_heartbeat_manager st)) + 1 = unat (hc_max_failures (hm_config (g_heartbeat_manager st)))"
    and "\<not> g_device_session_revoked st" and "\<not> g_registration_wait_running st"
  shows "g_device_session_revoked (heartbeat_failed True st) \<and> g_registration_wait_running (heartbeat_failed True st) \<and>
         hm_fail_count (g_heartbeat_manager (heartbeat_failed True st)) = 0 \<and> all_dropped (heartbeat_failed True st)"
proof -
  have "unat (hc_max_failures (hm_config (g_heartbeat_manager st))) < 2 ^ 32"
    using unsigned_less [of "hc_max_failures (hm_config (g_heartbeat_manager st))", where ?'a = nat] by simp
  with assms(1) have "unat (hm_fail_count (g_heartbeat_manager st) + 1) = unat (hc_max_failures (hm_config (g_heartbeat_manager st)))"
    by (simp add: unat_word_ariths)
  then have "hc_max_failures (hm_config (g_heartbeat_manager st)) \<le> hm_fail_count (g_heartbeat_manager st) + 1"
    by (simp add: word_le_nat_alt)
  with assms(2,3) show ?thesis
    by (simp add: heartbeat_failed_def device_start_registration_wait_def drop_all_dropped Let_def)
qed

text \<open>All the rounds find the heartbeat due and its exchange fails.\<close>

definition rounds_fail :: "(time_t \<times> heartbeat_obs) list \<Rightarrow> client_state \<Rightarrow> bool" where
  "rounds_fail obs st \<longleftrightarrow>
     list_all (\<lambda>(t, ob). exchange_fails (ho_exchange ob) \<and> ho_thread_ok ob \<and>
       t \<ge> hm_last_sent (g_heartbeat_manager st) + int (unat (hc_heartbeat_interval (hm_config (g_heartbeat_manager st))))) obs"

lemma failing_rounds:
  assumes "rounds_fail obs st" and "\<not> g_device_session_revoked st" and "\<not> g_registration_wait_running st" and "obs \<noteq> []"
    and "unat (hm_fail_count (g_heartbeat_manager st)) + length obs \<le> unat (hc_max_failures (hm_config (g_heartbeat_manager st)))"
  shows "if unat (hm_fail_count (g_heartbeat_manager st)) + length obs = unat (hc_max_failures (hm_config (g_heartbeat_manager st)))
         then g_device_session_revoked (heartbeat_rounds J obs st) \<and> g_registration_wait_running (heartbeat_rounds J obs st) \<and>
              hm_fail_count (g_heartbeat_manager (heartbeat_rounds J obs st)) = 0 \<and> all_dropped (heartbeat_rounds J obs st)
         else \<not> g_device_session_revoked (heartbeat_rounds J obs st) \<and> \<not> g_registration_wait_running (heartbeat_rounds J obs st)"
  using assms
proof (induction obs arbitrary: st)
  case Nil
  then show ?case by simp
next
  case (Cons p obs)
  obtain t ob where p: "p = (t, ob)" by (cases p)
  let ?st0 = "add_traffic (ho_late ob) (add_traffic (ho_mid ob) st)"
  have round: "heartbeat_round J t ob st = heartbeat_failed True ?st0"
    using Cons.prems(1,2) failed_round [of st t ob J] by (simp add: p rounds_fail_def heartbeat_due_def)
  show ?case
  proof (cases "obs = []")
    case True
    then show ?thesis
      using Cons.prems heartbeat_failed_below(1,2) [of ?st0 True] heartbeat_failed_reaches [of ?st0]
      by (auto simp: p round)
  next
    case False
    with Cons.prems(5) have less: "unat (hm_fail_count (g_heartbeat_manager ?st0)) + 1 < unat (hc_max_failures (hm_config (g_heartbeat_manager ?st0)))"
      by (cases obs) auto
    note f = heartbeat_failed_below [OF less]
    have "rounds_fail obs (heartbeat_failed True ?st0)"
      using Cons.prems(1) by (simp add: rounds_fail_def p f(3))
    from Cons.IH [OF this _ _ False] Cons.prems f show ?thesis by (simp add: p round)
  qed
qed

text \<open>
  C15. A device that loses its server notices. After as many consecutive failed heartbeats as \<open>max_failures\<close> says, and not before, the session is
  revoked, all proxy connections are told to stop, and the registration thread runs.
\<close>

theorem lost_heartbeats_start_registration:
  assumes "rounds_fail obs st" and "\<not> g_device_session_revoked st" and "\<not> g_registration_wait_running st"
    and "hm_fail_count (g_heartbeat_manager st) = 0" and "obs \<noteq> []"
    and "length obs \<le> unat (hc_max_failures (hm_config (g_heartbeat_manager st)))"
  shows "if length obs = unat (hc_max_failures (hm_config (g_heartbeat_manager st)))
         then g_device_session_revoked (heartbeat_rounds J obs st) \<and> g_registration_wait_running (heartbeat_rounds J obs st) \<and>
              all_dropped (heartbeat_rounds J obs st)
         else \<not> g_device_session_revoked (heartbeat_rounds J obs st) \<and> \<not> g_registration_wait_running (heartbeat_rounds J obs st)"
  using failing_rounds [OF assms(1-3,5), of J] assms(4,6) by (auto split: if_splits)

lemma failed_attempt:
  assumes "exchange_fails ob" and "g_device_registration_enabled st"
  shows "\<exists>ctx. device_register_with_server J ob st = (-1, st\<lparr>g_device_control_ssl_ctx := ctx\<rparr>)"
proof -
  obtain rc ctx where c: "device_control_connect ob st = (rc, st\<lparr>g_device_control_ssl_ctx := ctx\<rparr>)" (is "?P rc ctx")
  proof -
    have "\<exists>rc ctx. ?P rc ctx"
      by (cases "g_device_control_ssl_ctx st")
        (auto simp: device_control_connect_def ensure_device_control_ssl_ctx_def
          intro: exI [of _ "g_device_control_ssl_ctx st"] exI [of _ True])
    then show thesis using that by blast
  qed
  have "rc \<noteq> 0" if "\<not> ex_socket ob \<or> \<not> ex_connect ob"
    using c that by (auto simp: device_control_connect_def split: if_splits)
  with assms c show ?thesis
    by (auto simp: device_register_with_server_def exchange_fails_def received_text_def intro!: exI [of _ ctx])
qed

lemma failed_attempts:
  assumes "list_all (\<lambda>(shutdown, ob). \<not> shutdown \<and> exchange_fails ob) pre" and "g_device_registration_enabled st"
  shows "\<exists>ctx. device_register_until_allowed J (pre @ obs) st =
           device_register_until_allowed J obs (st\<lparr>g_device_control_ssl_ctx := ctx\<rparr>)"
  using assms
proof (induction pre arbitrary: st)
  case Nil
  have "st = st\<lparr>g_device_control_ssl_ctx := g_device_control_ssl_ctx st\<rparr>" by simp
  then show ?case by (metis append_Nil)
next
  case (Cons p pre)
  obtain ob where p: "p = (False, ob)" "exchange_fails ob" using Cons.prems(1) by (cases p) auto
  from failed_attempt [OF p(2) Cons.prems(2), of J] obtain ctx where
    ctx: "device_register_with_server J ob st = (-1, st\<lparr>g_device_control_ssl_ctx := ctx\<rparr>)" by blast
  from Cons.IH [of "st\<lparr>g_device_control_ssl_ctx := ctx\<rparr>"] Cons.prems show ?case by (auto simp: p(1) ctx)
qed

lemma accept_registration_ok:
  assumes "map_of r ''assigned_port'' = Some (RInteger p)" and "map_of r ''session_token'' = Some (RString token)"
  shows "\<exists>st1. accept_registration (doc_json loads) (response_doc r) t st = (0, st1) \<and>
    rs_session_token (g_device_state st1) = strncpy 256 token \<and> threads_data st1 = threads_data st \<and>
    g_registration_wait_running st1 = g_registration_wait_running st"
  by (simp add: accept_registration_def response_members assms Let_def)

lemma register_accepts:
  assumes "loads (dumps (response_doc r)) = Some (response_doc r)" and "exchange_ok dumps r ob"
    and "map_of r ''status'' = Some (RString ''authenticated'')" and "map_of r ''assigned_port'' = Some (RInteger p)"
    and "map_of r ''session_token'' = Some (RString token)" and "g_device_registration_enabled st"
  shows "\<exists>st1. device_register_with_server (doc_json loads) ob st = (0, st1) \<and>
    rs_session_token (g_device_state st1) = strncpy 256 token \<and> threads_data st1 = threads_data st"
proof -
  obtain ctx where c: "device_control_connect ob st = (0, st\<lparr>g_device_control_ssl_ctx := ctx\<rparr>)"
    using exchange_connects [OF assms(2)] by blast
  from accept_registration_ok [OF assms(4,5), of loads "ex_time ob" "st\<lparr>g_device_control_ssl_ctx := ctx\<rparr>"]
  obtain st1 where a: "accept_registration (doc_json loads) (response_doc r) (ex_time ob) (st\<lparr>g_device_control_ssl_ctx := ctx\<rparr>) = (0, st1)"
    "rs_session_token (g_device_state st1) = strncpy 256 token" "threads_data st1 = threads_data st" by auto
  moreover have "ex_serialised ob" "ex_sent_all ob" using assms(2) by (simp_all add: exchange_ok_def)
  ultimately show ?thesis
    using assms(1,6) c by (simp add: device_register_with_server_def exchange_received [OF assms(2)] response_members assms(3))
qed

lemma tunnel_settings_frame [simp]:
  "g_device_state (apply_tunnel_settings st) = g_device_state st"
  "g_heartbeat_config (apply_tunnel_settings st) = g_heartbeat_config st"
  "g_device_session_revoked (apply_tunnel_settings st) = g_device_session_revoked st"
  "output_port (threads_data (apply_tunnel_settings st)) = output_port (threads_data st)"
  "output_address (threads_data (apply_tunnel_settings st)) = output_address (threads_data st)"
  "input_port (threads_data (apply_tunnel_settings st)) = tunnel_connect_port st"
  "tunnel_connect_port (apply_tunnel_settings st) = tunnel_connect_port st"
  by (simp_all add: apply_tunnel_settings_def apply_tunnel_tls_client_settings_def tunnel_connect_port_def)

lemma output_target_frame [simp]:
  "g_device_state (apply_output_target_from_registration st) = g_device_state st"
  "g_heartbeat_config (apply_output_target_from_registration st) = g_heartbeat_config st"
  "g_device_session_revoked (apply_output_target_from_registration st) = g_device_session_revoked st"
  "input_port (threads_data (apply_output_target_from_registration st)) = input_port (threads_data st)"
  "tunnel_connect_port (apply_output_target_from_registration st) = tunnel_connect_port st"
  by (simp_all add: apply_output_target_from_registration_def tunnel_connect_port_def Let_def)

lemma output_target_valid:
  assumes "output_port (threads_data st) \<noteq> 0" and "output_address (threads_data st) \<noteq> []"
  shows "validate_output_target (threads_data (apply_output_target_from_registration st)) = 0"
  using assms by (auto simp: validate_output_target_def apply_output_target_from_registration_def Let_def cstring_simps)

lemma refresh_frame [simp]:
  "g_device_state (refresh_client_ssl_context a b st) = g_device_state st"
  "g_heartbeat_config (refresh_client_ssl_context a b st) = g_heartbeat_config st"
  "g_device_session_revoked (refresh_client_ssl_context a b st) = g_device_session_revoked st"
  "g_heartbeat_manager (refresh_client_ssl_context a b st) = g_heartbeat_manager st"
  "input_port (threads_data (refresh_client_ssl_context a b st)) = input_port (threads_data st)"
  "tunnel_connect_port (refresh_client_ssl_context a b st) = tunnel_connect_port st"
  by (auto simp: refresh_client_ssl_context_def ensure_client_ssl_context_def tunnel_connect_port_def split: option.splits if_splits)

lemma restart_frame [simp]:
  "g_device_state (switcher_servers_restart_input_threads starts st) = g_device_state st"
  "g_device_session_revoked (switcher_servers_restart_input_threads starts st) = g_device_session_revoked st"
  "g_heartbeat_manager (switcher_servers_restart_input_threads starts st) = g_heartbeat_manager st"
  "input_port (threads_data (switcher_servers_restart_input_threads starts st)) = input_port (threads_data st)"
  "tunnel_connect_port (switcher_servers_restart_input_threads starts st) = tunnel_connect_port st"
  by (simp_all add: switcher_servers_restart_input_threads_def tunnel_connect_port_def split: option.splits)

lemma tunnel_connect_port_frame [simp]:
  "tunnel_connect_port (st\<lparr>g_heartbeat_config := c\<rparr>) = tunnel_connect_port st"
  "tunnel_connect_port (st\<lparr>g_heartbeat_manager := m\<rparr>) = tunnel_connect_port st"
  "rs_tunnel_port d = rs_tunnel_port (g_device_state st) \<Longrightarrow>
   tunnel_connect_port (st\<lparr>g_device_state := d\<rparr>) = tunnel_connect_port st"
  by (simp_all add: tunnel_connect_port_def)

text \<open>No connection is told to stop, and none counts as starting.\<close>

definition all_restarted :: "client_state \<Rightarrow> bool" where
  "all_restarted st \<longleftrightarrow>
     (case connections (threads_data st) of None \<Rightarrow> True
      | Some cs \<Rightarrow> list_all (\<lambda>c. \<not> stop_running_input c \<and> \<not> stop_running_output c \<and> \<not> is_starting_input c) cs)"

lemma restart_all_restarted: "all_restarted (switcher_servers_restart_input_threads starts st)"
  by (auto simp: all_restarted_def switcher_servers_restart_input_threads_def list_all_iff server_input_start_def reset_conn_def Let_def
      split: option.splits input_start.splits)

lemma reregistration_applies:
  assumes "output_port (threads_data st) \<noteq> 0" and "output_address (threads_data st) \<noteq> []"
  shows "\<exists>st'. device_apply_reregistration env st = (0, st') \<and> rs_status (g_device_state st') = DEVICE_STATUS_CONNECTED \<and>
    rs_session_token (g_device_state st') = rs_session_token (g_device_state st) \<and>
    hc_session_token (hm_config (g_heartbeat_manager st')) = rs_session_token (g_device_state st) \<and>
    g_device_session_revoked st' = g_device_session_revoked st \<and>
    input_port (threads_data st') = tunnel_connect_port st' \<and> all_restarted st'"
proof -
  let ?st2 = "apply_output_target_from_registration (apply_tunnel_settings (st\<lparr>g_heartbeat_config :=
    (g_heartbeat_config st)\<lparr>hc_session_token := rs_session_token (g_device_state st), hc_assigned_port := rs_assigned_port (g_device_state st)\<rparr>\<rparr>))"
  have "validate_output_target (threads_data ?st2) = 0"
    by (rule output_target_valid) (simp_all add: assms)
  then show ?thesis
    by (simp add: device_apply_reregistration_def heartbeat_update_config_def restart_all_restarted Let_def)
qed


text \<open>Example: one attempt is refused at the socket, the next one succeeds.\<close>

definition example_answer :: response where
  "example_answer = [(''status'', RString ''authenticated''), (''assigned_port'', RInteger 6000), (''session_token'', RString ''T'')]"


theorem lost_heartbeats_start_registration_witness:
  "g_device_session_revoked (heartbeat_rounds (doc_json (\<lambda>_. None)) (replicate 3 (1000, quiet_obs ((example_exchange [])\<lparr>ex_connect := False\<rparr>)))
     (snd (heartbeat_manager_init (Some (g_heartbeat_config example_client)) example_client)))"
proof -
  let ?obs = "replicate 3 (1000 :: int, quiet_obs ((example_exchange [])\<lparr>ex_connect := False\<rparr>))"
  let ?st = "snd (heartbeat_manager_init (Some (g_heartbeat_config example_client)) example_client)"
  have "rounds_fail ?obs ?st" "\<not> g_device_session_revoked ?st" "\<not> g_registration_wait_running ?st"
    "hm_fail_count (g_heartbeat_manager ?st) = 0" "unat (hc_max_failures (hm_config (g_heartbeat_manager ?st))) = 3"
    by (simp_all add: rounds_fail_def exchange_fails_def quiet_obs_def example_exchange_def heartbeat_manager_init_def
        example_client_def device_registration_init_def initial_client_state_def list_all_iff)
  with lost_heartbeats_start_registration [of ?obs ?st "doc_json (\<lambda>_. None)"] show ?thesis by simp
qed

section \<open>TLS towards the local service\<close>

text \<open>
  In device mode the option \<open>-o\<close> has no effect without tunnel TLS. When the server announces no tunnel TLS, applying the tunnel settings
  empties \<open>ca_file\<close>, also the one given with \<open>-a\<close> for the output connection; the start of the proxy then finds no CA file, switches output TLS
  off, and starts the connections all the same: they carry the data to the local service unencrypted.
\<close>

theorem output_tls_dropped:
  assumes "\<not> rs_tunnel_tls (g_device_state st)" and "enable_output_ssl (threads_data st)" and "\<not> ssl_ctx (threads_data st)"
  shows "\<exists>st'. switcher_servers_start_client ctx_ok load_ok True starts (apply_tunnel_settings st) = Some (0, st') \<and>
           \<not> enable_output_ssl (threads_data st') \<and> \<not> ssl_ctx (threads_data st') \<and>
           connections (threads_data st') =
             Some (map (\<lambda>i. server_input_start (starts i) zero_conn) [0..<nat (connections_count (threads_data st))])"
  using assms
  by (simp add: switcher_servers_start_client_def ensure_client_ssl_context_def apply_tunnel_settings_def apply_tunnel_tls_client_settings_def)

theorem output_tls_dropped_witness:
  "\<exists>st'. switcher_servers_start_client True True True (\<lambda>_. Thread_started True 5 False)
      (apply_tunnel_settings (example_client\<lparr>threads_data := zero_settings\<lparr>enable_output_ssl := True, ca_file := ''ca.pem''\<rparr>\<rparr>)) = Some (0, st') \<and>
    \<not> enable_output_ssl (threads_data st')"
  using output_tls_dropped [of "example_client\<lparr>threads_data := zero_settings\<lparr>enable_output_ssl := True, ca_file := ''ca.pem''\<rparr>\<rparr>" True True
      "\<lambda>_. Thread_started True 5 False"]
  by (auto simp: example_client_def device_registration_init_def zero_registration_state_def zero_settings_def)

text \<open>Likewise a tunnel whose CA file cannot be loaded when the settings change is continued without TLS.\<close>

lemma tunnel_tls_downgrade:
  assumes "rs_tunnel_tls (g_device_state st)" and "g_registration_ca_file st \<noteq> []" and "\<not> ssl_ctx (threads_data st)"
  shows "\<not> enable_tunnel_ssl (threads_data (refresh_client_ssl_context True False (apply_tunnel_settings st)))"
  using assms
  by (simp add: refresh_client_ssl_context_def ensure_client_ssl_context_def create_client_ssl_context_def apply_tunnel_settings_def
      apply_tunnel_tls_client_settings_def cstring_simps)

section \<open>The device mode from its command line\<close>

text \<open>An argument the loop does not know is skipped.\<close>

lemma parse_device_args_skip:
  "\<not> value_flag a \<Longrightarrow> a \<noteq> ''--registration-no-ssl'' \<Longrightarrow> parse_device_args (a # rest) c = parse_device_args rest c"
  by (cases rest) simp_all

end
