(* ===== verification/Control_Exchange.thy ===== *)
theory Control_Exchange
  imports Client_Properties Control_Plane
begin

text \<open>
  Heartbeats end to end: \<open>send_heartbeat\<close> of \<open>src/client/proxy/client/device_heartbeat.c\<close> against \<open>process_heartbeat_request\<close> of
  \<open>src/server/proxy/server/device_manager.c\<close>, with the JSON library of \<open>Client_Properties\<close> between them.
\<close>

section \<open>Both sides of a heartbeat\<close>

lemma heartbeat_members:
  "string_member (doc_json loads) (heartbeat_request t mid st) ''action'' = Some ''heartbeat''"
  "string_member (doc_json loads) (heartbeat_request t mid st) ''session_token'' =
     Some (hc_session_token (hm_config (g_heartbeat_manager st)))"
  by (simp_all add: string_member_def doc_json_def heartbeat_request_def)

lemma server_dispatches_heartbeat:
  assumes "loads (dumps (heartbeat_request t mid st)) = Some (heartbeat_request t mid st)"
    and "process_json_message (doc_json loads) env (dumps (heartbeat_request t mid st)) ip srv = Some (0, [r], srv')"
  shows "process_heartbeat_request (doc_json loads) env (heartbeat_request t mid st) ip srv = Some (r, srv')"
  using assms by (auto simp: process_json_message_def heartbeat_members split: if_splits)

text \<open>The client's side of an exchange whose answer arrives whole.\<close>

lemma send_heartbeat_ok:
  assumes "heartbeat_connected (ho_exchange ob) st" and "exchange_ok dumps r (ho_exchange ob)"
    and "loads (dumps (response_doc r)) = Some (response_doc r)" and "map_of r ''status'' = Some (RString ''ok'')"
  shows "send_heartbeat (doc_json loads) ob st =
     (HEARTBEAT_SEND_OK,
      heartbeat_answer_ok (doc_json loads) (response_doc r) ob (add_traffic (ho_late ob) (add_traffic (ho_mid ob) st)))"
proof -
  have ex: "ex_serialised (ho_exchange ob)" "ex_sent_all (ho_exchange ob)" using assms(2) by (simp_all add: exchange_ok_def)
  show ?thesis
    using assms(1,3,4) ex exchange_received [OF assms(2)] by (simp add: send_heartbeat_def response_members Let_def)
qed

definition terminated_answer :: response where
  "terminated_answer = error_response ''Session terminated'' @ [(''force_disconnect'', RBoolean True)]"

lemma terminated_members:
  "string_member (doc_json loads) (response_doc terminated_answer) ''status'' = Some ''error''"
  "boolean_member (doc_json loads) (response_doc terminated_answer) ''force_disconnect'' = Some True"
  by (simp_all add: response_members terminated_answer_def error_response_def)

lemma send_heartbeat_terminated:
  assumes "heartbeat_connected (ho_exchange ob) st" and "exchange_ok dumps terminated_answer (ho_exchange ob)"
    and "loads (dumps (response_doc terminated_answer)) = Some (response_doc terminated_answer)"
    and "\<not> g_registration_wait_running st"
  shows "\<exists>st'. send_heartbeat (doc_json loads) ob st = (HEARTBEAT_SEND_SESSION_TERMINATED, st') \<and>
     g_device_session_revoked st' \<and> all_dropped st' \<and> g_registration_wait_running st' = ho_thread_ok ob"
proof -
  have ex: "ex_serialised (ho_exchange ob)" "ex_sent_all (ho_exchange ob)" using assms(2) by (simp_all add: exchange_ok_def)
  have "\<not> g_registration_wait_running (add_traffic a s) \<longleftrightarrow> \<not> g_registration_wait_running s" for a s
    by (simp add: add_traffic_def client_traffic_add_received_def client_traffic_add_sent_def)
  moreover have "all_dropped (s\<lparr>g_registration_wait_running := b\<rparr>) = all_dropped s" for b s
    by (simp add: all_dropped_def)
  ultimately show ?thesis
    using assms(1,3,4) ex exchange_received [OF assms(2)]
    by (simp add: send_heartbeat_def terminated_members session_ended_def device_start_registration_wait_def drop_all_dropped Let_def)
qed

section \<open>What a heartbeat leaves in the tables\<close>

text \<open>The columns of sessions that say how long they last, and the TLS columns of devices.\<close>

definition lasting_rows :: "device_db \<Rightarrow> (string \<times> string \<times> time_t) list \<times> (string \<times> bool \<times> bool) list" where
  "lasting_rows d = (map (\<lambda>s. (s_token s, s_status s, s_expires_at s)) (device_sessions d),
                     map (\<lambda>e. (d_device_id e, d_enable_input_ssl e, d_enable_tunnel_ssl e)) (devices d))"

lemma lasting_rows_statements [simp]: "lasting_rows (d\<lparr>statements := n\<rparr>) = lasting_rows d"
  by (simp add: lasting_rows_def)

lemma exec_stmt_lasting:
  assumes "\<And>d a d'. stmt d = Some (a, d') \<Longrightarrow> lasting_rows d' = lasting_rows d"
  shows "lasting_rows (snd (exec_stmt ok stmt d)) = lasting_rows d"
  using assms by (auto simp: exec_stmt_def Let_def split: option.split)

lemma update_device_statistics_lasting: "lasting_rows (snd (update_device_statistics ok t tok a b c d)) = lasting_rows d"
proof -
  have 1: "lasting_rows (snd (exec_stmt ok (sql_add_session_stats t a b c token) d)) = lasting_rows d" for token d
    by (rule exec_stmt_lasting) (auto simp: sql_add_session_stats_def lasting_rows_def sql_update_def split: if_splits)
  have 2: "lasting_rows (snd (exec_stmt ok (sql_add_device_totals a b token) d)) = lasting_rows d" for token d
    by (rule exec_stmt_lasting) (auto simp: sql_add_device_totals_def lasting_rows_def sql_update_def split: if_splits)
  show ?thesis
    using 1 2 by (auto simp: update_device_statistics_def split: option.split prod.split) (metis snd_conv)+
qed

lemma read_lasting:
  "lasting_rows (snd (record_device_traffic_sample ok t tok a b c d)) = lasting_rows d"
  "lasting_rows (snd (aggregate_device_hourly_statistics ok t tok a b c d)) = lasting_rows d"
  "lasting_rows (snd (get_session_by_token ok tok d)) = lasting_rows d"
  "lasting_rows (snd (device_manager_load_device_by_id ok dev d)) = lasting_rows d"
  by (auto simp: record_device_traffic_sample_def aggregate_device_hourly_statistics_def get_session_by_token_def
      device_manager_load_device_by_id_def exec_stmt_def lasting_rows_def Let_def split: option.split if_split)

lemma heartbeat_parts_lasting:
  "lasting_rows (db (heartbeat_ensure env token st)) = lasting_rows (db st)"
  "lasting_rows (heartbeat_record env token figures d) = lasting_rows d"
  "lasting_rows (db (snd (heartbeat_tls env token st))) = lasting_rows (db st)"
proof -
  note g = read_lasting(3) [of "db_ok env" "Some token" "db st"]
  show "lasting_rows (db (heartbeat_ensure env token st)) = lasting_rows (db st)"
    "lasting_rows (db (snd (heartbeat_tls env token st))) = lasting_rows (db st)"
    using g read_lasting(4)
    by (auto simp: heartbeat_ensure_def heartbeat_tls_def Let_def case_prod_beta split: option.split prod.split)
  show "lasting_rows (heartbeat_record env token figures d) = lasting_rows d"
    by (simp add: heartbeat_record_def Let_def read_lasting update_device_statistics_lasting split: prod.split)
qed

text \<open>A session that has a given token, status and expiry in one state of the tables has them in another one with the same rows.\<close>

lemma lasting_session:
  assumes "lasting_rows d = lasting_rows d0" and "s \<in> set (device_sessions d0)"
  shows "\<exists>s' \<in> set (device_sessions d). s_token s' = s_token s \<and> s_status s' = s_status s \<and> s_expires_at s' = s_expires_at s"
  using map_eq_member [of "\<lambda>s. (s_token s, s_status s, s_expires_at s)" "device_sessions d" "device_sessions d0" s] assms
  by (auto simp: lasting_rows_def)

lemma load_device_flags:
  assumes "snd (lasting_rows d) = snd (lasting_rows d0)" and "distinct (map d_device_id (devices d0))" and "e \<in> set (devices d0)"
    and "ok (statements d)"
  shows "\<exists>info. device_manager_load_device_by_id ok (Some (d_device_id e)) d = (Some info, d\<lparr>statements := Suc (statements d)\<rparr>) \<and>
     di_enable_input_ssl info = d_enable_input_ssl e \<and> di_enable_tunnel_ssl info = d_enable_tunnel_ssl e"
proof -
  let ?f = "\<lambda>e. (d_device_id e, d_enable_input_ssl e, d_enable_tunnel_ssl e)"
  have rows: "map ?f (devices d) = map ?f (devices d0)" using assms(1) by (simp add: lasting_rows_def)
  obtain e1 where "e1 \<in> set (devices d)" "?f e1 = ?f e" using map_eq_member [OF rows assms(3)] by auto
  then obtain x where x: "find (\<lambda>e'. d_device_id e' = d_device_id e) (devices d) = Some x"
    by (cases "find (\<lambda>e'. d_device_id e' = d_device_id e) (devices d)") (auto simp: find_None_iff)
  from find_SomeD [OF x] have x2: "x \<in> set (devices d)" "d_device_id x = d_device_id e" by auto
  obtain y where y: "y \<in> set (devices d0)" "?f y = ?f x" using map_eq_member [OF rows [symmetric] x2(1)] by auto
  then have "y = e" using x2(2) assms(2,3) by (auto simp: distinct_map inj_on_def)
  then show ?thesis
    using x y assms(4)
    by (simp add: device_manager_load_device_by_id_def exec_stmt_def device_info_of_row_def parse_pg_bool_def pg_bool_text_def)
qed

lemma touched_session:
  assumes "update_device_heartbeat ok t timeout token d = (0, d')"
  shows "\<exists>s \<in> set (device_sessions d'). active_session token s \<and> s_expires_at s = t + int (unat timeout)"
    and "snd (lasting_rows d') = snd (lasting_rows d)"
proof -
  obtain n d1 where one: "exec_stmt ok (sql_touch_session t timeout token) d = (Some n, d1)" "n \<noteq> 0"
    and d': "d' = snd (exec_stmt ok (sql_touch_device t token) d1)"
    using assms by (auto simp: update_device_heartbeat_def split: prod.splits option.splits if_splits)
  have d1: "n = length (filter (active_session token) (device_sessions d))"
    "device_sessions d1 = sql_update (active_session token)
       (\<lambda>s. s\<lparr>s_last_activity := t, s_expires_at := t + int (unat timeout)\<rparr>) (device_sessions d)"
    "devices d1 = devices d"
    using one(1) by (auto simp: exec_stmt_def sql_touch_session_def Let_def split: if_splits)
  have s: "device_sessions d' = device_sessions d1"
    by (simp add: d' exec_stmt_def sql_touch_device_def Let_def)
  obtain s0 where "s0 \<in> set (device_sessions d)" "active_session token s0"
    using one(2) d1(1) by (auto simp: filter_empty_conv)
  then show "\<exists>s \<in> set (device_sessions d'). active_session token s \<and> s_expires_at s = t + int (unat timeout)"
    unfolding s d1(2) sql_update_def
    by (intro bexI [of _ "s0\<lparr>s_last_activity := t, s_expires_at := t + int (unat timeout)\<rparr>"]) (force simp: active_session_def)+
  have "map (\<lambda>e. (d_device_id e, d_enable_input_ssl e, d_enable_tunnel_ssl e)) (devices d') =
      map (\<lambda>e. (d_device_id e, d_enable_input_ssl e, d_enable_tunnel_ssl e)) (devices d1)"
    by (simp add: d' exec_stmt_def sql_touch_device_def sql_update_def Let_def)
  then show "snd (lasting_rows d') = snd (lasting_rows d)" by (simp add: lasting_rows_def d1(3))
qed

lemma heartbeat_accepted:
  assumes "string_member J root ''session_token'' = Some token"
    and "validate_session_token_security (now env) (realloc_ok env) (Some token) ip (sec st) = Some (0, sec1)"
    and "\<And>n. db_ok env n" and "distinct (map s_token (device_sessions (db st)))" and "distinct (map d_id (devices (db st)))"
    and "distinct (map d_device_id (devices (db st)))"
    and "s \<in> set (device_sessions (db st))" and "active_session token s" and "d \<in> set (devices (db st))" and "d_id d = s_device s"
    and "length (d_device_id d) \<le> 64"
  shows "\<exists>r st'. process_heartbeat_request J env root ip st = Some (r, st') \<and> map_of r ''status'' = Some (RString ''ok'') \<and>
     map_of r ''input_tls'' = Some (RBoolean (d_enable_input_ssl d \<and> device_manager_ssl_certs_configured st)) \<and>
     map_of r ''tunnel_tls'' = Some (RBoolean (d_enable_tunnel_ssl d \<and> device_manager_ssl_certs_configured st)) \<and>
     (\<exists>s' \<in> set (device_sessions (db st')). active_session token s' \<and>
        s_expires_at s' = now env + int (unat (session_timeout (g_config st))))"
proof -
  let ?st1 = "st\<lparr>sec := sec1\<rparr>"
  obtain rc db1 where hb: "update_device_heartbeat (db_ok env) (now env) (session_timeout (g_config st)) token (db st) = (rc, db1)"
    by fastforce
  have "filter (active_session token) (device_sessions (db st)) \<noteq> []" using assms(7,8) by (auto simp: filter_empty_conv)
  with hb have rc: "rc = 0"
    by (auto simp: update_device_heartbeat_def exec_stmt_def sql_touch_session_def assms(3) Let_def)
  note touched = touched_session [OF hb [unfolded rc]]
  define st3 where "st3 = heartbeat_ensure env token (?st1\<lparr>db := db1\<rparr>)"
  define st4 where "st4 = st3\<lparr>db := heartbeat_record env token (heartbeat_traffic J root (heartbeat_statistics J root)) (db st3)\<rparr>"
  have "db_keys db1 = db_keys (db st)" using update_device_heartbeat_keys [of "db_ok env" "now env" _ token "db st"] hb by (metis snd_conv)
  then have keys: "db_keys (db st4) = db_keys (db st)" by (simp add: st4_def st3_def heartbeat_parts_keys)
  have rows: "lasting_rows (db st4) = lasting_rows db1" by (simp add: st4_def st3_def heartbeat_parts_lasting)
  have certs: "device_manager_ssl_certs_configured st4 = device_manager_ssl_certs_configured st"
    by (auto simp: st4_def st3_def heartbeat_ensure_def ensure_device_server_def device_manager_ssl_certs_configured_def Let_def case_prod_beta
        split: option.split prod.split)
  from get_session_device [OF keys, of "db_ok env" s token d] assms obtain ses where
    ses: "get_session_by_token (db_ok env) (Some token) (db st4) = (Some ses, (db st4)\<lparr>statements := Suc (statements (db st4))\<rparr>)"
      "ds_device_id ses = d_device_id d" by (auto simp: cstring_simps)
  obtain tls st5 where t: "heartbeat_tls env token st4 = (tls, st5)" by fastforce
  have r: "process_heartbeat_request J env root ip st = Some (tls @ [(''status'', RString ''ok''), (''timestamp'', RInteger (now env))], st5)"
    using assms(1,2) hb rc t by (simp add: process_heartbeat_request_def Let_def st4_def st3_def)
  from load_device_flags [of "(db st4)\<lparr>statements := Suc (statements (db st4))\<rparr>" "db st" d "db_ok env"] rows touched(2) assms(3,6,9)
  obtain info d2 where info: "device_manager_load_device_by_id (db_ok env) (Some (d_device_id d))
      ((db st4)\<lparr>statements := Suc (statements (db st4))\<rparr>) = (Some info, d2)"
    "di_enable_input_ssl info = d_enable_input_ssl d" "di_enable_tunnel_ssl info = d_enable_tunnel_ssl d" by auto
  have "\<exists>more. tls = (''input_tls'', RBoolean (d_enable_input_ssl d \<and> device_manager_ssl_certs_configured st)) #
      (''tunnel_tls'', RBoolean (d_enable_tunnel_ssl d \<and> device_manager_ssl_certs_configured st)) # more \<and> map_of more ''status'' = None"
    using t by (simp add: heartbeat_tls_def ses info certs Let_def case_prod_beta) auto
  then have "map_of (tls @ [(''status'', RString ''ok''), (''timestamp'', RInteger (now env))]) ''status'' = Some (RString ''ok'')"
    "map_of (tls @ [(''status'', RString ''ok''), (''timestamp'', RInteger (now env))]) ''input_tls'' =
       Some (RBoolean (d_enable_input_ssl d \<and> device_manager_ssl_certs_configured st))"
    "map_of (tls @ [(''status'', RString ''ok''), (''timestamp'', RInteger (now env))]) ''tunnel_tls'' =
       Some (RBoolean (d_enable_tunnel_ssl d \<and> device_manager_ssl_certs_configured st))"
    by (auto simp: map_add_def)
  moreover have "lasting_rows (db st5) = lasting_rows db1"
    using heartbeat_parts_lasting(3) [of env token st4] rows by (simp add: t)
  then have "\<exists>s' \<in> set (device_sessions (db st5)). active_session token s' \<and>
      s_expires_at s' = now env + int (unat (session_timeout (g_config st)))"
    using touched(1) lasting_session [of "db st5" db1] by (auto simp: active_session_def) metis
  ultimately show ?thesis using r by blast
qed

section \<open>The client after an accepted heartbeat\<close>

lemma heartbeat_answer_tls:
  assumes "map_of r ''input_tls'' = Some (RBoolean i)" and "map_of r ''tunnel_tls'' = Some (RBoolean u)"
  shows "rs_input_tls (g_device_state (heartbeat_answer_ok (doc_json loads) (response_doc r) ob st)) = i"
    and "rs_tunnel_tls (g_device_state (heartbeat_answer_ok (doc_json loads) (response_doc r) ob st)) = u"
  using assms
  by (simp_all add: heartbeat_answer_ok_def response_members device_apply_tls_settings_update_def client_traffic_reset_since_last_def Let_def)

lemma heartbeat_answer_received:
  "hm_last_received (g_heartbeat_manager (heartbeat_answer_ok J response ob st)) = ex_time (ho_exchange ob)"
proof -
  have "g_heartbeat_manager (apply_tunnel_settings s) = g_heartbeat_manager s" for s
    by (simp add: apply_tunnel_settings_def apply_tunnel_tls_client_settings_def)
  then show ?thesis
    by (auto simp: heartbeat_answer_ok_def device_apply_tls_settings_update_def client_traffic_reset_since_last_def Let_def split: option.splits)
qed

text \<open>
  C9. A heartbeat end to end. The client presents the token of an active session of one of the server's devices, the limiter admits it, the database
  answers, and the answer arrives whole. Then the server renews the session for \<open>session_timeout\<close> seconds; the client counts the heartbeat
  as received, starts counting its traffic from zero, and has exactly the TLS settings of the device's row, as far as the server has certificates.
\<close>

theorem heartbeat_end_to_end:
  assumes library: "loads (dumps (heartbeat_request t mid st)) = Some (heartbeat_request t mid st)"
      "loads (dumps (response_doc r)) = Some (response_doc r)"
    and server: "process_json_message (doc_json loads) env (dumps (heartbeat_request t mid st)) ip srv = Some (0, [r], srv')"
    and limiter: "validate_session_token_security (now env) (realloc_ok env)
        (Some (hc_session_token (hm_config (g_heartbeat_manager st)))) ip (sec srv) = Some (0, sec1)"
    and tables: "\<And>n. db_ok env n" "distinct (map s_token (device_sessions (db srv)))" "distinct (map d_id (devices (db srv)))"
      "distinct (map d_device_id (devices (db srv)))"
    and session: "s \<in> set (device_sessions (db srv))" "active_session (hc_session_token (hm_config (g_heartbeat_manager st))) s"
      "d \<in> set (devices (db srv))" "d_id d = s_device s" "length (d_device_id d) \<le> 64"
    and arrives: "heartbeat_connected (ho_exchange ob) st" "exchange_ok dumps r (ho_exchange ob)"
  shows "\<exists>st'. send_heartbeat (doc_json loads) ob st = (HEARTBEAT_SEND_OK, st') \<and>
     rs_input_tls (g_device_state st') = (d_enable_input_ssl d \<and> device_manager_ssl_certs_configured srv) \<and>
     rs_tunnel_tls (g_device_state st') = (d_enable_tunnel_ssl d \<and> device_manager_ssl_certs_configured srv) \<and>
     counters st' = (0, 0) \<and> hm_last_received (g_heartbeat_manager st') = ex_time (ho_exchange ob) \<and>
     (\<exists>s' \<in> set (device_sessions (db srv')). active_session (hc_session_token (hm_config (g_heartbeat_manager st))) s' \<and>
        s_expires_at s' = now env + int (unat (session_timeout (g_config srv))))"
proof -
  note p = server_dispatches_heartbeat [where loads = loads and dumps = dumps and t = t and mid = mid and st = st, OF library(1) server]
  from heartbeat_accepted [OF heartbeat_members(2) [of loads t mid st] limiter tables session] p
  have a: "map_of r ''status'' = Some (RString ''ok'')"
    "map_of r ''input_tls'' = Some (RBoolean (d_enable_input_ssl d \<and> device_manager_ssl_certs_configured srv))"
    "map_of r ''tunnel_tls'' = Some (RBoolean (d_enable_tunnel_ssl d \<and> device_manager_ssl_certs_configured srv))"
    and s: "\<exists>s' \<in> set (device_sessions (db srv')). active_session (hc_session_token (hm_config (g_heartbeat_manager st))) s' \<and>
        s_expires_at s' = now env + int (unat (session_timeout (g_config srv)))"
    by auto
  show ?thesis
    using s by (simp add: send_heartbeat_ok [where dumps = dumps and r = r and ob = ob and loads = loads, OF arrives library(2) a(1)] heartbeat_answer_tls [OF a(2,3)] heartbeat_answer_received)
qed

section \<open>Sessions that end\<close>

lemma terminate_device_rows_sessions:
  assumes "terminate_device_rows ok t dev d = (0, d')"
  shows "\<exists>d2. exec_stmt ok (sql_terminate_device_sessions t dev) d = (Some (), d2) \<and> device_sessions d' = device_sessions d2"
proof -
  have free: "device_sessions (snd (exec_stmt ok (sql_free_device_ports dev) e)) = device_sessions e" for e
    using frees_onlyD(2) [OF free_pairs_frees_only] by (simp add: exec_stmt_def sql_free_device_ports_def Let_def case_prod_beta split: option.split)
  have off: "device_sessions (snd (exec_stmt ok (sql_deactivate_device dev) e)) = device_sessions e" for e
    by (simp add: exec_stmt_def sql_deactivate_device_def Let_def)
  obtain d2 where two: "exec_stmt ok (sql_terminate_device_sessions t dev) d = (Some (), d2)"
    using assms by (auto simp: terminate_device_rows_def split: option.splits prod.splits)
  obtain x d3 where three: "exec_stmt ok (sql_free_device_ports dev) d2 = (x, d3)" by fastforce
  have "d' = snd (exec_stmt ok (sql_deactivate_device dev) d3)"
    using assms two three by (auto simp: terminate_device_rows_def Let_def split: option.splits prod.splits)
  with two free [of d2] off [of d3] three show ?thesis by simp
qed

text \<open>What a successful disconnect of a device does to the sessions.\<close>

lemma terminate_device_sessions:
  assumes "terminate_device_by_device_id env (Some dev) srv = (0, srv1)"
    and "distinct (map d_device_id (devices (db srv)))" and "d \<in> set (devices (db srv))" and "d_device_id d = dev"
  shows "device_sessions (db srv1) = sql_update (\<lambda>s. s_device s = d_id d \<and> s_status s = ''active'')
      (\<lambda>s. s\<lparr>s_status := ''terminated'', s_expires_at := now env\<rparr>) (device_sessions (db srv))"
proof -
  obtain sessions db1 where
    one: "exec_stmt (db_ok env) (\<lambda>db. Some (filter (\<lambda>s. s_status s = ''active'') (sessions_of_device dev db), db)) (db srv) = (Some sessions, db1)"
    using assms(1) by (auto simp: terminate_device_by_device_id_def split: option.splits prod.splits)
  have rows: "terminate_device_rows (db_ok env) (now env) dev db1 = (0, db srv1)"
    using assms(1) one
    by (cases "terminate_device_rows (db_ok env) (now env) dev db1")
      (auto simp: terminate_device_by_device_id_def fold_stop_frame Let_def split: if_splits)
  have dev1: "devices db1 = devices (db srv)" "device_sessions db1 = device_sessions (db srv)"
    using one by (auto simp: exec_stmt_def Let_def split: if_splits)
  have find: "find (\<lambda>d. d_device_id d = dev) (devices db1) = Some d" unfolding dev1(1) by (rule find_unique [OF assms(2-4)])
  obtain db2 where two: "exec_stmt (db_ok env) (sql_terminate_device_sessions (now env) dev) db1 = (Some (), db2)"
    and rest: "device_sessions (db srv1) = device_sessions db2"
    using terminate_device_rows_sessions [OF rows] by blast
  have "device_sessions db2 = sql_update (\<lambda>s. s_device s = d_id d \<and> s_status s = ''active'')
      (\<lambda>s. s\<lparr>s_status := ''terminated'', s_expires_at := now env\<rparr>) (device_sessions db1)"
    using two find by (auto simp: exec_stmt_def sql_terminate_device_sessions_def Let_def split: if_splits)
  with rest dev1(2) show ?thesis by simp
qed

lemma heartbeat_refused:
  assumes "string_member J root ''session_token'' = Some token"
    and "validate_session_token_security (now env) (realloc_ok env) (Some token) ip (sec st) = Some (0, sec1)"
    and "fst (update_device_heartbeat (db_ok env) (now env) (session_timeout (g_config st)) token (db st)) \<noteq> 0"
  shows "process_heartbeat_request J env root ip st =
     Some (terminated_answer, st\<lparr>sec := sec1,
       db := snd (update_device_heartbeat (db_ok env) (now env) (session_timeout (g_config st)) token (db st))\<rparr>)"
  using assms by (simp add: process_heartbeat_request_def terminated_answer_def Let_def case_prod_beta)

lemma heartbeat_without_session:
  "filter (active_session token) (device_sessions d) = [] \<Longrightarrow> fst (update_device_heartbeat ok t to token d) \<noteq> 0"
  by (auto simp: update_device_heartbeat_def exec_stmt_def sql_touch_session_def Let_def)

text \<open>
  C10. A disconnect reaches the device: when the server has disconnected a device, the next heartbeat of its client that the limiter admits is answered by
  the order to leave, whatever happened to the other tables, and the client then has its session revoked and all its connections told to stop, and
  waits in a registration thread for the permission to come back, if that thread could be created.
\<close>

theorem disconnect_reaches_client:
  assumes disconnect: "terminate_device_by_device_id env1 (Some (d_device_id d)) srv = (0, srv1)"
    and tables: "distinct (map d_device_id (devices (db srv)))" "d \<in> set (devices (db srv))"
    and owner: "\<And>s. s \<in> set (device_sessions (db srv)) \<Longrightarrow>
        s_token s = hc_session_token (hm_config (g_heartbeat_manager st)) \<Longrightarrow> s_device s = d_id d"
    and library: "loads (dumps (heartbeat_request t mid st)) = Some (heartbeat_request t mid st)"
      "loads (dumps (response_doc r)) = Some (response_doc r)"
    and server: "process_json_message (doc_json loads) env2 (dumps (heartbeat_request t mid st)) ip srv1 = Some (0, [r], srv2)"
    and limiter: "validate_session_token_security (now env2) (realloc_ok env2)
        (Some (hc_session_token (hm_config (g_heartbeat_manager st)))) ip (sec srv1) = Some (0, sec1)"
    and arrives: "heartbeat_connected (ho_exchange ob) st" "exchange_ok dumps r (ho_exchange ob)"
    and idle: "\<not> g_registration_wait_running st"
  shows "\<exists>st'. send_heartbeat (doc_json loads) ob st = (HEARTBEAT_SEND_SESSION_TERMINATED, st') \<and>
     g_device_session_revoked st' \<and> all_dropped st' \<and> g_registration_wait_running st' = ho_thread_ok ob"
proof -
  let ?tok = "hc_session_token (hm_config (g_heartbeat_manager st))"
  have "\<not> active_session ?tok s" if "s \<in> set (device_sessions (db srv1))" for s
    using that owner terminate_device_sessions [OF disconnect tables refl]
    by (auto simp: set_sql_update active_session_def)
  then have "filter (active_session ?tok) (device_sessions (db srv1)) = []" by (simp add: filter_empty_conv)
  note no = heartbeat_without_session [OF this]
  have "r = terminated_answer"
    using heartbeat_refused [OF heartbeat_members(2) [of loads t mid st] limiter no]
      server_dispatches_heartbeat [where loads = loads and dumps = dumps and t = t and mid = mid and st = st, OF library(1) server] by simp
  with send_heartbeat_terminated [OF arrives(1)] arrives(2) library(2) idle show ?thesis by blast
qed

text \<open>
  C34. A failing statement costs the tunnel: when the statement that records a heartbeat fails, the server answers that the session has been terminated, although
  it is as active in its table as before, and the client revokes its session and drops all its connections.
\<close>

theorem failed_statement_drops_tunnel:
  assumes fails: "\<not> db_ok env (statements (db srv))"
    and library: "loads (dumps (heartbeat_request t mid st)) = Some (heartbeat_request t mid st)"
      "loads (dumps (response_doc r)) = Some (response_doc r)"
    and server: "process_json_message (doc_json loads) env (dumps (heartbeat_request t mid st)) ip srv = Some (0, [r], srv')"
    and limiter: "validate_session_token_security (now env) (realloc_ok env)
        (Some (hc_session_token (hm_config (g_heartbeat_manager st)))) ip (sec srv) = Some (0, sec1)"
    and arrives: "heartbeat_connected (ho_exchange ob) st" "exchange_ok dumps r (ho_exchange ob)"
    and idle: "\<not> g_registration_wait_running st"
  shows "device_sessions (db srv') = device_sessions (db srv) \<and>
     (\<exists>st'. send_heartbeat (doc_json loads) ob st = (HEARTBEAT_SEND_SESSION_TERMINATED, st') \<and>
        g_device_session_revoked st' \<and> all_dropped st')"
proof -
  let ?tok = "hc_session_token (hm_config (g_heartbeat_manager st))"
  have no: "fst (update_device_heartbeat (db_ok env) (now env) to ?tok (db srv)) \<noteq> 0"
    "device_sessions (snd (update_device_heartbeat (db_ok env) (now env) to ?tok (db srv))) = device_sessions (db srv)" for to
    using fails by (simp_all add: update_device_heartbeat_def exec_stmt_def Let_def)
  have h: "r = terminated_answer" "device_sessions (db srv') = device_sessions (db srv)"
    using heartbeat_refused [OF heartbeat_members(2) [of loads t mid st] limiter no(1)] no(2)
      server_dispatches_heartbeat [where loads = loads and dumps = dumps and t = t and mid = mid and st = st, OF library(1) server]
    by auto
  with send_heartbeat_terminated [OF arrives(1)] arrives(2) library(2) idle show ?thesis by blast
qed

section \<open>Examples\<close>

text \<open>A library that knows the two documents of one exchange.\<close>

lemma heartbeat_library_irrelevant:
  "process_heartbeat_request (doc_json loads) env root ip srv = process_heartbeat_request (doc_json loads') env root ip srv"
proof -
  have sel: "json_object_get (doc_json loads) = json_object_get (doc_json loads')" "json_view (doc_json loads) = json_view (doc_json loads')"
    by (simp_all add: doc_json_def)
  have m: "string_member (doc_json loads) x k = string_member (doc_json loads') x k"
    "integer_member (doc_json loads) x k = integer_member (doc_json loads') x k"
    "object_member (doc_json loads) x k = object_member (doc_json loads') x k" for x k
    by (simp_all only: string_member_def integer_member_def object_member_def sel)
  have "heartbeat_statistics (doc_json loads) root = heartbeat_statistics (doc_json loads') root"
    "heartbeat_traffic (doc_json loads) root f = heartbeat_traffic (doc_json loads') root f" for f
    by (simp_all only: heartbeat_statistics_def heartbeat_traffic_def m)
  then show ?thesis by (simp only: process_heartbeat_request_def m)
qed

lemma heartbeat_library:
  assumes "process_heartbeat_request (doc_json loads0) env (heartbeat_request t mid st) ip srv = Some (r, srv')"
    and "map_of r ''status'' \<noteq> Some (RString ''healthy'')"
  obtains loads dumps where "loads (dumps (heartbeat_request t mid st)) = Some (heartbeat_request t mid st)"
    "loads (dumps (response_doc r)) = Some (response_doc r)"
    "process_json_message (doc_json loads) env (dumps (heartbeat_request t mid st)) ip srv = Some (0, [r], srv')"
    "exchange_ok dumps r (example_exchange (dumps (response_doc r)))"
proof -
  let ?req = "heartbeat_request t mid st"
  define loads where "loads = (\<lambda>s. if s = ''{}'' then Some ?req else Some (response_doc r))"
  define dumps where "dumps = (\<lambda>d. if d = ?req then ''{}'' else ''{ }'')"
  have "string_member (doc_json loads) ?req ''status'' = Some ''healthy''"
    by (simp add: string_member_def doc_json_def heartbeat_request_def)
  moreover have "string_member (doc_json loads) (response_doc r) ''status'' \<noteq> Some ''healthy''"
    using assms(2) by (auto simp: response_members split: option.splits jvalue.splits)
  ultimately have "response_doc r \<noteq> ?req" by auto
  then have lib: "loads (dumps ?req) = Some ?req" "loads (dumps (response_doc r)) = Some (response_doc r)"
    "exchange_ok dumps r (example_exchange (dumps (response_doc r)))"
    by (simp_all add: loads_def dumps_def exchange_ok_def example_exchange_def)
  have "validate_json_input (Some (dumps ?req)) 4096 = 0"
    by (simp add: dumps_def validate_json_input_def suspicious_patterns_def upt_conv_Cons)
  with lib(1) assms(1) heartbeat_library_irrelevant [of loads env ?req ip srv loads0]
  have "process_json_message (doc_json loads) env (dumps ?req) ip srv = Some (0, [r], srv')"
    by (simp add: process_json_message_def heartbeat_members)
  from that [OF lib(1,2) this lib(3)] show thesis .
qed

text \<open>The client of device B, whose session \<open>tb\<close> is active in the example tables; its heartbeats go without TLS.\<close>

definition connected_client :: client_state where
  "connected_client =
     initial_client_state\<lparr>g_heartbeat_manager := (g_heartbeat_manager initial_client_state)\<lparr>
       hm_config := zero_heartbeat_config\<lparr>hc_session_token := ''tb''\<rparr>\<rparr>\<rparr>"

lemma connected_client_facts:
  "hc_session_token (hm_config (g_heartbeat_manager connected_client)) = ''tb''"
  "heartbeat_connected (ho_exchange (quiet_obs (example_exchange s))) connected_client"
  "exchange_ok dumps r (ho_exchange (quiet_obs ex)) = exchange_ok dumps r ex"
  "\<not> g_registration_wait_running connected_client" "ho_thread_ok (quiet_obs ex)"
  by (simp_all add: connected_client_def initial_client_state_def zero_heartbeat_config_def heartbeat_connected_def quiet_obs_def example_exchange_def)

lemma heartbeat_state_tables:
  "device_sessions (db heartbeat_state) = [example_session 0 0 ''ta'' ''expired'', example_session 1 1 ''tb'' ''active'']"
  "devices (db heartbeat_state) = [example_device 0 ''A'', example_device 1 ''B'']"
  "distinct (map s_token (device_sessions (db heartbeat_state)))" "distinct (map d_id (devices (db heartbeat_state)))"
  "distinct (map d_device_id (devices (db heartbeat_state)))"
  by (simp_all add: heartbeat_state_def example_db_def example_session_def example_device_def new_session_row_def)

theorem heartbeat_end_to_end_witness:
  "\<exists>loads ob st'. send_heartbeat (doc_json loads) ob connected_client = (HEARTBEAT_SEND_OK, st') \<and> counters st' = (0, 0) \<and>
     \<not> rs_tunnel_tls (g_device_state st')"
proof -
  let ?s = "example_session 1 1 ''tb'' ''active''" and ?d = "example_device 1 ''B''"
  have env: "now example_env = 100" "realloc_ok example_env" "db_ok example_env n" for n by (simp_all add: example_env_def)
  from heartbeat_limits obtain sec1 where lim: "validate_session_token_security (now example_env) (realloc_ok example_env)
      (Some (hc_session_token (hm_config (g_heartbeat_manager connected_client)))) (Some ''192.0.2.1'') (sec heartbeat_state) = Some (0, sec1)"
    by (auto simp: env connected_client_facts)
  have s: "?s \<in> set (device_sessions (db heartbeat_state))"
    "active_session (hc_session_token (hm_config (g_heartbeat_manager connected_client))) ?s"
    "?d \<in> set (devices (db heartbeat_state))" "d_id ?d = s_device ?s" "length (d_device_id ?d) \<le> 64"
    by (simp_all add: heartbeat_state_tables connected_client_facts active_session_def example_session_def example_device_def new_session_row_def)
  from heartbeat_accepted [OF heartbeat_members(2) [of "\<lambda>_. None" 100 "(0, 0)" connected_client] lim env(3) heartbeat_state_tables(3-5) s]
  obtain r srv' where r: "process_heartbeat_request (doc_json (\<lambda>_. None)) example_env (heartbeat_request 100 (0, 0) connected_client)
      (Some ''192.0.2.1'') heartbeat_state = Some (r, srv')" "map_of r ''status'' = Some (RString ''ok'')" by blast
  then obtain loads dumps where lib: "loads (dumps (heartbeat_request 100 (0, 0) connected_client)) = Some (heartbeat_request 100 (0, 0) connected_client)"
    "loads (dumps (response_doc r)) = Some (response_doc r)"
    "process_json_message (doc_json loads) example_env (dumps (heartbeat_request 100 (0, 0) connected_client)) (Some ''192.0.2.1'') heartbeat_state =
       Some (0, [r], srv')"
    "exchange_ok dumps r (example_exchange (dumps (response_doc r)))"
    by (elim heartbeat_library) simp
  have "\<not> device_manager_ssl_certs_configured heartbeat_state"
    by (simp add: heartbeat_state_def device_manager_ssl_certs_configured_def example_running_facts(10) integration_config_def nonempty_path_def)
  with heartbeat_end_to_end [where loads = loads and dumps = dumps and ob = "quiet_obs (example_exchange (dumps (response_doc r)))",
      OF lib(1-3) lim env(3) heartbeat_state_tables(3-5) s] lib(4)
  show ?thesis by (auto simp: connected_client_facts)
qed

lemma terminated_status: "map_of terminated_answer ''status'' \<noteq> Some (RString ''healthy'')"
  by (simp add: terminated_answer_def error_response_def)

lemma heartbeat_state_limits:
  assumes "now env = 100" and "realloc_ok env" and "sec srv = sec heartbeat_state"
  obtains sec1 where "validate_session_token_security (now env) (realloc_ok env)
      (Some (hc_session_token (hm_config (g_heartbeat_manager connected_client)))) (Some ''192.0.2.1'') (sec srv) = Some (0, sec1)"
  using heartbeat_limits assms by (auto simp: connected_client_facts)

theorem disconnect_reaches_client_witness:
  "\<exists>srv1 loads ob st'. terminate_device_by_device_id example_env (Some ''B'') heartbeat_state = (0, srv1) \<and>
     send_heartbeat (doc_json loads) ob connected_client = (HEARTBEAT_SEND_SESSION_TERMINATED, st') \<and> g_device_session_revoked st'"
proof -
  let ?d = "example_device 1 ''B''" and ?req = "heartbeat_request 100 (0, 0) connected_client"
  have env: "now example_env = 100" "realloc_ok example_env" "db_ok example_env n" for n by (simp_all add: example_env_def)
  obtain rc srv1 where dis: "terminate_device_by_device_id example_env (Some ''B'') heartbeat_state = (rc, srv1)" by fastforce
  then have "rc = 0"
    by (auto simp: terminate_device_by_device_id_def terminate_device_rows_def exec_stmt_def sql_terminate_device_sessions_def
        sql_free_device_ports_def sql_deactivate_device_def env Let_def case_prod_beta)
  with dis have dis: "terminate_device_by_device_id example_env (Some (d_device_id ?d)) heartbeat_state = (0, srv1)"
    by (simp add: example_device_def)
  have d: "?d \<in> set (devices (db heartbeat_state))" by (simp add: heartbeat_state_tables)
  have owner: "s \<in> set (device_sessions (db heartbeat_state)) \<Longrightarrow>
      s_token s = hc_session_token (hm_config (g_heartbeat_manager connected_client)) \<Longrightarrow> s_device s = d_id ?d" for s
    by (auto simp: heartbeat_state_tables connected_client_facts example_session_def example_device_def new_session_row_def)
  have "sec srv1 = sec heartbeat_state" using dis by (metis snd_conv terminate_device_frame(1))
  then obtain sec1 where lim: "validate_session_token_security (now example_env) (realloc_ok example_env)
      (Some (hc_session_token (hm_config (g_heartbeat_manager connected_client)))) (Some ''192.0.2.1'') (sec srv1) = Some (0, sec1)"
    by (rule heartbeat_state_limits [OF env(1,2)])
  have "filter (active_session (hc_session_token (hm_config (g_heartbeat_manager connected_client)))) (device_sessions (db srv1)) = []"
    using terminate_device_sessions [OF dis heartbeat_state_tables(5) d refl] owner
    by (auto simp: filter_empty_conv set_sql_update active_session_def)
  from heartbeat_refused [OF heartbeat_members(2) [of "\<lambda>_. None" 100 "(0, 0)" connected_client] lim heartbeat_without_session [OF this]]
  obtain srv2 where "process_heartbeat_request (doc_json (\<lambda>_. None)) example_env ?req (Some ''192.0.2.1'') srv1 = Some (terminated_answer, srv2)"
    by blast
  from heartbeat_library [OF this terminated_status] obtain loads dumps where lib: "loads (dumps ?req) = Some ?req"
    "loads (dumps (response_doc terminated_answer)) = Some (response_doc terminated_answer)"
    "process_json_message (doc_json loads) example_env (dumps ?req) (Some ''192.0.2.1'') srv1 = Some (0, [terminated_answer], srv2)"
    "exchange_ok dumps terminated_answer (example_exchange (dumps (response_doc terminated_answer)))" by blast
  from disconnect_reaches_client [where ob = "quiet_obs (example_exchange (dumps (response_doc terminated_answer)))" and loads = loads
      and dumps = dumps, OF dis heartbeat_state_tables(5) d owner lib(1-3) lim] lib(4) dis
  show ?thesis by (auto simp: connected_client_facts example_device_def)
qed

theorem failed_statement_drops_tunnel_witness:
  "\<exists>loads ob srv' st'. process_heartbeat_request (doc_json (\<lambda>_. None)) (example_env\<lparr>db_ok := \<lambda>_. False\<rparr>)
       (heartbeat_request 100 (0, 0) connected_client) (Some ''192.0.2.1'') heartbeat_state = Some (terminated_answer, srv') \<and>
     device_sessions (db srv') = device_sessions (db heartbeat_state) \<and>
     send_heartbeat (doc_json loads) ob connected_client = (HEARTBEAT_SEND_SESSION_TERMINATED, st') \<and> g_device_session_revoked st'"
proof -
  let ?env = "example_env\<lparr>db_ok := \<lambda>_. False\<rparr>" and ?req = "heartbeat_request 100 (0, 0) connected_client"
  have env: "now ?env = 100" "realloc_ok ?env" "\<not> db_ok ?env n" for n by (simp_all add: example_env_def)
  obtain sec1 where lim: "validate_session_token_security (now ?env) (realloc_ok ?env)
      (Some (hc_session_token (hm_config (g_heartbeat_manager connected_client)))) (Some ''192.0.2.1'') (sec heartbeat_state) = Some (0, sec1)"
    by (rule heartbeat_state_limits [OF env(1,2) refl])
  have "fst (update_device_heartbeat (db_ok ?env) (now ?env) to tok (db heartbeat_state)) \<noteq> 0" for to tok
    by (simp add: update_device_heartbeat_def exec_stmt_def Let_def)
  from heartbeat_refused [OF heartbeat_members(2) [of "\<lambda>_. None" 100 "(0, 0)" connected_client] lim this]
  obtain srv2 where p: "process_heartbeat_request (doc_json (\<lambda>_. None)) ?env ?req (Some ''192.0.2.1'') heartbeat_state = Some (terminated_answer, srv2)"
    by blast
  from heartbeat_library [OF p terminated_status] obtain loads dumps where lib: "loads (dumps ?req) = Some ?req"
    "loads (dumps (response_doc terminated_answer)) = Some (response_doc terminated_answer)"
    "process_json_message (doc_json loads) ?env (dumps ?req) (Some ''192.0.2.1'') heartbeat_state = Some (0, [terminated_answer], srv2)"
    "exchange_ok dumps terminated_answer (example_exchange (dumps (response_doc terminated_answer)))" by blast
  from failed_statement_drops_tunnel [where ob = "quiet_obs (example_exchange (dumps (response_doc terminated_answer)))" and loads = loads
      and dumps = dumps, OF env(3) lib(1-3) lim] lib(4) p
  show ?thesis by (auto simp: connected_client_facts)
qed

end
