(* ===== verification/Server_Statistics.thy ===== *)
theory Server_Statistics
  imports Dynamic_Servers
begin

text \<open>
  The cumulative traffic statistics of the configured (legacy) servers: \<open>src/server/db/db_func.c\<close> and the saver thread
  of \<open>src/server/proxy/server/proxy_server.c\<close>. The tables \<open>servers\<close> and \<open>statistic\<close> (\<open>src/init_db.sql\<close>) are lists of rows; each statement may
  fail, as \<open>ok\<close> says for the n-th one. A byte counter is printed with \<open>%lu\<close> into a \<open>BIGINT\<close> column: from 2^63 on the statement fails.
\<close>

section \<open>Tables\<close>

record server_row =
  sr_id :: int
  sr_user_id :: "int option"
  sr_input_port :: "int option"
  sr_output_port :: "int option"
  sr_enable :: "bool option"
  sr_enable_ssl :: "bool option"
  sr_enable_input_ssl :: "bool option"
  sr_total_received :: int
  sr_total_sent :: int

record statistic_row =
  st_server_id :: int
  st_received :: int
  st_sent :: int
  st_connections :: int
  st_timestamp :: time_t

record stats_db =
  server_rows :: "server_row list"
  statistic :: "statistic_row list"
  sd_statements :: nat

definition sql_exec :: "(nat \<Rightarrow> bool) \<Rightarrow> (stats_db \<Rightarrow> ('a \<times> stats_db) option) \<Rightarrow> stats_db \<Rightarrow> 'a option \<times> stats_db" where
  "sql_exec ok stmt db =
     (let db' = db\<lparr>sd_statements := Suc (sd_statements db)\<rparr>
      in if ok (sd_statements db)
         then (case stmt db' of None \<Rightarrow> (None, db') | Some (a, db'') \<Rightarrow> (Some a, db''))
         else (None, db'))"

text \<open>\<open>COALESCE (MAX (..), 0)\<close>.\<close>

definition sql_max :: "int list \<Rightarrow> int" where
  "sql_max xs = (case xs of [] \<Rightarrow> 0 | y # ys \<Rightarrow> fold max ys y)"

definition peak_received :: "int \<Rightarrow> stats_db \<Rightarrow> int" where
  "peak_received server_id db = sql_max (map st_received (filter (\<lambda>r. st_server_id r = server_id) (statistic db)))"

definition peak_sent :: "int \<Rightarrow> stats_db \<Rightarrow> int" where
  "peak_sent server_id db = sql_max (map st_sent (filter (\<lambda>r. st_server_id r = server_id) (statistic db)))"

section \<open>Reading and writing the totals\<close>

definition max_u64 :: "u64 \<Rightarrow> u64 \<Rightarrow> u64" where
  "max_u64 a b = (if a > b then a else b)"

definition fetch_peak_statistic_totals ::
  "(nat \<Rightarrow> bool) \<Rightarrow> int \<Rightarrow> stats_db \<Rightarrow> (u64 \<times> u64) option \<times> stats_db" where
  "fetch_peak_statistic_totals ok server_id db =
     sql_exec ok (\<lambda>db. Some ((word_of_int (peak_received server_id db), word_of_int (peak_sent server_id db)), db)) db"

definition fetch_persisted_server_totals ::
  "(nat \<Rightarrow> bool) \<Rightarrow> int \<Rightarrow> stats_db \<Rightarrow> (u64 \<times> u64) option \<times> stats_db" where
  "fetch_persisted_server_totals ok server_id db =
     (case sql_exec ok (\<lambda>db. Some (find (\<lambda>r. sr_id r = server_id) (server_rows db), db)) db of
        (Some (Some r), db') \<Rightarrow> (Some (word_of_int (sr_total_received r), word_of_int (sr_total_sent r)), db')
      | (_, db') \<Rightarrow> (None, db'))"

definition sql_persist_totals :: "int \<Rightarrow> u64 \<Rightarrow> u64 \<Rightarrow> stats_db \<Rightarrow> (unit \<times> stats_db) option" where
  "sql_persist_totals server_id received sent db =
     (if bigint (uint received) \<and> bigint (uint sent) \<or> \<not> list_ex (\<lambda>r. sr_id r = server_id) (server_rows db) then
        Some ((), db\<lparr>server_rows := sql_update (\<lambda>r. sr_id r = server_id)
               (\<lambda>r. r\<lparr>sr_total_received := max (sr_total_received r) (uint received),
                      sr_total_sent := max (sr_total_sent r) (uint sent)\<rparr>) (server_rows db)\<rparr>)
      else None)"

definition persist_server_totals :: "(nat \<Rightarrow> bool) \<Rightarrow> proxy_server \<Rightarrow> stats_db \<Rightarrow> int \<times> stats_db" where
  "persist_server_totals ok srv db =
     (case sql_exec ok (sql_persist_totals (uint (ps_id srv)) (ss_bytes_received (ps_statistics srv))
                          (ss_bytes_sent (ps_statistics srv))) db of
        (None, db') \<Rightarrow> (-1, db') | (Some _, db') \<Rightarrow> (0, db'))"

definition sync_all_server_totals_from_statistics :: "(nat \<Rightarrow> bool) \<Rightarrow> stats_db \<Rightarrow> stats_db" where
  "sync_all_server_totals_from_statistics ok db =
     snd (sql_exec ok
       (\<lambda>db. Some ((), db\<lparr>server_rows :=
               map (\<lambda>r. r\<lparr>sr_total_received := max (sr_total_received r) (peak_received (sr_id r) db),
                          sr_total_sent := max (sr_total_sent r) (peak_sent (sr_id r) db)\<rparr>) (server_rows db)\<rparr>)) db)"

definition load_server_statistics ::
  "(nat \<Rightarrow> bool) \<Rightarrow> time_t \<Rightarrow> proxy_server \<Rightarrow> stats_db \<Rightarrow> proxy_server \<times> stats_db" where
  "load_server_statistics ok now srv db =
     (let (persisted, db1) = fetch_persisted_server_totals ok (uint (ps_id srv)) db;
          (pr, ps) = (case persisted of None \<Rightarrow> (0, 0) | Some x \<Rightarrow> x);
          (peak, db2) = fetch_peak_statistic_totals ok (uint (ps_id srv)) db1;
          (kr, ks) = (case peak of None \<Rightarrow> (0, 0) | Some x \<Rightarrow> x);
          srv' = srv\<lparr>ps_statistics := \<lparr>ss_bytes_received = max_u64 pr kr, ss_bytes_sent = max_u64 ps ks,
                                       ss_connections_count = 0, ss_last_update = now\<rparr>\<rparr>
      in if max_u64 pr kr > 0 \<or> max_u64 ps ks > 0 then (srv', snd (persist_server_totals ok srv' db2))
         else (srv', db2))"

section \<open>Configured servers\<close>

text \<open>
  \<open>PQgetvalue\<close> of NULL is the empty text: \<open>strtol\<close> reads it as 0, and it is neither \<open>f\<close> nor \<open>t\<close>. Ports and ids are cut to
  16 bits.
\<close>

definition server_of_row :: "server_row \<Rightarrow> proxy_server" where
  "server_of_row r =
     zero_server\<lparr>ps_id := word_of_int (sr_id r), ps_enable := (sr_enable r \<noteq> Some False),
       ps_input_port := word_of_int (column_int (sr_input_port r)),
       ps_output_port := word_of_int (column_int (sr_output_port r)),
       ps_enable_output_ssl := (sr_enable_ssl r = Some True), ps_enable_input_ssl := (sr_enable_input_ssl r = Some True)\<rparr>"

fun load_rows :: "(nat \<Rightarrow> bool) \<Rightarrow> time_t \<Rightarrow> server_row list \<Rightarrow> stats_db \<Rightarrow> proxy_server list \<times> stats_db" where
  "load_rows ok now [] db = ([], db)"
| "load_rows ok now (r # rs) db =
     (let (s, db1) = load_server_statistics ok now (server_of_row r) db; (ss, db2) = load_rows ok now rs db1 in (s # ss, db2))"

text \<open>The number of rows is kept in a \<open>uint16_t\<close>; the result is the array, or \<open>None\<close> for -1.\<close>

definition get_user_server_ports ::
  "(nat \<Rightarrow> bool) \<Rightarrow> bool \<Rightarrow> time_t \<Rightarrow> int \<Rightarrow> stats_db \<Rightarrow> (proxy_server list \<times> u16) option \<times> stats_db" where
  "get_user_server_ports ok malloc_ok now user_id db =
     (case sql_exec ok (\<lambda>db. Some (sort_key sr_id (filter (\<lambda>r. sr_user_id r = Some user_id) (server_rows db)), db)) db of
        (None, db1) \<Rightarrow> (None, db1)
      | (Some rows, db1) \<Rightarrow>
          let qntuples = (of_nat (length rows) :: u16)
          in if qntuples = 0 then (Some ([], 0), db1)
             else if \<not> malloc_ok then (None, db1)
             else (case load_rows ok now (take (unat qntuples) rows) db1 of (ss, db2) \<Rightarrow> (Some (ss, qntuples), db2)))"

section \<open>Snapshots\<close>

definition merge_totals :: "(u64 \<times> u64) \<Rightarrow> proxy_server \<Rightarrow> proxy_server" where
  "merge_totals totals srv =
     (case totals of (received, sent) \<Rightarrow>
        srv\<lparr>ps_statistics := (ps_statistics srv)\<lparr>
              ss_bytes_received := max_u64 (ss_bytes_received (ps_statistics srv)) received,
              ss_bytes_sent := max_u64 (ss_bytes_sent (ps_statistics srv)) sent\<rparr>\<rparr>)"

definition sql_insert_statistic :: "time_t \<Rightarrow> proxy_server \<Rightarrow> stats_db \<Rightarrow> (unit \<times> stats_db) option" where
  "sql_insert_statistic now srv db =
     (let s = ps_statistics srv; conns = (sint (ss_connections_count s))
      in if bigint (uint (ss_bytes_received s)) \<and> bigint (uint (ss_bytes_sent s)) then
           Some ((), db\<lparr>statistic := statistic db @
             [\<lparr>st_server_id = uint (ps_id srv), st_received = uint (ss_bytes_received s), st_sent = uint (ss_bytes_sent s),
               st_connections = conns, st_timestamp = now\<rparr>]\<rparr>)
         else None)"

definition save_server_statistics ::
  "(nat \<Rightarrow> bool) \<Rightarrow> time_t \<Rightarrow> proxy_server \<Rightarrow> stats_db \<Rightarrow> int \<times> proxy_server \<times> stats_db" where
  "save_server_statistics ok now srv db =
     (let s = ps_statistics srv
      in if ps_is_dynamic_port srv then (0, srv, db)
         else if ss_bytes_received s = 0 \<and> ss_bytes_sent s = 0 \<and> ss_connections_count s = 0 then (0, srv, db)
         else
           let (persisted, db1) = fetch_persisted_server_totals ok (uint (ps_id srv)) db;
               (srv1, db2) = (case persisted of
                   Some x \<Rightarrow> (merge_totals x srv, db1)
                 | None \<Rightarrow> (case fetch_peak_statistic_totals ok (uint (ps_id srv)) db1 of
                              (Some x, db') \<Rightarrow> (merge_totals x srv, db') | (None, db') \<Rightarrow> (srv, db')));
               (_, db3) = persist_server_totals ok srv1 db2
           in case sql_exec ok (sql_insert_statistic now srv1) db3 of
                (None, db4) \<Rightarrow> (-1, srv1, db4) | (Some _, db4) \<Rightarrow> (0, srv1, db4))"

definition find_server_index_by_id :: "u16 \<Rightarrow> proxy_server list \<Rightarrow> int" where
  "find_server_index_by_id server_id array =
     (case first_index (\<lambda>s. ps_id s = server_id) array of None \<Rightarrow> -1 | Some i \<Rightarrow> int i)"

text \<open>The running copy's figures are copied over those of the first array entry with its id.\<close>

definition copy_statistics :: "proxy_server \<Rightarrow> proxy_server list \<Rightarrow> proxy_server list" where
  "copy_statistics srv array =
     (let i = find_server_index_by_id (ps_id srv) array
      in if i \<ge> 0 then array[nat i := (array ! nat i)\<lparr>ps_statistics := ps_statistics srv\<rparr>] else array)"

definition update_server_statistics ::
  "time_t \<Rightarrow> u64 \<Rightarrow> u64 \<Rightarrow> proxy_server list \<times> proxy_server \<Rightarrow> proxy_server list \<times> proxy_server" where
  "update_server_statistics now received sent x =
     (case x of (array, srv) \<Rightarrow>
        if ps_is_dynamic_port srv then (array, srv)
        else
          let s = ps_statistics srv;
              srv' = srv\<lparr>ps_statistics := s\<lparr>ss_bytes_received := ss_bytes_received s + received,
                                             ss_bytes_sent := ss_bytes_sent s + sent, ss_last_update := now\<rparr>\<rparr>
          in (copy_statistics srv' array, srv'))"

definition cleanup_old_statistics :: "(nat \<Rightarrow> bool) \<Rightarrow> time_t \<Rightarrow> time_t \<Rightarrow> stats_db \<Rightarrow> int \<times> stats_db" where
  "cleanup_old_statistics ok now retention_period db =
     (let cutoff = now - retention_period; db1 = sync_all_server_totals_from_statistics ok db
      in case sql_exec ok (\<lambda>db. Some ((), db\<lparr>statistic := filter (\<lambda>r. \<not> st_timestamp r < cutoff) (statistic db)\<rparr>)) db1 of
           (None, db2) \<Rightarrow> (-1, db2) | (Some _, db2) \<Rightarrow> (0, db2))"

text \<open>
  One round of \<open>statistics_saver_thread\<close>, a minute of the clock: every enabled server is saved, and every sixtieth
  round the old snapshots are removed.
\<close>

fun save_all :: "(nat \<Rightarrow> bool) \<Rightarrow> time_t \<Rightarrow> proxy_server list \<Rightarrow> stats_db \<Rightarrow> proxy_server list \<times> stats_db" where
  "save_all ok now [] db = ([], db)"
| "save_all ok now (s # ss) db =
     (let (s', db1) = (if ps_enable s then snd (save_server_statistics ok now s db) else (s, db));
          (ss', db2) = save_all ok now ss db1
      in (s' # ss', db2))"

definition statistics_saver_round ::
  "(nat \<Rightarrow> bool) \<Rightarrow> time_t \<Rightarrow> time_t \<Rightarrow> int \<times> proxy_server list \<times> stats_db \<Rightarrow> int \<times> proxy_server list \<times> stats_db" where
  "statistics_saver_round ok now retention x =
     (case x of (cleanup_counter, array, db) \<Rightarrow>
        (case save_all ok now array db of
           (array', db1) \<Rightarrow>
             if cleanup_counter + 1 \<ge> 60 then (0, array', snd (cleanup_old_statistics ok now retention db1))
             else (cleanup_counter + 1, array', db1)))"

section \<open>The cumulative figure\<close>

text \<open>What a start of the server would load: the larger of the stored total and the highest snapshot.\<close>

definition total_of :: "(server_row \<Rightarrow> int) \<Rightarrow> int \<Rightarrow> stats_db \<Rightarrow> int" where
  "total_of f server_id db = (case find (\<lambda>r. sr_id r = server_id) (server_rows db) of None \<Rightarrow> 0 | Some r \<Rightarrow> f r)"

definition cumulative_received :: "int \<Rightarrow> stats_db \<Rightarrow> int" where
  "cumulative_received server_id db = max (total_of sr_total_received server_id db) (peak_received server_id db)"

definition cumulative_sent :: "int \<Rightarrow> stats_db \<Rightarrow> int" where
  "cumulative_sent server_id db = max (total_of sr_total_sent server_id db) (peak_sent server_id db)"

definition stats_inv :: "stats_db \<Rightarrow> bool" where
  "stats_inv db \<longleftrightarrow>
     distinct (map sr_id (server_rows db)) \<and>
     list_all (\<lambda>r. 0 \<le> sr_total_received r \<and> sr_total_received r < 2 ^ 63 \<and> 0 \<le> sr_total_sent r \<and> sr_total_sent r < 2 ^ 63) (server_rows db) \<and>
     list_all (\<lambda>r. 0 \<le> st_received r \<and> st_received r < 2 ^ 63 \<and> 0 \<le> st_sent r \<and> st_sent r < 2 ^ 63) (statistic db)"

text \<open>The relation every operation is to satisfy: same servers, invariant kept, no figure smaller.\<close>

definition grows :: "stats_db \<Rightarrow> stats_db \<Rightarrow> bool" where
  "grows db db' \<longleftrightarrow>
     map sr_id (server_rows db') = map sr_id (server_rows db) \<and> stats_inv db' \<and>
     (\<forall>sid \<in> sr_id ` set (server_rows db).
        cumulative_received sid db \<le> cumulative_received sid db' \<and> cumulative_sent sid db \<le> cumulative_sent sid db')"

lemma fold_max_eq: "fold max ys (y :: int) = Max (set (y # ys))"
  by (simp only: Max.set_eq_fold)

lemma sql_max_ge: "x \<in> set xs \<Longrightarrow> x \<le> sql_max xs"
proof (cases xs)
  case (Cons y ys)
  assume "x \<in> set xs"
  with Cons have "x \<le> Max (set (y # ys))" by (intro Max_ge) simp_all
  with Cons show ?thesis by (simp add: sql_max_def fold_max_eq)
qed simp

lemma sql_max_in: "xs \<noteq> [] \<Longrightarrow> sql_max xs \<in> set xs"
proof (cases xs)
  case (Cons y ys)
  have "Max (set (y # ys)) \<in> set (y # ys)" by (rule Max_in) simp_all
  with Cons show ?thesis by (simp add: sql_max_def fold_max_eq)
qed simp

lemma sql_max_bounds: "list_all (\<lambda>x. 0 \<le> x \<and> x < b) xs \<Longrightarrow> 0 < b \<Longrightarrow> 0 \<le> sql_max xs \<and> sql_max xs < b"
  using sql_max_in [of xs] by (cases xs) (auto simp: sql_max_def list_all_iff)

lemma sql_max_append: "list_all (\<lambda>x. 0 \<le> x) xs \<Longrightarrow> 0 \<le> y \<Longrightarrow> sql_max (xs @ [y]) = max (sql_max xs) y"
  by (cases xs) (auto simp: sql_max_def max.commute)

lemma grows_refl [simp]: "grows db db \<longleftrightarrow> stats_inv db"
  by (simp add: grows_def)

lemma statements_irrelevant [simp]:
  "stats_inv (db\<lparr>sd_statements := n\<rparr>) = stats_inv db" "grows db (db'\<lparr>sd_statements := n\<rparr>) = grows db db'"
  "grows (db\<lparr>sd_statements := n\<rparr>) db' = grows db db'" "peak_received sid (db\<lparr>sd_statements := n\<rparr>) = peak_received sid db"
  "peak_sent sid (db\<lparr>sd_statements := n\<rparr>) = peak_sent sid db" "total_of f sid (db\<lparr>sd_statements := n\<rparr>) = total_of f sid db"
  by (simp_all add: stats_inv_def grows_def cumulative_received_def cumulative_sent_def peak_received_def peak_sent_def total_of_def)

lemma grows_trans:
  assumes "grows a b" and "grows b c"
  shows "grows a c"
proof -
  have "sr_id ` set (server_rows b) = sr_id ` set (server_rows a)"
    using assms(1) unfolding grows_def by (metis list.set_map)
  with assms show ?thesis unfolding grows_def by (metis order_trans)
qed

lemma sql_exec_grows:
  assumes "stats_inv db" and "\<And>d a d'. stats_inv d \<Longrightarrow> stmt d = Some (a, d') \<Longrightarrow> grows d d'"
  shows "grows db (snd (sql_exec ok stmt db))"
proof -
  have "stats_inv (db\<lparr>sd_statements := Suc (sd_statements db)\<rparr>)" using assms(1) by simp
  note step = assms(2) [OF this]
  show ?thesis
    using assms(1) step by (auto simp: sql_exec_def Let_def split: option.split)
qed

lemma find_update_key:
  "(\<And>r. sr_id (f r) = sr_id r) \<Longrightarrow>
   find (\<lambda>r. sr_id r = k) (map f rows) = map_option f (find (\<lambda>r. sr_id r = k) rows)"
  by (induction rows) auto

lemma rows_grow:
  assumes "stats_inv db" and "\<And>r. sr_id (f r) = sr_id r"
    and "\<And>r. r \<in> set (server_rows db) \<Longrightarrow> sr_total_received r \<le> sr_total_received (f r) \<and> sr_total_received (f r) < 2 ^ 63 \<and>
      sr_total_sent r \<le> sr_total_sent (f r) \<and> sr_total_sent (f r) < 2 ^ 63"
  shows "grows db (db\<lparr>server_rows := map f (server_rows db)\<rparr>)"
proof -
  have "map sr_id (map f (server_rows db)) = map sr_id (server_rows db)" using assms(2) by simp
  moreover have "stats_inv (db\<lparr>server_rows := map f (server_rows db)\<rparr>)"
    using assms(1,3) unfolding stats_inv_def by (simp add: assms(2) comp_def list_all_iff) (meson order_trans)
  moreover have "cumulative_received sid db \<le> cumulative_received sid (db\<lparr>server_rows := map f (server_rows db)\<rparr>) \<and>
      cumulative_sent sid db \<le> cumulative_sent sid (db\<lparr>server_rows := map f (server_rows db)\<rparr>)" for sid
    using assms(3)
    by (auto simp: cumulative_received_def cumulative_sent_def total_of_def peak_received_def peak_sent_def find_update_key [OF assms(2)]
        dest!: find_SomeD split: option.split) (fastforce simp: max_def)+
  ultimately show ?thesis by (simp add: grows_def)
qed

lemma persist_grows:
  assumes "stats_inv db" and "sql_persist_totals sid received sent db = Some (a, db')"
  shows "grows db db'"
proof -
  have eq: "db' = db\<lparr>server_rows := map (\<lambda>r. if sr_id r = sid then r\<lparr>sr_total_received := max (sr_total_received r) (uint received),
      sr_total_sent := max (sr_total_sent r) (uint sent)\<rparr> else r) (server_rows db)\<rparr>"
    using assms(2) by (auto simp: sql_persist_totals_def sql_update_def split: if_splits)
  have "bigint (uint received) \<and> bigint (uint sent)" if "r \<in> set (server_rows db)" "sr_id r = sid" for r
    using that assms(2) by (auto simp: sql_persist_totals_def list_ex_iff split: if_splits)
  with assms(1) show ?thesis
    unfolding eq by (intro rows_grow) (auto simp: stats_inv_def list_all_iff bigint_def)
qed

lemma insert_grows:
  assumes "stats_inv db" and "sql_insert_statistic t srv db = Some (a, db')"
  shows "grows db db'" and "uint (ss_bytes_received (ps_statistics srv)) \<le> cumulative_received (uint (ps_id srv)) db'"
    and "uint (ss_bytes_sent (ps_statistics srv)) \<le> cumulative_sent (uint (ps_id srv)) db'"
proof -
  let ?s = "ps_statistics srv"
  define row where "row = \<lparr>st_server_id = uint (ps_id srv), st_received = uint (ss_bytes_received ?s), st_sent = uint (ss_bytes_sent ?s),
      st_connections = sint (ss_connections_count ?s), st_timestamp = t\<rparr>"
  have db': "db' = db\<lparr>statistic := statistic db @ [row]\<rparr>" and b: "bigint (uint (ss_bytes_received ?s))" "bigint (uint (ss_bytes_sent ?s))"
    using assms(2) by (auto simp: sql_insert_statistic_def row_def Let_def split: if_splits)
  have nn: "list_all (\<lambda>x. 0 \<le> x) (map st_received (filter q (statistic db)))" "list_all (\<lambda>x. 0 \<le> x) (map st_sent (filter q (statistic db)))" for q
    using assms(1) by (auto simp: stats_inv_def list_all_iff)
  have pk: "peak_received sid db' = (if sid = uint (ps_id srv) then max (peak_received sid db) (uint (ss_bytes_received ?s)) else peak_received sid db)"
    "peak_sent sid db' = (if sid = uint (ps_id srv) then max (peak_sent sid db) (uint (ss_bytes_sent ?s)) else peak_sent sid db)" for sid
    using sql_max_append [OF nn(1)] sql_max_append [OF nn(2)]
    by (auto simp: peak_received_def peak_sent_def db' row_def)
  have tot: "total_of f sid db' = total_of f sid db" for f sid by (simp add: total_of_def db')
  show "grows db db'"
    using assms(1) b unfolding grows_def cumulative_received_def cumulative_sent_def pk tot
    by (auto simp: db' row_def stats_inv_def bigint_def)
  show "uint (ss_bytes_received ?s) \<le> cumulative_received (uint (ps_id srv)) db'" "uint (ss_bytes_sent ?s) \<le> cumulative_sent (uint (ps_id srv)) db'"
    by (simp_all add: cumulative_received_def cumulative_sent_def pk)
qed

lemma peak_bounds:
  assumes "stats_inv db"
  shows "0 \<le> peak_received sid db \<and> peak_received sid db < 2 ^ 63" and "0 \<le> peak_sent sid db \<and> peak_sent sid db < 2 ^ 63"
  using assms unfolding peak_received_def peak_sent_def
  by (intro sql_max_bounds; simp add: stats_inv_def list_all_iff)+

lemma reads_keep:
  "\<exists>n. snd (fetch_peak_statistic_totals ok sid db) = db\<lparr>sd_statements := n\<rparr>"
  "\<exists>n. snd (fetch_persisted_server_totals ok sid db) = db\<lparr>sd_statements := n\<rparr>"
  by (auto simp: fetch_peak_statistic_totals_def fetch_persisted_server_totals_def sql_exec_def Let_def split: option.split)

lemma reads_grow:
  assumes "stats_inv db"
  shows "grows db (snd (fetch_peak_statistic_totals ok sid db))" "grows db (snd (fetch_persisted_server_totals ok sid db))"
  using reads_keep(1) [of ok sid db] reads_keep(2) [of ok sid db] assms by auto

lemma grows_inv: "grows a b \<Longrightarrow> stats_inv b"
  by (simp add: grows_def)

lemma persist_server_totals_grows:
  assumes "stats_inv db"
  shows "grows db (snd (persist_server_totals ok srv db))"
proof -
  have "grows db (snd (sql_exec ok (sql_persist_totals sid r s) db))" for sid r s
    by (rule sql_exec_grows [OF assms]) (rule persist_grows)
  then show ?thesis by (simp add: persist_server_totals_def split_def split: option.split)
qed

lemma load_grows:
  assumes "stats_inv db"
  shows "grows db (snd (load_server_statistics ok t srv db))"
proof -
  let ?db1 = "snd (fetch_persisted_server_totals ok (uint (ps_id srv)) db)"
  let ?db2 = "snd (fetch_peak_statistic_totals ok (uint (ps_id srv)) ?db1)"
  have 1: "grows db ?db1" by (rule reads_grow(2) [OF assms])
  then have 2: "grows db ?db2" by (rule grows_trans) (rule reads_grow(1) [OF grows_inv [OF 1]])
  have "grows db (snd (persist_server_totals ok x ?db2))" for x
    by (rule grows_trans [OF 2]) (rule persist_server_totals_grows [OF grows_inv [OF 2]])
  with 2 show ?thesis by (simp add: load_server_statistics_def Let_def split_def)
qed

lemma save_grows:
  assumes "stats_inv db" and save: "save_server_statistics ok t srv db = (rc, srv', db')"
  shows "grows db db'"
    and "rc = 0 \<Longrightarrow> \<not> ps_is_dynamic_port srv \<Longrightarrow>
      ss_bytes_received (ps_statistics srv) \<noteq> 0 \<or> ss_bytes_sent (ps_statistics srv) \<noteq> 0 \<or> ss_connections_count (ps_statistics srv) \<noteq> 0 \<Longrightarrow>
      ps_id srv' = ps_id srv \<and>
      ss_bytes_received (ps_statistics srv) \<le> ss_bytes_received (ps_statistics srv') \<and> ss_bytes_sent (ps_statistics srv) \<le> ss_bytes_sent (ps_statistics srv') \<and>
      uint (ss_bytes_received (ps_statistics srv')) \<le> cumulative_received (uint (ps_id srv)) db' \<and>
      uint (ss_bytes_sent (ps_statistics srv')) \<le> cumulative_sent (uint (ps_id srv)) db'"
proof -
  let ?s = "ps_statistics srv"
  let ?skip = "ps_is_dynamic_port srv \<or> ss_bytes_received ?s = 0 \<and> ss_bytes_sent ?s = 0 \<and> ss_connections_count ?s = 0"
  obtain p db1 where p: "fetch_persisted_server_totals ok (uint (ps_id srv)) db = (p, db1)" by fastforce
  have g1: "grows db db1" using reads_grow(2) [OF assms(1), of ok "uint (ps_id srv)"] p by simp
  define m where "m = (case p of Some x \<Rightarrow> (merge_totals x srv, db1)
      | None \<Rightarrow> (case fetch_peak_statistic_totals ok (uint (ps_id srv)) db1 of
           (Some x, db') \<Rightarrow> (merge_totals x srv, db') | (None, db') \<Rightarrow> (srv, db')))"
  obtain srv1 db2 where m: "m = (srv1, db2)" by fastforce
  have srv1: "srv1 = srv \<or> (\<exists>x. srv1 = merge_totals x srv)" and "grows db db2"
    using m g1 grows_trans [OF g1 reads_grow(1) [OF grows_inv [OF g1], of ok "uint (ps_id srv)"]]
    by (auto simp: m_def split: option.splits prod.splits)
  have up: "ps_id srv1 = ps_id srv" "ss_bytes_received ?s \<le> ss_bytes_received (ps_statistics srv1)" "ss_bytes_sent ?s \<le> ss_bytes_sent (ps_statistics srv1)"
    using srv1 by (auto simp: merge_totals_def max_u64_def split: prod.splits)
  define db3 where "db3 = snd (persist_server_totals ok srv1 db2)"
  have g3: "grows db db3"
    unfolding db3_def by (rule grows_trans [OF \<open>grows db db2\<close>]) (rule persist_server_totals_grows [OF grows_inv [OF \<open>grows db db2\<close>]])
  obtain a db4 where a: "sql_exec ok (sql_insert_statistic t srv1) db3 = (a, db4)" by fastforce
  have g4: "grows db db4"
  proof -
    have "grows db3 (snd (sql_exec ok (sql_insert_statistic t srv1) db3))"
      by (rule sql_exec_grows [OF grows_inv [OF g3]]) (rule insert_grows(1))
    with g3 a show ?thesis using grows_trans by simp
  qed
  have eq: "save_server_statistics ok t srv db = (if ?skip then (0, srv, db) else (if a = None then -1 else 0, srv1, db4))"
  proof -
    obtain rc3 where "persist_server_totals ok srv1 db2 = (rc3, db3)" by (metis db3_def prod.collapse)
    then show ?thesis
      unfolding save_server_statistics_def Let_def p prod.case m_def [symmetric] m by (auto simp: a split: option.split)
  qed
  show "grows db db'" using save assms(1) g4 unfolding eq by (auto split: if_splits)
  assume "rc = 0" "\<not> ps_is_dynamic_port srv" "ss_bytes_received ?s \<noteq> 0 \<or> ss_bytes_sent ?s \<noteq> 0 \<or> ss_connections_count ?s \<noteq> 0"
  with save have r: "a \<noteq> None" "srv' = srv1" "db' = db4" unfolding eq by (auto split: if_splits)
  with a have "sql_insert_statistic t srv1 (db3\<lparr>sd_statements := Suc (sd_statements db3)\<rparr>) = Some ((), db4)"
    by (auto simp: sql_exec_def Let_def split: if_splits option.splits)
  from insert_grows(2,3) [OF _ this] grows_inv [OF g3] up r(2,3) show "ps_id srv' = ps_id srv \<and>
      ss_bytes_received ?s \<le> ss_bytes_received (ps_statistics srv') \<and> ss_bytes_sent ?s \<le> ss_bytes_sent (ps_statistics srv') \<and>
      uint (ss_bytes_received (ps_statistics srv')) \<le> cumulative_received (uint (ps_id srv)) db' \<and>
      uint (ss_bytes_sent (ps_statistics srv')) \<le> cumulative_sent (uint (ps_id srv)) db'" by simp
qed

lemma cleanup_grows:
  assumes inv: "stats_inv db" and "ok (sd_statements db)"
  shows "grows db (snd (cleanup_old_statistics ok t period db))"
proof -
  define f :: "server_row \<Rightarrow> server_row" where "f = (\<lambda>r. r\<lparr>sr_total_received := max (sr_total_received r) (peak_received (sr_id r) db),
      sr_total_sent := max (sr_total_sent r) (peak_sent (sr_id r) db)\<rparr>)"
  define db1 where "db1 = db\<lparr>server_rows := map f (server_rows db), sd_statements := Suc (sd_statements db)\<rparr>"
  have sync: "sync_all_server_totals_from_statistics ok db = db1"
    using assms(2) by (simp add: sync_all_server_totals_from_statistics_def sql_exec_def db1_def f_def peak_received_def peak_sent_def Let_def)
  have "grows db (db\<lparr>server_rows := map f (server_rows db)\<rparr>)"
    by (rule rows_grow [OF inv]) (use inv peak_bounds [OF inv] in \<open>auto simp: f_def stats_inv_def list_all_iff\<close>)
  then have g1: "grows db db1" by (simp add: db1_def)
  define db2 where "db2 = db1\<lparr>statistic := filter (\<lambda>r. \<not> st_timestamp r < t - period) (statistic db1), sd_statements := Suc (sd_statements db1)\<rparr>"
  have "grows db db2"
  proof -
    have ids: "map sr_id (server_rows db2) = map sr_id (server_rows db)" by (simp add: db2_def db1_def f_def comp_def)
    have "stats_inv db2" using grows_inv [OF g1] by (auto simp: stats_inv_def db2_def list_all_iff)
    moreover have "cumulative_received sid db \<le> cumulative_received sid db2 \<and> cumulative_sent sid db \<le> cumulative_sent sid db2"
      if sid: "sid \<in> sr_id ` set (server_rows db)" for sid
    proof -
      obtain r where r: "find (\<lambda>r. sr_id r = sid) (server_rows db) = Some r"
        using sid by (cases "find (\<lambda>r. sr_id r = sid) (server_rows db)") (force simp: find_None_iff)+
      then have "find (\<lambda>r. sr_id r = sid) (server_rows db2) = Some (f r)" "sr_id r = sid"
        using find_update_key [of f sid "server_rows db"] find_SomeD [OF r] by (auto simp: db2_def db1_def f_def)
      with r show ?thesis
        by (simp add: cumulative_received_def cumulative_sent_def total_of_def f_def le_max_iff_disj)
    qed
    ultimately show ?thesis using ids by (simp add: grows_def)
  qed
  moreover have "grows db (db1\<lparr>sd_statements := n\<rparr>)" for n using g1 by simp
  moreover have "snd (cleanup_old_statistics ok t period db) = db2 \<or>
      snd (cleanup_old_statistics ok t period db) = db1\<lparr>sd_statements := Suc (sd_statements db1)\<rparr>"
    by (simp add: cleanup_old_statistics_def sync sql_exec_def db2_def Let_def)
  ultimately show ?thesis by metis
qed

lemma load_rows_grow: "stats_inv db \<Longrightarrow> grows db (snd (load_rows ok t rows db))"
proof (induction rows arbitrary: db)
  case Nil
  then show ?case by simp
next
  case (Cons r rows)
  let ?db1 = "snd (load_server_statistics ok t (server_of_row r) db)"
  have g: "grows db ?db1" by (rule load_grows [OF Cons.prems])
  from grows_trans [OF g Cons.IH [OF grows_inv [OF g]]] show ?case by (simp add: Let_def split_def)
qed

lemma get_user_server_ports_grows:
  assumes "stats_inv db"
  shows "grows db (snd (get_user_server_ports ok m t user db))"
proof -
  have "stats_inv (db\<lparr>sd_statements := n\<rparr>)" for n using assms by simp
  note l = load_rows_grow [OF this]
  then have "grows db (snd (load_rows ok t rows (db\<lparr>sd_statements := n\<rparr>)))" for rows n by simp
  with assms show ?thesis
    by (simp add: get_user_server_ports_def sql_exec_def Let_def split_def)
qed

section \<open>Properties\<close>

text \<open>
  The operations on the tables, in any order, over restarts and with any statement failing, but the synchronisation that
  precedes a clean-up, which is the statement \<open>sd_statements db\<close> when \<open>cleanup_old_statistics\<close> starts.
\<close>

inductive stats_step :: "stats_db \<Rightarrow> stats_db \<Rightarrow> bool" where
  save: "save_server_statistics ok t srv db = (rc, srv', db') \<Longrightarrow> stats_step db db'"
| load: "stats_step db (snd (load_server_statistics ok t srv db))"
| restart: "stats_step db (snd (get_user_server_ports ok m t user db))"
| cleanup: "ok (sd_statements db) \<Longrightarrow> stats_step db (snd (cleanup_old_statistics ok t period db))"

lemma stats_step_grows: "stats_step db db' \<Longrightarrow> stats_inv db \<Longrightarrow> grows db db'"
  by (induction rule: stats_step.induct) (auto intro: save_grows(1) load_grows get_user_server_ports_grows cleanup_grows)

lemma stats_steps_grow: "stats_step\<^sup>*\<^sup>* db db' \<Longrightarrow> stats_inv db \<Longrightarrow> grows db db'"
proof (induction rule: rtranclp_induct)
  case (step y z)
  then have "grows db y" by blast
  moreover have "grows y z" using stats_step_grows [OF step.hyps(2) grows_inv [OF \<open>grows db y\<close>]] .
  ultimately show ?case by (rule grows_trans)
qed simp

lemma cumulative_bounds:
  assumes "stats_inv db"
  shows "0 \<le> cumulative_received sid db \<and> cumulative_received sid db < 2 ^ 63" and "0 \<le> cumulative_sent sid db \<and> cumulative_sent sid db < 2 ^ 63"
  using peak_bounds [OF assms, of sid] assms
  by (auto simp: cumulative_received_def cumulative_sent_def total_of_def stats_inv_def list_all_iff dest!: find_SomeD split: option.split)

lemma max_u64_uint: "0 \<le> a \<Longrightarrow> a < 2 ^ 63 \<Longrightarrow> 0 \<le> b \<Longrightarrow> b < 2 ^ 63 \<Longrightarrow>
    uint (max_u64 (word_of_int a) (word_of_int b)) = max a b"
  by (auto simp: max_u64_def word_less_def uint_word_of_int_eq take_bit_int_eq_self)

lemma load_is_cumulative:
  assumes inv: "stats_inv db" and ok: "\<And>n. ok n" and row: "uint (ps_id srv) \<in> sr_id ` set (server_rows db)"
  shows "uint (ss_bytes_received (ps_statistics (fst (load_server_statistics ok t srv db)))) = cumulative_received (uint (ps_id srv)) db"
    and "uint (ss_bytes_sent (ps_statistics (fst (load_server_statistics ok t srv db)))) = cumulative_sent (uint (ps_id srv)) db"
proof -
  let ?sid = "uint (ps_id srv)"
  obtain r where r: "find (\<lambda>r. sr_id r = ?sid) (server_rows db) = Some r"
    using row by (cases "find (\<lambda>r. sr_id r = ?sid) (server_rows db)") (force simp: find_None_iff)+
  have b: "0 \<le> sr_total_received r" "sr_total_received r < 2 ^ 63" "0 \<le> sr_total_sent r" "sr_total_sent r < 2 ^ 63"
    using inv find_SomeD [OF r] by (auto simp: stats_inv_def list_all_iff)
  have f: "fetch_persisted_server_totals ok ?sid db =
      (Some (word_of_int (sr_total_received r), word_of_int (sr_total_sent r)), db\<lparr>sd_statements := Suc (sd_statements db)\<rparr>)"
    by (simp add: fetch_persisted_server_totals_def sql_exec_def ok r)
  have p: "fst (fetch_peak_statistic_totals ok ?sid (db\<lparr>sd_statements := n\<rparr>)) =
      Some (word_of_int (peak_received ?sid db), word_of_int (peak_sent ?sid db))" for n
    by (simp add: fetch_peak_statistic_totals_def sql_exec_def ok)
  show "uint (ss_bytes_received (ps_statistics (fst (load_server_statistics ok t srv db)))) = cumulative_received ?sid db"
    "uint (ss_bytes_sent (ps_statistics (fst (load_server_statistics ok t srv db)))) = cumulative_sent ?sid db"
    using max_u64_uint b peak_bounds [OF inv, of ?sid]
    by (simp_all add: load_server_statistics_def f p split_def Let_def cumulative_received_def cumulative_sent_def total_of_def r)
qed


definition example_server_row :: server_row where
  "example_server_row =
     \<lparr>sr_id = 7, sr_user_id = Some 1, sr_input_port = Some 5000, sr_output_port = Some 5001, sr_enable = Some True,
      sr_enable_ssl = Some False, sr_enable_input_ssl = None, sr_total_received = 5, sr_total_sent = 6\<rparr>"

definition example_stats_db :: stats_db where
  "example_stats_db = \<lparr>server_rows = [example_server_row], statistic = [], sd_statements = 0\<rparr>"

definition example_stats_server :: proxy_server where
  "example_stats_server = (server_of_row example_server_row)\<lparr>ps_statistics := \<lparr>ss_bytes_received = 100, ss_bytes_sent = 3,
     ss_connections_count = 1, ss_last_update = 0\<rparr>\<rparr>"

lemma example_stats_facts:
  "stats_inv example_stats_db" "\<not> ps_is_dynamic_port example_stats_server" "ps_id example_stats_server = 7"
  "uint (ps_id example_stats_server) \<in> sr_id ` set (server_rows example_stats_db)"
  "ps_statistics example_stats_server = \<lparr>ss_bytes_received = 100, ss_bytes_sent = 3, ss_connections_count = 1, ss_last_update = 0\<rparr>"
  by (simp_all add: example_stats_db_def example_server_row_def stats_inv_def example_stats_server_def server_of_row_def zero_server_def)

lemma example_save:
  "fst (save_server_statistics (\<lambda>n. n \<noteq> 1) 50 example_stats_server example_stats_db) = 0"
  by (simp add: save_server_statistics_def example_stats_facts fetch_persisted_server_totals_def persist_server_totals_def
      sql_exec_def sql_insert_statistic_def merge_totals_def max_u64_def bigint_def example_stats_db_def example_server_row_def Let_def split_def)


text \<open>
  The hypothesis on the synchronisation is needed: \<open>cleanup_old_statistics\<close> ignores its failure and deletes all the same.
\<close>

lemma cleanup_without_sync_loses_totals:
  "cumulative_received 7 \<lparr>server_rows = [example_server_row],
       statistic = [\<lparr>st_server_id = 7, st_received = 100, st_sent = 3, st_connections = 1, st_timestamp = 50\<rparr>], sd_statements = 0\<rparr> = 100 \<and>
   cumulative_received 7 (snd (cleanup_old_statistics (\<lambda>n. n \<noteq> 0) 8000 60 \<lparr>server_rows = [example_server_row],
       statistic = [\<lparr>st_server_id = 7, st_received = 100, st_sent = 3, st_connections = 1, st_timestamp = 50\<rparr>], sd_statements = 0\<rparr>)) = 5"
  by (simp add: cumulative_received_def total_of_def peak_received_def sql_max_def cleanup_old_statistics_def
      sync_all_server_totals_from_statistics_def sql_exec_def example_server_row_def)

end
