(* ===== verification/Relay.thy ===== *)
theory Relay
  imports Server_Statistics
begin

text \<open>
  The data plane of \<open>src/server/proxy/server/proxy_server.c\<close>: how an accepted connection is given a slot, and the two handler
  threads of a slot, which carry bytes from the user's connection (input) to the device's (output) and back.

  A handler runs against observations: what each \<open>select\<close>, \<open>recv\<close> or \<open>SSL_read\<close>, \<open>send\<close> or \<open>SSL_write\<close> returned, and what it saw of the
  flags the other thread of the slot writes. Its own effects are the bytes it read and wrote, the descriptors it closed, the fields of the
  slot it owns and the statistics. A handler whose observations have run out is still running.
\<close>

section \<open>Slots\<close>

record relay_slot = local_socket +
  ls_ssl_input :: bool
  ls_ssl_output :: bool

text \<open>
  One round of \<open>serverInputThread\<close> and \<open>serverOutputThread\<close> in which \<open>accept\<close> returned \<open>fd\<close>. \<open>fcntl_ok\<close> and \<open>thread_ok\<close> are the results of making it
  non-blocking and of creating the handler thread. \<open>li_started\<close> lists the slots for which a handler thread was started, which will
  set the connected flag when it runs.
\<close>

record listener_state =
  li_slots :: "local_socket list"
  li_closed :: "int list"
  li_started :: "nat list"

definition serverInputThread_accept :: "int \<Rightarrow> bool \<Rightarrow> bool \<Rightarrow> listener_state \<Rightarrow> listener_state" where
  "serverInputThread_accept fd fcntl_ok thread_ok st =
     (if fd < 0 then st
      else if \<not> fcntl_ok then st\<lparr>li_closed := li_closed st @ [fd]\<rparr>
      else
        let i = get_input_socket_with_output (li_slots st)
        in if i = -1 then st\<lparr>li_closed := li_closed st @ [fd]\<rparr>
           else
             let st1 = st\<lparr>li_slots := (li_slots st)[nat i := (li_slots st ! nat i)\<lparr>ls_input_local := fd\<rparr>]\<rparr>
             in if thread_ok then st1\<lparr>li_started := li_started st1 @ [nat i]\<rparr>
                else st1\<lparr>li_closed := li_closed st1 @ [fd]\<rparr>)"

definition serverOutputThread_accept :: "int \<Rightarrow> bool \<Rightarrow> bool \<Rightarrow> listener_state \<Rightarrow> listener_state" where
  "serverOutputThread_accept fd fcntl_ok thread_ok st =
     (if fd < 0 then st
      else if \<not> fcntl_ok then st\<lparr>li_closed := li_closed st @ [fd]\<rparr>
      else
        let i = get_free_output_socket (li_slots st)
        in if i = -1 then st\<lparr>li_closed := li_closed st @ [fd]\<rparr>
           else
             let st1 = st\<lparr>li_slots := (li_slots st)[nat i := (li_slots st ! nat i)\<lparr>ls_output_local := fd\<rparr>]\<rparr>
             in if thread_ok then st1\<lparr>li_started := li_started st1 @ [nat i]\<rparr> else st1)"

text \<open>The first thing each handler thread does.\<close>

definition input_handler_starts :: "nat \<Rightarrow> listener_state \<Rightarrow> listener_state" where
  "input_handler_starts i st = st\<lparr>li_slots := (li_slots st)[i := (li_slots st ! i)\<lparr>ls_is_input_connected := True\<rparr>]\<rparr>"

definition output_handler_starts :: "nat \<Rightarrow> listener_state \<Rightarrow> listener_state" where
  "output_handler_starts i st = st\<lparr>li_slots := (li_slots st)[i := (li_slots st ! i)\<lparr>ls_is_output_connected := True\<rparr>]\<rparr>"

section \<open>Sending one buffer\<close>

text \<open>
  What one pass of the \<open>do .. while\<close> sees: the result of \<open>send\<close> or \<open>SSL_write\<close>, for a result of at most 0 whether the TLS error was fatal, whether
  \<open>errno\<close> is \<open>EAGAIN\<close>, the failure of the \<open>select\<close> that waits for room, and the two flags read afterwards.
\<close>

record send_obs =
  so_result :: int
  so_ssl_fatal :: bool
  so_eagain :: bool
  so_select_failed :: bool
  so_connected :: bool
  so_close :: bool

text \<open>
  The result is the success flag, \<open>sent\<close>, whether the TLS object is still there, and the bytes handed to the kernel or the TLS
  layer. The input handler does not look at \<open>close_output_socket\<close> while it waits (\<open>watch_close\<close> is false).
\<close>

fun send_loop ::
  "bool \<Rightarrow> bool \<Rightarrow> u8 list \<Rightarrow> send_obs list \<Rightarrow> int \<Rightarrow> bool \<Rightarrow> u8 list \<Rightarrow> (bool \<times> int \<times> bool \<times> u8 list) option" where
  "send_loop ssl watch_close buf [] sent obj out = (if ssl \<and> \<not> obj then Some (False, sent, obj, out) else None)"
| "send_loop ssl watch_close buf (ob # obs) sent obj out =
     (if ssl \<and> \<not> obj then Some (False, sent, obj, out)
      else
        let obj' = (if ssl \<and> so_result ob \<le> 0 \<and> so_ssl_fatal ob then False else obj)
        in if so_result ob \<noteq> -1 then
             let sent' = sent + so_result ob; out' = out @ take (nat (so_result ob)) (drop (nat sent) buf)
             in if int (length buf) - sent' \<le> 0 then Some (True, sent', obj', out')
                else send_loop ssl watch_close buf obs sent' obj' out'
           else if so_eagain ob then
             if so_select_failed ob \<or> \<not> so_connected ob \<or> watch_close \<and> so_close ob then Some (False, sent, obj', out)
             else send_loop ssl watch_close buf obs sent obj' out
           else Some (False, sent, obj', out))"

text \<open>What the manual pages promise of the result: -1, or a number of bytes up to the length given.\<close>

fun send_obs_valid :: "u8 list \<Rightarrow> send_obs list \<Rightarrow> int \<Rightarrow> bool" where
  "send_obs_valid buf [] sent = True"
| "send_obs_valid buf (ob # obs) sent =
     (-1 \<le> so_result ob \<and> so_result ob \<le> int (length buf) - sent \<and>
      send_obs_valid buf obs (if so_result ob = -1 then sent else sent + so_result ob))"

section \<open>The input handler\<close>

text \<open>The main loop of a handler over its passes: whether it is still running, and the state.\<close>

fun relay_loop :: "('o \<Rightarrow> 's \<Rightarrow> (bool \<times> 's) option) \<Rightarrow> 'o list \<Rightarrow> 's \<Rightarrow> (bool \<times> 's) option" where
  "relay_loop pass [] st = Some (True, st)"
| "relay_loop pass (ob # obs) st =
     (case pass ob st of None \<Rightarrow> None
      | Some (True, st1) \<Rightarrow> relay_loop pass obs st1
      | Some (False, st1) \<Rightarrow> Some (False, st1))"

datatype read_obs = Read "u8 list" | Read_again | Read_closed | Read_fatal

text \<open>
  One pass of the main loop: the result of \<open>select\<close>, of the read, whether the two waits (for a pending close to
  finish, for the device to connect) ran into their 120-second limit, the presence of the other side's TLS object, and the sends.
\<close>

record in_obs =
  io_select :: int
  io_read :: read_obs
  io_close_wait_expired :: bool
  io_output_wait_expired :: bool
  io_ssl_output :: bool
  io_now :: time_t
  io_send :: "send_obs list"

record in_state =
  i_slot :: relay_slot
  i_server :: proxy_server
  i_array :: "proxy_server list"
  i_read :: "u8 list"
  i_written :: "u8 list"
  i_closed :: "int list"

definition add_connection :: "u32 \<Rightarrow> in_state \<Rightarrow> in_state" where
  "add_connection n st =
     (if ps_is_dynamic_port (i_server st) then st
      else
        let s = ps_statistics (i_server st);
            srv = (i_server st)\<lparr>ps_statistics := s\<lparr>ss_connections_count := ss_connections_count s + n\<rparr>\<rparr>
        in st\<lparr>i_server := srv, i_array := copy_statistics srv (i_array st)\<rparr>)"

definition close_input :: "in_state \<Rightarrow> in_state" where
  "close_input st =
     (if ls_input_local (i_slot st) \<noteq> -1
      then st\<lparr>i_closed := i_closed st @ [ls_input_local (i_slot st)], i_slot := (i_slot st)\<lparr>ls_input_local := -1\<rparr>\<rparr>
      else st)"

text \<open>
  Up to the main loop. \<open>ssl_new_ok\<close> and \<open>accept_ok\<close> are the results of \<open>SSL_new\<close> and of the handshake. The first two failures leave the number
  of the closed descriptor in the slot.
\<close>

definition input_prologue :: "bool \<Rightarrow> bool \<Rightarrow> in_state \<Rightarrow> bool \<times> in_state" where
  "input_prologue ssl_new_ok accept_ok st =
     (let st1 = st\<lparr>i_slot := (i_slot st)\<lparr>ls_is_input_connected := True\<rparr>\<rparr>;
          gone = st1\<lparr>i_closed := i_closed st1 @ [ls_input_local (i_slot st1)],
                     i_slot := (i_slot st1)\<lparr>ls_is_input_connected := False\<rparr>\<rparr>
      in if ps_enable_input_ssl (i_server st1) then
           if ps_ssl_ctx (i_server st1) = None then (False, gone)
           else if \<not> ssl_new_ok then (False, gone\<lparr>i_slot := (i_slot gone)\<lparr>ls_ssl_input := False\<rparr>\<rparr>)
           else
             let st2 = st1\<lparr>i_slot := (i_slot st1)\<lparr>ls_ssl_input := True\<rparr>\<rparr>
             in if \<not> accept_ok then
                  let st3 = close_input (st2\<lparr>i_slot := (i_slot st2)\<lparr>ls_ssl_input := False\<rparr>\<rparr>)
                  in (False, st3\<lparr>i_slot := (i_slot st3)\<lparr>ls_is_input_connected := False\<rparr>\<rparr>)
                else (True, add_connection 1 st2)
         else (True, add_connection 1 st1))"

text \<open>Forwarding what was read: the outcome of the waits sets \<open>done_output_connection\<close>, but the buffer is sent all the same.\<close>

definition input_forward :: "in_obs \<Rightarrow> u8 list \<Rightarrow> in_state \<Rightarrow> (bool \<times> in_state) option" where
  "input_forward ob buf st =
     (let (array, srv) = update_server_statistics (io_now ob) (of_nat (length buf)) 0 (i_array st, i_server st);
          st1 = st\<lparr>i_array := array, i_server := srv, i_read := i_read st @ buf\<rparr>;
          finished = (io_close_wait_expired ob \<or> io_output_wait_expired ob)
      in case send_loop (ps_enable_output_ssl srv) False buf (io_send ob) 0 (io_ssl_output ob) [] of
           None \<Rightarrow> None
         | Some (success, sent, obj, out) \<Rightarrow>
             Some (\<not> finished,
               st1\<lparr>i_written := i_written st1 @ out,
                   i_slot := (i_slot st1)\<lparr>ls_ssl_output := (if ps_enable_output_ssl srv then obj else ls_ssl_output (i_slot st1))\<rparr>\<rparr>))"

text \<open>One pass: whether the loop goes on, and the state; \<open>None\<close> while the send loop is still running.\<close>

definition input_iteration :: "in_obs \<Rightarrow> in_state \<Rightarrow> (bool \<times> in_state) option" where
  "input_iteration ob st =
     (if io_select ob = -1 then Some (False, st)
      else if io_select ob = 0 then Some (True, st)
      else if ps_enable_input_ssl (i_server st) then
        (case io_read ob of
           Read buf \<Rightarrow> input_forward ob buf st
         | Read_again \<Rightarrow> Some (True, st)
         | Read_closed \<Rightarrow> Some (False, st)
         | Read_fatal \<Rightarrow> Some (False, close_input (st\<lparr>i_slot := (i_slot st)\<lparr>ls_ssl_input := False\<rparr>\<rparr>)))
      else
        (case io_read ob of Read buf \<Rightarrow> input_forward ob buf st | _ \<Rightarrow> Some (False, st)))"

definition input_loop :: "in_obs list \<Rightarrow> in_state \<Rightarrow> (bool \<times> in_state) option" where
  "input_loop = relay_loop input_iteration"

definition input_epilogue :: "in_state \<Rightarrow> in_state" where
  "input_epilogue st =
     (let st1 = close_input (st\<lparr>i_slot := (i_slot st)\<lparr>ls_ssl_input := False\<rparr>\<rparr>)
      in add_connection (-1) (st1\<lparr>i_slot := (i_slot st1)\<lparr>ls_close_output_socket := True, ls_is_input_connected := False\<rparr>\<rparr>))"

text \<open>The whole thread: \<open>(True, _)\<close> while it is still in its main loop.\<close>

definition connection_input_handler :: "bool \<Rightarrow> bool \<Rightarrow> in_obs list \<Rightarrow> in_state \<Rightarrow> (bool \<times> in_state) option" where
  "connection_input_handler ssl_new_ok accept_ok obs st =
     (case input_prologue ssl_new_ok accept_ok st of
        (False, st1) \<Rightarrow> Some (False, st1)
      | (True, st1) \<Rightarrow>
          (case input_loop obs st1 of None \<Rightarrow> None
           | Some (True, st2) \<Rightarrow> Some (True, st2)
           | Some (False, st2) \<Rightarrow> Some (False, input_epilogue st2)))"

section \<open>The output handler\<close>

text \<open>
  One pass: \<open>close_output_socket\<close> as read at its start, \<open>select\<close>, the read, the wait for a user (which ends with the user's connection or with
  a request to close), the presence of the user's TLS object, and the sends.
\<close>

record out_obs =
  oo_close :: bool
  oo_select :: int
  oo_read :: read_obs
  oo_wait_closed :: bool
  oo_ssl_input :: bool
  oo_now :: time_t
  oo_send :: "send_obs list"

record out_state =
  o_slot :: relay_slot
  o_server :: proxy_server
  o_array :: "proxy_server list"
  o_read :: "u8 list"
  o_written :: "u8 list"
  o_closed :: "int list"

definition close_output :: "out_state \<Rightarrow> out_state" where
  "close_output st =
     (if ls_output_local (o_slot st) \<noteq> -1
      then st\<lparr>o_closed := o_closed st @ [ls_output_local (o_slot st)], o_slot := (o_slot st)\<lparr>ls_output_local := -1\<rparr>\<rparr>
      else st)"

definition output_prologue :: "bool \<Rightarrow> bool \<Rightarrow> out_state \<Rightarrow> bool \<times> out_state" where
  "output_prologue ssl_new_ok accept_ok st =
     (let st1 = st\<lparr>o_slot := (o_slot st)\<lparr>ls_is_output_connected := True\<rparr>\<rparr>;
          gone = st1\<lparr>o_closed := o_closed st1 @ [ls_output_local (o_slot st1)],
                     o_slot := (o_slot st1)\<lparr>ls_is_output_connected := False\<rparr>\<rparr>
      in if ps_enable_output_ssl (o_server st1) then
           if ps_ssl_ctx (o_server st1) = None then (False, gone)
           else if \<not> ssl_new_ok then (False, gone\<lparr>o_slot := (o_slot gone)\<lparr>ls_ssl_output := False\<rparr>\<rparr>)
           else
             let st2 = st1\<lparr>o_slot := (o_slot st1)\<lparr>ls_ssl_output := True\<rparr>\<rparr>
             in if \<not> accept_ok then
                  let st3 = close_output (st2\<lparr>o_slot := (o_slot st2)\<lparr>ls_ssl_output := False\<rparr>\<rparr>)
                  in (False, st3\<lparr>o_slot := (o_slot st3)\<lparr>ls_is_output_connected := False\<rparr>\<rparr>)
                else (True, st2)
         else (True, st1))"

definition output_forward :: "out_obs \<Rightarrow> u8 list \<Rightarrow> out_state \<Rightarrow> (bool \<times> out_state) option" where
  "output_forward ob buf st =
     (let (array, srv) = update_server_statistics (oo_now ob) 0 (of_nat (length buf)) (o_array st, o_server st);
          st1 = st\<lparr>o_array := array, o_server := srv, o_read := o_read st @ buf\<rparr>
      in case send_loop (ps_enable_input_ssl srv) True buf (oo_send ob) 0 (oo_ssl_input ob) [] of
           None \<Rightarrow> None
         | Some (success, sent, obj, out) \<Rightarrow>
             Some (\<not> oo_wait_closed ob,
               st1\<lparr>o_written := o_written st1 @ out,
                   o_slot := (o_slot st1)\<lparr>ls_ssl_input := (if ps_enable_input_ssl srv then obj else ls_ssl_input (o_slot st1))\<rparr>\<rparr>))"

definition output_iteration :: "out_obs \<Rightarrow> out_state \<Rightarrow> (bool \<times> out_state) option" where
  "output_iteration ob st =
     (if oo_close ob then Some (False, st)
      else if oo_select ob = -1 then Some (False, st)
      else if oo_select ob = 0 then Some (True, st)
      else if ps_enable_output_ssl (o_server st) then
        (case oo_read ob of
           Read buf \<Rightarrow> output_forward ob buf st
         | Read_again \<Rightarrow> Some (True, st)
         | Read_closed \<Rightarrow> Some (False, st)
         | Read_fatal \<Rightarrow> Some (False, close_output (st\<lparr>o_slot := (o_slot st)\<lparr>ls_ssl_output := False\<rparr>\<rparr>)))
      else
        (case oo_read ob of Read buf \<Rightarrow> output_forward ob buf st | _ \<Rightarrow> Some (False, st)))"

definition output_loop :: "out_obs list \<Rightarrow> out_state \<Rightarrow> (bool \<times> out_state) option" where
  "output_loop = relay_loop output_iteration"

definition output_epilogue :: "out_state \<Rightarrow> out_state" where
  "output_epilogue st =
     (let st1 = close_output (st\<lparr>o_slot := (o_slot st)\<lparr>ls_ssl_output := False\<rparr>\<rparr>)
      in st1\<lparr>o_slot := (o_slot st1)\<lparr>ls_is_output_connected := False, ls_close_output_socket := False\<rparr>\<rparr>)"

definition connection_output_handler :: "bool \<Rightarrow> bool \<Rightarrow> out_obs list \<Rightarrow> out_state \<Rightarrow> (bool \<times> out_state) option" where
  "connection_output_handler ssl_new_ok accept_ok obs st =
     (case output_prologue ssl_new_ok accept_ok st of
        (False, st1) \<Rightarrow> Some (False, st1)
      | (True, st1) \<Rightarrow>
          (case output_loop obs st1 of None \<Rightarrow> None
           | Some (True, st2) \<Rightarrow> Some (True, st2)
           | Some (False, st2) \<Rightarrow> Some (False, output_epilogue st2)))"

section \<open>Sending: correctness and termination\<close>

lemma send_loop_prefix:
  assumes "send_loop ssl wc buf obs sent obj out = Some (success, sent', obj', out')"
    and "send_obs_valid buf obs sent" and "0 \<le> sent" and "sent \<le> int (length buf)"
  shows "sent \<le> sent' \<and> sent' \<le> int (length buf) \<and> (success \<longrightarrow> sent' = int (length buf)) \<and>
         out' = out @ take (nat (sent' - sent)) (drop (nat sent) buf)"
  using assms
proof (induction obs arbitrary: sent obj out)
  case Nil
  then show ?case by (auto split: if_splits)
next
  case (Cons ob obs)
  show ?case
  proof (cases "ssl \<and> \<not> obj \<or> so_result ob = -1")
    case True
    with Cons show ?thesis by (auto simp: Let_def split: if_splits)
  next
    case False
    define r where "r = so_result ob"
    have r: "0 \<le> r" "sent + r \<le> int (length buf)" and v: "send_obs_valid buf obs (sent + r)"
      using Cons.prems(2) False by (auto simp: r_def)
    let ?out = "out @ take (nat r) (drop (nat sent) buf)"
    show ?thesis
    proof (cases "int (length buf) - (sent + r) \<le> 0")
      case True
      with Cons.prems(1) False have "sent' = sent + r" "out' = ?out" by (auto simp: r_def Let_def)
      with r True Cons.prems(3) show ?thesis by simp
    next
      case more: False
      obtain obj1 where "send_loop ssl wc buf obs (sent + r) obj1 ?out = Some (success, sent', obj', out')"
        using Cons.prems(1) False more by (auto simp: r_def Let_def split: if_splits)
      from Cons.IH [OF this v] r Cons.prems(3) have ih: "sent + r \<le> sent'" "sent' \<le> int (length buf)" "success \<longrightarrow> sent' = int (length buf)"
        "out' = ?out @ take (nat (sent' - (sent + r))) (drop (nat (sent + r)) buf)" by auto
      have "take (nat r) (drop (nat sent) buf) @ take (nat (sent' - (sent + r))) (drop (nat (sent + r)) buf) =
          take (nat (sent' - sent)) (drop (nat sent) buf)"
      proof -
        have "nat (sent' - sent) = nat r + nat (sent' - (sent + r))" "nat (sent + r) = nat r + nat sent"
          using ih(1) r(1) Cons.prems(3) by simp_all
        then show ?thesis by (simp add: take_add)
      qed
      with ih r show ?thesis by simp
    qed
  qed
qed

lemma send_loop_finishes:
  assumes "list_all (\<lambda>ob. 0 < so_result ob) obs" and "send_obs_valid buf obs sent" and "int (length buf) - sent \<le> int (length obs)"
    and "sent < int (length buf)" and "0 \<le> sent" and "ssl \<longrightarrow> obj"
  shows "\<exists>out'. send_loop ssl wc buf obs sent obj out = Some (True, int (length buf), obj, out')"
  using assms
proof (induction obs arbitrary: sent out)
  case Nil
  then show ?case by simp
next
  case (Cons ob obs)
  then have r: "0 < so_result ob" "so_result ob \<le> int (length buf) - sent" by simp_all
  show ?case
  proof (cases "int (length buf) - (sent + so_result ob) \<le> 0")
    case True
    with r Cons.prems(6) show ?thesis by (simp add: Let_def)
  next
    case False
    have "\<exists>out'. send_loop ssl wc buf obs (sent + so_result ob) obj (out @ take (nat (so_result ob)) (drop (nat sent) buf)) =
        Some (True, int (length buf), obj, out')"
      by (rule Cons.IH) (use Cons.prems r False in \<open>simp_all split: if_splits\<close>)
    with r False Cons.prems(6) show ?thesis by (simp add: Let_def)
  qed
qed

section \<open>The contract of a relaying thread\<close>

text \<open>
  A pass appends a chunk to what was read and a prefix of that chunk to what was written, the whole of it when its sends complete.
\<close>

locale stream_relay =
  fixes pass :: "'o \<Rightarrow> 's \<Rightarrow> (bool \<times> 's) option"
    and rd :: "'s \<Rightarrow> u8 list" and wr :: "'s \<Rightarrow> u8 list"
    and inv :: "'s \<Rightarrow> bool" and valid :: "'o \<Rightarrow> bool" and completes :: "'o \<Rightarrow> bool"
  assumes pass_law: "inv st \<Longrightarrow> valid ob \<Longrightarrow> pass ob st = Some (b, st') \<Longrightarrow>
    \<exists>chunk out. rd st' = rd st @ chunk \<and> wr st' = wr st @ out \<and> prefix out chunk \<and> (completes ob \<longrightarrow> out = chunk)"
    and pass_inv: "inv st \<Longrightarrow> pass ob st = Some (b, st') \<Longrightarrow> inv st'"
begin

lemma loop_prefixes:
  assumes "inv st" and "list_all valid obs" and "relay_loop pass obs st = Some (b, st')"
  shows "\<exists>chunks outs. rd st' = rd st @ concat chunks \<and> wr st' = wr st @ concat outs \<and> list_all2 prefix outs chunks"
  using assms
proof (induction obs arbitrary: st)
  case Nil
  then show ?case by (auto intro: exI [of _ "[]"])
next
  case (Cons ob obs)
  then obtain b1 st1 where p: "pass ob st = Some (b1, st1)" by (auto split: option.splits)
  from pass_law [OF Cons.prems(1) _ p] Cons.prems(2) obtain c u where
    c: "rd st1 = rd st @ c" "wr st1 = wr st @ u" "prefix u c" by auto
  show ?case
  proof (cases b1)
    case True
    with p Cons.prems have "relay_loop pass obs st1 = Some (b, st')" "list_all valid obs" by simp_all
    from Cons.IH [OF pass_inv [OF Cons.prems(1) p] this(2,1)] obtain cs us where
      "rd st' = rd st1 @ concat cs" "wr st' = wr st1 @ concat us" "list_all2 prefix us cs" by blast
    with c show ?thesis by (intro exI [of _ "c # cs"] exI [of _ "u # us"]) simp
  next
    case False
    with p Cons.prems have "st' = st1" by simp
    with c show ?thesis by (intro exI [of _ "[c]"] exI [of _ "[u]"]) simp
  qed
qed

lemma loop_exact:
  assumes "inv st" and "list_all (\<lambda>ob. valid ob \<and> completes ob) obs" and "relay_loop pass obs st = Some (b, st')" and "wr st = rd st"
  shows "wr st' = rd st'"
  using assms
proof (induction obs arbitrary: st)
  case Nil
  then show ?case by simp
next
  case (Cons ob obs)
  then obtain b1 st1 where p: "pass ob st = Some (b1, st1)" by (auto split: option.splits)
  from pass_law [OF Cons.prems(1) _ p] Cons.prems(2,4) have eq: "wr st1 = rd st1" by auto
  show ?case
  proof (cases b1)
    case True
    with p Cons.prems have "relay_loop pass obs st1 = Some (b, st')" "list_all (\<lambda>ob. valid ob \<and> completes ob) obs" by simp_all
    with Cons.IH [OF pass_inv [OF Cons.prems(1) p]] eq show ?thesis by blast
  next
    case False
    with p Cons.prems eq show ?thesis by simp
  qed
qed

end

definition chunk_sent :: "bool \<Rightarrow> bool \<Rightarrow> u8 list \<Rightarrow> send_obs list \<Rightarrow> bool \<Rightarrow> bool" where
  "chunk_sent ssl watch_close buf obs obj \<longleftrightarrow>
     (case send_loop ssl watch_close buf obs 0 obj [] of Some (success, _) \<Rightarrow> success | None \<Rightarrow> False)"

definition in_valid :: "in_obs \<Rightarrow> bool" where
  "in_valid ob \<longleftrightarrow> (case io_read ob of Read buf \<Rightarrow> send_obs_valid buf (io_send ob) 0 | _ \<Rightarrow> True)"

definition in_completes :: "bool \<Rightarrow> in_obs \<Rightarrow> bool" where
  "in_completes ssl ob \<longleftrightarrow> (case io_read ob of Read buf \<Rightarrow> chunk_sent ssl False buf (io_send ob) (io_ssl_output ob) | _ \<Rightarrow> True)"

definition out_valid :: "out_obs \<Rightarrow> bool" where
  "out_valid ob \<longleftrightarrow> (case oo_read ob of Read buf \<Rightarrow> send_obs_valid buf (oo_send ob) 0 | _ \<Rightarrow> True)"

definition out_completes :: "bool \<Rightarrow> out_obs \<Rightarrow> bool" where
  "out_completes ssl ob \<longleftrightarrow> (case oo_read ob of Read buf \<Rightarrow> chunk_sent ssl True buf (oo_send ob) (oo_ssl_input ob) | _ \<Rightarrow> True)"

lemma send_chunk_law:
  assumes "send_loop ssl wc buf obs 0 obj [] = Some (success, sent, obj', out)" and "send_obs_valid buf obs 0"
  shows "prefix out buf" and "chunk_sent ssl wc buf obs obj \<Longrightarrow> out = buf"
  using send_loop_prefix [OF assms] assms(1) by (auto simp: chunk_sent_def take_is_prefix)

lemma update_server_statistics_flags:
  "update_server_statistics t r s (array, srv) = (array', srv') \<Longrightarrow>
   ps_enable_output_ssl srv' = ps_enable_output_ssl srv \<and> ps_enable_input_ssl srv' = ps_enable_input_ssl srv \<and>
   ps_is_dynamic_port srv' = ps_is_dynamic_port srv \<and> ps_id srv' = ps_id srv"
  by (auto simp: update_server_statistics_def Let_def split: if_splits)

lemma close_simps [simp]:
  "i_read (close_input s) = i_read s" "i_written (close_input s) = i_written s" "i_server (close_input s) = i_server s"
  "i_array (close_input s) = i_array s"
  "o_read (close_output t) = o_read t" "o_written (close_output t) = o_written t" "o_server (close_output t) = o_server t"
  by (simp_all add: close_input_def close_output_def)

lemma input_forward_result:
  assumes "input_forward ob buf st = Some (b, st')"
  obtains array srv success sent obj out where
    "update_server_statistics (io_now ob) (of_nat (length buf)) 0 (i_array st, i_server st) = (array, srv)"
    "send_loop (ps_enable_output_ssl (i_server st)) False buf (io_send ob) 0 (io_ssl_output ob) [] = Some (success, sent, obj, out)"
    "i_read st' = i_read st @ buf" "i_written st' = i_written st @ out" "i_server st' = srv" "i_closed st' = i_closed st"
    "i_array st' = array"
    "ls_input_local (i_slot st') = ls_input_local (i_slot st)" "ls_is_input_connected (i_slot st') = ls_is_input_connected (i_slot st)"
proof -
  obtain array srv where u: "update_server_statistics (io_now ob) (of_nat (length buf)) 0 (i_array st, i_server st) = (array, srv)" by fastforce
  with update_server_statistics_flags [OF u] assms show thesis
    by (auto simp: input_forward_def Let_def split: option.splits prod.splits intro: that [OF u])
qed

lemma output_forward_result:
  assumes "output_forward ob buf st = Some (b, st')"
  obtains array srv success sent obj out where
    "update_server_statistics (oo_now ob) 0 (of_nat (length buf)) (o_array st, o_server st) = (array, srv)"
    "send_loop (ps_enable_input_ssl (o_server st)) True buf (oo_send ob) 0 (oo_ssl_input ob) [] = Some (success, sent, obj, out)"
    "o_read st' = o_read st @ buf" "o_written st' = o_written st @ out" "o_server st' = srv" "o_closed st' = o_closed st"
    "ls_output_local (o_slot st') = ls_output_local (o_slot st)"
proof -
  obtain array srv where u: "update_server_statistics (oo_now ob) 0 (of_nat (length buf)) (o_array st, o_server st) = (array, srv)" by fastforce
  with update_server_statistics_flags [OF u] assms show thesis
    by (auto simp: output_forward_def Let_def split: option.splits prod.splits intro: that [OF u])
qed

text \<open>A pass either forwards the bytes it read or leaves the streams and the server's settings alone.\<close>

lemma input_iteration_cases:
  assumes "input_iteration ob st = Some (b, st')"
  obtains (forward) buf where "io_read ob = Read buf" "input_forward ob buf st = Some (b, st')"
  | (idle) "st' = st"
  | (fatal) "b = False" "st' = close_input (st\<lparr>i_slot := (i_slot st)\<lparr>ls_ssl_input := False\<rparr>\<rparr>)"
  using assms by (auto simp: input_iteration_def split: if_splits read_obs.splits)

lemma output_iteration_cases:
  assumes "output_iteration ob st = Some (b, st')"
  obtains (forward) buf where "oo_read ob = Read buf" "output_forward ob buf st = Some (b, st')"
  | (idle) "st' = st"
  | (fatal) "b = False" "st' = close_output (st\<lparr>o_slot := (o_slot st)\<lparr>ls_ssl_output := False\<rparr>\<rparr>)"
  using assms by (auto simp: output_iteration_def split: if_splits read_obs.splits)

interpretation input_relay: stream_relay input_iteration i_read i_written
  "\<lambda>st. ps_enable_output_ssl (i_server st) = ssl" in_valid "in_completes ssl" for ssl
proof unfold_locales
  fix st ob b st'
  assume i: "ps_enable_output_ssl (i_server st) = ssl" and p: "input_iteration ob st = Some (b, st')"
  from p show "ps_enable_output_ssl (i_server st') = ssl"
    by (cases rule: input_iteration_cases)
      (use i in \<open>auto elim!: input_forward_result dest: update_server_statistics_flags\<close>)
  assume v: "in_valid ob"
  from p show "\<exists>chunk out. i_read st' = i_read st @ chunk \<and> i_written st' = i_written st @ out \<and> prefix out chunk \<and>
      (in_completes ssl ob \<longrightarrow> out = chunk)"
  proof (cases rule: input_iteration_cases)
    case (forward buf)
    from forward(2) obtain success sent obj out where
      f: "send_loop ssl False buf (io_send ob) 0 (io_ssl_output ob) [] = Some (success, sent, obj, out)"
        "i_read st' = i_read st @ buf" "i_written st' = i_written st @ out" by (rule input_forward_result) (simp add: i)
    from v forward(1) have "send_obs_valid buf (io_send ob) 0" by (simp add: in_valid_def)
    from send_chunk_law [OF f(1) this] f(2,3) forward(1) show ?thesis by (auto simp: in_completes_def)
  qed auto
qed

interpretation output_relay: stream_relay output_iteration o_read o_written
  "\<lambda>st. ps_enable_input_ssl (o_server st) = ssl" out_valid "out_completes ssl" for ssl
proof unfold_locales
  fix st ob b st'
  assume i: "ps_enable_input_ssl (o_server st) = ssl" and p: "output_iteration ob st = Some (b, st')"
  from p show "ps_enable_input_ssl (o_server st') = ssl"
    by (cases rule: output_iteration_cases)
      (use i in \<open>auto elim!: output_forward_result dest: update_server_statistics_flags\<close>)
  assume v: "out_valid ob"
  from p show "\<exists>chunk out. o_read st' = o_read st @ chunk \<and> o_written st' = o_written st @ out \<and> prefix out chunk \<and>
      (out_completes ssl ob \<longrightarrow> out = chunk)"
  proof (cases rule: output_iteration_cases)
    case (forward buf)
    from forward(2) obtain success sent obj out where
      f: "send_loop ssl True buf (oo_send ob) 0 (oo_ssl_input ob) [] = Some (success, sent, obj, out)"
        "o_read st' = o_read st @ buf" "o_written st' = o_written st @ out" by (rule output_forward_result) (simp add: i)
    from v forward(1) have "send_obs_valid buf (oo_send ob) 0" by (simp add: out_valid_def)
    from send_chunk_law [OF f(1) this] f(2,3) forward(1) show ?thesis by (auto simp: out_completes_def)
  qed auto
qed

section \<open>Properties\<close>

lemma add_connection_simps [simp]:
  "i_read (add_connection n st) = i_read st" "i_written (add_connection n st) = i_written st" "i_closed (add_connection n st) = i_closed st"
  "i_slot (add_connection n st) = i_slot st" "ps_enable_output_ssl (i_server (add_connection n st)) = ps_enable_output_ssl (i_server st)"
  "ps_is_dynamic_port (i_server (add_connection n st)) = ps_is_dynamic_port (i_server st)"
  by (simp_all add: add_connection_def Let_def)

lemma prologue_streams:
  assumes "input_prologue a c st = (b, st1)"
  shows "i_read st1 = i_read st" "i_written st1 = i_written st" "ps_enable_output_ssl (i_server st1) = ps_enable_output_ssl (i_server st)"
  using assms by (auto simp: input_prologue_def Let_def split: if_splits)

lemma output_prologue_streams:
  assumes "output_prologue a c st = (b, st1)"
  shows "o_read st1 = o_read st" "o_written st1 = o_written st" "ps_enable_input_ssl (o_server st1) = ps_enable_input_ssl (o_server st)"
  using assms by (auto simp: output_prologue_def Let_def split: if_splits)

lemma epilogue_streams [simp]:
  "i_read (input_epilogue st) = i_read st" "i_written (input_epilogue st) = i_written st"
  "o_read (output_epilogue u) = o_read u" "o_written (output_epilogue u) = o_written u"
  by (simp_all add: input_epilogue_def output_epilogue_def Let_def)

lemma list_all_conj: "list_all (\<lambda>x. p x \<and> q x) xs \<longleftrightarrow> list_all p xs \<and> list_all q xs"
  by (induction xs) auto

lemma relay_to_device_streams:
  assumes "connection_input_handler ssl_new_ok accept_ok obs st = Some (running, st')" and "i_read st = []" and "i_written st = []"
    and "list_all in_valid obs"
  shows "(\<exists>chunks outs. i_read st' = concat chunks \<and> i_written st' = concat outs \<and> list_all2 prefix outs chunks) \<and>
         (list_all (in_completes (ps_enable_output_ssl (i_server st))) obs \<longrightarrow> i_written st' = i_read st')"
proof -
  obtain go st1 where p: "input_prologue ssl_new_ok accept_ok st = (go, st1)" by fastforce
  note s = prologue_streams [OF p]
  show ?thesis
  proof (cases go)
    case False
    with p assms(1) have "st' = st1" by (simp add: connection_input_handler_def)
    with s assms(2,3) show ?thesis by (auto intro: exI [of _ "[]"])
  next
    case True
    with p assms(1) obtain b2 st2 where l: "relay_loop input_iteration obs st1 = Some (b2, st2)" and "st' = (if b2 then st2 else input_epilogue st2)"
      by (auto simp: connection_input_handler_def input_loop_def split: option.splits bool.splits)
    then have st': "i_read st' = i_read st2" "i_written st' = i_written st2" by simp_all
    from input_relay.loop_prefixes [OF s(3) assms(4) l] input_relay.loop_exact [OF s(3) _ l] s assms(2,3,4) show ?thesis
      unfolding st' by (auto simp: list_all_conj)
  qed
qed

lemma relay_to_user_streams:
  assumes "connection_output_handler ssl_new_ok accept_ok obs st = Some (running, st')" and "o_read st = []" and "o_written st = []"
    and "list_all out_valid obs"
  shows "(\<exists>chunks outs. o_read st' = concat chunks \<and> o_written st' = concat outs \<and> list_all2 prefix outs chunks) \<and>
         (list_all (out_completes (ps_enable_input_ssl (o_server st))) obs \<longrightarrow> o_written st' = o_read st')"
proof -
  obtain go st1 where p: "output_prologue ssl_new_ok accept_ok st = (go, st1)" by fastforce
  note s = output_prologue_streams [OF p]
  show ?thesis
  proof (cases go)
    case False
    with p assms(1) have "st' = st1" by (simp add: connection_output_handler_def)
    with s assms(2,3) show ?thesis by (auto intro: exI [of _ "[]"])
  next
    case True
    with p assms(1) obtain b2 st2 where l: "relay_loop output_iteration obs st1 = Some (b2, st2)" and "st' = (if b2 then st2 else output_epilogue st2)"
      by (auto simp: connection_output_handler_def output_loop_def split: option.splits bool.splits)
    then have st': "o_read st' = o_read st2" "o_written st' = o_written st2" by simp_all
    from output_relay.loop_prefixes [OF s(3) assms(4) l] output_relay.loop_exact [OF s(3) _ l] s assms(2,3,4) show ?thesis
      unfolding st' by (auto simp: list_all_conj)
  qed
qed

text \<open>
  C4. From the user to the device no byte is added, reordered or repeated: whatever \<open>select\<close>, the reads, the writes and the other thread do, at
  every moment what the input handler has written is the concatenation of prefixes of the chunks it read, in order; and
  if every chunk could be sent, it is exactly what was read.
\<close>

theorem relay_to_device_exact:
  assumes "connection_input_handler ssl_new_ok accept_ok obs st = Some (running, st')" and "i_read st = []" and "i_written st = []"
    and "list_all in_valid obs"
  shows "(\<exists>chunks outs. i_read st' = concat chunks \<and> i_written st' = concat outs \<and> list_all2 prefix outs chunks) \<and>
         (list_all (in_completes (ps_enable_output_ssl (i_server st))) obs \<longrightarrow> i_written st' = i_read st')"
  using assms by (rule relay_to_device_streams)

text \<open>
  C5. From the device to the user likewise: what the output handler has written is at every moment the concatenation of prefixes
  of the chunks it read from the device, in order, and exactly what was read if every chunk could be sent.
\<close>

theorem relay_to_user_exact:
  assumes "connection_output_handler ssl_new_ok accept_ok obs st = Some (running, st')" and "o_read st = []" and "o_written st = []"
    and "list_all out_valid obs"
  shows "(\<exists>chunks outs. o_read st' = concat chunks \<and> o_written st' = concat outs \<and> list_all2 prefix outs chunks) \<and>
         (list_all (out_completes (ps_enable_input_ssl (o_server st))) obs \<longrightarrow> o_written st' = o_read st')"
  using assms by (rule relay_to_user_streams)

text \<open>Examples: a plain-text slot with descriptor 9, and passes that read a chunk and then send it.\<close>

definition example_slot :: relay_slot where
  "example_slot =
     \<lparr>ls_input_local = 9, ls_output_local = 8, ls_is_input_connected = False, ls_is_output_connected = True,
      ls_close_output_socket = False, ls_ssl_input = False, ls_ssl_output = False\<rparr>"

definition example_in_state :: "proxy_server \<Rightarrow> in_state" where
  "example_in_state srv = \<lparr>i_slot = example_slot, i_server = srv, i_array = [srv], i_read = [], i_written = [], i_closed = []\<rparr>"

definition example_out_state :: "proxy_server \<Rightarrow> out_state" where
  "example_out_state srv = \<lparr>o_slot = example_slot, o_server = srv, o_array = [srv], o_read = [], o_written = [], o_closed = []\<rparr>"

definition sent_obs :: "int \<Rightarrow> send_obs" where
  "sent_obs r = \<lparr>so_result = r, so_ssl_fatal = False, so_eagain = False, so_select_failed = False, so_connected = True, so_close = False\<rparr>"

definition in_pass :: "u8 list \<Rightarrow> send_obs list \<Rightarrow> in_obs" where
  "in_pass buf sends =
     \<lparr>io_select = 1, io_read = Read buf, io_close_wait_expired = False, io_output_wait_expired = False, io_ssl_output = False,
      io_now = 0, io_send = sends\<rparr>"

definition out_pass :: "u8 list \<Rightarrow> send_obs list \<Rightarrow> out_obs" where
  "out_pass buf sends =
     \<lparr>oo_close = False, oo_select = 1, oo_read = Read buf, oo_wait_closed = False, oo_ssl_input = False, oo_now = 0, oo_send = sends\<rparr>"

lemmas example_relay_defs = example_in_state_def example_out_state_def example_slot_def sent_obs_def in_pass_def out_pass_def
  zero_server_def zero_statistics_def in_valid_def in_completes_def out_valid_def out_completes_def chunk_sent_def
  connection_input_handler_def input_prologue_def input_loop_def input_iteration_def input_forward_def
  connection_output_handler_def output_prologue_def output_loop_def output_iteration_def output_forward_def
  add_connection_def copy_statistics_def find_server_index_by_id_def update_server_statistics_def

lemma example_relay_runs:
  "\<exists>st'. connection_input_handler True True [in_pass [1, 2, 3] [sent_obs 2, sent_obs 1], in_pass [4] [sent_obs 1]] (example_in_state zero_server) =
     Some (True, st') \<and> i_read st' = [1, 2, 3, 4]"
  "\<exists>st'. connection_output_handler True True [out_pass [1, 2, 3] [sent_obs 2, sent_obs 1]] (example_out_state zero_server) =
     Some (True, st') \<and> o_read st' = [1, 2, 3]"
  by (simp_all add: example_relay_defs Let_def)

theorem relay_to_device_exact_witness:
  "\<exists>st'. connection_input_handler True True [in_pass [1, 2, 3] [sent_obs 2, sent_obs 1], in_pass [4] [sent_obs 1]] (example_in_state zero_server) =
     Some (True, st') \<and> i_written st' = [1, 2, 3, 4]"
proof -
  from example_relay_runs(1) obtain st' where
    r: "connection_input_handler True True [in_pass [1, 2, 3] [sent_obs 2, sent_obs 1], in_pass [4] [sent_obs 1]] (example_in_state zero_server) =
     Some (True, st')" "i_read st' = [1, 2, 3, 4]" by blast
  have "list_all in_valid [in_pass [1, 2, 3] [sent_obs 2, sent_obs 1], in_pass [4] [sent_obs 1]]"
    "list_all (in_completes (ps_enable_output_ssl (i_server (example_in_state zero_server)))) [in_pass [1, 2, 3] [sent_obs 2, sent_obs 1], in_pass [4] [sent_obs 1]]"
    "i_read (example_in_state zero_server) = []" "i_written (example_in_state zero_server) = []"
    by (simp_all add: example_relay_defs Let_def)
  with relay_to_device_exact [OF r(1)] r show ?thesis by simp
qed

theorem relay_to_user_exact_witness:
  "\<exists>st'. connection_output_handler True True [out_pass [1, 2, 3] [sent_obs 2, sent_obs 1]] (example_out_state zero_server) =
     Some (True, st') \<and> o_written st' = [1, 2, 3]"
proof -
  from example_relay_runs(2) obtain st' where
    r: "connection_output_handler True True [out_pass [1, 2, 3] [sent_obs 2, sent_obs 1]] (example_out_state zero_server) = Some (True, st')"
      "o_read st' = [1, 2, 3]" by blast
  have "list_all out_valid [out_pass [1, 2, 3] [sent_obs 2, sent_obs 1]]"
    "list_all (out_completes (ps_enable_input_ssl (o_server (example_out_state zero_server)))) [out_pass [1, 2, 3] [sent_obs 2, sent_obs 1]]"
    "o_read (example_out_state zero_server) = []" "o_written (example_out_state zero_server) = []"
    by (simp_all add: example_relay_defs Let_def)
  with relay_to_user_exact [OF r(1)] r show ?thesis by simp
qed

text \<open>
  A failed write leaves a hole in the stream: when a chunk cannot be sent (a broken connection, a \<open>select\<close> that fails), the handler
  only logs it; it stays in its loop with the connection open, drops the rest of the chunk and forwards the
  next chunk behind the hole, so the device receives a stream the user never sent.
\<close>

theorem relay_continues_after_loss:
  assumes "\<not> ps_enable_input_ssl (i_server st)" and "\<not> ps_enable_output_ssl (i_server st)"
    and "io_read ob1 = Read c1" and "io_select ob1 = 1" and "\<not> io_close_wait_expired ob1" and "\<not> io_output_wait_expired ob1"
    and "io_send ob1 = [f]" and "so_result f = -1" and "\<not> so_eagain f"
    and "io_read ob2 = Read c2" and "io_select ob2 = 1" and "\<not> io_close_wait_expired ob2" and "\<not> io_output_wait_expired ob2"
    and "io_send ob2 = [s]" and "so_result s = int (length c2)" and "c2 \<noteq> []"
  shows "\<exists>st'. input_loop [ob1, ob2] st = Some (True, st') \<and> i_read st' = i_read st @ c1 @ c2 \<and> i_written st' = i_written st @ c2"
proof -
  obtain a1 s1 where u1: "update_server_statistics (io_now ob1) (of_nat (length c1)) 0 (i_array st, i_server st) = (a1, s1)" by fastforce
  note f1 = update_server_statistics_flags [OF u1]
  obtain st1 where 1: "input_iteration ob1 st = Some (True, st1)" "i_read st1 = i_read st @ c1" "i_written st1 = i_written st" "i_server st1 = s1"
    using assms(1-9) f1 by (simp add: input_iteration_def input_forward_def u1)
  obtain a2 s2 where u2: "update_server_statistics (io_now ob2) (of_nat (length c2)) 0 (i_array st1, i_server st1) = (a2, s2)" by fastforce
  note f2 = update_server_statistics_flags [OF u2]
  obtain st2 where "input_iteration ob2 st1 = Some (True, st2)" "i_read st2 = i_read st1 @ c2" "i_written st2 = i_written st1 @ c2"
    using assms(1,2,10-16) f1 f2 by (simp add: input_iteration_def input_forward_def u2 [unfolded 1(4)] 1(4))
  with 1 show ?thesis by (simp add: input_loop_def)
qed

theorem relay_continues_after_loss_witness:
  "\<exists>st'. input_loop [in_pass [1, 2] [sent_obs (-1)], in_pass [3] [sent_obs 1]] (example_in_state zero_server) = Some (True, st') \<and>
     i_read st' = [1, 2, 3] \<and> i_written st' = [3]"
  using relay_continues_after_loss [of "example_in_state zero_server" "in_pass [1, 2] [sent_obs (-1)]" "[1, 2]" "sent_obs (-1)"
      "in_pass [3] [sent_obs 1]" "[3]" "sent_obs 1"]
  by (auto simp: example_in_state_def zero_server_def in_pass_def sent_obs_def)

section \<open>Accounting of the input handler\<close>

text \<open>The descriptors closed so far and the one still to be closed.\<close>

definition closings :: "in_state \<Rightarrow> int list" where
  "closings st = i_closed st @ (if ls_input_local (i_slot st) = -1 then [] else [ls_input_local (i_slot st)])"

abbreviation conns :: "in_state \<Rightarrow> u32" where
  "conns st \<equiv> ss_connections_count (ps_statistics (i_server st))"

abbreviation bytes_in :: "in_state \<Rightarrow> u64" where
  "bytes_in st \<equiv> ss_bytes_received (ps_statistics (i_server st))"

definition acct :: "in_state \<Rightarrow> int list \<times> u32 \<times> bool \<times> u64" where
  "acct st = (closings st, conns st, ps_is_dynamic_port (i_server st),
     if ps_is_dynamic_port (i_server st) then bytes_in st else bytes_in st - of_nat (length (i_read st)))"

lemma close_input_closings [simp]:
  "closings (close_input st) = closings st" "closings (st\<lparr>i_slot := (i_slot st)\<lparr>ls_ssl_input := v\<rparr>\<rparr>) = closings st"
  by (simp_all add: closings_def close_input_def)

lemma forward_acct: "input_forward ob buf st = Some (b, st') \<Longrightarrow> acct st' = acct st"
proof (erule input_forward_result)
  fix array srv
  assume u: "update_server_statistics (io_now ob) (of_nat (length buf)) 0 (i_array st, i_server st) = (array, srv)"
    and s: "i_read st' = i_read st @ buf" "i_server st' = srv" "i_closed st' = i_closed st" "ls_input_local (i_slot st') = ls_input_local (i_slot st)"
  have "ss_connections_count (ps_statistics srv) = conns st"
    "\<not> ps_is_dynamic_port (i_server st) \<Longrightarrow> ss_bytes_received (ps_statistics srv) = bytes_in st + of_nat (length buf)"
    "ps_is_dynamic_port (i_server st) \<Longrightarrow> srv = i_server st"
    using u by (auto simp: update_server_statistics_def Let_def split: if_splits)
  with s update_server_statistics_flags [OF u] show "acct st' = acct st"
    by (simp add: acct_def closings_def)
qed

lemma iteration_acct: "input_iteration ob st = Some (b, st') \<Longrightarrow> acct st' = acct st"
  by (erule input_iteration_cases) (auto dest: forward_acct simp: acct_def)

lemma loop_acct: "relay_loop input_iteration obs st = Some (b, st') \<Longrightarrow> acct st' = acct st"
proof (induction obs arbitrary: st)
  case Nil
  then show ?case by simp
next
  case (Cons ob obs)
  then obtain b1 st1 where p: "input_iteration ob st = Some (b1, st1)" by (auto split: option.splits)
  with Cons iteration_acct [OF p] show ?case by (cases b1) auto
qed

lemma epilogue_facts:
  "i_closed (input_epilogue st) = closings st" "\<not> ls_is_input_connected (i_slot (input_epilogue st))"
  "ls_input_local (i_slot (input_epilogue st)) = -1" "ls_close_output_socket (i_slot (input_epilogue st))"
  "conns (input_epilogue st) = (if ps_is_dynamic_port (i_server st) then conns st else conns st - 1)"
  "bytes_in (input_epilogue st) = bytes_in st"
  by (auto simp: input_epilogue_def close_input_def closings_def add_connection_def Let_def)

lemma prologue_acct:
  assumes "input_prologue a c st = (True, st1)"
  shows "closings st1 = closings st" "conns st1 = (if ps_is_dynamic_port (i_server st) then conns st else conns st + 1)"
    "ps_is_dynamic_port (i_server st1) = ps_is_dynamic_port (i_server st)" "bytes_in st1 = bytes_in st" "i_read st1 = i_read st"
  using assms by (auto simp: input_prologue_def add_connection_def closings_def Let_def split: if_splits)

text \<open>
  C21. The input handler gives back what it took, on every path, through a failed handshake, a TLS error, the end of the
  connection or a timeout: when it ends it has closed its descriptor exactly once, the slot is free for another user, the
  server's count of connections is back at its value, and for a configured server the received bytes were counted exactly.
\<close>

theorem input_handler_releases:
  assumes "connection_input_handler ssl_new_ok accept_ok obs st = Some (False, st')" and "ls_input_local (i_slot st) \<noteq> -1"
    and "i_read st = []"
  shows "i_closed st' = i_closed st @ [ls_input_local (i_slot st)] \<and> \<not> ls_is_input_connected (i_slot st') \<and> conns st' = conns st \<and>
         (\<not> ps_is_dynamic_port (i_server st) \<longrightarrow> bytes_in st' = bytes_in st + of_nat (length (i_read st')))"
proof -
  obtain go st1 where p: "input_prologue ssl_new_ok accept_ok st = (go, st1)" by fastforce
  show ?thesis
  proof (cases go)
    case False
    with p assms(1) have "input_prologue ssl_new_ok accept_ok st = (False, st')" by (simp add: connection_input_handler_def)
    with assms(2,3) show ?thesis
      by (auto simp: input_prologue_def close_input_def Let_def split: if_splits)
  next
    case True
    with p assms(1) obtain st2 where l: "relay_loop input_iteration obs st1 = Some (False, st2)" and st': "st' = input_epilogue st2"
      by (auto simp: connection_input_handler_def input_loop_def split: option.splits bool.splits)
    have "input_prologue ssl_new_ok accept_ok st = (True, st1)" using p True by simp
    note a = loop_acct [OF l] and f = prologue_acct [OF this]
    have "closings st2 = closings st" "conns st2 = conns st1" "ps_is_dynamic_port (i_server st2) = ps_is_dynamic_port (i_server st)"
      using a f by (simp_all add: acct_def)
    moreover have "\<not> ps_is_dynamic_port (i_server st) \<longrightarrow> bytes_in st2 = bytes_in st + of_nat (length (i_read st2))"
      using a f assms(3) by (auto simp: acct_def diff_eq_eq split: if_splits)
    ultimately show ?thesis
      using assms(2) f epilogue_facts [of st2] by (simp add: st' closings_def)
  qed
qed

theorem input_handler_releases_witness:
  "\<exists>st'. connection_input_handler True True [in_pass [1, 2] [sent_obs 2], (in_pass [] [])\<lparr>io_read := Read_closed\<rparr>]
       (example_in_state zero_server) = Some (False, st') \<and> i_closed st' = [9] \<and> conns st' = 0"
proof -
  let ?obs = "[in_pass [1, 2] [sent_obs 2], (in_pass [] [])\<lparr>io_read := Read_closed\<rparr>]"
  have "\<exists>st'. connection_input_handler True True ?obs (example_in_state zero_server) = Some (False, st')"
    by (simp add: example_relay_defs Let_def)
  then obtain st' where r: "connection_input_handler True True ?obs (example_in_state zero_server) = Some (False, st')" ..
  with input_handler_releases [OF r] show ?thesis by (simp add: example_in_state_def example_slot_def zero_server_def zero_statistics_def)
qed

section \<open>Assignment of slots\<close>

lemma slot_with_output:
  assumes "get_input_socket_with_output ss = int i"
  shows "i < length ss" "ls_is_output_connected (ss ! i)" "\<not> ls_is_input_connected (ss ! i)"
  using assms by (auto simp: get_input_socket_with_output_def first_index_Some_iff split: option.splits)

lemma slot_choice_unchanged:
  assumes "i < length ss"
  shows "get_input_socket_with_output (ss[i := (ss ! i)\<lparr>ls_input_local := fd\<rparr>]) = get_input_socket_with_output ss"
proof -
  have "first_index (\<lambda>s. ls_is_output_connected s \<and> \<not> ls_is_input_connected s) (ss[i := (ss ! i)\<lparr>ls_input_local := fd\<rparr>]) =
      first_index (\<lambda>s. ls_is_output_connected s \<and> \<not> ls_is_input_connected s) ss"
    by (rule first_index_cong [where f = "\<lambda>s. (ls_is_output_connected s, ls_is_input_connected s)"
          and g = "\<lambda>s. (ls_is_output_connected s, ls_is_input_connected s)"])
      (use assms in \<open>auto simp: nth_list_update intro!: nth_equalityI\<close>)
  then show ?thesis by (simp add: get_input_socket_with_output_def)
qed

text \<open>
  Slots are claimed too late: the listener picks a slot by flags that only the handler thread sets. If the handler of an accepted user
  has run before the next user is accepted, the next one never gets the same slot; but if it has not, two users are given
  the same slot, two handlers run on it, and the first user's descriptor is overwritten without being closed.
\<close>

theorem slot_assignment_race:
  assumes "get_input_socket_with_output (li_slots st) = int i" and "0 \<le> fd1" and "0 \<le> fd2" and "fd1 \<noteq> fd2"
    and "st1 = serverInputThread_accept fd1 True True st"
    and "fd1 \<notin> ls_input_local ` set (li_slots st)" and "fd1 \<notin> set (li_closed st)"
  shows "li_started st1 = li_started st @ [i] \<and>
         (let st2 = serverInputThread_accept fd2 True True st1
          in li_started st2 = li_started st @ [i, i] \<and> ls_input_local (li_slots st2 ! i) = fd2 \<and>
             fd1 \<notin> ls_input_local ` set (li_slots st2) \<and> fd1 \<notin> set (li_closed st2)) \<and>
         get_input_socket_with_output (li_slots (input_handler_starts i st1)) \<noteq> int i"
proof -
  note i = slot_with_output [OF assms(1)]
  let ?ss = "(li_slots st)[i := (li_slots st ! i)\<lparr>ls_input_local := fd1\<rparr>]"
  have st1: "st1 = st\<lparr>li_slots := ?ss, li_started := li_started st @ [i]\<rparr>"
    using assms(1,2,5) by (simp add: serverInputThread_accept_def Let_def)
  have g: "get_input_socket_with_output ?ss = int i" using slot_choice_unchanged [OF i(1)] assms(1) by simp
  let ?ss2 = "?ss[i := (?ss ! i)\<lparr>ls_input_local := fd2\<rparr>]"
  have st2: "serverInputThread_accept fd2 True True st1 = st1\<lparr>li_slots := ?ss2, li_started := li_started st1 @ [i]\<rparr>"
    using g assms(3) by (simp add: serverInputThread_accept_def st1 Let_def)
  have "ls_input_local s \<noteq> fd1" if "s \<in> set ?ss2" for s
  proof -
    from that obtain j where j: "j < length ?ss2" "s = ?ss2 ! j" by (auto simp: in_set_conv_nth)
    show ?thesis
    proof (cases "j = i")
      case True
      with j i(1) assms(4) show ?thesis by simp
    next
      case False
      with j have "s \<in> set (li_slots st)" by simp
      with assms(6) show ?thesis by force
    qed
  qed
  moreover have "ls_input_local (?ss2 ! i) = fd2" using i(1) by simp
  moreover have "get_input_socket_with_output (li_slots (input_handler_starts i st1)) \<noteq> int i"
  proof
    assume "get_input_socket_with_output (li_slots (input_handler_starts i st1)) = int i"
    from slot_with_output(3) [OF this] i(1) show False by (simp add: input_handler_starts_def st1)
  qed
  moreover have "li_closed st1 = li_closed st" "li_started st1 = li_started st @ [i]" by (simp_all add: st1)
  ultimately show ?thesis using assms(7) by (auto simp: st2 Let_def)
qed

theorem slot_assignment_race_witness:
  "let st = \<lparr>li_slots = [zero_local_socket\<lparr>ls_input_local := -1, ls_is_output_connected := True\<rparr>], li_closed = [], li_started = []\<rparr>;
       st2 = serverInputThread_accept 11 True True (serverInputThread_accept 10 True True st)
   in li_started st2 = [0, 0] \<and> map ls_input_local (li_slots st2) = [11] \<and> li_closed st2 = []"
  using slot_assignment_race [of "\<lparr>li_slots = [zero_local_socket\<lparr>ls_input_local := -1, ls_is_output_connected := True\<rparr>], li_closed = [], li_started = []\<rparr>"
      0 10 11 "serverInputThread_accept 10 True True
        \<lparr>li_slots = [zero_local_socket\<lparr>ls_input_local := -1, ls_is_output_connected := True\<rparr>], li_closed = [], li_started = []\<rparr>"]
  by (simp add: get_input_socket_with_output_def zero_local_socket_def serverInputThread_accept_def Let_def)

end
