(* ===== verification/Server_Listeners.thy ===== *)
theory Server_Listeners
  imports Relay
begin

text \<open>
  The listening threads of one server of \<open>src/server/proxy/server/proxy_server.c\<close>: starting them (\<open>server_input_start\<close>, \<open>server_output_start\<close>, over the thread
  wrapper \<open>thread_linux.c\<close>), their accept loops, and the interleaving of both with the handler threads they create, over the 25 slots
  the threads of a server share.
\<close>

section \<open>Threads\<close>

text \<open>\<open>struct sThread\<close>; \<open>Thread_create\<close> returns NULL when there is no memory. \<open>th_state\<close> is 1 once it was started.\<close>

record c_thread =
  th_state :: int
  th_autodestroy :: bool

definition Thread_create :: "bool \<Rightarrow> bool \<Rightarrow> c_thread option" where
  "Thread_create malloc_ok autodestroy = (if malloc_ok then Some \<lparr>th_state = 0, th_autodestroy = autodestroy\<rparr> else None)"

text \<open>
  \<open>Thread_start\<close> dereferences its argument and does not look at the result \<open>pthread_ok\<close> of \<open>pthread_create\<close>. None is the access through NULL; the flag
  says whether the thread's function is going to run.
\<close>

definition Thread_start :: "bool \<Rightarrow> c_thread option \<Rightarrow> (bool \<times> c_thread) option" where
  "Thread_start pthread_ok th = (case th of None \<Rightarrow> None | Some t \<Rightarrow> Some (pthread_ok, t\<lparr>th_state := 1\<rparr>))"

section \<open>A listening thread\<close>

text \<open>The flags \<open>is_input_starting\<close> and \<open>is_output_starting\<close> of the server beside its other fields, the listening descriptors it has closed, and the slots.\<close>

record listening_server =
  ln_server :: proxy_server
  ln_input_starting :: bool
  ln_output_starting :: bool
  ln_closed :: "int list"
  ln_accepted :: listener_state

text \<open>One pass: the stop flag at its head, \<open>select\<close>, the result of \<open>accept\<close>, of \<open>fcntl\<close>, and of creating the handler thread.\<close>

record accept_obs =
  ac_stop :: bool
  ac_select :: int
  ac_fd :: int
  ac_fcntl :: bool
  ac_thread :: bool

definition input_listener_pass :: "accept_obs \<Rightarrow> listening_server \<Rightarrow> (bool \<times> listening_server) option" where
  "input_listener_pass ob st =
     (if ac_stop ob then Some (False, st)
      else if ac_select ob = -1 then Some (False, st)
      else if ac_select ob = 0 then Some (True, st)
      else Some (True, st\<lparr>ln_accepted := serverInputThread_accept (ac_fd ob) (ac_fcntl ob) (ac_thread ob) (ln_accepted st)\<rparr>))"

definition output_listener_pass :: "accept_obs \<Rightarrow> listening_server \<Rightarrow> (bool \<times> listening_server) option" where
  "output_listener_pass ob st =
     (if ac_stop ob then Some (False, st)
      else if ac_select ob = -1 then Some (False, st)
      else if ac_select ob = 0 then Some (True, st)
      else Some (True, st\<lparr>ln_accepted := serverOutputThread_accept (ac_fd ob) (ac_fcntl ob) (ac_thread ob) (ln_accepted st)\<rparr>))"

text \<open>The threads, from their first line on; \<open>(True, _)\<close> while they listen.\<close>

definition serverInputThread :: "accept_obs list \<Rightarrow> listening_server \<Rightarrow> (bool \<times> listening_server) option" where
  "serverInputThread obs st =
     (if \<not> ps_is_input_enabled (ln_server st) then Some (False, st)
      else
        case relay_loop input_listener_pass obs (st\<lparr>ln_server := (ln_server st)\<lparr>ps_is_input_running := True\<rparr>, ln_input_starting := False\<rparr>) of
          Some (False, st1) \<Rightarrow>
            Some (False, st1\<lparr>ln_closed := ln_closed st1 @ [ps_input (ln_server st1)],
                             ln_server := (ln_server st1)\<lparr>ps_is_input_running := False\<rparr>\<rparr>)
        | r \<Rightarrow> r)"

definition serverOutputThread :: "accept_obs list \<Rightarrow> listening_server \<Rightarrow> (bool \<times> listening_server) option" where
  "serverOutputThread obs st =
     (if \<not> ps_is_output_enabled (ln_server st) then Some (False, st)
      else
        case relay_loop output_listener_pass obs (st\<lparr>ln_server := (ln_server st)\<lparr>ps_is_output_running := True\<rparr>, ln_output_starting := False\<rparr>) of
          Some (False, st1) \<Rightarrow>
            Some (False, st1\<lparr>ln_closed := ln_closed st1 @ [ps_output (ln_server st1)],
                             ln_server := (ln_server st1)\<lparr>ps_is_output_running := False\<rparr>\<rparr>)
        | r \<Rightarrow> r)"

text \<open>
  \<open>server_input_start\<close> and \<open>server_output_start\<close>: start the thread and wait, without a limit, until it clears its starting flag. The thread is seen
  from its start to the passes \<open>obs\<close>.
\<close>

datatype listener_start = Listener_started listening_server | Waits_forever | Null_thread

definition server_input_start_listener :: "bool \<Rightarrow> bool \<Rightarrow> accept_obs list \<Rightarrow> listening_server \<Rightarrow> listener_start" where
  "server_input_start_listener malloc_ok pthread_ok obs st =
     (if ps_is_input_running (ln_server st) then Listener_started st
      else
        let st1 = st\<lparr>ln_input_starting := True, ln_server := (ln_server st)\<lparr>ps_stop_input_running := False\<rparr>\<rparr>
        in case Thread_start pthread_ok (Thread_create malloc_ok False) of
             None \<Rightarrow> Null_thread
           | Some (runs, _) \<Rightarrow>
               (case (if runs then serverInputThread obs st1 else Some (False, st1)) of
                  Some (_, st2) \<Rightarrow> if ln_input_starting st2 then Waits_forever else Listener_started st2
                | None \<Rightarrow> Waits_forever))"

definition server_output_start_listener :: "bool \<Rightarrow> bool \<Rightarrow> accept_obs list \<Rightarrow> listening_server \<Rightarrow> listener_start" where
  "server_output_start_listener malloc_ok pthread_ok obs st =
     (if ps_is_output_running (ln_server st) then Listener_started st
      else
        let st1 = st\<lparr>ln_output_starting := True, ln_server := (ln_server st)\<lparr>ps_stop_output_running := False\<rparr>\<rparr>
        in case Thread_start pthread_ok (Thread_create malloc_ok False) of
             None \<Rightarrow> Null_thread
           | Some (runs, _) \<Rightarrow>
               (case (if runs then serverOutputThread obs st1 else Some (False, st1)) of
                  Some (_, st2) \<Rightarrow> if ln_output_starting st2 then Waits_forever else Listener_started st2
                | None \<Rightarrow> Waits_forever))"

section \<open>Listeners and handlers together\<close>

text \<open>The ways a handler ends: before its TLS handshake, in it, and after its main loop.\<close>

datatype handler_end = Before_handshake | Handshake_failed | After_loop

text \<open>What the end of a handler does to its slot, and the descriptors it closes.\<close>

definition input_slot_left :: "handler_end \<Rightarrow> local_socket \<Rightarrow> local_socket" where
  "input_slot_left e s =
     (case e of
        Before_handshake \<Rightarrow> s\<lparr>ls_is_input_connected := False\<rparr>
      | Handshake_failed \<Rightarrow> s\<lparr>ls_input_local := -1, ls_is_input_connected := False\<rparr>
      | After_loop \<Rightarrow> s\<lparr>ls_input_local := -1, ls_close_output_socket := True, ls_is_input_connected := False\<rparr>)"

definition output_slot_left :: "handler_end \<Rightarrow> local_socket \<Rightarrow> local_socket" where
  "output_slot_left e s =
     (case e of
        Before_handshake \<Rightarrow> s\<lparr>ls_is_output_connected := False\<rparr>
      | Handshake_failed \<Rightarrow> s\<lparr>ls_output_local := -1, ls_is_output_connected := False\<rparr>
      | After_loop \<Rightarrow> s\<lparr>ls_output_local := -1, ls_is_output_connected := False, ls_close_output_socket := False\<rparr>)"

text \<open>
  The slots, and for each direction the handlers created but not yet run and the running ones, by the slot they were given (one entry per
  handler).
\<close>

record joint =
  j_listener :: listener_state
  j_in_pending :: "nat list"
  j_in_running :: "nat list"
  j_out_pending :: "nat list"
  j_out_running :: "nat list"

definition user_accepted :: "int \<Rightarrow> bool \<Rightarrow> bool \<Rightarrow> joint \<Rightarrow> joint" where
  "user_accepted fd fcntl_ok thread_ok st =
     (let l = serverInputThread_accept fd fcntl_ok thread_ok (j_listener st)
      in st\<lparr>j_listener := l, j_in_pending := j_in_pending st @ drop (length (li_started (j_listener st))) (li_started l)\<rparr>)"

definition device_accepted :: "int \<Rightarrow> bool \<Rightarrow> bool \<Rightarrow> joint \<Rightarrow> joint" where
  "device_accepted fd fcntl_ok thread_ok st =
     (let l = serverOutputThread_accept fd fcntl_ok thread_ok (j_listener st)
      in st\<lparr>j_listener := l, j_out_pending := j_out_pending st @ drop (length (li_started (j_listener st))) (li_started l)\<rparr>)"

definition set_slot :: "nat \<Rightarrow> (local_socket \<Rightarrow> local_socket) \<Rightarrow> listener_state \<Rightarrow> listener_state" where
  "set_slot i f l = l\<lparr>li_slots := (li_slots l)[i := f (li_slots l ! i)]\<rparr>"

text \<open>
  The steps. With \<open>serial\<close> a listener accepts only when every handler created before has run its first line, which sets the connected flag of its slot;
  the code does nothing to make sure of that.
\<close>

inductive joint_step :: "bool \<Rightarrow> joint \<Rightarrow> joint \<Rightarrow> bool" for serial :: bool where
  accept_user: "(serial \<longrightarrow> j_in_pending st = []) \<Longrightarrow> joint_step serial st (user_accepted fd fcntl_ok thread_ok st)"
| accept_device: "(serial \<longrightarrow> j_out_pending st = []) \<Longrightarrow> joint_step serial st (device_accepted fd fcntl_ok thread_ok st)"
| input_runs: "i \<in> set (j_in_pending st) \<Longrightarrow>
    joint_step serial st (st\<lparr>j_listener := input_handler_starts i (j_listener st), j_in_pending := remove1 i (j_in_pending st),
      j_in_running := i # j_in_running st\<rparr>)"
| output_runs: "i \<in> set (j_out_pending st) \<Longrightarrow>
    joint_step serial st (st\<lparr>j_listener := output_handler_starts i (j_listener st), j_out_pending := remove1 i (j_out_pending st),
      j_out_running := i # j_out_running st\<rparr>)"
| input_ends: "i \<in> set (j_in_running st) \<Longrightarrow>
    joint_step serial st (st\<lparr>j_listener := set_slot i (input_slot_left e) (j_listener st), j_in_running := remove1 i (j_in_running st)\<rparr>)"
| output_ends: "i \<in> set (j_out_running st) \<Longrightarrow>
    joint_step serial st (st\<lparr>j_listener := set_slot i (output_slot_left e) (j_listener st), j_out_running := remove1 i (j_out_running st)\<rparr>)"

definition initial_joint :: joint where
  "initial_joint =
     \<lparr>j_listener = \<lparr>li_slots = replicate count_socket_thread zero_local_socket, li_closed = [], li_started = []\<rparr>,
      j_in_pending = [], j_in_running = [], j_out_pending = [], j_out_running = []\<rparr>"

section \<open>What accepting does\<close>

definition in_connected :: "listener_state \<Rightarrow> nat \<Rightarrow> bool" where
  "in_connected l i \<longleftrightarrow> i < length (li_slots l) \<and> ls_is_input_connected (li_slots l ! i)"

definition out_connected :: "listener_state \<Rightarrow> nat \<Rightarrow> bool" where
  "out_connected l i \<longleftrightarrow> i < length (li_slots l) \<and> ls_is_output_connected (li_slots l ! i)"

definition same_flags :: "listener_state \<Rightarrow> listener_state \<Rightarrow> bool" where
  "same_flags l l' \<longleftrightarrow>
     length (li_slots l') = length (li_slots l) \<and> in_connected l' = in_connected l \<and> out_connected l' = out_connected l"

lemma same_flags_refl: "same_flags l l"
  by (simp add: same_flags_def)

lemma nth_update_in: "j < length xs \<Longrightarrow> xs[i := y] ! j = (if i = j then y else xs ! j)"
  by (cases "i = j") simp_all

lemma same_flagsI:
  "li_slots l' = (li_slots l)[i := s] \<Longrightarrow> ls_is_input_connected s = ls_is_input_connected (li_slots l ! i) \<Longrightarrow>
   ls_is_output_connected s = ls_is_output_connected (li_slots l ! i) \<Longrightarrow> same_flags l l'"
  by (auto simp: same_flags_def in_connected_def out_connected_def nth_update_in fun_eq_iff split: if_splits)

lemma free_output_slot:
  assumes "get_free_output_socket ss = int i"
  shows "i < length ss" "\<not> ls_is_output_connected (ss ! i)"
  using assms by (auto simp: get_free_output_socket_def first_index_Some_iff split: option.splits)

lemma slot_choice_cases:
  "get_input_socket_with_output ss = -1 \<or> (\<exists>i. get_input_socket_with_output ss = int i)"
  "get_free_output_socket ss = -1 \<or> (\<exists>i. get_free_output_socket ss = int i)"
  by (auto simp: get_input_socket_with_output_def get_free_output_socket_def split: option.split)

text \<open>A user gets a slot whose device is connected and which no user holds; a device gets a slot without a device.\<close>

lemma user_slot:
  "same_flags l (serverInputThread_accept fd fcntl_ok thread_ok l) \<and>
   (li_started (serverInputThread_accept fd fcntl_ok thread_ok l) = li_started l \<or>
    (\<exists>i. li_started (serverInputThread_accept fd fcntl_ok thread_ok l) = li_started l @ [i] \<and> i < length (li_slots l) \<and>
       out_connected l i \<and> \<not> in_connected l i))"
proof (cases "fd < 0 \<or> \<not> fcntl_ok \<or> get_input_socket_with_output (li_slots l) = -1")
  case True
  then show ?thesis
    by (auto simp: serverInputThread_accept_def same_flags_def in_connected_def out_connected_def fun_eq_iff)
next
  case False
  then obtain i where i: "get_input_socket_with_output (li_slots l) = int i" using slot_choice_cases(1) by blast
  note slot = slot_with_output [OF i]
  have "same_flags l (serverInputThread_accept fd fcntl_ok thread_ok l)"
    by (rule same_flagsI [of _ _ i "(li_slots l ! i)\<lparr>ls_input_local := fd\<rparr>"])
      (use False i in \<open>simp_all add: serverInputThread_accept_def Let_def\<close>)
  then show ?thesis
    using slot False i by (auto simp: serverInputThread_accept_def Let_def in_connected_def out_connected_def)
qed

lemma device_slot:
  "same_flags l (serverOutputThread_accept fd fcntl_ok thread_ok l) \<and>
   (li_started (serverOutputThread_accept fd fcntl_ok thread_ok l) = li_started l \<or>
    (\<exists>i. li_started (serverOutputThread_accept fd fcntl_ok thread_ok l) = li_started l @ [i] \<and> i < length (li_slots l) \<and> \<not> out_connected l i))"
proof (cases "fd < 0 \<or> \<not> fcntl_ok \<or> get_free_output_socket (li_slots l) = -1")
  case True
  then show ?thesis
    by (auto simp: serverOutputThread_accept_def same_flags_def in_connected_def out_connected_def fun_eq_iff)
next
  case False
  then obtain i where i: "get_free_output_socket (li_slots l) = int i" using slot_choice_cases(2) by blast
  note slot = free_output_slot [OF i]
  have "same_flags l (serverOutputThread_accept fd fcntl_ok thread_ok l)"
    by (rule same_flagsI [of _ _ i "(li_slots l ! i)\<lparr>ls_output_local := fd\<rparr>"])
      (use False i in \<open>simp_all add: serverOutputThread_accept_def Let_def\<close>)
  then show ?thesis
    using slot False i by (auto simp: serverOutputThread_accept_def Let_def in_connected_def out_connected_def)
qed

section \<open>Invariants\<close>

text \<open>One direction: handlers \<open>pending\<close> and \<open>running\<close> over \<open>n\<close> slots whose flags are \<open>connected\<close>.\<close>

definition handlers_wf :: "nat \<Rightarrow> (nat \<Rightarrow> bool) \<Rightarrow> nat list \<Rightarrow> nat list \<Rightarrow> bool" where
  "handlers_wf n connected pending running \<longleftrightarrow>
     list_all (\<lambda>i. i < n) (pending @ running) \<and> (\<forall>i. connected i \<longrightarrow> i \<in> set running)"

definition one_handler :: "(nat \<Rightarrow> bool) \<Rightarrow> nat list \<Rightarrow> nat list \<Rightarrow> bool" where
  "one_handler connected pending running \<longleftrightarrow> distinct (pending @ running) \<and> (\<forall>i \<in> set running. connected i)"

definition handlers_ok :: "bool \<Rightarrow> nat \<Rightarrow> (nat \<Rightarrow> bool) \<Rightarrow> nat list \<Rightarrow> nat list \<Rightarrow> bool" where
  "handlers_ok serial n connected pending running \<longleftrightarrow>
     handlers_wf n connected pending running \<and> (serial \<longrightarrow> one_handler connected pending running)"

lemmas handlers_defs = handlers_ok_def handlers_wf_def one_handler_def

lemma handlers_ok_created:
  "handlers_ok serial n connected pending running \<Longrightarrow> i < n \<Longrightarrow> \<not> connected i \<Longrightarrow> (serial \<longrightarrow> pending = []) \<Longrightarrow>
   handlers_ok serial n connected (pending @ [i]) running"
  by (auto simp: handlers_defs)

lemma handlers_ok_runs:
  "handlers_ok serial n connected pending running \<Longrightarrow> i \<in> set pending \<Longrightarrow>
   handlers_ok serial n (connected(i := True)) (remove1 i pending) (i # running)"
  by (auto simp: handlers_defs list_all_iff dest: set_remove1_subset [THEN subsetD])

lemma handlers_ok_ends:
  "handlers_ok serial n connected pending running \<Longrightarrow> i \<in> set running \<Longrightarrow>
   handlers_ok serial n (connected(i := False)) pending (remove1 i running)"
  by (auto simp: handlers_defs list_all_iff dest: set_remove1_subset [THEN subsetD])

definition joint_ok :: "bool \<Rightarrow> nat \<Rightarrow> joint \<Rightarrow> bool" where
  "joint_ok serial n st \<longleftrightarrow>
     length (li_slots (j_listener st)) = n \<and>
     handlers_ok serial n (in_connected (j_listener st)) (j_in_pending st) (j_in_running st) \<and>
     handlers_ok serial n (out_connected (j_listener st)) (j_out_pending st) (j_out_running st)"

text \<open>The flags after the first line and after the end of a handler.\<close>

lemma starts_flags:
  "i < length (li_slots l) \<Longrightarrow> length (li_slots (input_handler_starts i l)) = length (li_slots l) \<and>
     in_connected (input_handler_starts i l) = (in_connected l)(i := True) \<and> out_connected (input_handler_starts i l) = out_connected l"
  "i < length (li_slots l) \<Longrightarrow> length (li_slots (output_handler_starts i l)) = length (li_slots l) \<and>
     in_connected (output_handler_starts i l) = in_connected l \<and> out_connected (output_handler_starts i l) = (out_connected l)(i := True)"
  by (auto simp: input_handler_starts_def output_handler_starts_def in_connected_def out_connected_def nth_list_update fun_eq_iff)

lemma ends_flags:
  "i < length (li_slots l) \<Longrightarrow> length (li_slots (set_slot i (input_slot_left e) l)) = length (li_slots l) \<and>
     in_connected (set_slot i (input_slot_left e) l) = (in_connected l)(i := False) \<and> out_connected (set_slot i (input_slot_left e) l) = out_connected l"
  "i < length (li_slots l) \<Longrightarrow> length (li_slots (set_slot i (output_slot_left e) l)) = length (li_slots l) \<and>
     in_connected (set_slot i (output_slot_left e) l) = in_connected l \<and> out_connected (set_slot i (output_slot_left e) l) = (out_connected l)(i := False)"
  by (auto simp: set_slot_def input_slot_left_def output_slot_left_def in_connected_def out_connected_def nth_list_update fun_eq_iff
      split: handler_end.split)

lemma user_accepted_ok:
  assumes "joint_ok serial n st" and "serial \<longrightarrow> j_in_pending st = []"
  shows "joint_ok serial n (user_accepted fd fcntl_ok thread_ok st)"
proof -
  let ?l = "serverInputThread_accept fd fcntl_ok thread_ok (j_listener st)"
  consider "li_started ?l = li_started (j_listener st)"
    | i where "li_started ?l = li_started (j_listener st) @ [i]" "i < length (li_slots (j_listener st))" "\<not> in_connected (j_listener st) i"
    using user_slot [of "j_listener st" fd fcntl_ok thread_ok] by blast
  then show ?thesis
    using assms user_slot [of "j_listener st" fd fcntl_ok thread_ok]
    by cases (auto simp: joint_ok_def user_accepted_def same_flags_def Let_def intro: handlers_ok_created)
qed

lemma device_accepted_ok:
  assumes "joint_ok serial n st" and "serial \<longrightarrow> j_out_pending st = []"
  shows "joint_ok serial n (device_accepted fd fcntl_ok thread_ok st)"
proof -
  let ?l = "serverOutputThread_accept fd fcntl_ok thread_ok (j_listener st)"
  consider "li_started ?l = li_started (j_listener st)"
    | i where "li_started ?l = li_started (j_listener st) @ [i]" "i < length (li_slots (j_listener st))" "\<not> out_connected (j_listener st) i"
    using device_slot [of "j_listener st" fd fcntl_ok thread_ok] by blast
  then show ?thesis
    using assms device_slot [of "j_listener st" fd fcntl_ok thread_ok]
    by cases (auto simp: joint_ok_def device_accepted_def same_flags_def Let_def intro: handlers_ok_created)
qed

lemma joint_ok_index:
  assumes "joint_ok serial n st"
  shows "i \<in> set (j_in_pending st) \<or> i \<in> set (j_in_running st) \<or> i \<in> set (j_out_pending st) \<or> i \<in> set (j_out_running st) \<Longrightarrow>
    i < length (li_slots (j_listener st))"
  using assms by (auto simp: joint_ok_def handlers_defs list_all_iff)

lemma joint_step_ok:
  assumes "joint_step serial st st'" and "joint_ok serial n st"
  shows "joint_ok serial n st'"
  using assms
proof (induction rule: joint_step.induct)
  case (input_runs i st)
  then show ?case using joint_ok_index [OF input_runs.prems, of i] starts_flags(1)
    by (auto simp: joint_ok_def intro: handlers_ok_runs)
next
  case (output_runs i st)
  then show ?case using joint_ok_index [OF output_runs.prems, of i] starts_flags(2)
    by (auto simp: joint_ok_def intro: handlers_ok_runs)
next
  case (input_ends i st e)
  then show ?case using joint_ok_index [OF input_ends.prems, of i] ends_flags(1)
    by (auto simp: joint_ok_def intro: handlers_ok_ends)
next
  case (output_ends i st e)
  then show ?case using joint_ok_index [OF output_ends.prems, of i] ends_flags(2)
    by (auto simp: joint_ok_def intro: handlers_ok_ends)
qed (simp_all add: user_accepted_ok device_accepted_ok)

lemma initial_joint_ok: "joint_ok serial count_socket_thread initial_joint"
  by (auto simp: joint_ok_def initial_joint_def handlers_defs in_connected_def out_connected_def zero_local_socket_def)

lemma reachable_joint_ok: "(joint_step serial)\<^sup>*\<^sup>* initial_joint st \<Longrightarrow> joint_ok serial count_socket_thread st"
  by (induction rule: rtranclp_induct) (auto intro: initial_joint_ok joint_step_ok)

section \<open>The handlers end as the steps say\<close>

lemma input_loop_slot:
  "input_loop obs st = Some (b, st') \<Longrightarrow>
   \<exists>fd. local_socket.truncate (i_slot st') = (local_socket.truncate (i_slot st))\<lparr>ls_input_local := fd\<rparr>"
  unfolding input_loop_def
proof (induction obs arbitrary: st)
  case Nil
  then show ?case by (auto intro: exI [of _ "ls_input_local (i_slot st)"] simp: local_socket.truncate_def)
next
  case (Cons ob obs)
  then obtain b1 st1 where p: "input_iteration ob st = Some (b1, st1)" by (auto split: option.splits)
  have "\<exists>fd. local_socket.truncate (i_slot st1) = (local_socket.truncate (i_slot st))\<lparr>ls_input_local := fd\<rparr>"
    using p by (cases "i_slot st")
      (auto simp: input_iteration_def input_forward_def close_input_def local_socket.truncate_def Let_def
        split: if_splits read_obs.splits option.splits prod.splits)
  then obtain fd where fd: "local_socket.truncate (i_slot st1) = (local_socket.truncate (i_slot st))\<lparr>ls_input_local := fd\<rparr>" ..
  show ?case
  proof (cases b1)
    case True
    with p Cons.prems have "relay_loop input_iteration obs st1 = Some (b, st')" by simp
    from Cons.IH [OF this] fd show ?thesis by auto
  next
    case False
    with p Cons.prems fd show ?thesis by auto
  qed
qed

text \<open>A handler that ends leaves in its slot what \<open>input_slot_left\<close> says, up to the descriptor of a handshake that never took place.\<close>

lemma input_handler_leaves:
  assumes "connection_input_handler ssl_new_ok accept_ok obs st = Some (False, st')"
  shows "\<exists>e. local_socket.truncate (i_slot st') = input_slot_left e ((local_socket.truncate (i_slot st))\<lparr>ls_is_input_connected := True\<rparr>)"
proof (cases "input_prologue ssl_new_ok accept_ok st")
  case (Pair b st1)
  show ?thesis
  proof (cases b)
    case False
    with Pair assms have st': "st' = st1" by (simp add: connection_input_handler_def)
    have "local_socket.truncate (i_slot st1) = input_slot_left Before_handshake ((local_socket.truncate (i_slot st))\<lparr>ls_is_input_connected := True\<rparr>) \<or>
          local_socket.truncate (i_slot st1) = input_slot_left Handshake_failed ((local_socket.truncate (i_slot st))\<lparr>ls_is_input_connected := True\<rparr>)"
      using Pair False by (cases "i_slot st")
        (auto simp: input_prologue_def close_input_def input_slot_left_def local_socket.truncate_def Let_def split: if_splits)
    then show ?thesis unfolding st' by blast
  next
    case True
    then obtain st2 where loop: "input_loop obs st1 = Some (False, st2)" and st': "st' = input_epilogue st2"
      using Pair assms by (auto simp: connection_input_handler_def split: option.splits bool.splits prod.splits)
    have "local_socket.truncate (i_slot st1) = (local_socket.truncate (i_slot st))\<lparr>ls_is_input_connected := True\<rparr>"
      using Pair True by (cases "i_slot st")
        (auto simp: input_prologue_def add_connection_def local_socket.truncate_def Let_def split: if_splits)
    with input_loop_slot [OF loop] obtain fd where
      "local_socket.truncate (i_slot st2) = (local_socket.truncate (i_slot st))\<lparr>ls_is_input_connected := True, ls_input_local := fd\<rparr>" by auto
    then have "local_socket.truncate (i_slot st') = input_slot_left After_loop ((local_socket.truncate (i_slot st))\<lparr>ls_is_input_connected := True\<rparr>)"
      unfolding st' by (cases "i_slot st2")
        (auto simp: input_epilogue_def close_input_def add_connection_def input_slot_left_def local_socket.truncate_def Let_def)
    then show ?thesis ..
  qed
qed

section \<open>Starting a listener\<close>

lemma listener_loops_start:
  "\<exists>b st'. relay_loop input_listener_pass obs st = Some (b, st') \<and> ln_input_starting st' = ln_input_starting st \<and> ln_server st' = ln_server st"
  "\<exists>b st'. relay_loop output_listener_pass obs st = Some (b, st') \<and> ln_output_starting st' = ln_output_starting st \<and> ln_server st' = ln_server st"
proof (induction obs arbitrary: st)
  case (Cons ob obs)
  case 1
  show ?case using Cons(1) [of st] Cons(1) [of "st\<lparr>ln_accepted := serverInputThread_accept (ac_fd ob) (ac_fcntl ob) (ac_thread ob) (ln_accepted st)\<rparr>"]
    by (auto simp: input_listener_pass_def)
  case 2
  show ?case using Cons(2) [of st] Cons(2) [of "st\<lparr>ln_accepted := serverOutputThread_accept (ac_fd ob) (ac_fcntl ob) (ac_thread ob) (ln_accepted st)\<rparr>"]
    by (auto simp: output_listener_pass_def)
qed auto

text \<open>
  Without memory the start goes through a NULL pointer, and when the system cannot create the thread (or the direction is disabled) the caller waits for
  ever; otherwise it returns.
\<close>

lemma input_start_outcomes:
  assumes "\<not> ps_is_input_running (ln_server st)"
  shows "server_input_start_listener False pthread_ok obs st = Null_thread"
    and "server_input_start_listener True False obs st = Waits_forever"
    and "\<not> ps_is_input_enabled (ln_server st) \<Longrightarrow> server_input_start_listener True True obs st = Waits_forever"
    and "ps_is_input_enabled (ln_server st) \<Longrightarrow> \<exists>st'. server_input_start_listener True True obs st = Listener_started st' \<and> \<not> ln_input_starting st'"
proof -
  let ?st = "st\<lparr>ln_server := (ln_server st)\<lparr>ps_stop_input_running := False, ps_is_input_running := True\<rparr>,
    ln_input_starting := False\<rparr>"
  note defs = server_input_start_listener_def Thread_start_def Thread_create_def serverInputThread_def Let_def
  show "server_input_start_listener False pthread_ok obs st = Null_thread" "server_input_start_listener True False obs st = Waits_forever"
    "\<not> ps_is_input_enabled (ln_server st) \<Longrightarrow> server_input_start_listener True True obs st = Waits_forever"
    using assms by (simp_all add: defs)
  obtain b st1 where "relay_loop input_listener_pass obs ?st = Some (b, st1)" "\<not> ln_input_starting st1"
    using listener_loops_start(1) [of obs ?st] by auto
  then show "ps_is_input_enabled (ln_server st) \<Longrightarrow> \<exists>st'. server_input_start_listener True True obs st = Listener_started st' \<and> \<not> ln_input_starting st'"
    using assms by (cases b) (simp_all add: defs)
qed

section \<open>Properties\<close>

text \<open>
  C7. The slots of a server are used consistently under every interleaving of its two listeners and their handlers: there are always 25 slots, every handler works on one of them,
  and a slot is only marked as connected while a handler runs on it.
\<close>

theorem slots_well_formed:
  assumes "(joint_step False)\<^sup>*\<^sup>* initial_joint st"
  shows "length (li_slots (j_listener st)) = 25 \<and>
         list_all (\<lambda>i. i < 25) (j_in_pending st @ j_in_running st @ j_out_pending st @ j_out_running st) \<and>
         {i. in_connected (j_listener st) i} \<subseteq> set (j_in_running st) \<and> {i. out_connected (j_listener st) i} \<subseteq> set (j_out_running st)"
  using reachable_joint_ok [OF assms] by (auto simp: joint_ok_def handlers_defs count_socket_thread_def)

text \<open>
  C6. When a listener accepts only while no created handler has yet to run, no slot is ever shared: at most one user handler and one device handler hold a slot, exactly
  the running ones are marked as connected, and a user who is accepted in such a state joins a slot whose device is connected or is not given a slot.
\<close>

theorem one_handler_per_slot:
  assumes "(joint_step True)\<^sup>*\<^sup>* initial_joint st"
  shows "distinct (j_in_pending st @ j_in_running st) \<and> distinct (j_out_pending st @ j_out_running st) \<and>
         set (j_in_running st) = {i. in_connected (j_listener st) i} \<and> set (j_out_running st) = {i. out_connected (j_listener st) i} \<and>
         set (drop (length (li_started (j_listener st))) (li_started (serverInputThread_accept fd fcntl_ok thread_ok (j_listener st)))) \<subseteq>
           set (j_out_running st)"
  using reachable_joint_ok [OF assms] user_slot [of "j_listener st" fd fcntl_ok thread_ok]
  by (auto simp: joint_ok_def handlers_defs)

section \<open>Concrete runs\<close>

text \<open>A device connects, then two users before the first one's handler has run: both handlers are on slot 0.\<close>

definition device_connected :: joint where
  "device_connected = initial_joint\<lparr>j_listener := output_handler_starts 0 (serverOutputThread_accept 5 True True (j_listener initial_joint)),
     j_out_running := [0]\<rparr>"

lemma initial_slot_choices:
  "get_free_output_socket (replicate count_socket_thread zero_local_socket) = 0"
  "serverOutputThread_accept 5 True True (j_listener initial_joint) = \<lparr>li_slots = (replicate count_socket_thread zero_local_socket)[0 := zero_local_socket\<lparr>ls_output_local := 5\<rparr>],
     li_closed = [], li_started = [0]\<rparr>"
proof -
  have "first_index (\<lambda>s. \<not> ls_is_output_connected s) (replicate count_socket_thread zero_local_socket) = Some 0"
    by (simp add: first_index_Some_iff count_socket_thread_def zero_local_socket_def)
  then show free: "get_free_output_socket (replicate count_socket_thread zero_local_socket) = 0"
    by (simp add: get_free_output_socket_def)
  show "serverOutputThread_accept 5 True True (j_listener initial_joint) = \<lparr>li_slots = (replicate count_socket_thread zero_local_socket)[0 := zero_local_socket\<lparr>ls_output_local := 5\<rparr>],
     li_closed = [], li_started = [0]\<rparr>"
    using free by (simp add: serverOutputThread_accept_def initial_joint_def Let_def count_socket_thread_def)
qed

lemma device_connects: "(joint_step serial)\<^sup>*\<^sup>* initial_joint device_connected"
proof -
  let ?st = "device_accepted 5 True True initial_joint"
  have "joint_step serial initial_joint ?st"
    by (rule joint_step.accept_device) (simp add: initial_joint_def)
  moreover have st: "?st = initial_joint\<lparr>j_listener := serverOutputThread_accept 5 True True (j_listener initial_joint), j_out_pending := [0]\<rparr>"
    by (simp add: device_accepted_def initial_slot_choices Let_def) (simp add: initial_joint_def)
  then have "joint_step serial ?st device_connected"
    using joint_step.output_runs [of 0 ?st serial] by (simp add: device_connected_def initial_joint_def)
  ultimately show ?thesis by auto
qed

lemma device_connected_slot: "get_input_socket_with_output (li_slots (j_listener device_connected)) = 0"
proof -
  have "first_index (\<lambda>s. ls_is_output_connected s \<and> \<not> ls_is_input_connected s) (li_slots (j_listener device_connected)) = Some 0"
    by (simp add: first_index_Some_iff device_connected_def initial_slot_choices output_handler_starts_def count_socket_thread_def zero_local_socket_def)
  then show ?thesis by (simp add: get_input_socket_with_output_def)
qed

theorem slots_well_formed_witness:
  "(joint_step False)\<^sup>*\<^sup>* initial_joint (user_accepted 8 True True (user_accepted 7 True True device_connected)) \<and>
   length (li_slots (j_listener (user_accepted 8 True True (user_accepted 7 True True device_connected)))) = 25"
proof -
  have "(joint_step False)\<^sup>*\<^sup>* initial_joint (user_accepted 8 True True (user_accepted 7 True True device_connected))"
    using device_connects [of False] joint_step.accept_user [of False]
    by (meson rtranclp.rtrancl_into_rtrancl)
  from this slots_well_formed [OF this] show ?thesis by simp
qed

theorem one_handler_per_slot_witness:
  "\<exists>st. (joint_step True)\<^sup>*\<^sup>* initial_joint st \<and> j_in_pending st = [0] \<and> j_out_running st = [0] \<and> distinct (j_in_pending st @ j_in_running st)"
proof (intro exI conjI)
  let ?st = "user_accepted 7 True True device_connected"
  show run: "(joint_step True)\<^sup>*\<^sup>* initial_joint ?st"
    using device_connects [of True] joint_step.accept_user [of True device_connected 7 True True]
    by (simp add: device_connected_def initial_joint_def)
  show "j_in_pending ?st = [0]" "j_out_running ?st = [0]"
    using device_connected_slot
    by (simp_all add: user_accepted_def serverInputThread_accept_def Let_def) (simp_all add: device_connected_def initial_joint_def)
  show "distinct (j_in_pending ?st @ j_in_running ?st)"
    using one_handler_per_slot [OF run] by blast
qed

end
