(* ===== verification/Command_Line.thy ===== *)
theory Command_Line
  imports Client_Device
begin

text \<open>
  What the command lines of both programs share: the conversions \<open>%d\<close> and \<open>%hu\<close> of \<open>sscanf\<close>, the outcome of parsing an argument, and the
  round trip between printing and reading a number.
\<close>

section \<open>Reading numbers\<close>

text \<open>
  \<open>sscanf (s, "%d", &n)\<close>: white space, an optional sign, at least one digit. A value that does not fit is undefined behaviour in C.
\<close>

datatype scan = No_match | Scanned int | Scan_undefined

definition scan_number :: "int \<Rightarrow> int \<Rightarrow> string \<Rightarrow> scan" where
  "scan_number low high s =
     (case dropWhile is_space s of
        [] \<Rightarrow> No_match
      | c # cs \<Rightarrow>
          let digits = (if c = CHR ''-'' \<or> c = CHR ''+'' then cs else c # cs);
              v = (if c = CHR ''-'' then - digits_value digits else digits_value digits)
          in if takeWhile is_digit digits = [] then No_match
             else if low \<le> v \<and> v \<le> high then Scanned v else Scan_undefined)"

definition scan_d :: "string \<Rightarrow> scan" where
  "scan_d = scan_number (- (2 ^ 31)) (2 ^ 31 - 1)"

text \<open>\<open>%hu\<close>: a minus sign negates the value modulo \<open>2 ^ 16\<close>.\<close>

definition scan_hu :: "string \<Rightarrow> scan" where
  "scan_hu = scan_number (- (2 ^ 16 - 1)) (2 ^ 16 - 1)"

section \<open>Outcomes\<close>

text \<open>What parsing comes to: a value, the end of the process with a status, or undefined behaviour.\<close>

datatype 'a parsed = Parsed 'a | Exits int | Undefined

fun bind_parsed :: "'a parsed \<Rightarrow> ('a \<Rightarrow> 'b parsed) \<Rightarrow> 'b parsed" where
  "bind_parsed (Parsed x) f = f x"
| "bind_parsed (Exits n) f = Exits n"
| "bind_parsed Undefined f = Undefined"

lemma bind_parsed_assoc: "bind_parsed (bind_parsed m f) g = bind_parsed m (\<lambda>x. bind_parsed (f x) g)"
  by (cases m) simp_all

lemma bind_parsed_eq_Parsed: "bind_parsed m f = Parsed y \<longleftrightarrow> (\<exists>x. m = Parsed x \<and> f x = Parsed y)"
  by (cases m) simp_all

section \<open>Printing and reading\<close>

lemma digit_char_value: "d < 10 \<Longrightarrow> (of_char (digit_char d) :: nat) = d + 48"
  by (simp add: digit_char_def of_char_of take_bit_nat_eq_self)

lemma is_digit_digit_char: "d < 10 \<Longrightarrow> is_digit (digit_char d)"
  by (simp add: is_digit_def digit_char_value)

lemma print_base_digits: "list_all is_digit (print_base 10 n)"
proof (induction "10 :: nat" n rule: print_base.induct)
  case (1 n)
  then show ?case by (subst print_base.simps) (auto simp: is_digit_digit_char)
qed

lemma print_base_not_Nil: "print_base b n \<noteq> []"
  by (subst print_base.simps) simp

lemma takeWhile_is_digit: "list_all is_digit s \<Longrightarrow> takeWhile is_digit s = s"
  by (induction s) auto

lemma digits_value_print: "digits_value (print_base 10 n) = int n"
proof (induction "10 :: nat" n rule: print_base.induct)
  case (1 n)
  show ?case
  proof (cases "n < 10")
    case True
    then show ?thesis
      by (subst print_base.simps) (simp add: digits_value_def is_digit_digit_char digit_char_value)
  next
    case False
    then have IH: "digits_value (print_base 10 (n div 10)) = int (n div 10)" using 1 by simp
    have p: "print_base 10 n = print_base 10 (n div 10) @ [digit_char (n mod 10)]"
      using False by (subst print_base.simps) simp
    have "digits_value (print_base 10 m) = fold (\<lambda>c n. 10 * n + (int (of_char c) - 48)) (print_base 10 m) 0" for m
      unfolding digits_value_def takeWhile_is_digit [OF print_base_digits] ..
    from this [of n] this [of "n div 10"]
    have "digits_value (print_base 10 n) = 10 * digits_value (print_base 10 (n div 10)) + int (n mod 10)"
      by (simp only:) (simp add: p digit_char_value)
    also have "\<dots> = int (10 * (n div 10) + n mod 10)" by (simp only: IH of_nat_add of_nat_mult of_nat_numeral)
    finally show ?thesis by (simp only: mult_div_mod_eq)
  qed
qed

lemma digit_not_sign: "is_digit c \<Longrightarrow> c \<noteq> CHR ''-'' \<and> c \<noteq> CHR ''+'' \<and> \<not> is_space c"
  by (auto simp: is_digit_def is_space_def)

lemma scan_number_print:
  assumes "low \<le> int n" and "int n \<le> high"
  shows "scan_number low high (print_base 10 n) = Scanned (int n)"
proof -
  obtain c cs where p: "print_base 10 n = c # cs" by (cases "print_base 10 n") (auto simp: print_base_not_Nil)
  have d: "list_all is_digit (c # cs)" using print_base_digits [of n] p by simp
  have "dropWhile is_space (c # cs) = c # cs" "c \<noteq> CHR ''-''" "c \<noteq> CHR ''+''"
    using d digit_not_sign by auto
  then show ?thesis
    using assms d digits_value_print [of n] takeWhile_is_digit [OF d] by (simp add: scan_number_def p Let_def)
qed

lemma scan_d_print: "n < 2 ^ 31 \<Longrightarrow> scan_d (print_base 10 n) = Scanned (int n)"
  unfolding scan_d_def by (rule scan_number_print) simp_all

lemma scan_hu_print: "n < 2 ^ 16 \<Longrightarrow> scan_hu (print_base 10 n) = Scanned (int n)"
  unfolding scan_hu_def by (rule scan_number_print) simp_all

lemma atoi_print: "atoi (print_base 10 n) = int n"
proof -
  obtain c cs where p: "print_base 10 n = c # cs" by (cases "print_base 10 n") (auto simp: print_base_not_Nil)
  have "is_digit c" using print_base_digits [of n] p by simp
  then have "dropWhile is_space (c # cs) = c # cs" "c \<noteq> CHR ''-''" "c \<noteq> CHR ''+''"
    using digit_not_sign by auto
  then show ?thesis using digits_value_print [of n] by (simp add: atoi_def p)
qed

text \<open>A printed number contains no option.\<close>

lemma strstr_digits: "list_all is_digit s \<Longrightarrow> c \<in> set pat \<Longrightarrow> \<not> is_digit c \<Longrightarrow> \<not> strstr s pat"
  unfolding strstr_iff_sublist by (auto dest!: set_mono_sublist simp: list_all_iff)

lemma print_base_no_option: "strstr (print_base 10 n) (CHR ''-'' # pat) = False" "print_base 10 n \<noteq> CHR ''-'' # pat"
  using print_base_digits [of n] strstr_digits [of "print_base 10 n" "CHR ''-''" "CHR ''-'' # pat"] by (auto simp: is_digit_def)

end
