(* ===== verification/Database_Connection.thy ===== *)
theory Database_Connection
  imports Command_Line
begin

text \<open>
  The process-wide database connection, \<open>src/server/common/db/db.c\<close>: the connection text, opening it once, and the access every statement starts with.
\<close>

record db_state =
  db_conn :: bool
  db_is_inited :: bool

definition unopened_db :: db_state where
  "unopened_db = \<lparr>db_conn = False, db_is_inited = False\<rparr>"

text \<open>\<open>snprintf\<close> into 2048 bytes: the values are inserted as they are.\<close>

definition conninfo :: "string \<Rightarrow> string \<Rightarrow> string \<Rightarrow> string \<Rightarrow> string" where
  "conninfo ip port user password =
     take 2047 (''host='' @ ip @ '' port='' @ port @ '' dbname=net_port user='' @ user @ '' password='' @ password)"

text \<open>\<open>PQconnectdb\<close> returns NULL, a connection that is not \<open>CONNECTION_OK\<close>, or one that is.\<close>

datatype connect_answer = No_connection | Bad_connection | Good_connection

text \<open>\<open>exit (-1)\<close> ends the process; otherwise the result is 0.\<close>

definition db_init ::
  "(string \<Rightarrow> connect_answer) \<Rightarrow> string option \<Rightarrow> string option \<Rightarrow> string option \<Rightarrow> string option \<Rightarrow> db_state \<Rightarrow> (int \<times> db_state) parsed" where
  "db_init PQconnectdb ip_addr port username password st =
     (if db_conn st then Parsed (0, st)
      else case ip_addr of
             None \<Rightarrow> Exits (-1)
           | Some ip \<Rightarrow>
               (case PQconnectdb (conninfo ip (c_string_or ''5432'' port) (c_string_or ''admin'' username) (c_string_or ''admin123'' password)) of
                  Good_connection \<Rightarrow> Parsed (0, st\<lparr>db_conn := True, db_is_inited := True\<rparr>)
                | _ \<Rightarrow> Exits (-1)))"

text \<open>\<open>get_db_connection\<close>.\<close>

definition get_db_connection :: "db_state \<Rightarrow> unit parsed" where
  "get_db_connection st = (if db_conn st then Parsed () else Exits (-1))"

section \<open>Lemmas\<close>

text \<open>A process that survives \<open>db_init\<close> has a connection; later calls change nothing and do not look at their arguments.\<close>

lemma db_init_connects:
  assumes "db_init PQconnectdb ip port user pw st = Parsed (r, st')"
  shows "r = 0" and "get_db_connection st' = Parsed ()" and "db_init PQconnectdb' ip' port' user' pw' st' = Parsed (0, st')"
  using assms by (auto simp: db_init_def get_db_connection_def split: if_splits option.splits connect_answer.splits)

lemma db_init_needs_host: "\<not> db_conn st \<Longrightarrow> db_init PQconnectdb None port user pw st = Exits (-1)"
  by (simp add: db_init_def)

text \<open>A value that contains a space adds settings to the connection text, here a host after the one that was given.\<close>

lemma password_adds_settings:
  assumes "length (ip @ port @ user @ pw @ extra) \<le> 2000"
  shows "conninfo ip port user (pw @ CHR '' '' # extra) = conninfo ip port user pw @ CHR '' '' # extra"
  using assms by (simp add: conninfo_def)

text \<open>A long password is cut off without an error.\<close>

lemma take_append_long: "n \<le> length ys \<Longrightarrow> take n (xs @ ys @ zs) = take n (xs @ ys)"
  by simp

lemma long_password_cut:
  assumes "2048 \<le> length pw"
  shows "conninfo ip port user (pw @ rest) = conninfo ip port user pw"
proof -
  have "\<exists>h. \<forall>p. conninfo ip port user p = take 2047 (h @ p)"
    by (intro exI [of _ "''host='' @ ip @ '' port='' @ port @ '' dbname=net_port user='' @ user @ '' password=''"]) (simp add: conninfo_def)
  then obtain h where h: "\<And>p. conninfo ip port user p = take 2047 (h @ p)" by blast
  show ?thesis unfolding h by (rule take_append_long) (use assms in simp)
qed

end
