(* ===== verification/Monitoring.thy ===== *)
theory Monitoring
  imports Complex_Main Keyed_Store
begin

text \<open>
  Monitoring and statistics, \<open>src/server/proxy/server/monitoring_statistics.c\<close>: the table of device snapshots, the system
  statistics summed from it, the performance metrics of the current hour, the Prometheus text and the health status.

  The static variables of the C file are the fields of \<open>monitoring_state\<close>. \<open>g_monitoring_mutex\<close> is initialised with
  \<open>PTHREAD_MUTEX_INITIALIZER\<close>, so it is not recursive: a thread that locks it while it is held waits for ever. An operation therefore has
  three outcomes: it returns, it waits for ever, or it has undefined behaviour. The clock readings and the success of an
  allocation are arguments; a \<open>float\<close> is a rational number.
\<close>

section \<open>Data\<close>

datatype health_status_enum = HEALTH_STATUS_OK | HEALTH_STATUS_WARNING | HEALTH_STATUS_ERROR

record device_stats_snapshot =
  sn_device_id :: string
  sn_timestamp :: time_t
  sn_bytes_sent :: u64
  sn_bytes_received :: u64
  sn_active_connections :: u32
  sn_connection_count :: u32
  sn_uptime_seconds :: u32
  sn_cpu_usage :: rat
  sn_memory_usage :: rat
  sn_latency_ms :: u32

record system_stats =
  ss_timestamp :: time_t
  total_devices :: u32
  active_devices :: u32
  online_devices :: u32
  total_sessions :: u32
  active_sessions :: u32
  total_bytes_sent :: u64
  total_bytes_received :: u64
  total_connections :: u32
  peak_connections :: u32
  ports_used :: u32
  ports_available :: u32
  system_cpu_usage :: rat
  system_memory_usage :: rat
  ss_security_events :: u32
  ss_error_count :: u32

record performance_metrics =
  period_start :: time_t
  period_end :: time_t
  pm_request_count :: u32
  pm_error_count :: u32
  timeout_count :: u32
  auth_failures :: u32
  total_processing_time_ms :: u64
  avg_response_time_ms :: u32
  p95_response_time_ms :: u32
  p99_response_time_ms :: u32
  max_response_time_ms :: u32

record health_status =
  hs_timestamp :: time_t
  database_status :: health_status_enum
  device_manager_status :: health_status_enum
  port_allocation_status :: health_status_enum
  system_resources_status :: health_status_enum
  port_usage_status :: health_status_enum
  overall_status :: health_status_enum

record monitoring_state =
  monitoring_mutex_held :: bool
  g_system_stats :: system_stats
  g_performance_metrics :: performance_metrics
  device_snapshots_allocated :: bool
  g_device_snapshots :: "device_stats_snapshot list"
  g_device_snapshots_capacity :: nat
  g_last_stats_update :: time_t
  g_last_metrics_reset :: time_t
  g_prometheus_metrics :: string
  g_prometheus_metrics_updated :: time_t

text \<open>The readings of \<open>time\<close> in one call: by the operation itself, by \<open>update_system_statistics\<close> and by \<open>update_prometheus_metrics\<close>.\<close>

record clock_reads =
  at_call :: time_t
  at_stats :: time_t
  at_prometheus :: time_t

datatype 'a outcome = Returns 'a monitoring_state | Waits_forever | Undefined

definition zero_system_stats :: system_stats where
  "zero_system_stats =
     \<lparr>ss_timestamp = 0, total_devices = 0, active_devices = 0, online_devices = 0, total_sessions = 0, active_sessions = 0,
      total_bytes_sent = 0, total_bytes_received = 0, total_connections = 0, peak_connections = 0, ports_used = 0,
      ports_available = 0, system_cpu_usage = 0, system_memory_usage = 0, ss_security_events = 0, ss_error_count = 0\<rparr>"

definition zero_performance_metrics :: performance_metrics where
  "zero_performance_metrics =
     \<lparr>period_start = 0, period_end = 0, pm_request_count = 0, pm_error_count = 0, timeout_count = 0, auth_failures = 0,
      total_processing_time_ms = 0, avg_response_time_ms = 0, p95_response_time_ms = 0, p99_response_time_ms = 0,
      max_response_time_ms = 0\<rparr>"

definition initial_monitoring_state :: monitoring_state where
  "initial_monitoring_state =
     \<lparr>monitoring_mutex_held = False, g_system_stats = zero_system_stats, g_performance_metrics = zero_performance_metrics,
      device_snapshots_allocated = False, g_device_snapshots = [], g_device_snapshots_capacity = 0, g_last_stats_update = 0,
      g_last_metrics_reset = 0, g_prometheus_metrics = [], g_prometheus_metrics_updated = 0\<rparr>"

text \<open>\<open>pthread_mutex_lock\<close> before \<open>body\<close>, \<open>pthread_mutex_unlock\<close> after it.\<close>

definition with_monitoring_mutex :: "(monitoring_state \<Rightarrow> 'a outcome) \<Rightarrow> monitoring_state \<Rightarrow> 'a outcome" where
  "with_monitoring_mutex body st =
     (if monitoring_mutex_held st then Waits_forever
      else (case body (st\<lparr>monitoring_mutex_held := True\<rparr>) of
              Returns r st1 \<Rightarrow> Returns r (st1\<lparr>monitoring_mutex_held := False\<rparr>)
            | Waits_forever \<Rightarrow> Waits_forever
            | Undefined \<Rightarrow> Undefined))"

definition outcome_bind :: "'a outcome \<Rightarrow> ('a \<Rightarrow> monitoring_state \<Rightarrow> 'b outcome) \<Rightarrow> 'b outcome" where
  "outcome_bind m f = (case m of Returns r st \<Rightarrow> f r st | Waits_forever \<Rightarrow> Waits_forever | Undefined \<Rightarrow> Undefined)"

section \<open>Life cycle\<close>

definition monitoring_init :: "time_t \<Rightarrow> bool \<Rightarrow> monitoring_state \<Rightarrow> int \<times> monitoring_state" where
  "monitoring_init now calloc_ok st =
     (let st1 = st\<lparr>g_system_stats := zero_system_stats\<lparr>ss_timestamp := now\<rparr>,
                   g_performance_metrics := zero_performance_metrics\<lparr>period_start := now, period_end := now + 3600\<rparr>,
                   g_device_snapshots_capacity := 1000\<rparr>
      in if \<not> calloc_ok then (-1, st1\<lparr>device_snapshots_allocated := False\<rparr>)
         else (0, st1\<lparr>device_snapshots_allocated := True, g_device_snapshots := [], g_last_stats_update := 0,
                      g_last_metrics_reset := now, g_prometheus_metrics := [], g_prometheus_metrics_updated := 0\<rparr>))"

definition monitoring_cleanup :: "monitoring_state \<Rightarrow> unit outcome" where
  "monitoring_cleanup =
     with_monitoring_mutex
       (\<lambda>st. Returns () (st\<lparr>device_snapshots_allocated := False, g_device_snapshots := [], g_device_snapshots_capacity := 0\<rparr>))"

section \<open>The Prometheus text\<close>

text \<open>
  \<open>offset += snprintf (buffer + offset, sizeof (buffer) - offset, ...)\<close> on a buffer of 65536 bytes: what is in the buffer (up to its NUL)
  and \<open>offset\<close>. \<open>snprintf\<close> writes at most the room it is given less one and returns the full length; with an offset behind the end
  of the buffer the room wraps around as a \<open>size_t\<close> and the write is outside the buffer.
\<close>

definition snprintf_append :: "nat \<Rightarrow> string \<Rightarrow> (string \<times> nat) option \<Rightarrow> (string \<times> nat) option" where
  "snprintf_append cap piece acc =
     (case acc of None \<Rightarrow> None
      | Some (buf, offset) \<Rightarrow>
          if offset > cap then None
          else if offset = cap then Some (buf, offset + length piece)
          else Some (take offset buf @ take (cap - offset - 1) piece, offset + length piece))"

text \<open>\<open>%.2f\<close> of a number that is not negative.\<close>

definition print_fixed2 :: "rat \<Rightarrow> string" where
  "print_fixed2 q =
     (let n = nat \<lfloor>q * 100 + 1 / 2\<rfloor>
      in print_base 10 (n div 100) @ ''.'' @ print_base 10 (n mod 100 div 10) @ print_base 10 (n mod 10))"

definition newline :: string where
  "newline = [CHR 0x0A]"

text \<open>The three lines of a metric.\<close>

definition metric :: "string \<Rightarrow> string \<Rightarrow> string \<Rightarrow> string \<Rightarrow> string" where
  "metric name help kind v =
     ''# HELP '' @ name @ '' '' @ help @ newline @ ''# TYPE '' @ name @ '' '' @ kind @ newline @ name @ '' '' @ v @ newline"

definition prometheus_pieces :: "system_stats \<Rightarrow> performance_metrics \<Rightarrow> string list" where
  "prometheus_pieces s p =
     [metric ''net_port_total_devices'' ''Total number of registered devices'' ''gauge'' (print_base 10 (unat (total_devices s))) @ newline,
      metric ''net_port_active_devices'' ''Number of active devices'' ''gauge'' (print_base 10 (unat (active_devices s))) @ newline,
      metric ''net_port_online_devices'' ''Number of online devices (heartbeat < 5min)'' ''gauge''
        (print_base 10 (unat (online_devices s))) @ newline,
      metric ''net_port_bytes_sent_total'' ''Total bytes sent'' ''counter'' (print_base 10 (unat (total_bytes_sent s))) @ newline,
      metric ''net_port_bytes_received_total'' ''Total bytes received'' ''counter''
        (print_base 10 (unat (total_bytes_received s))) @ newline,
      metric ''net_port_connections_total'' ''Total connections'' ''counter'' (print_base 10 (unat (total_connections s))) @ newline,
      metric ''net_port_peak_connections'' ''Peak concurrent connections'' ''gauge'' (print_base 10 (unat (peak_connections s))) @ newline,
      metric ''net_port_ports_used'' ''Number of ports in use'' ''gauge'' (print_base 10 (unat (ports_used s))) @ newline,
      metric ''net_port_ports_available'' ''Number of ports available'' ''gauge'' (print_base 10 (unat (ports_available s))) @ newline,
      metric ''net_port_system_cpu_usage'' ''System CPU usage percentage'' ''gauge'' (print_fixed2 (system_cpu_usage s)) @ newline,
      metric ''net_port_system_memory_usage'' ''System memory usage percentage'' ''gauge''
        (print_fixed2 (system_memory_usage s)) @ newline,
      metric ''net_port_requests_total'' ''Total requests'' ''counter'' (print_base 10 (unat (pm_request_count p))) @ newline,
      metric ''net_port_errors_total'' ''Total errors'' ''counter'' (print_base 10 (unat (pm_error_count p))) @ newline,
      metric ''net_port_auth_failures_total'' ''Authentication failures'' ''counter'' (print_base 10 (unat (auth_failures p))) @ newline,
      metric ''net_port_timeouts_total'' ''Request timeouts'' ''counter'' (print_base 10 (unat (timeout_count p))) @ newline,
      metric ''net_port_response_time_average'' ''Average response time in milliseconds'' ''gauge''
        (print_base 10 (unat (avg_response_time_ms p))) @ newline,
      metric ''net_port_response_time_p95'' ''95th percentile response time in milliseconds'' ''gauge''
        (print_base 10 (unat (p95_response_time_ms p))) @ newline,
      metric ''net_port_response_time_p99'' ''99th percentile response time in milliseconds'' ''gauge''
        (print_base 10 (unat (p99_response_time_ms p))) @ newline,
      metric ''net_port_response_time_max'' ''Maximum response time in milliseconds'' ''gauge''
        (print_base 10 (unat (max_response_time_ms p)))]"

definition update_prometheus_metrics :: "time_t \<Rightarrow> monitoring_state \<Rightarrow> unit outcome" where
  "update_prometheus_metrics now st =
     (if now - g_prometheus_metrics_updated st < 5 then Returns () st
      else
        (case fold (snprintf_append 65536) (prometheus_pieces (g_system_stats st) (g_performance_metrics st)) (Some ([], 0)) of
           None \<Rightarrow> Undefined
         | Some (buffer, _) \<Rightarrow>
             with_monitoring_mutex
               (\<lambda>st. Returns () (st\<lparr>g_prometheus_metrics := strncpy 65535 buffer, g_prometheus_metrics_updated := now\<rparr>)) st))"

definition get_prometheus_metrics :: "clock_reads \<Rightarrow> monitoring_state \<Rightarrow> string outcome" where
  "get_prometheus_metrics clk =
     with_monitoring_mutex
       (\<lambda>st. outcome_bind
               (if at_call clk - g_prometheus_metrics_updated st \<ge> 5 then update_prometheus_metrics (at_prometheus clk) st
                else Returns () st)
               (\<lambda>_ st. Returns (g_prometheus_metrics st) st))"

section \<open>System statistics\<close>

text \<open>The two stubs: \<open>25.5f\<close> and \<open>65.2f\<close>, the latter with the value the binary fraction has.\<close>

definition get_system_cpu_usage :: rat where
  "get_system_cpu_usage = 51 / 2"

definition get_system_memory_usage :: rat where
  "get_system_memory_usage = 8545894 / 131072"

text \<open>One pass of the loop over the snapshots: \<open>online_count\<close> and the sums.\<close>

definition account_snapshot :: "time_t \<Rightarrow> device_stats_snapshot \<Rightarrow> u32 \<times> system_stats \<Rightarrow> u32 \<times> system_stats" where
  "account_snapshot now sn acc =
     (case acc of (online_count, s) \<Rightarrow>
        if now - sn_timestamp sn \<le> 300
        then (online_count + 1,
              s\<lparr>total_bytes_sent := total_bytes_sent s + sn_bytes_sent sn,
                total_bytes_received := total_bytes_received s + sn_bytes_received sn,
                total_connections := total_connections s + sn_connection_count sn,
                peak_connections := (if sn_active_connections sn > peak_connections s then sn_active_connections sn
                                     else peak_connections s)\<rparr>)
        else (online_count, s))"

definition compute_system_statistics :: "time_t \<Rightarrow> device_stats_snapshot list \<Rightarrow> system_stats" where
  "compute_system_statistics now snapshots =
     (case fold (account_snapshot now) snapshots (0, zero_system_stats\<lparr>ss_timestamp := now\<rparr>) of
        (online_count, s) \<Rightarrow>
          s\<lparr>total_devices := of_nat (length snapshots), online_devices := online_count, active_devices := online_count,
            total_sessions := online_count, active_sessions := online_count, ports_used := online_count,
            ports_available := 1001 - online_count, system_cpu_usage := get_system_cpu_usage,
            system_memory_usage := get_system_memory_usage\<rparr>)"

text \<open>The loops read \<open>g_device_snapshots_size\<close> entries; the pointer may be NULL only if there are none.\<close>

definition snapshots_readable :: "monitoring_state \<Rightarrow> bool" where
  "snapshots_readable st \<longleftrightarrow> device_snapshots_allocated st \<or> g_device_snapshots st = []"

definition update_system_statistics :: "clock_reads \<Rightarrow> monitoring_state \<Rightarrow> unit outcome" where
  "update_system_statistics clk st =
     (let now = at_stats clk
      in if now - g_last_stats_update st < 1 then Returns () st
         else if \<not> snapshots_readable st then Undefined
         else update_prometheus_metrics (at_prometheus clk)
                (st\<lparr>g_last_stats_update := now, g_system_stats := compute_system_statistics now (g_device_snapshots st)\<rparr>))"

definition get_system_statistics :: "clock_reads \<Rightarrow> bool \<Rightarrow> monitoring_state \<Rightarrow> (int \<times> system_stats option) outcome" where
  "get_system_statistics clk stats_given st =
     (if \<not> stats_given then Returns (-1, None) st
      else with_monitoring_mutex
             (\<lambda>st. outcome_bind (update_system_statistics clk st) (\<lambda>_ st. Returns (0, Some (g_system_stats st)) st)) st)"

section \<open>Device snapshots\<close>

record snapshot_values =
  sv_bytes_sent :: u64
  sv_bytes_received :: u64
  sv_active_connections :: u32
  sv_connection_count :: u32
  sv_uptime_seconds :: u32
  sv_cpu_usage :: rat
  sv_memory_usage :: rat
  sv_latency_ms :: u32

definition set_snapshot :: "time_t \<Rightarrow> snapshot_values \<Rightarrow> device_stats_snapshot \<Rightarrow> device_stats_snapshot" where
  "set_snapshot now v sn =
     \<lparr>sn_device_id = sn_device_id sn, sn_timestamp = now, sn_bytes_sent = sv_bytes_sent v, sn_bytes_received = sv_bytes_received v,
      sn_active_connections = sv_active_connections v, sn_connection_count = sv_connection_count v,
      sn_uptime_seconds = sv_uptime_seconds v, sn_cpu_usage = sv_cpu_usage v, sn_memory_usage = sv_memory_usage v,
      sn_latency_ms = sv_latency_ms v\<rparr>"

definition zero_snapshot :: device_stats_snapshot where
  "zero_snapshot =
     \<lparr>sn_device_id = [], sn_timestamp = 0, sn_bytes_sent = 0, sn_bytes_received = 0, sn_active_connections = 0,
      sn_connection_count = 0, sn_uptime_seconds = 0, sn_cpu_usage = 0, sn_memory_usage = 0, sn_latency_ms = 0\<rparr>"

text \<open>
  The part of \<open>update_device_statistics_monitoring\<close> between the lock and the update of the system statistics: \<open>Inl\<close> is the error return.
  A table of capacity 0 (before \<open>monitoring_init\<close>, after \<open>monitoring_cleanup\<close>) "grows" to capacity 0 and is then written behind its
  end, as is a table whose allocation failed.
\<close>

definition put_snapshot ::
  "bool \<Rightarrow> time_t \<Rightarrow> string \<Rightarrow> snapshot_values \<Rightarrow> monitoring_state \<Rightarrow> (int + monitoring_state) option" where
  "put_snapshot realloc_ok now device_id v st =
     (if \<not> snapshots_readable st then None
      else case first_index (\<lambda>sn. sn_device_id sn = device_id) (g_device_snapshots st) of
        Some i \<Rightarrow>
          Some (Inr (st\<lparr>g_device_snapshots := (g_device_snapshots st)[i := set_snapshot now v (g_device_snapshots st ! i)]\<rparr>))
      | None \<Rightarrow>
          let full = (length (g_device_snapshots st) \<ge> g_device_snapshots_capacity st);
              st1 = (if full then st\<lparr>device_snapshots_allocated := True,
                                     g_device_snapshots_capacity := g_device_snapshots_capacity st * 2\<rparr> else st)
          in if full \<and> \<not> realloc_ok then Some (Inl (-1))
             else if \<not> device_snapshots_allocated st1 \<or> length (g_device_snapshots st1) \<ge> g_device_snapshots_capacity st1 then None
             else Some (Inr (st1\<lparr>g_device_snapshots := g_device_snapshots st1 @
                                   [set_snapshot now v (zero_snapshot\<lparr>sn_device_id := strncpy 64 device_id\<rparr>)]\<rparr>)))"

definition update_device_statistics_monitoring ::
  "clock_reads \<Rightarrow> bool \<Rightarrow> string option \<Rightarrow> snapshot_values \<Rightarrow> monitoring_state \<Rightarrow> int outcome" where
  "update_device_statistics_monitoring clk realloc_ok device_id v st =
     (case device_id of None \<Rightarrow> Returns (-1) st
      | Some dev \<Rightarrow>
          with_monitoring_mutex
            (\<lambda>st. case put_snapshot realloc_ok (at_call clk) dev v st of
                    None \<Rightarrow> Undefined
                  | Some (Inl e) \<Rightarrow> Returns e st
                  | Some (Inr st1) \<Rightarrow> outcome_bind (update_system_statistics clk st1) (\<lambda>_ st. Returns 0 st)) st)"

definition find_snapshot :: "string \<Rightarrow> device_stats_snapshot list \<Rightarrow> device_stats_snapshot option" where
  "find_snapshot dev snapshots = find (\<lambda>sn. sn_device_id sn = dev) snapshots"

definition get_device_statistics ::
  "string option \<Rightarrow> bool \<Rightarrow> monitoring_state \<Rightarrow> (int \<times> device_stats_snapshot option) outcome" where
  "get_device_statistics device_id stats_given st =
     (case device_id of None \<Rightarrow> Returns (-1, None) st
      | Some dev \<Rightarrow>
          if \<not> stats_given then Returns (-1, None) st
          else with_monitoring_mutex
                 (\<lambda>st. if \<not> snapshots_readable st then Undefined
                       else case find_snapshot dev (g_device_snapshots st) of
                         None \<Rightarrow> Returns (-1, None) st
                       | Some sn \<Rightarrow> Returns (0, Some sn) st) st)"

section \<open>Performance metrics\<close>

text \<open>
  \<open>processing_time_ms > p95 * 0.95\<close> is computed in double precision. Both operands are below \<open>2 ^ 32\<close>, so the rounding of the
  product never crosses an integer and the comparison is the one of \<open>100 * processing_time_ms\<close> with \<open>95 * p95\<close>.
\<close>

definition exceeds_percent :: "nat \<Rightarrow> u32 \<Rightarrow> u32 \<Rightarrow> bool" where
  "exceeds_percent percent ms p \<longleftrightarrow> percent * unat p < 100 * unat ms"

text \<open>
  The body of \<open>record_performance_metric\<close> after the test for the end of the period. The average divides by the request count, which is 0 when the
  32-bit counter has wrapped around: the division traps.
\<close>

definition count_performance_metric :: "string \<Rightarrow> u32 \<Rightarrow> bool \<Rightarrow> performance_metrics \<Rightarrow> performance_metrics option" where
  "count_performance_metric operation ms success m =
     (let m1 = m\<lparr>pm_request_count := pm_request_count m + 1,
                 total_processing_time_ms := total_processing_time_ms m + ucast ms\<rparr>;
          m2 = (if success then m1
                else
                  let e = m1\<lparr>pm_error_count := pm_error_count m1 + 1\<rparr>
                  in if operation = ''auth'' then e\<lparr>auth_failures := auth_failures e + 1\<rparr>
                     else if ms > 10000 then e\<lparr>timeout_count := timeout_count e + 1\<rparr>
                     else e);
          m3 = (if ms > max_response_time_ms m2 then m2\<lparr>max_response_time_ms := ms\<rparr> else m2)
      in if pm_request_count m3 = 0 then None
         else
           let m4 = m3\<lparr>avg_response_time_ms := ucast (total_processing_time_ms m3 div ucast (pm_request_count m3))\<rparr>;
               m5 = (if exceeds_percent 95 ms (p95_response_time_ms m4) then m4\<lparr>p95_response_time_ms := ms\<rparr> else m4)
           in Some (if exceeds_percent 99 ms (p99_response_time_ms m5) then m5\<lparr>p99_response_time_ms := ms\<rparr> else m5))"

definition start_period :: "time_t \<Rightarrow> performance_metrics \<Rightarrow> performance_metrics" where
  "start_period now m =
     (if now \<ge> period_end m then zero_performance_metrics\<lparr>period_start := now, period_end := now + 3600\<rparr> else m)"

definition record_performance_metric :: "clock_reads \<Rightarrow> string \<Rightarrow> u32 \<Rightarrow> bool \<Rightarrow> monitoring_state \<Rightarrow> unit outcome" where
  "record_performance_metric clk operation ms success =
     with_monitoring_mutex
       (\<lambda>st. case count_performance_metric operation ms success (start_period (at_call clk) (g_performance_metrics st)) of
               None \<Rightarrow> Undefined
             | Some m \<Rightarrow> Returns () (st\<lparr>g_performance_metrics := m\<rparr>))"

definition get_performance_metrics :: "bool \<Rightarrow> monitoring_state \<Rightarrow> (int \<times> performance_metrics option) outcome" where
  "get_performance_metrics metrics_given st =
     (if \<not> metrics_given then Returns (-1, None) st
      else with_monitoring_mutex (\<lambda>st. Returns (0, Some (g_performance_metrics st)) st) st)"

section \<open>Health and report\<close>

definition get_health_status :: "clock_reads \<Rightarrow> bool \<Rightarrow> monitoring_state \<Rightarrow> (int \<times> health_status option) outcome" where
  "get_health_status clk health_given st =
     (if \<not> health_given then Returns (-1, None) st
      else
        let h = \<lparr>hs_timestamp = at_call clk, database_status = HEALTH_STATUS_OK, device_manager_status = HEALTH_STATUS_OK,
                 port_allocation_status = HEALTH_STATUS_OK,
                 system_resources_status =
                   (if get_system_cpu_usage > 90 then HEALTH_STATUS_WARNING
                    else if get_system_memory_usage > 90 then HEALTH_STATUS_WARNING else HEALTH_STATUS_OK),
                 port_usage_status =
                   (if 10 * unat (ports_used (g_system_stats st)) > 1001 * 9 then HEALTH_STATUS_WARNING else HEALTH_STATUS_OK),
                 overall_status = HEALTH_STATUS_OK\<rparr>
        in Returns (0, Some (h\<lparr>overall_status :=
             (if database_status h = HEALTH_STATUS_ERROR \<or> device_manager_status h = HEALTH_STATUS_ERROR then HEALTH_STATUS_ERROR
              else if system_resources_status h = HEALTH_STATUS_WARNING \<or> port_usage_status h = HEALTH_STATUS_WARNING
              then HEALTH_STATUS_WARNING else HEALTH_STATUS_OK)\<rparr>)) st)"

text \<open>
  The numbers the report prints. \<open>ctime\<close> returns a static buffer, so the three dates of one \<open>snprintf\<close> call are the text of whichever
  argument was evaluated last, \<open>ctime_of\<close> here.
\<close>

record statistics_report =
  rp_generated :: time_t
  rp_period_from :: time_t
  rp_period_to :: time_t
  rp_stats :: system_stats
  rp_offline_devices :: u32
  rp_metrics :: performance_metrics

definition generate_statistics_report ::
  "clock_reads \<Rightarrow> time_t \<Rightarrow> bool \<Rightarrow> nat \<Rightarrow> monitoring_state \<Rightarrow> (int + statistics_report) outcome" where
  "generate_statistics_report clk ctime_of report_given report_size st =
     (if \<not> report_given \<or> report_size < 1024 then Returns (Inl (-1)) st
      else outcome_bind (get_system_statistics clk True st)
             (\<lambda>r st. case snd r of
                None \<Rightarrow> Undefined
              | Some stats \<Rightarrow>
                  Returns (Inr \<lparr>rp_generated = ctime_of, rp_period_from = ctime_of, rp_period_to = ctime_of, rp_stats = stats,
                               rp_offline_devices = total_devices stats - online_devices stats,
                               rp_metrics = g_performance_metrics st\<rparr>) st))"

section \<open>The text fits its buffer\<close>

lemma length_print_base: "n < 10 ^ Suc k \<Longrightarrow> length (print_base 10 n) \<le> Suc k"
proof (induction k arbitrary: n)
  case 0
  then show ?case by (simp add: print_base.simps)
next
  case (Suc k)
  show ?case
  proof (cases "n < 10")
    case True
    then show ?thesis by (simp add: print_base.simps)
  next
    case False
    from Suc.prems have "n div 10 < 10 ^ Suc k" by (simp add: less_mult_imp_div_less mult.commute)
    with Suc.IH False show ?thesis by (subst print_base.simps) auto
  qed
qed

lemma length_print_u32: "length (print_base 10 (unat (w :: u32))) \<le> 20"
  using length_print_base [of "unat w" 19] unsigned_less [of w, where ?'a = nat] by simp

lemma length_print_u64: "length (print_base 10 (unat (w :: u64))) \<le> 20"
  using length_print_base [of "unat w" 19] unsigned_less [of w, where ?'a = nat] by simp

lemma length_print_fixed2:
  assumes "q \<le> 100"
  shows "length (print_fixed2 q) \<le> 20"
proof -
  define n where "n = nat \<lfloor>q * 100 + 1 / 2\<rfloor>"
  from assms have "\<lfloor>q * 100 + 1 / 2\<rfloor> \<le> 10000" by linarith
  then have "n \<le> 10000" unfolding n_def by linarith
  then have "length (print_base 10 (n div 100)) \<le> 3" using length_print_base [of "n div 100" 2] by simp
  moreover have "length (print_base 10 (n mod 100 div 10)) \<le> 1" "length (print_base 10 (n mod 10)) \<le> 1"
    using length_print_base [of "n mod 100 div 10" 0] length_print_base [of "n mod 10" 0] by simp_all
  ultimately show ?thesis by (simp add: print_fixed2_def n_def Let_def)
qed

lemma fold_snprintf_append:
  "offset = length buf \<Longrightarrow> length buf + length (concat pieces) < cap \<Longrightarrow>
   fold (snprintf_append cap) pieces (Some (buf, offset)) = Some (buf @ concat pieces, length buf + length (concat pieces))"
proof (induction pieces arbitrary: buf offset)
  case Nil
  then show ?case by simp
next
  case (Cons x xs)
  then have "snprintf_append cap x (Some (buf, offset)) = Some (buf @ x, length (buf @ x))"
    by (simp add: snprintf_append_def)
  with Cons.IH [of "length (buf @ x)" "buf @ x"] Cons.prems show ?case by (simp add: add.assoc)
qed

definition usage_in_range :: "system_stats \<Rightarrow> bool" where
  "usage_in_range s \<longleftrightarrow> system_cpu_usage s \<le> 100 \<and> system_memory_usage s \<le> 100"

lemma length_metric: "length (metric name help kind v) = 20 + 3 * length name + length help + length kind + length v"
  by (simp add: metric_def newline_def)

lemma prometheus_text_length:
  assumes "usage_in_range s"
  shows "length (concat (prometheus_pieces s p)) < 4000"
  using assms length_print_fixed2 [of "system_cpu_usage s"] length_print_fixed2 [of "system_memory_usage s"]
    length_print_u64 [of "total_bytes_sent s"] length_print_u64 [of "total_bytes_received s"]
    length_print_u32 [of "total_devices s"] length_print_u32 [of "active_devices s"] length_print_u32 [of "online_devices s"]
    length_print_u32 [of "total_connections s"] length_print_u32 [of "peak_connections s"] length_print_u32 [of "ports_used s"]
    length_print_u32 [of "ports_available s"] length_print_u32 [of "pm_request_count p"] length_print_u32 [of "pm_error_count p"]
    length_print_u32 [of "auth_failures p"] length_print_u32 [of "timeout_count p"] length_print_u32 [of "avg_response_time_ms p"]
    length_print_u32 [of "p95_response_time_ms p"] length_print_u32 [of "p99_response_time_ms p"]
    length_print_u32 [of "max_response_time_ms p"]
  by (simp add: prometheus_pieces_def length_metric newline_def usage_in_range_def)

text \<open>
  The Prometheus text is complete. When \<open>update_prometheus_metrics\<close> is called with the mutex free and the last text at least five
  seconds old, it returns, the text it stores is the concatenation of all nineteen metrics, and it is shorter than the
  65536-byte buffer: none of the \<open>snprintf\<close> calls truncates, and the room left never wraps around.
\<close>

theorem prometheus_text_complete:
  assumes "\<not> monitoring_mutex_held st" and "now - g_prometheus_metrics_updated st \<ge> 5" and "usage_in_range (g_system_stats st)"
  shows "update_prometheus_metrics now st =
           Returns () (st\<lparr>g_prometheus_metrics := concat (prometheus_pieces (g_system_stats st) (g_performance_metrics st)),
                         g_prometheus_metrics_updated := now\<rparr>) \<and>
         length (concat (prometheus_pieces (g_system_stats st) (g_performance_metrics st))) < 65536"
proof -
  let ?ps = "prometheus_pieces (g_system_stats st) (g_performance_metrics st)"
  have len: "length (concat ?ps) < 4000" by (rule prometheus_text_length [OF assms(3)])
  then have "fold (snprintf_append 65536) ?ps (Some ([], 0)) = Some (concat ?ps, length (concat ?ps))"
    using fold_snprintf_append [of 0 "[]" ?ps 65536] by simp
  with assms len show ?thesis
    by (simp add: update_prometheus_metrics_def with_monitoring_mutex_def strncpy_id)
qed

section \<open>The mutex is locked twice\<close>

datatype monitoring_op =
    Op_init time_t bool
  | Op_cleanup
  | Op_update clock_reads bool "string option" snapshot_values
  | Op_record clock_reads string u32 bool
  | Op_system clock_reads bool
  | Op_device "string option" bool
  | Op_performance bool
  | Op_prometheus clock_reads
  | Op_health clock_reads bool
  | Op_report clock_reads time_t bool nat

definition ignore_result :: "'a outcome \<Rightarrow> unit outcome" where
  "ignore_result m = outcome_bind m (\<lambda>_ st. Returns () st)"

fun exec_op :: "monitoring_op \<Rightarrow> monitoring_state \<Rightarrow> unit outcome" where
  "exec_op (Op_init now ok) st = Returns () (snd (monitoring_init now ok st))"
| "exec_op Op_cleanup st = monitoring_cleanup st"
| "exec_op (Op_update clk ok dev v) st = ignore_result (update_device_statistics_monitoring clk ok dev v st)"
| "exec_op (Op_record clk operation ms success) st = record_performance_metric clk operation ms success st"
| "exec_op (Op_system clk given) st = ignore_result (get_system_statistics clk given st)"
| "exec_op (Op_device dev given) st = ignore_result (get_device_statistics dev given st)"
| "exec_op (Op_performance given) st = ignore_result (get_performance_metrics given st)"
| "exec_op (Op_prometheus clk) st = ignore_result (get_prometheus_metrics clk st)"
| "exec_op (Op_health clk given) st = ignore_result (get_health_status clk given st)"
| "exec_op (Op_report clk d given n) st = ignore_result (generate_statistics_report clk d given n st)"

fun run_monitoring :: "monitoring_op list \<Rightarrow> monitoring_state \<Rightarrow> unit outcome" where
  "run_monitoring [] st = Returns () st"
| "run_monitoring (op # ops) st = outcome_bind (exec_op op st) (\<lambda>_ st1. run_monitoring ops st1)"

text \<open>A clock that shows at least five seconds after the epoch.\<close>

definition after_epoch :: "clock_reads \<Rightarrow> bool" where
  "after_epoch clk \<longleftrightarrow> 5 \<le> at_call clk \<and> 5 \<le> at_stats clk \<and> 5 \<le> at_prometheus clk"

fun op_after_epoch :: "monitoring_op \<Rightarrow> bool" where
  "op_after_epoch (Op_update clk ok dev v) = after_epoch clk"
| "op_after_epoch (Op_system clk given) = after_epoch clk"
| "op_after_epoch (Op_prometheus clk) = after_epoch clk"
| "op_after_epoch (Op_report clk d given n) = after_epoch clk"
| "op_after_epoch _ = True"

text \<open>Nothing has been published, and the mutex is free.\<close>

definition dormant :: "monitoring_state \<Rightarrow> bool" where
  "dormant st \<longleftrightarrow>
     \<not> monitoring_mutex_held st \<and> g_last_stats_update st = 0 \<and> g_prometheus_metrics_updated st = 0 \<and>
     g_prometheus_metrics st = [] \<and> g_device_snapshots st = [] \<and> usage_in_range (g_system_stats st)"

lemmas outcome_defs = with_monitoring_mutex_def outcome_bind_def ignore_result_def

lemma dormant_initial: "dormant initial_monitoring_state"
  by (simp add: dormant_def initial_monitoring_state_def usage_in_range_def zero_system_stats_def)

lemma computed_usage_in_range: "usage_in_range (compute_system_statistics now sns)"
  by (simp add: compute_system_statistics_def usage_in_range_def get_system_cpu_usage_def get_system_memory_usage_def
      split: prod.splits)

text \<open>A call that finds the text stale while the caller holds the mutex.\<close>

lemma update_prometheus_locked:
  assumes "monitoring_mutex_held st" and "now - g_prometheus_metrics_updated st \<ge> 5" and "usage_in_range (g_system_stats st)"
  shows "update_prometheus_metrics now st = Waits_forever"
proof -
  let ?ps = "prometheus_pieces (g_system_stats st) (g_performance_metrics st)"
  have "length (concat ?ps) < 4000" by (rule prometheus_text_length [OF assms(3)])
  then have "fold (snprintf_append 65536) ?ps (Some ([], 0)) = Some (concat ?ps, length (concat ?ps))"
    using fold_snprintf_append [of 0 "[]" ?ps 65536] by simp
  with assms(1,2) show ?thesis by (simp add: update_prometheus_metrics_def with_monitoring_mutex_def)
qed

lemma update_system_locked:
  assumes "monitoring_mutex_held st" and "g_last_stats_update st = 0" and "g_prometheus_metrics_updated st = 0"
    and "after_epoch clk" and "snapshots_readable st"
  shows "update_system_statistics clk st = Waits_forever"
  using assms
  by (simp add: update_system_statistics_def after_epoch_def update_prometheus_locked computed_usage_in_range)

lemma get_prometheus_waits:
  "dormant st \<Longrightarrow> after_epoch clk \<Longrightarrow> get_prometheus_metrics clk st = Waits_forever"
  by (simp add: get_prometheus_metrics_def outcome_defs dormant_def after_epoch_def update_prometheus_locked)

lemma get_system_waits:
  "dormant st \<Longrightarrow> after_epoch clk \<Longrightarrow> get_system_statistics clk True st = Waits_forever"
  by (simp add: get_system_statistics_def outcome_defs dormant_def update_system_locked snapshots_readable_def)

text \<open>The first update of a device: it waits, or the table has no capacity and it is written out of bounds or not at all.\<close>

lemma update_device_dormant:
  assumes "dormant st" and "after_epoch clk"
  shows "update_device_statistics_monitoring clk ok (Some dev) v st =
           (if 0 < g_device_snapshots_capacity st \<and> device_snapshots_allocated st then Waits_forever
            else if ok \<or> 0 < g_device_snapshots_capacity st then Undefined else Returns (-1) st)"
  using assms
  by (auto simp: update_device_statistics_monitoring_def outcome_defs dormant_def put_snapshot_def snapshots_readable_def
      update_system_locked Let_def)

lemma exec_op_dormant:
  assumes "dormant st" and "op_after_epoch op" and "exec_op op st = Returns () st1"
  shows "dormant st1"
proof (cases op)
  case (Op_init now ok)
  with assms show ?thesis
    by (cases ok) (auto simp: monitoring_init_def dormant_def usage_in_range_def zero_system_stats_def Let_def)
next
  case (Op_update clk ok dev v)
  show ?thesis
  proof (cases dev)
    case None
    with Op_update assms show ?thesis
      by (simp add: update_device_statistics_monitoring_def ignore_result_def outcome_bind_def)
  next
    case (Some d)
    with Op_update assms show ?thesis
      by (auto simp: update_device_dormant ignore_result_def outcome_bind_def split: if_splits)
  qed
next
  case (Op_report clk d given n)
  with assms show ?thesis
    by (auto simp: generate_statistics_report_def get_system_waits ignore_result_def outcome_bind_def split: if_splits)
next
  case (Op_system clk given)
  with assms show ?thesis
    by (cases given) (auto simp: get_system_waits ignore_result_def outcome_bind_def, auto simp: get_system_statistics_def)
next
  case (Op_prometheus clk)
  with assms show ?thesis by (simp add: get_prometheus_waits ignore_result_def outcome_bind_def)
qed (use assms in \<open>auto simp: monitoring_cleanup_def record_performance_metric_def get_device_statistics_def
      get_performance_metrics_def get_health_status_def outcome_defs dormant_def Let_def split: option.splits if_splits\<close>)

lemma run_monitoring_dormant:
  "dormant st \<Longrightarrow> list_all op_after_epoch ops \<Longrightarrow> run_monitoring ops st = Returns () st1 \<Longrightarrow> dormant st1"
proof (induction ops arbitrary: st)
  case Nil
  then show ?case by simp
next
  case (Cons op ops)
  from Cons.prems(3) obtain st2 where "exec_op op st = Returns () st2" "run_monitoring ops st2 = Returns () st1"
    by (auto simp: outcome_bind_def split: outcome.splits)
  with Cons exec_op_dormant show ?case by auto
qed

text \<open>
  C36. The statistics entry points deadlock. \<open>update_device_statistics_monitoring\<close>, \<open>get_system_statistics\<close> and
  \<open>get_prometheus_metrics\<close> hold the monitoring mutex when they reach \<open>update_prometheus_metrics\<close>, which locks it again. From the initial
  state, after any sequence of calls that returned (with a clock past the first five seconds of the epoch), no text
  has been published and no device is in the table, and the next call of any of the three waits for ever (of the first when
  the table is allocated).
\<close>

theorem monitoring_entry_points_deadlock:
  assumes "list_all op_after_epoch ops" and "run_monitoring ops initial_monitoring_state = Returns () st" and "after_epoch clk"
  shows "g_prometheus_metrics st = [] \<and> g_device_snapshots st = [] \<and>
         get_prometheus_metrics clk st = Waits_forever \<and> get_system_statistics clk True st = Waits_forever \<and>
         (0 < g_device_snapshots_capacity st \<longrightarrow> device_snapshots_allocated st \<longrightarrow>
            update_device_statistics_monitoring clk ok (Some dev) v st = Waits_forever)"
proof -
  have "dormant st" by (rule run_monitoring_dormant [OF dormant_initial assms(1,2)])
  with assms(3) show ?thesis
    by (simp add: get_prometheus_waits get_system_waits update_device_dormant) (simp add: dormant_def)
qed

theorem monitoring_entry_points_deadlock_witness:
  "\<exists>st. run_monitoring [Op_init 1000 True, Op_record \<lparr>at_call = 1000, at_stats = 1000, at_prometheus = 1000\<rparr> ''auth'' 7 False]
           initial_monitoring_state = Returns () st \<and>
        get_prometheus_metrics \<lparr>at_call = 1001, at_stats = 1001, at_prometheus = 1001\<rparr> st = Waits_forever"
proof -
  let ?ops = "[Op_init 1000 True, Op_record \<lparr>at_call = 1000, at_stats = 1000, at_prometheus = 1000\<rparr> ''auth'' 7 False]"
  obtain st where st: "run_monitoring ?ops initial_monitoring_state = Returns () st"
    by (simp add: outcome_defs monitoring_init_def record_performance_metric_def count_performance_metric_def
        initial_monitoring_state_def start_period_def zero_performance_metrics_def Let_def)
  with monitoring_entry_points_deadlock [of ?ops st "\<lparr>at_call = 1001, at_stats = 1001, at_prometheus = 1001\<rparr>"] show ?thesis
    by (auto simp: after_epoch_def)
qed

theorem prometheus_text_complete_witness:
  "\<exists>text. update_prometheus_metrics 10 initial_monitoring_state =
     Returns () (initial_monitoring_state\<lparr>g_prometheus_metrics := text, g_prometheus_metrics_updated := 10\<rparr>) \<and> length text < 65536"
  using prometheus_text_complete [of initial_monitoring_state 10]
  by (auto simp: initial_monitoring_state_def usage_in_range_def zero_system_stats_def)

section \<open>The system statistics are the sums over the devices that are online\<close>

definition device_online :: "time_t \<Rightarrow> device_stats_snapshot \<Rightarrow> bool" where
  "device_online now sn \<longleftrightarrow> now - sn_timestamp sn \<le> 300"

definition online_snapshots :: "time_t \<Rightarrow> device_stats_snapshot list \<Rightarrow> device_stats_snapshot list" where
  "online_snapshots now sns = filter (device_online now) sns"

lemma account_snapshot_online:
  "account_snapshot now sn (n, s) =
     (if device_online now sn
      then (n + 1, s\<lparr>total_bytes_sent := total_bytes_sent s + sn_bytes_sent sn,
                     total_bytes_received := total_bytes_received s + sn_bytes_received sn,
                     total_connections := total_connections s + sn_connection_count sn,
                     peak_connections := max (sn_active_connections sn) (peak_connections s)\<rparr>)
      else (n, s))"
  by (auto simp: account_snapshot_def device_online_def max_def)

lemma fold_account_snapshot:
  "fold (account_snapshot now) sns (n, s) =
     (n + of_nat (length (online_snapshots now sns)),
      s\<lparr>total_bytes_sent := total_bytes_sent s + sum_list (map sn_bytes_sent (online_snapshots now sns)),
        total_bytes_received := total_bytes_received s + sum_list (map sn_bytes_received (online_snapshots now sns)),
        total_connections := total_connections s + sum_list (map sn_connection_count (online_snapshots now sns)),
        peak_connections := fold max (map sn_active_connections (online_snapshots now sns)) (peak_connections s)\<rparr>)"
proof (induction sns arbitrary: n s)
  case Nil
  then show ?case by (simp add: online_snapshots_def)
next
  case (Cons sn sns)
  then show ?case by (simp add: account_snapshot_online online_snapshots_def add.assoc)
qed

text \<open>
  The system statistics are what the snapshots say. The byte and connection totals are the (wrapping) sums over exactly the
  devices seen in the last five minutes, the peak is their maximum, the device counts are the numbers of snapshots and of online ones,
  and with at most 1001 online devices the ports used and available add up to 1001.
\<close>

theorem system_statistics_totals:
  assumes "length (online_snapshots now sns) \<le> 1001"
  shows "total_bytes_sent (compute_system_statistics now sns) = sum_list (map sn_bytes_sent (online_snapshots now sns)) \<and>
         total_bytes_received (compute_system_statistics now sns) = sum_list (map sn_bytes_received (online_snapshots now sns)) \<and>
         total_connections (compute_system_statistics now sns) = sum_list (map sn_connection_count (online_snapshots now sns)) \<and>
         peak_connections (compute_system_statistics now sns) = fold max (map sn_active_connections (online_snapshots now sns)) 0 \<and>
         total_devices (compute_system_statistics now sns) = of_nat (length sns) \<and>
         unat (online_devices (compute_system_statistics now sns)) = length (online_snapshots now sns) \<and>
         unat (ports_used (compute_system_statistics now sns)) + unat (ports_available (compute_system_statistics now sns)) = 1001"
proof -
  let ?n = "length (online_snapshots now sns)"
  have u: "unat (of_nat ?n :: u32) = ?n"
    using assms by (simp add: unat_of_nat take_bit_nat_eq_self)
  have "(of_nat ?n :: u32) \<le> 1001" using assms by (simp add: word_le_nat_alt u)
  then have "unat (1001 - of_nat ?n :: u32) = 1001 - ?n" by (simp add: unat_sub u)
  with u assms show ?thesis
    by (simp add: compute_system_statistics_def fold_account_snapshot zero_system_stats_def)
qed

theorem system_statistics_totals_witness:
  "length (online_snapshots 1000 [zero_snapshot\<lparr>sn_timestamp := 900, sn_bytes_sent := 5\<rparr>, zero_snapshot]) \<le> 1001 \<and>
   total_bytes_sent (compute_system_statistics 1000 [zero_snapshot\<lparr>sn_timestamp := 900, sn_bytes_sent := 5\<rparr>, zero_snapshot]) = 5"
  using system_statistics_totals [of 1000 "[zero_snapshot\<lparr>sn_timestamp := 900, sn_bytes_sent := 5\<rparr>, zero_snapshot]"]
  by (simp add: online_snapshots_def device_online_def zero_snapshot_def)

text \<open>With more than 1001 devices online the number of available ports wraps around to over four thousand million.\<close>

lemma ports_available_wraps:
  assumes "length (online_snapshots now sns) = 1002"
  shows "unat (ports_available (compute_system_statistics now sns)) = 2 ^ 32 - 1"
  using assms by (simp add: compute_system_statistics_def fold_account_snapshot zero_system_stats_def unsigned_minus_1_eq_mask mask_eq_exp_minus_1)

section \<open>The snapshot table\<close>

text \<open>The table is allocated, keeps within its capacity, and has no two entries for a device.\<close>

definition snapshots_inv :: "monitoring_state \<Rightarrow> bool" where
  "snapshots_inv st \<longleftrightarrow>
     device_snapshots_allocated st \<and> 0 < g_device_snapshots_capacity st \<and>
     length (g_device_snapshots st) \<le> g_device_snapshots_capacity st \<and> distinct (map sn_device_id (g_device_snapshots st))"

definition snapshot_lookup :: "monitoring_state \<Rightarrow> string \<Rightarrow> device_stats_snapshot option" where
  "snapshot_lookup st dev = find_snapshot dev (g_device_snapshots st)"

definition snapshot_step ::
  "string \<Rightarrow> time_t \<times> snapshot_values \<Rightarrow> monitoring_state \<Rightarrow> (int \<times> monitoring_state) option" where
  "snapshot_step dev a st =
     (case put_snapshot True (fst a) dev (snd a) st of
        None \<Rightarrow> None | Some (Inl e) \<Rightarrow> Some (e, st) | Some (Inr st1) \<Rightarrow> Some (0, st1))"

definition snapshot_spec ::
  "string \<Rightarrow> time_t \<times> snapshot_values \<Rightarrow> device_stats_snapshot option \<Rightarrow> int \<times> device_stats_snapshot" where
  "snapshot_spec dev a e = (0, set_snapshot (fst a) (snd a) (zero_snapshot\<lparr>sn_device_id := dev\<rparr>))"

lemma set_snapshot_id [simp]: "sn_device_id (set_snapshot now v sn) = sn_device_id sn"
  by (simp add: set_snapshot_def)

lemma set_snapshot_forgets:
  "sn_device_id sn = dev \<Longrightarrow> set_snapshot now v sn = set_snapshot now v (zero_snapshot\<lparr>sn_device_id := dev\<rparr>)"
  by (simp add: set_snapshot_def)

lemma find_snapshot_update:
  assumes "first_index (\<lambda>sn. sn_device_id sn = dev) sns = Some i" and "sn_device_id e = dev"
  shows "find_snapshot k (sns[i := e]) = (if k = dev then Some e else find_snapshot k sns)"
  using assms
proof (induction sns arbitrary: i)
  case Nil
  then show ?case by simp
next
  case (Cons sn sns)
  then show ?case by (cases "sn_device_id sn = dev") (auto simp: find_snapshot_def)
qed

lemma find_snapshot_append:
  assumes "first_index (\<lambda>sn. sn_device_id sn = dev) sns = None" and "sn_device_id e = dev"
  shows "find_snapshot k (sns @ [e]) = (if k = dev then Some e else find_snapshot k sns)"
  using assms by (induction sns) (auto simp: find_snapshot_def split: if_splits)

interpretation snapshots: keyed_store snapshots_inv "\<lambda>k. length k \<le> 64" snapshot_lookup snapshot_step snapshot_spec
proof unfold_locales
  fix st :: monitoring_state and dev :: string and a :: "time_t \<times> snapshot_values"
  assume inv: "snapshots_inv st" and len: "length dev \<le> 64"
  let ?new = "snd (snapshot_spec dev a (snapshot_lookup st dev))"
  have id: "sn_device_id ?new = dev" by (simp add: snapshot_spec_def)
  show "\<exists>s'. snapshot_step dev a st = Some (fst (snapshot_spec dev a (snapshot_lookup st dev)), s') \<and> snapshots_inv s' \<and>
          snapshot_lookup s' = (snapshot_lookup st)(dev \<mapsto> ?new)"
  proof (cases "first_index (\<lambda>sn. sn_device_id sn = dev) (g_device_snapshots st)")
    case None
    define st1 where "st1 = (if length (g_device_snapshots st) \<ge> g_device_snapshots_capacity st
      then st\<lparr>device_snapshots_allocated := True, g_device_snapshots_capacity := g_device_snapshots_capacity st * 2\<rparr> else st)"
    have st1: "g_device_snapshots st1 = g_device_snapshots st" "device_snapshots_allocated st1"
      "length (g_device_snapshots st) < g_device_snapshots_capacity st1"
      using inv by (auto simp: st1_def snapshots_inv_def)
    let ?st = "st1\<lparr>g_device_snapshots := g_device_snapshots st @ [?new]\<rparr>"
    have "snapshot_step dev a st = Some (0, ?st)"
      using None inv len st1
      by (simp add: snapshot_step_def put_snapshot_def snapshots_readable_def snapshots_inv_def snapshot_spec_def strncpy_id
          st1_def [symmetric] Let_def)
    moreover have "snapshot_lookup ?st = (snapshot_lookup st)(dev \<mapsto> ?new)"
      using find_snapshot_append [OF None id] by (auto simp: snapshot_lookup_def)
    moreover have "snapshots_inv ?st"
      using inv st1 None id by (auto simp: snapshots_inv_def first_index_None_iff)
    ultimately show ?thesis by (auto simp: snapshot_spec_def)
  next
    case (Some i)
    then have at: "sn_device_id (g_device_snapshots st ! i) = dev" by (simp add: first_index_Some_iff)
    let ?st = "st\<lparr>g_device_snapshots := (g_device_snapshots st)[i := ?new]\<rparr>"
    have "snapshot_step dev a st = Some (0, ?st)"
      using Some inv set_snapshot_forgets [OF at]
      by (simp add: snapshot_step_def put_snapshot_def snapshots_readable_def snapshots_inv_def snapshot_spec_def)
    moreover have "snapshot_lookup ?st = (snapshot_lookup st)(dev \<mapsto> ?new)"
      using find_snapshot_update [OF Some id] by (auto simp: snapshot_lookup_def)
    moreover have "snapshots_inv ?st"
      using inv id at by (simp add: snapshots_inv_def map_update list_update_same_conv) (metis list_update_id map_update)
    ultimately show ?thesis by (auto simp: snapshot_spec_def)
  qed
qed

section \<open>The performance metrics of a period\<close>

text \<open>The requests of a period, oldest first: operation, milliseconds, success.\<close>

type_synonym request = "string \<times> u32 \<times> bool"

fun count_requests :: "request list \<Rightarrow> performance_metrics \<Rightarrow> performance_metrics option" where
  "count_requests [] m = Some m"
| "count_requests ((operation, ms, success) # rs) m =
     (case count_performance_metric operation ms success m of None \<Rightarrow> None | Some m1 \<Rightarrow> count_requests rs m1)"

definition failed :: "request \<Rightarrow> bool" where
  "failed r \<longleftrightarrow> \<not> snd (snd r)"

definition total_ms :: "request list \<Rightarrow> nat" where
  "total_ms rs = sum_list (map (\<lambda>r. unat (fst (snd r))) rs)"

text \<open>What the counters say after the requests \<open>rs\<close>.\<close>

definition metrics_of :: "request list \<Rightarrow> performance_metrics \<Rightarrow> bool" where
  "metrics_of rs m \<longleftrightarrow>
     unat (pm_request_count m) = length rs \<and> unat (total_processing_time_ms m) = total_ms rs \<and>
     unat (pm_error_count m) = length (filter failed rs) \<and>
     unat (auth_failures m) = length (filter (\<lambda>r. failed r \<and> fst r = ''auth'') rs) \<and>
     unat (timeout_count m) = length (filter (\<lambda>r. failed r \<and> fst r \<noteq> ''auth'' \<and> fst (snd r) > 10000) rs) \<and>
     max_response_time_ms m = fold max (map (fst \<circ> snd) rs) 0 \<and>
     unat (avg_response_time_ms m) = total_ms rs div length rs \<and>
     p95_response_time_ms m \<le> max_response_time_ms m \<and> p99_response_time_ms m \<le> max_response_time_ms m"

lemma count_requests_append:
  "count_requests (rs @ ss) m = (case count_requests rs m of None \<Rightarrow> None | Some m1 \<Rightarrow> count_requests ss m1)"
  by (induction rs m rule: count_requests.induct) (auto split: option.splits)

lemma total_ms_append [simp]: "total_ms (rs @ [(operation, ms, success)]) = total_ms rs + unat ms"
  by (simp add: total_ms_def)

lemma u32_unat_le: "unat (w :: u32) \<le> 4294967295"
  using unsigned_less [of w, where ?'a = nat] by simp

lemma total_ms_le: "total_ms rs \<le> length rs * 4294967295"
proof (induction rs)
  case Nil
  then show ?case by (simp add: total_ms_def)
next
  case (Cons r rs)
  then show ?case using u32_unat_le [of "fst (snd r)"] by (simp add: total_ms_def)
qed

lemma unat_u32_Suc: "unat (w :: u32) < 4294967295 \<Longrightarrow> unat (w + 1) = Suc (unat w)"
  by (simp add: unat_word_ariths)

lemma unat_u32_to_u64 [simp]: "unat (ucast (w :: u32) :: u64) = unat w"
  using u32_unat_le [of w] by (simp add: unsigned_ucast_eq take_bit_nat_eq_self)

lemma total_ms_u64:
  fixes t :: u64 and ms :: u32
  assumes "unat t = total_ms rs" and "length rs < 4294967295"
  shows "unat (t + ucast ms) = total_ms rs + unat ms"
proof -
  have "length rs * 4294967295 \<le> 4294967294 * 4294967295"
    using assms(2) by simp
  then have "unat t + unat ms < 2 ^ 64" using assms(1) total_ms_le [of rs] u32_unat_le [of ms] by simp
  then show ?thesis using assms(1) by (simp add: unat_word_ariths)
qed

lemma average_u32:
  fixes t :: u64 and n :: u32
  assumes "unat t = total_ms rs" and "unat n = length rs" and "rs \<noteq> []"
  shows "unat (ucast (t div ucast n) :: u32) = total_ms rs div length rs"
proof -
  have "total_ms rs div length rs \<le> 4294967295"
    using total_ms_le [of rs] assms(3) by (metis div_le_mono length_greater_0_conv nonzero_mult_div_cancel_left not_less0)
  then show ?thesis using assms by (simp add: unsigned_ucast_eq unat_div take_bit_nat_eq_self)
qed

lemma count_performance_metric_fields:
  assumes "pm_request_count m + 1 \<noteq> 0"
  shows "\<exists>m1. count_performance_metric operation ms success m = Some m1 \<and>
    pm_request_count m1 = pm_request_count m + 1 \<and>
    total_processing_time_ms m1 = total_processing_time_ms m + ucast ms \<and>
    pm_error_count m1 = (if success then pm_error_count m else pm_error_count m + 1) \<and>
    auth_failures m1 = (if \<not> success \<and> operation = ''auth'' then auth_failures m + 1 else auth_failures m) \<and>
    timeout_count m1 = (if \<not> success \<and> operation \<noteq> ''auth'' \<and> ms > 10000 then timeout_count m + 1 else timeout_count m) \<and>
    max_response_time_ms m1 = max ms (max_response_time_ms m) \<and>
    avg_response_time_ms m1 = ucast ((total_processing_time_ms m + ucast ms) div ucast (pm_request_count m + 1)) \<and>
    p95_response_time_ms m1 \<in> {ms, p95_response_time_ms m} \<and> p99_response_time_ms m1 \<in> {ms, p99_response_time_ms m}"
  using assms
  by (cases success; cases "operation = ''auth''"; cases "ms > 10000"; cases "ms > max_response_time_ms m")
    (simp_all add: count_performance_metric_def Let_def max.absorb3 max.absorb2 not_less, (meson leD)+)

lemma count_metric_step:
  assumes m: "metrics_of rs m" and l: "length rs < 4294967295"
  shows "\<exists>m1. count_performance_metric operation ms success m = Some m1 \<and> metrics_of (rs @ [(operation, ms, success)]) m1"
proof -
  let ?rs = "rs @ [(operation, ms, success)]"
  have le: "length (filter P rs) < 4294967295" for P
    using l length_filter_le [of P rs] by linarith
  have n: "unat (pm_request_count m + 1) = length ?rs"
    using m l by (simp add: metrics_of_def unat_u32_Suc)
  then have "pm_request_count m + 1 \<noteq> 0" by auto
  from count_performance_metric_fields [OF this, of operation ms success] obtain m1 where
    m1: "count_performance_metric operation ms success m = Some m1"
      "pm_request_count m1 = pm_request_count m + 1"
      "total_processing_time_ms m1 = total_processing_time_ms m + ucast ms"
      "pm_error_count m1 = (if success then pm_error_count m else pm_error_count m + 1)"
      "auth_failures m1 = (if \<not> success \<and> operation = ''auth'' then auth_failures m + 1 else auth_failures m)"
      "timeout_count m1 = (if \<not> success \<and> operation \<noteq> ''auth'' \<and> ms > 10000 then timeout_count m + 1 else timeout_count m)"
      "max_response_time_ms m1 = max ms (max_response_time_ms m)"
      "avg_response_time_ms m1 = ucast ((total_processing_time_ms m + ucast ms) div ucast (pm_request_count m + 1))"
      "p95_response_time_ms m1 \<in> {ms, p95_response_time_ms m}" "p99_response_time_ms m1 \<in> {ms, p99_response_time_ms m}"
    by blast
  have t: "unat (total_processing_time_ms m1) = total_ms ?rs"
    using m l total_ms_u64 m1(3) by (simp add: metrics_of_def)
  have "unat (avg_response_time_ms m1) = total_ms ?rs div length ?rs"
    using average_u32 [OF t n] m1(3,8) by simp
  moreover have "unat (pm_error_count m1) = length (filter failed ?rs)"
    using m m1(4) le [of failed] by (simp add: metrics_of_def failed_def unat_u32_Suc)
  moreover have "unat (auth_failures m1) = length (filter (\<lambda>r. failed r \<and> fst r = ''auth'') ?rs)"
    using m m1(5) le [of "\<lambda>r. failed r \<and> fst r = ''auth''"] by (simp add: metrics_of_def failed_def unat_u32_Suc)
  moreover have "unat (timeout_count m1) = length (filter (\<lambda>r. failed r \<and> fst r \<noteq> ''auth'' \<and> fst (snd r) > 10000) ?rs)"
    using m m1(6) le [of "\<lambda>r. failed r \<and> fst r \<noteq> ''auth'' \<and> fst (snd r) > 10000"]
    by (simp add: metrics_of_def failed_def unat_u32_Suc)
  moreover have "p95_response_time_ms m1 \<le> max_response_time_ms m1 \<and> p99_response_time_ms m1 \<le> max_response_time_ms m1"
    using m m1(7,9,10) by (auto simp: metrics_of_def le_max_iff_disj)
  ultimately show ?thesis using m m1(1,2,7) n t by (auto simp: metrics_of_def)
qed

lemma metrics_of_period_start: "metrics_of [] (zero_performance_metrics\<lparr>period_start := a, period_end := b\<rparr>)"
  by (simp add: metrics_of_def zero_performance_metrics_def total_ms_def)

lemma count_requests_metrics:
  "length rs \<le> 4294967295 \<Longrightarrow>
   \<exists>m. count_requests rs (zero_performance_metrics\<lparr>period_start := a, period_end := b\<rparr>) = Some m \<and> metrics_of rs m"
proof (induction rs rule: rev_induct)
  case Nil
  then show ?case using metrics_of_period_start by simp
next
  case (snoc r rs)
  then obtain m where m: "count_requests rs (zero_performance_metrics\<lparr>period_start := a, period_end := b\<rparr>) = Some m"
    "metrics_of rs m" by auto
  obtain operation ms success where r: "r = (operation, ms, success)" by (cases r)
  from count_metric_step [OF m(2), of operation ms success] snoc.prems obtain m1 where
    "count_performance_metric operation ms success m = Some m1" "metrics_of (rs @ [r]) m1" unfolding r by auto
  with m(1) r show ?case by (simp add: count_requests_append)
qed

lemma fold_max_ge: "a \<le> fold max (xs :: u32 list) a \<and> (x \<in> set xs \<longrightarrow> x \<le> fold max xs a)"
proof (induction xs arbitrary: a)
  case Nil
  then show ?case by simp
next
  case (Cons y ys)
  from Cons [of "max y a"] show ?case by (auto simp: le_max_iff_disj)
qed

lemma total_ms_le_max: "total_ms rs \<le> length rs * unat (fold max (map (fst \<circ> snd) rs) 0)"
proof -
  have "unat (fst (snd r)) \<le> unat (fold max (map (fst \<circ> snd) rs) 0)" if "r \<in> set rs" for r
    using fold_max_ge [of 0 "map (fst \<circ> snd) rs" "fst (snd r)"] that by (force simp: word_le_nat_alt)
  then show ?thesis
    using sum_list_mono [of rs "\<lambda>r. unat (fst (snd r))" "\<lambda>_. unat (fold max (map (fst \<circ> snd) rs) 0)"]
    by (simp add: total_ms_def sum_list_triv)
qed

text \<open>
  The performance metrics of a period are exact. After any \<open>n\<close> requests of one period, \<open>0 < n < 2 ^ 32\<close>, no division by zero has
  happened, the request, error, authentication-failure and timeout counters are the numbers of such requests, the average is the sum of
  the times divided by \<open>n\<close> (the 64-bit sum never wraps around), the maximum is the longest time, and the average and both
  percentile estimates are at most the maximum.
\<close>

theorem performance_metrics_exact:
  assumes "rs \<noteq> []" and "length rs < 2 ^ 32" and "period_end m0 \<le> now"
  shows "\<exists>m. count_requests rs (start_period now m0) = Some m \<and> metrics_of rs m \<and>
             avg_response_time_ms m \<le> max_response_time_ms m"
proof -
  from assms(2,3) obtain m where m: "count_requests rs (start_period now m0) = Some m" "metrics_of rs m"
    using count_requests_metrics [of rs "now + 3600" now] by (auto simp: start_period_def)
  have "total_ms rs \<le> length rs * unat (fold max (map (fst \<circ> snd) rs) 0)"
    by (rule total_ms_le_max)
  then have "total_ms rs div length rs \<le> unat (fold max (map (fst \<circ> snd) rs) 0)"
    using assms(1) by (metis div_le_mono length_greater_0_conv nonzero_mult_div_cancel_left not_less0)
  with m show ?thesis by (auto simp: metrics_of_def word_le_nat_alt)
qed

theorem performance_metrics_exact_witness:
  "\<exists>m. count_requests [(''auth'', 7, False), (''register'', 20, True)]
         (start_period 3600 (zero_performance_metrics\<lparr>period_end := 3600\<rparr>)) = Some m \<and>
       unat (avg_response_time_ms m) = 13 \<and> unat (auth_failures m) = 1"
  using performance_metrics_exact [of "[(''auth'', 7, False), (''register'', 20, True)]"
      "zero_performance_metrics\<lparr>period_end := 3600\<rparr>" 3600]
  by (auto simp: metrics_of_def total_ms_def failed_def zero_performance_metrics_def numeral_2_eq_2 [symmetric])

text \<open>The percentile estimates are no percentiles: of 100, 96 and 10 ms the estimate of the 95th percentile is 96 after 100 was seen.\<close>

lemma p95_not_percentile:
  "map_option p95_response_time_ms
     (count_requests [(''a'', 100, True), (''a'', 96, True), (''a'', 10, True)] zero_performance_metrics) = Some 96"
  by (simp add: count_performance_metric_def zero_performance_metrics_def exceeds_percent_def Let_def)

end
