(* ===== verification/Client_Threads.thy ===== *)
theory Client_Threads
  imports Client_Device
begin

text \<open>
  The heartbeat thread and the input threads of one proxy connection of the client, interleaved. The heartbeat thread holds \<open>g_heartbeat_mutex\<close>
  during a whole heartbeat, including \<open>device_apply_tls_settings_update\<close>, which restarts the input thread and waits until it has
  started. The input thread asks for a heartbeat with \<open>heartbeat_request_tls_sync\<close>, which locks the same mutex, when a TLS
  handshake ended without a peer certificate. The states are program points, the steps what happens between two points at which another thread can
  interfere; which way a call to the network goes is the choice of the relation.
\<close>

section \<open>Program points\<close>

datatype client_thread = Heartbeat_thread | Input_thread nat

text \<open>
  Of \<open>heartbeat_thread_func\<close>: outside the mutex; in \<open>send_heartbeat\<close>; after the first loop of \<open>switcher_servers_restart_input_threads\<close>; in
  the waiting loop of \<open>server_input_start\<close>.
\<close>

datatype heartbeat_point = Hb_idle | Hb_sending | Hb_stopping | Hb_starting

text \<open>
  Of \<open>server_input_thread\<close>: from \<open>restart_input_thread\<close> to \<open>connect\<close>; connected, before the handshake; about to call
  \<open>heartbeat_request_tls_sync\<close>; in the pause before the restart; in the main loop; returned.
\<close>

datatype input_point = In_connecting | In_handshake | In_requesting_sync | In_pause | In_running | In_returned

record client_threads =
  ct_mutex :: "client_thread option"
  ct_heartbeat :: heartbeat_point
  ct_inputs :: "input_point list"
  ct_is_starting :: bool
  ct_is_running :: bool
  ct_stop :: bool
  ct_shutdown :: bool
  ct_sync_pending :: bool

section \<open>Steps\<close>

inductive heartbeat_step :: "client_threads \<Rightarrow> client_threads \<Rightarrow> bool" where
  lock: "ct_heartbeat s = Hb_idle \<Longrightarrow> \<not> ct_shutdown s \<Longrightarrow> ct_mutex s = None \<Longrightarrow>
    heartbeat_step s (s\<lparr>ct_mutex := Some Heartbeat_thread, ct_heartbeat := Hb_sending\<rparr>)"
| unchanged: "ct_heartbeat s = Hb_sending \<Longrightarrow>
    heartbeat_step s (s\<lparr>ct_mutex := None, ct_heartbeat := Hb_idle, ct_sync_pending := False\<rparr>)"
| failed: "ct_heartbeat s = Hb_sending \<Longrightarrow> heartbeat_step s (s\<lparr>ct_mutex := None, ct_heartbeat := Hb_idle\<rparr>)"
| tls_update: "ct_heartbeat s = Hb_sending \<Longrightarrow> heartbeat_step s (s\<lparr>ct_heartbeat := Hb_stopping, ct_stop := True\<rparr>)"
| restart: "ct_heartbeat s = Hb_stopping \<Longrightarrow> \<not> ct_is_running s \<or> waited_10s \<Longrightarrow>
    heartbeat_step s (s\<lparr>ct_heartbeat := Hb_starting, ct_inputs := ct_inputs s @ [In_connecting], ct_is_starting := True,
                        ct_is_running := False, ct_stop := False\<rparr>)"
| started: "ct_heartbeat s = Hb_starting \<Longrightarrow> \<not> ct_is_starting s \<Longrightarrow>
    heartbeat_step s (s\<lparr>ct_mutex := None, ct_heartbeat := Hb_idle, ct_sync_pending := False\<rparr>)"

inductive input_step :: "nat \<Rightarrow> client_threads \<Rightarrow> client_threads \<Rightarrow> bool" for i :: nat where
  stopped: "i < length (ct_inputs s) \<Longrightarrow> ct_inputs s ! i \<in> {In_connecting, In_handshake, In_pause} \<Longrightarrow> ct_stop s \<or> ct_shutdown s \<Longrightarrow>
    input_step i s (s\<lparr>ct_inputs := (ct_inputs s)[i := In_returned], ct_is_starting := False, ct_is_running := False\<rparr>)"
| connected: "i < length (ct_inputs s) \<Longrightarrow> ct_inputs s ! i = In_connecting \<Longrightarrow>
    input_step i s (s\<lparr>ct_inputs := (ct_inputs s)[i := In_handshake]\<rparr>)"
| established: "i < length (ct_inputs s) \<Longrightarrow> ct_inputs s ! i = In_handshake \<Longrightarrow>
    input_step i s (s\<lparr>ct_inputs := (ct_inputs s)[i := In_running], ct_is_running := True, ct_is_starting := False\<rparr>)"
| no_certificate: "i < length (ct_inputs s) \<Longrightarrow> ct_inputs s ! i = In_handshake \<Longrightarrow>
    input_step i s (s\<lparr>ct_inputs := (ct_inputs s)[i := In_requesting_sync]\<rparr>)"
| bad_certificate: "i < length (ct_inputs s) \<Longrightarrow> ct_inputs s ! i = In_handshake \<Longrightarrow>
    input_step i s (s\<lparr>ct_inputs := (ct_inputs s)[i := In_pause]\<rparr>)"
| sync_requested: "i < length (ct_inputs s) \<Longrightarrow> ct_inputs s ! i = In_requesting_sync \<Longrightarrow> ct_mutex s = None \<Longrightarrow>
    input_step i s (s\<lparr>ct_inputs := (ct_inputs s)[i := In_pause], ct_sync_pending := True\<rparr>)"
| retry: "i < length (ct_inputs s) \<Longrightarrow> ct_inputs s ! i = In_pause \<Longrightarrow> \<not> ct_stop s \<Longrightarrow> \<not> ct_shutdown s \<Longrightarrow>
    input_step i s (s\<lparr>ct_inputs := (ct_inputs s)[i := In_connecting]\<rparr>)"
| reconnect: "i < length (ct_inputs s) \<Longrightarrow> ct_inputs s ! i = In_running \<Longrightarrow>
    input_step i s (s\<lparr>ct_inputs := (ct_inputs s)[i := In_connecting]\<rparr>)"
| ended: "i < length (ct_inputs s) \<Longrightarrow> ct_inputs s ! i = In_running \<Longrightarrow> ct_stop s \<or> ct_shutdown s \<Longrightarrow>
    input_step i s (s\<lparr>ct_inputs := (ct_inputs s)[i := In_returned], ct_is_running := False, ct_is_starting := False\<rparr>)"

inductive client_step :: "client_threads \<Rightarrow> client_threads \<Rightarrow> bool" where
  heartbeat: "heartbeat_step s s' \<Longrightarrow> client_step s s'"
| input: "input_step i s s' \<Longrightarrow> client_step s s'"
| signal: "client_step s (s\<lparr>ct_shutdown := True\<rparr>)"

text \<open>
  The client with one input thread in its main loop, and the client while that thread is still trying to connect for the first time
  (the heartbeat thread is started before the proxy connections).
\<close>

definition threads_started :: client_threads where
  "threads_started =
     \<lparr>ct_mutex = None, ct_heartbeat = Hb_idle, ct_inputs = [In_running], ct_is_starting = False, ct_is_running = True,
      ct_stop = False, ct_shutdown = False, ct_sync_pending = False\<rparr>"

definition threads_launching :: client_threads where
  "threads_launching = threads_started\<lparr>ct_inputs := [In_connecting], ct_is_starting := True, ct_is_running := False\<rparr>"

inductive_cases heartbeat_stepE: "heartbeat_step s s'"
inductive_cases input_stepE: "input_step i s s'"
inductive_cases client_stepE: "client_step s s'"

section \<open>The deadlock\<close>

text \<open>The heartbeat thread waits for an input thread to start, and every input thread has returned or waits for the mutex.\<close>

definition deadlocked :: "client_threads \<Rightarrow> bool" where
  "deadlocked s \<longleftrightarrow>
     ct_heartbeat s = Hb_starting \<and> ct_is_starting s \<and> ct_mutex s = Some Heartbeat_thread \<and>
     list_all (\<lambda>p. p \<in> {In_returned, In_requesting_sync}) (ct_inputs s)"

lemma deadlocked_step:
  assumes "deadlocked s" and "client_step s s'"
  shows "deadlocked s' \<and> ct_inputs s' = ct_inputs s"
  using assms(2)
proof (cases rule: client_step.cases)
  case heartbeat
  with assms(1) show ?thesis by (auto simp: deadlocked_def elim!: heartbeat_stepE)
next
  case (input i)
  have "ct_inputs s ! i \<in> {In_returned, In_requesting_sync}" if "i < length (ct_inputs s)"
    using assms(1) that by (simp add: deadlocked_def list_all_length)
  with input assms(1) show ?thesis by (auto simp: deadlocked_def elim!: input_stepE)
next
  case signal
  with assms(1) show ?thesis by (simp add: deadlocked_def)
qed

lemma deadlocked_forever: "client_step\<^sup>*\<^sup>* s s' \<Longrightarrow> deadlocked s \<Longrightarrow> deadlocked s' \<and> ct_inputs s' = ct_inputs s"
proof (induction rule: rtranclp_induct)
  case base
  then show ?case by simp
next
  case (step y z)
  then show ?case using deadlocked_step by metis
qed

lemma reach6:
  "r a b \<Longrightarrow> r b c \<Longrightarrow> r c d \<Longrightarrow> r d e \<Longrightarrow> r e f \<Longrightarrow> r f g \<Longrightarrow> r\<^sup>*\<^sup>* a g"
  by (meson converse_rtranclp_into_rtranclp r_into_rtranclp)

text \<open>The states on the way into it, without a signal or a pending request.\<close>

definition threads_at ::
  "client_thread option \<Rightarrow> heartbeat_point \<Rightarrow> input_point list \<Rightarrow> bool \<Rightarrow> bool \<Rightarrow> bool \<Rightarrow> client_threads" where
  "threads_at m hb ins starting running stop =
     \<lparr>ct_mutex = m, ct_heartbeat = hb, ct_inputs = ins, ct_is_starting = starting, ct_is_running = running, ct_stop = stop,
      ct_shutdown = False, ct_sync_pending = False\<rparr>"

abbreviation held :: "client_thread option" where
  "held \<equiv> Some Heartbeat_thread"

lemma lock_step: "client_step (threads_at None Hb_idle ins a b c) (threads_at held Hb_sending ins a b c)"
  using client_step.heartbeat [OF heartbeat_step.lock [of "threads_at None Hb_idle ins a b c"]] by (simp add: threads_at_def)

lemma tls_update_step: "client_step (threads_at held Hb_sending ins a b c) (threads_at held Hb_stopping ins a b True)"
  using client_step.heartbeat [OF heartbeat_step.tls_update [of "threads_at held Hb_sending ins a b c"]] by (simp add: threads_at_def)

lemma restart_step:
  "client_step (threads_at held Hb_stopping ins a False True) (threads_at held Hb_starting (ins @ [In_connecting]) True False False)"
  using client_step.heartbeat [OF heartbeat_step.restart [of "threads_at held Hb_stopping ins a False True"]] by (simp add: threads_at_def)

lemma started_step: "client_step (threads_at held Hb_starting ins False b c) (threads_at None Hb_idle ins False b c)"
  using client_step.heartbeat [OF heartbeat_step.started [of "threads_at held Hb_starting ins False b c"]] by (simp add: threads_at_def)

lemma ended_step:
  "i < length ins \<Longrightarrow> ins ! i = In_running \<Longrightarrow>
   client_step (threads_at m hb ins a b True) (threads_at m hb (ins[i := In_returned]) False False True)"
  using client_step.input [OF input_step.ended [of i "threads_at m hb ins a b True"]] by (simp add: threads_at_def)

lemma connected_step:
  "i < length ins \<Longrightarrow> ins ! i = In_connecting \<Longrightarrow>
   client_step (threads_at m hb ins a b c) (threads_at m hb (ins[i := In_handshake]) a b c)"
  using client_step.input [OF input_step.connected [of i "threads_at m hb ins a b c"]] by (simp add: threads_at_def)

lemma no_certificate_step:
  "i < length ins \<Longrightarrow> ins ! i = In_handshake \<Longrightarrow>
   client_step (threads_at m hb ins a b c) (threads_at m hb (ins[i := In_requesting_sync]) a b c)"
  using client_step.input [OF input_step.no_certificate [of i "threads_at m hb ins a b c"]] by (simp add: threads_at_def)

lemma established_step:
  "i < length ins \<Longrightarrow> ins ! i = In_handshake \<Longrightarrow>
   client_step (threads_at m hb ins a b c) (threads_at m hb (ins[i := In_running]) False True c)"
  using client_step.input [OF input_step.established [of i "threads_at m hb ins a b c"]] by (simp add: threads_at_def)

lemma reach_deadlock:
  "client_step\<^sup>*\<^sup>* threads_started (threads_at held Hb_starting [In_returned, In_requesting_sync] True False False)"
proof -
  have "threads_started = threads_at None Hb_idle [In_running] False True False" by (simp add: threads_started_def threads_at_def)
  moreover note lock_step [of "[In_running]" False True False]
  moreover note tls_update_step [of "[In_running]" False True False]
  moreover have "client_step (threads_at held Hb_stopping [In_running] False True True)
      (threads_at held Hb_stopping [In_returned] False False True)"
    using ended_step [of 0 "[In_running]"] by simp
  moreover have "client_step (threads_at held Hb_stopping [In_returned] False False True)
      (threads_at held Hb_starting [In_returned, In_connecting] True False False)"
    using restart_step [of "[In_returned]"] by simp
  moreover have "client_step (threads_at held Hb_starting [In_returned, In_connecting] True False False)
      (threads_at held Hb_starting [In_returned, In_handshake] True False False)"
    using connected_step [of 1 "[In_returned, In_connecting]"] by simp
  moreover have "client_step (threads_at held Hb_starting [In_returned, In_handshake] True False False)
      (threads_at held Hb_starting [In_returned, In_requesting_sync] True False False)"
    using no_certificate_step [of 1 "[In_returned, In_handshake]"] by simp
  ultimately show ?thesis by (simp add: reach6)
qed

text \<open>
  C32. The client can hang for good. From normal operation, one change of the TLS settings followed by one handshake that ends without a peer
  certificate leads to a state from which, whatever happens next (a shutdown signal included), the heartbeat thread waits in
  \<open>server_input_start\<close> with the mutex held and the input thread waits for that mutex: no heartbeat is sent, no data flows, and
  \<open>heartbeat_manager_stop\<close>, which joins the heartbeat thread, does not return.
\<close>

theorem heartbeat_deadlock:
  "\<exists>s. client_step\<^sup>*\<^sup>* threads_started s \<and>
       Collect (client_step\<^sup>*\<^sup>* s) \<subseteq>
         {s'. ct_heartbeat s' = Hb_starting \<and> ct_mutex s' = Some Heartbeat_thread \<and> ct_inputs s' = [In_returned, In_requesting_sync]}"
proof -
  let ?s = "threads_at held Hb_starting [In_returned, In_requesting_sync] True False False"
  have "deadlocked ?s" "ct_inputs ?s = [In_returned, In_requesting_sync]" by (simp_all add: deadlocked_def threads_at_def)
  with reach_deadlock show ?thesis using deadlocked_forever [of ?s] by (intro exI [of _ ?s]) (auto simp: deadlocked_def)
qed

section \<open>Two input threads for one connection\<close>

text \<open>
  A TLS update while the input thread is still connecting starts a second one. The connecting thread does not count as running, so
  \<open>switcher_servers_restart_input_threads\<close> does not wait for it and withdraws the stop request at once; both threads then connect and
  serve the same connection record.
\<close>

theorem second_input_thread:
  "\<exists>s. client_step\<^sup>*\<^sup>* threads_launching s \<and> ct_inputs s = [In_running, In_running] \<and> ct_heartbeat s = Hb_idle \<and> \<not> ct_stop s"
proof -
  have launch: "threads_launching = threads_at None Hb_idle [In_connecting] True False False"
    by (simp add: threads_launching_def threads_started_def threads_at_def)
  have c3: "client_step (threads_at held Hb_stopping [In_connecting] True False True)
      (threads_at held Hb_starting [In_connecting, In_connecting] True False False)"
    using restart_step [of "[In_connecting]"] by simp
  have c4: "client_step (threads_at held Hb_starting [In_connecting, In_connecting] True False False)
      (threads_at held Hb_starting [In_handshake, In_connecting] True False False)"
    using connected_step [of 0 "[In_connecting, In_connecting]"] by simp
  have c5: "client_step (threads_at held Hb_starting [In_handshake, In_connecting] True False False)
      (threads_at held Hb_starting [In_handshake, In_handshake] True False False)"
    using connected_step [of 1 "[In_handshake, In_connecting]"] by simp
  have c6: "client_step (threads_at held Hb_starting [In_handshake, In_handshake] True False False)
      (threads_at held Hb_starting [In_running, In_handshake] False True False)"
    using established_step [of 0 "[In_handshake, In_handshake]"] by simp
  have c7: "client_step (threads_at held Hb_starting [In_running, In_handshake] False True False)
      (threads_at held Hb_starting [In_running, In_running] False True False)"
    using established_step [of 1 "[In_running, In_handshake]"] by simp
  from reach6 [of client_step, OF lock_step tls_update_step c3 c4 c5 c6] c7 started_step [of "[In_running, In_running]" True False]
  have "client_step\<^sup>*\<^sup>* threads_launching (threads_at None Hb_idle [In_running, In_running] False True False)"
    unfolding launch by (meson rtranclp.rtrancl_into_rtrancl)
  then show ?thesis by (rule exI [of _ "threads_at None Hb_idle [In_running, In_running] False True False", OF conjI])
      (simp add: threads_at_def)
qed

end
