(* ===== verification/Client_Relay.thy ===== *)
theory Client_Relay
  imports Relay Client_Device
begin

text \<open>
  The data plane of the client, \<open>server_input_thread\<close> and \<open>server_output_thread\<close> of \<open>src/client/proxy/client/proxy_client.c\<close> from the main loop
  on: the input thread carries bytes from the tunnel to the local service, the output thread carries them back. As in the server's relay a thread
  runs against observations of its calls and of the flags the other thread writes; the bytes written are tagged with whether they went through
  TLS.
\<close>

section \<open>Sending one buffer\<close>

datatype ssl_error = SSL_want | SSL_zero_return | SSL_fatal

text \<open>
  One pass of the \<open>do .. while\<close>: the result of \<open>SSL_write\<close> or \<open>send\<close>, the TLS error of a result of at most 0, \<open>errno == EAGAIN\<close>, the failure of
  the waiting \<open>select\<close>, the running flag of the other side as tested after that wait, and as tested by the \<open>while\<close>.
\<close>

record client_send_obs =
  co_result :: int
  co_ssl_error :: ssl_error
  co_eagain :: bool
  co_select_failed :: bool
  co_running_after_wait :: bool
  co_running :: bool

text \<open>The result is \<open>sent\<close>, whether the TLS object is still there, and the bytes written; None while the loop runs.\<close>

fun client_send_loop ::
  "bool \<Rightarrow> u8 list \<Rightarrow> client_send_obs list \<Rightarrow> int \<Rightarrow> bool \<Rightarrow> (bool \<times> u8) list \<Rightarrow> (int \<times> bool \<times> (bool \<times> u8) list) option" where
  "client_send_loop ssl buf [] sent obj out = None"
| "client_send_loop ssl buf (ob # obs) sent obj out =
     (let tls = (ssl \<and> obj);
          again = (\<lambda>sent' out'. if co_running ob then client_send_loop ssl buf obs sent' obj out' else Some (sent', obj, out'))
      in if tls \<and> co_result ob \<le> 0 then
           (case co_ssl_error ob of
              SSL_want \<Rightarrow> again sent out
            | SSL_zero_return \<Rightarrow> Some (sent, obj, out)
            | SSL_fatal \<Rightarrow> Some (sent, False, out))
         else if co_result ob \<noteq> -1 then
           (let sent' = sent + co_result ob;
                out' = out @ map (Pair tls) (take (nat (co_result ob)) (drop (nat sent) buf))
            in if int (length buf) - sent' \<le> 0 then Some (sent', obj, out') else again sent' out')
         else if co_eagain ob then
           (if co_select_failed ob \<or> \<not> co_running_after_wait ob then Some (sent, obj, out) else again sent out)
         else Some (sent, obj, out))"

fun client_send_valid :: "u8 list \<Rightarrow> client_send_obs list \<Rightarrow> int \<Rightarrow> bool" where
  "client_send_valid buf [] sent = True"
| "client_send_valid buf (ob # obs) sent =
     (-1 \<le> co_result ob \<and> co_result ob \<le> int (length buf) - sent \<and>
      client_send_valid buf obs (if co_result ob \<le> 0 then sent else sent + co_result ob))"

section \<open>The two threads\<close>

record client_relay =
  cr_conn :: client_conn
  cr_enable_ssl :: bool
  cr_enable_output_ssl :: bool
  cr_read :: "u8 list"
  cr_written :: "(bool \<times> u8) list"
  cr_counted :: u64
  cr_closed :: "int list"

text \<open>
  One pass of the input thread's loop: the stop flag at its head, the inactivity test, \<open>select\<close>, the stop flags read after it, the read, whether the output
  thread failed to come up within 120 seconds, whether it has a TLS object, and the sends.
\<close>

record client_in_obs =
  ci_head_stop :: bool
  ci_inactive :: bool
  ci_select :: int
  ci_stop :: bool
  ci_read :: read_obs
  ci_output_timeout :: bool
  ci_ssl_output :: bool
  ci_send :: "client_send_obs list"

definition close_tunnel :: "client_relay \<Rightarrow> client_relay" where
  "close_tunnel st =
     (if 0 \<le> conn_input (cr_conn st)
      then st\<lparr>cr_closed := cr_closed st @ [conn_input (cr_conn st)], cr_conn := (cr_conn st)\<lparr>conn_input := -1\<rparr>\<rparr> else st)"

definition close_service :: "client_relay \<Rightarrow> client_relay" where
  "close_service st =
     (if 0 \<le> conn_output (cr_conn st)
      then st\<lparr>cr_closed := cr_closed st @ [conn_output (cr_conn st)], cr_conn := (cr_conn st)\<lparr>conn_output := -1\<rparr>\<rparr> else st)"

definition stop_output :: "client_relay \<Rightarrow> client_relay" where
  "stop_output st = st\<lparr>cr_conn := (cr_conn st)\<lparr>stop_running_output := True\<rparr>\<rparr>"

text \<open>After the read: the wait for the output thread, the sends, and the traffic counter, which counts only whole buffers.\<close>

definition client_input_forward :: "client_in_obs \<Rightarrow> u8 list \<Rightarrow> client_relay \<Rightarrow> (bool \<times> client_relay) option" where
  "client_input_forward ob buf st =
     (let st1 = st\<lparr>cr_read := cr_read st @ buf\<rparr>
      in if ci_output_timeout ob then Some (False, st1)
         else case client_send_loop (cr_enable_output_ssl st) buf (ci_send ob) 0 (ci_ssl_output ob) [] of
                None \<Rightarrow> None
              | Some (sent, obj, out) \<Rightarrow>
                  Some (True, st1\<lparr>cr_written := cr_written st1 @ out,
                    cr_conn := (cr_conn st1)\<lparr>conn_ssl_output := (if cr_enable_output_ssl st then obj else conn_ssl_output (cr_conn st1))\<rparr>,
                    cr_counted := (if sent \<ge> int (length buf) \<and> buf \<noteq> [] then cr_counted st1 + of_nat (length buf) else cr_counted st1)\<rparr>))"

text \<open>One pass; \<open>(False, _)\<close> leaves the loop (\<open>break\<close> or \<open>goto restart_input_thread\<close>).\<close>

definition client_input_iteration :: "client_in_obs \<Rightarrow> client_relay \<Rightarrow> (bool \<times> client_relay) option" where
  "client_input_iteration ob st =
     (if ci_head_stop ob then Some (False, st)
      else if ci_inactive ob then Some (False, close_service (close_tunnel (stop_output st)))
      else if ci_select ob = -1 then Some (False, st)
      else if ci_select ob = 0 then Some (True, st)
      else if ci_stop ob then Some (False, st)
      else if cr_enable_ssl st then
        (case ci_read ob of
           Read buf \<Rightarrow> client_input_forward ob buf st
         | Read_again \<Rightarrow> Some (True, st)
         | Read_closed \<Rightarrow> Some (False, close_tunnel (stop_output st))
         | Read_fatal \<Rightarrow> Some (False, close_tunnel (stop_output (st\<lparr>cr_conn := (cr_conn st)\<lparr>conn_ssl_input := False\<rparr>\<rparr>))))
      else
        (case ci_read ob of
           Read buf \<Rightarrow> client_input_forward ob buf st
         | _ \<Rightarrow> Some (False, close_tunnel (stop_output st))))"

definition client_input_loop :: "client_in_obs list \<Rightarrow> client_relay \<Rightarrow> (bool \<times> client_relay) option" where
  "client_input_loop = relay_loop client_input_iteration"

text \<open>After a \<open>break\<close>, and the beginning of the restart.\<close>

definition client_input_epilogue :: "client_relay \<Rightarrow> client_relay" where
  "client_input_epilogue st =
     close_tunnel (if cr_enable_ssl st then st\<lparr>cr_conn := (cr_conn st)\<lparr>conn_ssl_input := False\<rparr>\<rparr> else st)"

definition restart_input_thread :: "client_relay \<Rightarrow> client_relay" where
  "restart_input_thread st = st\<lparr>cr_conn := (cr_conn st)\<lparr>conn_input := -1\<rparr>\<rparr>"

text \<open>
  One pass of the output thread's loop: the stop flag at its head, the inactivity test, \<open>select\<close>, \<open>stop_running_output\<close>, the read, the stop flags as seen after
  the wait for the input thread, whether there is a TLS object for the tunnel, and the sends.
\<close>

record client_out_obs =
  cx_head_stop :: bool
  cx_inactive :: bool
  cx_select :: int
  cx_stop :: bool
  cx_read :: read_obs
  cx_stop_after_wait :: bool
  cx_ssl_input :: bool
  cx_send :: "client_send_obs list"

definition client_output_forward :: "client_out_obs \<Rightarrow> u8 list \<Rightarrow> client_relay \<Rightarrow> (bool \<times> client_relay) option" where
  "client_output_forward ob buf st =
     (let st1 = st\<lparr>cr_read := cr_read st @ buf\<rparr>
      in if cx_stop_after_wait ob then Some (False, st1)
         else case client_send_loop (cr_enable_ssl st) buf (cx_send ob) 0 (cx_ssl_input ob) [] of
                None \<Rightarrow> None
              | Some (sent, obj, out) \<Rightarrow>
                  Some (True, st1\<lparr>cr_written := cr_written st1 @ out,
                    cr_conn := (cr_conn st1)\<lparr>conn_ssl_input := (if cr_enable_ssl st then obj else conn_ssl_input (cr_conn st1))\<rparr>,
                    cr_counted := (if sent \<ge> int (length buf) \<and> buf \<noteq> [] then cr_counted st1 + of_nat (length buf) else cr_counted st1)\<rparr>))"

definition client_output_iteration :: "client_out_obs \<Rightarrow> client_relay \<Rightarrow> (bool \<times> client_relay) option" where
  "client_output_iteration ob st =
     (if cx_head_stop ob then Some (False, st)
      else if cx_inactive ob then Some (False, st)
      else if cx_select ob = -1 then Some (False, st)
      else if cx_select ob = 0 then Some (True, st)
      else if cx_stop ob then Some (False, st)
      else
        (case cx_read ob of
           Read buf \<Rightarrow> client_output_forward ob buf st
         | Read_again \<Rightarrow> if cr_enable_output_ssl st then Some (True, st) else Some (False, st)
         | Read_closed \<Rightarrow> Some (False, st)
         | Read_fatal \<Rightarrow>
             Some (False, if cr_enable_output_ssl st then st\<lparr>cr_conn := (cr_conn st)\<lparr>conn_ssl_output := False\<rparr>\<rparr> else st)))"

definition client_output_loop :: "client_out_obs list \<Rightarrow> client_relay \<Rightarrow> (bool \<times> client_relay) option" where
  "client_output_loop = relay_loop client_output_iteration"

definition client_output_epilogue :: "client_relay \<Rightarrow> client_relay" where
  "client_output_epilogue st =
     (let st1 = close_service (if cr_enable_output_ssl st then st\<lparr>cr_conn := (cr_conn st)\<lparr>conn_ssl_output := False\<rparr>\<rparr> else st)
      in st1\<lparr>cr_conn := (cr_conn st1)\<lparr>is_running_output := False, is_starting_output := False, stop_running_output := False\<rparr>\<rparr>)"

section \<open>The send loop writes a prefix\<close>

lemma client_send_loop_prefix:
  assumes "client_send_loop ssl buf obs sent obj out = Some (sent', obj', out')"
    and "client_send_valid buf obs sent" and "0 \<le> sent" and "sent \<le> int (length buf)"
  shows "sent \<le> sent' \<and> sent' \<le> int (length buf) \<and>
         out' = out @ map (Pair (ssl \<and> obj)) (take (nat (sent' - sent)) (drop (nat sent) buf))"
  using assms
proof (induction obs arbitrary: sent out)
  case Nil
  then show ?case by simp
next
  case (Cons ob obs)
  show ?case
  proof (cases "0 < co_result ob")
    case True
    let ?s = "sent + co_result ob"
    let ?o = "out @ map (Pair (ssl \<and> obj)) (take (nat (co_result ob)) (drop (nat sent) buf))"
    from True Cons.prems have v: "client_send_valid buf obs ?s" "?s \<le> int (length buf)" by auto
    from Cons.prems(1) True have "sent' = ?s \<and> out' = ?o \<or> client_send_loop ssl buf obs ?s obj ?o = Some (sent', obj', out')"
      by (auto simp: Let_def split: if_splits)
    then show ?thesis
    proof
      assume "sent' = ?s \<and> out' = ?o"
      with True v Cons.prems(3) show ?thesis by simp
    next
      assume r: "client_send_loop ssl buf obs ?s obj ?o = Some (sent', obj', out')"
      from Cons.IH [OF r v(1)] True v Cons.prems(3) have
        h: "?s \<le> sent'" "sent' \<le> int (length buf)" "out' = ?o @ map (Pair (ssl \<and> obj)) (take (nat (sent' - ?s)) (drop (nat ?s) buf))"
        by auto
      have "nat (sent' - sent) = nat (co_result ob) + nat (sent' - ?s)" "nat ?s = nat sent + nat (co_result ob)"
        using h True Cons.prems(3) by auto
      with h True show ?thesis by (simp add: take_add add.commute)
    qed
  next
    case False
    then have "co_result ob = 0 \<or> co_result ob = -1" using Cons.prems(2) by auto
    with Cons.prems(1) False have "sent' = sent \<and> out' = out \<or> client_send_loop ssl buf obs sent obj out = Some (sent', obj', out')"
      by (auto simp: Let_def split: if_splits ssl_error.splits)
    with Cons False show ?thesis by auto
  qed
qed

section \<open>The threads as stream relays\<close>

definition written_bytes :: "client_relay \<Rightarrow> u8 list" where
  "written_bytes st = map snd (cr_written st)"

definition whole_sent :: "bool \<Rightarrow> u8 list \<Rightarrow> client_send_obs list \<Rightarrow> bool \<Rightarrow> bool" where
  "whole_sent ssl buf obs obj \<longleftrightarrow>
     (case client_send_loop ssl buf obs 0 obj [] of Some (sent, _) \<Rightarrow> sent \<ge> int (length buf) | None \<Rightarrow> False)"

definition client_in_valid :: "client_in_obs \<Rightarrow> bool" where
  "client_in_valid ob \<longleftrightarrow> (case ci_read ob of Read buf \<Rightarrow> buf \<noteq> [] \<and> client_send_valid buf (ci_send ob) 0 | _ \<Rightarrow> True)"

definition client_in_completes :: "bool \<Rightarrow> client_in_obs \<Rightarrow> bool" where
  "client_in_completes ssl ob \<longleftrightarrow>
     (case ci_read ob of Read buf \<Rightarrow> \<not> ci_output_timeout ob \<and> whole_sent ssl buf (ci_send ob) (ci_ssl_output ob) | _ \<Rightarrow> True)"

definition client_out_valid :: "client_out_obs \<Rightarrow> bool" where
  "client_out_valid ob \<longleftrightarrow> (case cx_read ob of Read buf \<Rightarrow> buf \<noteq> [] \<and> client_send_valid buf (cx_send ob) 0 | _ \<Rightarrow> True)"

definition client_out_completes :: "bool \<Rightarrow> client_out_obs \<Rightarrow> bool" where
  "client_out_completes ssl ob \<longleftrightarrow>
     (case cx_read ob of Read buf \<Rightarrow> \<not> cx_stop_after_wait ob \<and> whole_sent ssl buf (cx_send ob) (cx_ssl_input ob) | _ \<Rightarrow> True)"

lemma client_chunk_law:
  assumes "client_send_loop ssl buf obs 0 obj [] = Some (sent, obj', out)" and "client_send_valid buf obs 0"
  shows "prefix (map snd out) buf" and "whole_sent ssl buf obs obj \<Longrightarrow> map snd out = buf"
  using client_send_loop_prefix [OF assms] assms(1) by (auto simp: whole_sent_def take_is_prefix comp_def)

lemma client_close_simps [simp]:
  "cr_read (close_tunnel st) = cr_read st" "cr_written (close_tunnel st) = cr_written st" "cr_counted (close_tunnel st) = cr_counted st"
  "cr_enable_ssl (close_tunnel st) = cr_enable_ssl st" "cr_enable_output_ssl (close_tunnel st) = cr_enable_output_ssl st"
  "cr_read (close_service st) = cr_read st" "cr_written (close_service st) = cr_written st" "cr_counted (close_service st) = cr_counted st"
  "cr_enable_ssl (close_service st) = cr_enable_ssl st" "cr_enable_output_ssl (close_service st) = cr_enable_output_ssl st"
  "cr_read (stop_output st) = cr_read st" "cr_written (stop_output st) = cr_written st" "cr_counted (stop_output st) = cr_counted st"
  "cr_enable_ssl (stop_output st) = cr_enable_ssl st" "cr_enable_output_ssl (stop_output st) = cr_enable_output_ssl st"
  by (simp_all add: close_tunnel_def close_service_def stop_output_def)

text \<open>A pass forwards a chunk it read, or leaves the streams, the counter and the settings alone.\<close>

lemma client_input_iteration_cases:
  assumes "client_input_iteration ob st = Some (b, st')"
  obtains (forward) buf where "ci_read ob = Read buf" "client_input_forward ob buf st = Some (b, st')"
  | (other) "cr_read st' = cr_read st" "cr_written st' = cr_written st" "cr_counted st' = cr_counted st"
      "cr_enable_output_ssl st' = cr_enable_output_ssl st"
  using assms by (auto simp: client_input_iteration_def split: if_splits read_obs.splits)

lemma client_output_iteration_cases:
  assumes "client_output_iteration ob st = Some (b, st')"
  obtains (forward) buf where "cx_read ob = Read buf" "client_output_forward ob buf st = Some (b, st')"
  | (other) "cr_read st' = cr_read st" "cr_written st' = cr_written st" "cr_counted st' = cr_counted st"
      "cr_enable_ssl st' = cr_enable_ssl st"
  using assms by (auto simp: client_output_iteration_def split: if_splits read_obs.splits)

lemma client_input_forward_law:
  assumes "client_input_forward ob buf st = Some (b, st')" and "client_send_valid buf (ci_send ob) 0"
  shows "\<exists>out. cr_read st' = cr_read st @ buf \<and> written_bytes st' = written_bytes st @ out \<and> prefix out buf \<and>
    (\<not> ci_output_timeout ob \<and> whole_sent (cr_enable_output_ssl st) buf (ci_send ob) (ci_ssl_output ob) \<longrightarrow>
       out = buf \<and> (buf \<noteq> [] \<longrightarrow> cr_counted st' = cr_counted st + of_nat (length buf)))"
proof (cases "ci_output_timeout ob")
  case True
  with assms(1) show ?thesis by (auto simp: client_input_forward_def written_bytes_def Let_def)
next
  case False
  with assms(1) obtain sent obj out where
    l: "client_send_loop (cr_enable_output_ssl st) buf (ci_send ob) 0 (ci_ssl_output ob) [] = Some (sent, obj, out)"
    by (auto simp: client_input_forward_def Let_def split: option.splits)
  from client_chunk_law [OF l assms(2)] l assms(1) False show ?thesis
    by (intro exI [of _ "map snd out"]) (auto simp: client_input_forward_def written_bytes_def whole_sent_def Let_def)
qed

lemma client_output_forward_law:
  assumes "client_output_forward ob buf st = Some (b, st')" and "client_send_valid buf (cx_send ob) 0"
  shows "\<exists>out. cr_read st' = cr_read st @ buf \<and> written_bytes st' = written_bytes st @ out \<and> prefix out buf \<and>
    (\<not> cx_stop_after_wait ob \<and> whole_sent (cr_enable_ssl st) buf (cx_send ob) (cx_ssl_input ob) \<longrightarrow>
       out = buf \<and> (buf \<noteq> [] \<longrightarrow> cr_counted st' = cr_counted st + of_nat (length buf)))"
proof (cases "cx_stop_after_wait ob")
  case True
  with assms(1) show ?thesis by (auto simp: client_output_forward_def written_bytes_def Let_def)
next
  case False
  with assms(1) obtain sent obj out where
    l: "client_send_loop (cr_enable_ssl st) buf (cx_send ob) 0 (cx_ssl_input ob) [] = Some (sent, obj, out)"
    by (auto simp: client_output_forward_def Let_def split: option.splits)
  from client_chunk_law [OF l assms(2)] l assms(1) False show ?thesis
    by (intro exI [of _ "map snd out"]) (auto simp: client_output_forward_def written_bytes_def whole_sent_def Let_def)
qed

lemma client_forward_settings:
  "client_input_forward ob buf st = Some (b, st') \<Longrightarrow> cr_enable_output_ssl st' = cr_enable_output_ssl st"
  "client_output_forward ob' buf st = Some (b, st') \<Longrightarrow> cr_enable_ssl st' = cr_enable_ssl st"
  by (auto simp: client_input_forward_def client_output_forward_def Let_def split: if_splits option.splits)

interpretation service_relay: stream_relay client_input_iteration cr_read written_bytes
  "\<lambda>st. cr_enable_output_ssl st = ssl" client_in_valid "client_in_completes ssl" for ssl
proof unfold_locales
  fix st ob b st'
  assume i: "cr_enable_output_ssl st = ssl" and p: "client_input_iteration ob st = Some (b, st')"
  from p show "cr_enable_output_ssl st' = ssl"
    by (cases rule: client_input_iteration_cases) (use i in \<open>auto dest: client_forward_settings\<close>)
  assume v: "client_in_valid ob"
  from p show "\<exists>chunk out. cr_read st' = cr_read st @ chunk \<and> written_bytes st' = written_bytes st @ out \<and> prefix out chunk \<and>
      (client_in_completes ssl ob \<longrightarrow> out = chunk)"
  proof (cases rule: client_input_iteration_cases)
    case (forward buf)
    with v have "client_send_valid buf (ci_send ob) 0" by (simp add: client_in_valid_def)
    from client_input_forward_law [OF forward(2) this] forward(1) i show ?thesis by (auto simp: client_in_completes_def)
  qed (auto simp: written_bytes_def)
qed

interpretation server_relay: stream_relay client_output_iteration cr_read written_bytes
  "\<lambda>st. cr_enable_ssl st = ssl" client_out_valid "client_out_completes ssl" for ssl
proof unfold_locales
  fix st ob b st'
  assume i: "cr_enable_ssl st = ssl" and p: "client_output_iteration ob st = Some (b, st')"
  from p show "cr_enable_ssl st' = ssl"
    by (cases rule: client_output_iteration_cases) (use i in \<open>auto dest: client_forward_settings\<close>)
  assume v: "client_out_valid ob"
  from p show "\<exists>chunk out. cr_read st' = cr_read st @ chunk \<and> written_bytes st' = written_bytes st @ out \<and> prefix out chunk \<and>
      (client_out_completes ssl ob \<longrightarrow> out = chunk)"
  proof (cases rule: client_output_iteration_cases)
    case (forward buf)
    with v have "client_send_valid buf (cx_send ob) 0" by (simp add: client_out_valid_def)
    from client_output_forward_law [OF forward(2) this] forward(1) i show ?thesis by (auto simp: client_out_completes_def)
  qed (auto simp: written_bytes_def)
qed

section \<open>Properties\<close>

lemma service_relay_counts:
  assumes "client_input_loop obs st = Some (b, st')" and "list_all client_in_valid obs"
    and "list_all (client_in_completes (cr_enable_output_ssl st)) obs" and "cr_counted st = of_nat (length (cr_read st))"
  shows "cr_counted st' = of_nat (length (cr_read st'))"
  using assms unfolding client_input_loop_def
proof (induction obs arbitrary: st)
  case Nil
  then show ?case by simp
next
  case (Cons ob obs)
  then obtain b1 st1 where p: "client_input_iteration ob st = Some (b1, st1)" by (auto split: option.splits)
  have "cr_counted st1 = of_nat (length (cr_read st1)) \<and> cr_enable_output_ssl st1 = cr_enable_output_ssl st"
    using p
  proof (cases rule: client_input_iteration_cases)
    case (forward buf)
    with Cons.prems(2) have v: "client_send_valid buf (ci_send ob) 0" "buf \<noteq> []" by (simp_all add: client_in_valid_def)
    from client_input_forward_law [OF forward(2) v(1)] v(2) Cons.prems(3,4) forward(1) client_forward_settings(1) [OF forward(2)]
    show ?thesis by (auto simp: client_in_completes_def)
  qed (use Cons.prems(4) in simp)
  with p Cons show ?case by (cases b1) auto
qed

lemma server_relay_counts:
  assumes "client_output_loop obs st = Some (b, st')" and "list_all client_out_valid obs"
    and "list_all (client_out_completes (cr_enable_ssl st)) obs" and "cr_counted st = of_nat (length (cr_read st))"
  shows "cr_counted st' = of_nat (length (cr_read st'))"
  using assms unfolding client_output_loop_def
proof (induction obs arbitrary: st)
  case Nil
  then show ?case by simp
next
  case (Cons ob obs)
  then obtain b1 st1 where p: "client_output_iteration ob st = Some (b1, st1)" by (auto split: option.splits)
  have "cr_counted st1 = of_nat (length (cr_read st1)) \<and> cr_enable_ssl st1 = cr_enable_ssl st"
    using p
  proof (cases rule: client_output_iteration_cases)
    case (forward buf)
    with Cons.prems(2) have v: "client_send_valid buf (cx_send ob) 0" "buf \<noteq> []" by (simp_all add: client_out_valid_def)
    from client_output_forward_law [OF forward(2) v(1)] v(2) Cons.prems(3,4) forward(1) client_forward_settings(2) [OF forward(2)]
    show ?thesis by (auto simp: client_out_completes_def)
  qed (use Cons.prems(4) in simp)
  with p Cons show ?case by (cases b1) auto
qed

text \<open>
  The client's input thread passes the tunnel's bytes on to the local service: what it has written is at every moment the concatenation of
  prefixes of the chunks it read, in order; if every chunk could be sent, it is exactly what was read, and the traffic counter has counted every
  byte.
\<close>

theorem client_relay_to_service_exact:
  assumes "client_input_loop obs st = Some (running, st')" and "cr_read st = []" and "cr_written st = []" and "cr_counted st = 0"
    and "list_all client_in_valid obs"
  shows "(\<exists>chunks outs. cr_read st' = concat chunks \<and> written_bytes st' = concat outs \<and> list_all2 prefix outs chunks) \<and>
         (list_all (client_in_completes (cr_enable_output_ssl st)) obs \<longrightarrow>
            written_bytes st' = cr_read st' \<and> cr_counted st' = of_nat (length (cr_read st')))"
proof -
  have l: "relay_loop client_input_iteration obs st = Some (running, st')" using assms(1) by (simp add: client_input_loop_def)
  have e: "written_bytes st = cr_read st" using assms(2,3) by (simp add: written_bytes_def)
  from service_relay.loop_prefixes [OF refl assms(5) l] assms(2,3)
  have "\<exists>chunks outs. cr_read st' = concat chunks \<and> written_bytes st' = concat outs \<and> list_all2 prefix outs chunks"
    by (simp add: written_bytes_def)
  with service_relay.loop_exact [OF refl _ l e] service_relay_counts [OF assms(1,5)] assms(2,4,5) show ?thesis
    by (auto simp: list_all_conj)
qed

text \<open>
  C11. The tunnel as a whole. A user's bytes go through the server's input handler, the tunnel connection and the client's input
  thread. If the tunnel delivers a prefix of what was written into it, and both threads could send every chunk, then the local service has received
  a prefix of what the server read from the user, and the whole of it once the tunnel has delivered everything.
\<close>

theorem tunnel_user_to_service:
  assumes server: "connection_input_handler ssl_new_ok accept_ok sobs sst = Some (srun, sst')" "i_read sst = []" "i_written sst = []"
      "list_all in_valid sobs" "list_all (in_completes (ps_enable_output_ssl (i_server sst))) sobs"
    and client: "client_input_loop cobs cst = Some (crun, cst')" "cr_read cst = []" "cr_written cst = []"
      "list_all client_in_valid cobs" "list_all (client_in_completes (cr_enable_output_ssl cst)) cobs"
    and tcp: "prefix (cr_read cst') (i_written sst')"
  shows "prefix (written_bytes cst') (i_read sst') \<and>
         (length (cr_read cst') = length (i_written sst') \<longrightarrow> written_bytes cst' = i_read sst')"
proof -
  have s: "i_written sst' = i_read sst'" using relay_to_device_streams [OF server(1-4)] server(5) by blast
  have l: "relay_loop client_input_iteration cobs cst = Some (crun, cst')" using client(1) by (simp add: client_input_loop_def)
  have "written_bytes cst = cr_read cst" using client(2,3) by (simp add: written_bytes_def)
  from service_relay.loop_exact [OF refl _ l this] client(4,5) have "written_bytes cst' = cr_read cst'"
    by (simp add: list_all_conj)
  with s tcp show ?thesis by (auto simp: prefix_def)
qed

text \<open>
  C12. And back: the service's bytes go through the client's output thread, the tunnel and the server's output handler to the user.
\<close>

theorem tunnel_service_to_user:
  assumes client: "client_output_loop cobs cst = Some (crun, cst')" "cr_read cst = []" "cr_written cst = []"
      "list_all client_out_valid cobs" "list_all (client_out_completes (cr_enable_ssl cst)) cobs"
    and server: "connection_output_handler ssl_new_ok accept_ok sobs sst = Some (srun, sst')" "o_read sst = []" "o_written sst = []"
      "list_all out_valid sobs" "list_all (out_completes (ps_enable_input_ssl (o_server sst))) sobs"
    and tcp: "prefix (o_read sst') (written_bytes cst')"
  shows "prefix (o_written sst') (cr_read cst') \<and>
         (length (o_read sst') = length (written_bytes cst') \<longrightarrow> o_written sst' = cr_read cst')"
proof -
  have s: "o_written sst' = o_read sst'" using relay_to_user_streams [OF server(1-4)] server(5) by blast
  have l: "relay_loop client_output_iteration cobs cst = Some (crun, cst')" using client(1) by (simp add: client_output_loop_def)
  have "written_bytes cst = cr_read cst" using client(2,3) by (simp add: written_bytes_def)
  from server_relay.loop_exact [OF refl _ l this] client(4,5) have "written_bytes cst' = cr_read cst'"
    by (simp add: list_all_conj)
  with s tcp show ?thesis by (auto simp: prefix_def)
qed

text \<open>Examples: a plain connection, and passes that read a chunk and send it.\<close>

definition example_relay :: client_relay where
  "example_relay =
     \<lparr>cr_conn = zero_conn\<lparr>conn_input := 5, conn_output := 6, is_running_output := True\<rparr>, cr_enable_ssl = False, cr_enable_output_ssl = False,
      cr_read = [], cr_written = [], cr_counted = 0, cr_closed = []\<rparr>"

definition client_sent :: "int \<Rightarrow> client_send_obs" where
  "client_sent n = \<lparr>co_result = n, co_ssl_error = SSL_fatal, co_eagain = False, co_select_failed = False, co_running_after_wait = True,
     co_running = True\<rparr>"

definition client_in_pass :: "u8 list \<Rightarrow> client_send_obs list \<Rightarrow> client_in_obs" where
  "client_in_pass buf sends =
     \<lparr>ci_head_stop = False, ci_inactive = False, ci_select = 1, ci_stop = False, ci_read = Read buf, ci_output_timeout = False,
      ci_ssl_output = False, ci_send = sends\<rparr>"

definition client_out_pass :: "u8 list \<Rightarrow> bool \<Rightarrow> client_send_obs list \<Rightarrow> client_out_obs" where
  "client_out_pass buf tls sends =
     \<lparr>cx_head_stop = False, cx_inactive = False, cx_select = 1, cx_stop = False, cx_read = Read buf, cx_stop_after_wait = False,
      cx_ssl_input = tls, cx_send = sends\<rparr>"

lemmas example_client_relay_defs = example_relay_def client_sent_def client_in_pass_def client_out_pass_def client_in_valid_def
  client_in_completes_def client_out_valid_def client_out_completes_def whole_sent_def written_bytes_def
  client_input_loop_def client_input_iteration_def client_input_forward_def
  client_output_loop_def client_output_iteration_def client_output_forward_def

lemma example_client_runs:
  "\<exists>st'. client_input_loop [client_in_pass [1, 2, 3, 4] [client_sent 3, client_sent 1]] example_relay = Some (True, st') \<and>
     cr_read st' = [1, 2, 3, 4]"
  "\<exists>st'. client_output_loop [client_out_pass [1, 2, 3] False [client_sent 3]] example_relay = Some (True, st') \<and>
     cr_read st' = [1, 2, 3] \<and> written_bytes st' = [1, 2, 3]"
  by (simp_all add: example_client_relay_defs Let_def)

lemma example_client_valid:
  "list_all client_in_valid [client_in_pass [1, 2, 3, 4] [client_sent 3, client_sent 1]]"
  "list_all (client_in_completes (cr_enable_output_ssl example_relay)) [client_in_pass [1, 2, 3, 4] [client_sent 3, client_sent 1]]"
  "list_all client_out_valid [client_out_pass [1, 2, 3] False [client_sent 3]]"
  "list_all (client_out_completes (cr_enable_ssl example_relay)) [client_out_pass [1, 2, 3] False [client_sent 3]]"
  "cr_read example_relay = []" "cr_written example_relay = []" "cr_counted example_relay = 0"
  by (simp_all add: example_client_relay_defs Let_def)

theorem client_relay_to_service_exact_witness:
  "\<exists>st'. client_input_loop [client_in_pass [1, 2, 3, 4] [client_sent 3, client_sent 1]] example_relay = Some (True, st') \<and>
     written_bytes st' = [1, 2, 3, 4] \<and> cr_counted st' = 4"
proof -
  from example_client_runs(1) obtain st' where
    r: "client_input_loop [client_in_pass [1, 2, 3, 4] [client_sent 3, client_sent 1]] example_relay = Some (True, st')"
      "cr_read st' = [1, 2, 3, 4]" by blast
  with client_relay_to_service_exact [OF r(1)] example_client_valid show ?thesis by simp
qed

lemma example_server_valid:
  "list_all in_valid [in_pass [1, 2, 3] [sent_obs 2, sent_obs 1], in_pass [4] [sent_obs 1]]"
  "list_all (in_completes (ps_enable_output_ssl (i_server (example_in_state zero_server))))
     [in_pass [1, 2, 3] [sent_obs 2, sent_obs 1], in_pass [4] [sent_obs 1]]"
  "i_read (example_in_state zero_server) = []" "i_written (example_in_state zero_server) = []"
  "list_all out_valid [out_pass [1, 2, 3] [sent_obs 2, sent_obs 1]]"
  "list_all (out_completes (ps_enable_input_ssl (o_server (example_out_state zero_server)))) [out_pass [1, 2, 3] [sent_obs 2, sent_obs 1]]"
  "o_read (example_out_state zero_server) = []" "o_written (example_out_state zero_server) = []"
  by (simp_all add: example_relay_defs Let_def)

theorem tunnel_user_to_service_witness:
  "\<exists>sst' cst'. connection_input_handler True True [in_pass [1, 2, 3] [sent_obs 2, sent_obs 1], in_pass [4] [sent_obs 1]]
       (example_in_state zero_server) = Some (True, sst') \<and>
     client_input_loop [client_in_pass [1, 2, 3, 4] [client_sent 3, client_sent 1]] example_relay = Some (True, cst') \<and>
     written_bytes cst' = i_read sst'"
proof -
  from example_relay_runs(1) obtain sst' where
    s: "connection_input_handler True True [in_pass [1, 2, 3] [sent_obs 2, sent_obs 1], in_pass [4] [sent_obs 1]] (example_in_state zero_server) =
      Some (True, sst')" "i_read sst' = [1, 2, 3, 4]" by blast
  from example_client_runs(1) obtain cst' where
    c: "client_input_loop [client_in_pass [1, 2, 3, 4] [client_sent 3, client_sent 1]] example_relay = Some (True, cst')"
      "cr_read cst' = [1, 2, 3, 4]" by blast
  have w: "i_written sst' = [1, 2, 3, 4]"
    using relay_to_device_streams [OF s(1) example_server_valid(3,4,1)] example_server_valid(2) s(2) by simp
  from tunnel_user_to_service [OF s(1) example_server_valid(3,4,1,2) c(1) example_client_valid(5,6,1,2)] w c s show ?thesis by simp
qed

theorem tunnel_service_to_user_witness:
  "\<exists>sst' cst'. client_output_loop [client_out_pass [1, 2, 3] False [client_sent 3]] example_relay = Some (True, cst') \<and>
     connection_output_handler True True [out_pass [1, 2, 3] [sent_obs 2, sent_obs 1]] (example_out_state zero_server) = Some (True, sst') \<and>
     o_written sst' = cr_read cst'"
proof -
  from example_relay_runs(2) obtain sst' where
    s: "connection_output_handler True True [out_pass [1, 2, 3] [sent_obs 2, sent_obs 1]] (example_out_state zero_server) = Some (True, sst')"
      "o_read sst' = [1, 2, 3]" by blast
  from example_client_runs(2) obtain cst' where
    c: "client_output_loop [client_out_pass [1, 2, 3] False [client_sent 3]] example_relay = Some (True, cst')"
      "cr_read cst' = [1, 2, 3]" "written_bytes cst' = [1, 2, 3]" by blast
  from tunnel_service_to_user [OF c(1) example_client_valid(5,6,3,4) s(1) example_server_valid(7,8,5,6)] c s show ?thesis by auto
qed

section \<open>TLS and descriptors\<close>

text \<open>While the TLS object is there, every byte goes through TLS; without it, none does.\<close>

lemma client_send_loop_channel:
  assumes "client_send_loop ssl buf obs 0 obj [] = Some (sent, obj', out)" and "client_send_valid buf obs 0"
  shows "fst ` set out \<subseteq> {ssl \<and> obj}"
  using client_send_loop_prefix [OF assms] by auto

text \<open>
  C35. Plain text on the tunnel after a TLS write error. When \<open>SSL_write\<close> to the server fails for good, the output thread frees the TLS object,
  leaves the socket open and goes on; for the next chunk it finds no TLS object and hands the bytes to \<open>send\<close> on the
  same socket: the service's data leave the machine unencrypted although TLS is enabled for the tunnel.
\<close>

theorem plaintext_after_tls_error:
  assumes "cr_enable_ssl st"
    and "ob1 = client_out_pass buf1 True [e]" and "co_result e \<le> 0" and "co_ssl_error e = SSL_fatal"
    and "ob2 = client_out_pass buf2 (conn_ssl_input (cr_conn (snd (the (client_output_iteration ob1 st))))) [s]"
    and "co_result s = int (length buf2)" and "buf2 \<noteq> []"
  shows "\<exists>st'. client_output_loop [ob1, ob2] st = Some (True, st') \<and> cr_written st' = cr_written st @ map (Pair False) buf2 \<and>
           cr_enable_ssl st' \<and> conn_input (cr_conn st') = conn_input (cr_conn st)"
  using assms
  by (simp add: client_output_loop_def client_output_iteration_def client_output_forward_def client_out_pass_def Let_def)

theorem plaintext_after_tls_error_witness:
  "\<exists>ob1 ob2 st'. client_output_loop [ob1, ob2] (example_relay\<lparr>cr_enable_ssl := True\<rparr>) = Some (True, st') \<and>
     cr_enable_ssl st' \<and> cr_written st' = [(False, 42)]"
proof -
  let ?st = "example_relay\<lparr>cr_enable_ssl := True\<rparr>" and ?e = "client_sent (-1)"
  let ?ob1 = "client_out_pass [7] True [?e]"
  let ?ob2 = "client_out_pass [42] (conn_ssl_input (cr_conn (snd (the (client_output_iteration ?ob1 ?st))))) [client_sent 1]"
  from plaintext_after_tls_error [of ?st ?ob1 "[7]" ?e ?ob2 "[42]" "client_sent 1"] show ?thesis
    by (auto simp: client_sent_def example_relay_def)
qed

text \<open>
  When the output thread does not come up in time, the input thread restarts without closing the tunnel's socket: its descriptor is forgotten.
\<close>

lemma output_timeout_leaks_descriptor:
  assumes "\<not> ci_head_stop ob" and "\<not> ci_inactive ob" and "ci_select ob = 1" and "\<not> ci_stop ob" and "ci_read ob = Read buf"
    and "ci_output_timeout ob"
  shows "\<exists>st'. client_input_loop [ob] st = Some (False, st') \<and> cr_closed (restart_input_thread st') = cr_closed st \<and>
           conn_input (cr_conn (restart_input_thread st')) = -1"
  using assms
  by (simp add: client_input_loop_def client_input_iteration_def client_input_forward_def restart_input_thread_def Let_def)

end
