(* ===== verification/Client_Connect.thy ===== *)
theory Client_Connect
  imports Client_Device
begin

text \<open>
  The connection phase of \<open>server_input_thread\<close> of \<open>src/client/proxy/client/proxy_client.c\<close>, from the label \<open>restart_input_thread\<close> to the point where the
  thread reports itself running: creating the socket, connecting with a growing delay, waiting while the session is revoked, the TLS handshake,
  and the ways back to the label. The thread runs against observations of its calls and of the flags other threads write; the state keeps the
  descriptors it has open and the milliseconds it has slept.
\<close>

section \<open>Interruptible sleeping\<close>

text \<open>
  The loop \<open>while (slept < sleep_ms && !stop) { step = ..; Thread_sleep (step); slept += step; }\<close>, which the thread contains five times, with steps of 200
  or of 50 milliseconds. \<open>stop s\<close> is what the flags say when they are tested after \<open>s\<close> milliseconds. A step of 0 would loop for ever; there is none.
\<close>

function sleep_loop :: "int \<Rightarrow> int \<Rightarrow> (int \<Rightarrow> bool) \<Rightarrow> int \<Rightarrow> int" where
  "sleep_loop step_max sleep_ms stop slept =
     (if 0 < step_max \<and> slept < sleep_ms \<and> \<not> stop slept
      then sleep_loop step_max sleep_ms stop (slept + (if sleep_ms - slept > step_max then step_max else sleep_ms - slept))
      else slept)"
  by pat_completeness auto
termination
  by (relation "measure (\<lambda>(step_max, sleep_ms, stop, slept). nat (sleep_ms - slept))") auto

declare sleep_loop.simps [simp del]

section \<open>State and observations\<close>

record connecting =
  cc_conn :: client_conn
  cc_open :: "int list"
  cc_slept :: int
  cc_tls_sync :: nat

text \<open>\<open>init_input_sockets\<close>: \<open>socket\<close> fails, one of the two \<open>setsockopt\<close> fails on the descriptor \<open>fd\<close>, or all is well.\<close>

datatype socket_obs = Socket_failed | Option_failed int | Socket_ok int

definition init_input_sockets :: "socket_obs \<Rightarrow> connecting \<Rightarrow> int \<times> connecting" where
  "init_input_sockets ob st =
     (case ob of
        Socket_failed \<Rightarrow> (-2, st\<lparr>cc_conn := (cc_conn st)\<lparr>conn_input := -1\<rparr>\<rparr>)
      | Option_failed fd \<Rightarrow> (-2, st\<lparr>cc_conn := (cc_conn st)\<lparr>conn_input := fd\<rparr>, cc_open := fd # cc_open st\<rparr>)
      | Socket_ok fd \<Rightarrow> (0, st\<lparr>cc_conn := (cc_conn st)\<lparr>conn_input := fd\<rparr>, cc_open := fd # cc_open st\<rparr>))"

definition thread_sleep :: "int \<Rightarrow> connecting \<Rightarrow> connecting" where
  "thread_sleep ms st = st\<lparr>cc_slept := cc_slept st + ms\<rparr>"

definition close_input_socket :: "connecting \<Rightarrow> connecting" where
  "close_input_socket st =
     (if 0 \<le> conn_input (cc_conn st)
      then st\<lparr>cc_open := remove1 (conn_input (cc_conn st)) (cc_open st), cc_conn := (cc_conn st)\<lparr>conn_input := -1\<rparr>\<rparr> else st)"

text \<open>Every early \<open>return\<close> of the thread: the descriptor is closed, the flags are reset.\<close>

definition input_thread_return :: "connecting \<Rightarrow> connecting" where
  "input_thread_return st =
     (let st1 = close_input_socket st
      in st1\<lparr>cc_conn := (cc_conn st1)\<lparr>is_starting_input := False, is_running_input := False\<rparr>\<rparr>)"

text \<open>
  One pass of the \<open>while (!conn->stop_running_input)\<close>: the stop flag at its head; the first test for a revoked session; the flags during the pause for
  registration, the stop flags after it, the second test for a revoked session, and the new socket; \<open>connect\<close>; the flags during the delay, the stop flags after it,
  and the new socket.
\<close>

record connect_obs =
  k_head_stop :: bool
  k_revoked :: bool
  k_pause :: "int \<Rightarrow> bool"
  k_pause_stop :: bool
  k_still_revoked :: bool
  k_pause_socket :: socket_obs
  k_connect :: bool
  k_wait :: "int \<Rightarrow> bool"
  k_wait_stop :: bool
  k_socket :: socket_obs

datatype connect_end = Connected | Stopped | Left

section \<open>The connection loop\<close>

text \<open>A failed \<open>connect\<close>: close, wait for \<open>backoff\<close> seconds, double the delay below 30 seconds, create the next socket.\<close>

definition connect_retry :: "connect_obs \<Rightarrow> int \<Rightarrow> connecting \<Rightarrow> connect_end option \<times> int \<times> connecting" where
  "connect_retry ob backoff st =
     (let st1 = close_input_socket st;
          st2 = thread_sleep (sleep_loop 200 (backoff * 1000) (k_wait ob) 0) st1
      in if k_wait_stop ob then (Some Stopped, backoff, input_thread_return st2)
         else let backoff' = (if backoff < 30 then backoff * 2 else backoff);
                  (r, st3) = init_input_sockets (k_socket ob) st2
              in if r \<noteq> 0 then (None, backoff', thread_sleep 1000 st3) else (None, backoff', st3))"

definition connect_try :: "connect_obs \<Rightarrow> int \<Rightarrow> connecting \<Rightarrow> connect_end option \<times> int \<times> connecting" where
  "connect_try ob backoff st =
     (if k_connect ob \<and> 0 \<le> conn_input (cc_conn st) then (Some Connected, backoff, st) else connect_retry ob backoff st)"

text \<open>One pass of the loop body: None to continue, or how the loop is left.\<close>

definition connect_pass :: "connect_obs \<Rightarrow> int \<Rightarrow> connecting \<Rightarrow> connect_end option \<times> int \<times> connecting" where
  "connect_pass ob backoff st =
     (if k_revoked ob then
        (let st1 = thread_sleep (sleep_loop 200 10000 (k_pause ob) 0) st
         in if k_pause_stop ob then (Some Stopped, backoff, input_thread_return st1)
            else if k_still_revoked ob then (None, backoff, st1)
            else let (r, st2) = init_input_sockets (k_pause_socket ob) (close_input_socket st1)
                 in if r \<noteq> 0 then (None, backoff, thread_sleep 1000 st2)
                    else connect_try ob 1 st2)
      else connect_try ob backoff st)"

fun connect_loop :: "connect_obs list \<Rightarrow> int \<Rightarrow> connecting \<Rightarrow> (connect_end \<times> int \<times> connecting) option" where
  "connect_loop [] backoff st = None"
| "connect_loop (ob # obs) backoff st =
     (if k_head_stop ob then Some (Left, backoff, st)
      else case connect_pass ob backoff st of
             (Some e, backoff', st') \<Rightarrow> Some (e, backoff', st')
           | (None, backoff', st') \<Rightarrow> connect_loop obs backoff' st')"

section \<open>One attempt, from the label to running\<close>

text \<open>
  The stop flags after the first pause; the socket; the loop; the stop flags after leaving the loop unconnected; then, with TLS, the stop flags, \<open>SSL_new\<close>,
  \<open>SSL_connect\<close>, whether the peer showed a certificate, the flags during the short pause and the stop flags after it.
\<close>

record attempt_obs =
  a_stop :: bool
  a_socket :: socket_obs
  a_connect :: "connect_obs list"
  a_left_stop :: bool
  a_tls_stop :: bool
  a_ssl_new :: bool
  a_handshake :: bool
  a_peer_certificate :: bool
  a_pause :: "int \<Rightarrow> bool"
  a_pause_stop :: bool

datatype attempt_end = Restart | Returned | Running

text \<open>The pause of 200 milliseconds after a TLS failure, before the next attempt.\<close>

definition tls_failure_pause :: "attempt_obs \<Rightarrow> connecting \<Rightarrow> attempt_end \<times> connecting" where
  "tls_failure_pause ob st =
     (let st1 = thread_sleep (sleep_loop 50 200 (a_pause ob) 0) st
      in if a_pause_stop ob then (Returned, input_thread_return st1) else (Restart, st1))"

definition tls_connect :: "attempt_obs \<Rightarrow> connecting \<Rightarrow> attempt_end \<times> connecting" where
  "tls_connect ob st =
     (if a_tls_stop ob then (Returned, input_thread_return st)
      else if \<not> a_ssl_new ob then tls_failure_pause ob (close_input_socket (st\<lparr>cc_conn := (cc_conn st)\<lparr>conn_ssl_input := False\<rparr>\<rparr>))
      else if a_handshake ob then (Running, st\<lparr>cc_conn := (cc_conn st)\<lparr>conn_ssl_input := True\<rparr>\<rparr>)
      else tls_failure_pause ob
             (close_input_socket (st\<lparr>cc_conn := (cc_conn st)\<lparr>conn_ssl_input := False\<rparr>,
                             cc_tls_sync := cc_tls_sync st + (if a_peer_certificate ob then 0 else 1)\<rparr>)))"

definition thread_running :: "connecting \<Rightarrow> connecting" where
  "thread_running st = st\<lparr>cc_conn := (cc_conn st)\<lparr>is_running_input := True, is_starting_input := False\<rparr>\<rparr>"

text \<open>What follows the loop: leaving it unconnected, the TLS handshake, and reporting the thread as running.\<close>

definition connect_finish :: "bool \<Rightarrow> attempt_obs \<Rightarrow> connect_end \<Rightarrow> connecting \<Rightarrow> attempt_end \<times> connecting" where
  "connect_finish ssl ob e st =
     (case e of
        Stopped \<Rightarrow> (Returned, st)
      | Left \<Rightarrow> (if a_left_stop ob then (Returned, input_thread_return st) else (Restart, st))
      | Connected \<Rightarrow>
          (let (e', st') = (if ssl then tls_connect ob st else (Running, st))
           in if e' = Running then (Running, thread_running st') else (e', st')))"

definition connect_attempt :: "bool \<Rightarrow> attempt_obs \<Rightarrow> connecting \<Rightarrow> (attempt_end \<times> connecting) option" where
  "connect_attempt ssl ob st =
     (let st1 = thread_sleep 100 (st\<lparr>cc_conn := (cc_conn st)\<lparr>conn_input := -1\<rparr>\<rparr>)
      in if a_stop ob then Some (Returned, input_thread_return st1)
         else let (r, st2) = init_input_sockets (a_socket ob) st1
              in if r \<noteq> 0 then Some (Restart, thread_sleep 1000 st2)
                 else case connect_loop (a_connect ob) 1 st2 of
                        None \<Rightarrow> None
                      | Some (e, _, st3) \<Rightarrow> Some (connect_finish ssl ob e st3))"

text \<open>The attempts until the thread runs or returns; None while it is still trying when the observations are used up.\<close>

fun connect_phase :: "bool \<Rightarrow> attempt_obs list \<Rightarrow> connecting \<Rightarrow> (attempt_end \<times> connecting) option" where
  "connect_phase ssl [] st = None"
| "connect_phase ssl (ob # obs) st =
     (case connect_attempt ssl ob st of
        None \<Rightarrow> None
      | Some (Restart, st') \<Rightarrow> connect_phase ssl obs st'
      | Some (e, st') \<Rightarrow> Some (e, st'))"

section \<open>How long the thread sleeps\<close>

lemma sleep_loop_bounds: "slept \<le> sleep_ms \<Longrightarrow> slept \<le> sleep_loop m sleep_ms stop slept \<and> sleep_loop m sleep_ms stop slept \<le> sleep_ms"
proof (induction m sleep_ms stop slept rule: sleep_loop.induct)
  case (1 m n stop slept)
  then show ?case by (subst (1 2) sleep_loop.simps) auto
qed

text \<open>The loop ends at its full time or at a test of the flags that says stop.\<close>

lemma sleep_loop_ends: "0 < m \<Longrightarrow> slept \<le> n \<Longrightarrow> sleep_loop m n stop slept = n \<or> stop (sleep_loop m n stop slept)"
proof (induction m n stop slept rule: sleep_loop.induct)
  case (1 m n stop slept)
  then show ?case by (subst (1 2) sleep_loop.simps) auto
qed

lemma sleep_loop_full: "0 < m \<Longrightarrow> slept \<le> n \<Longrightarrow> (\<And>s. \<not> stop s) \<Longrightarrow> sleep_loop m n stop slept = n"
  using sleep_loop_ends by blast

lemma sleep_loop_latency:
  "0 < m \<Longrightarrow> (\<And>s. t \<le> s \<Longrightarrow> stop s) \<Longrightarrow> slept < t + m \<Longrightarrow> sleep_loop m n stop slept < t + m"
proof (induction m n stop slept rule: sleep_loop.induct)
  case (1 m n stop slept)
  have "slept < t" if "\<not> stop slept"
    using that "1.prems"(2) [of slept] by linarith
  with 1 show ?case by (subst sleep_loop.simps) auto
qed

lemmas sleep_loop_facts = sleep_loop_bounds sleep_loop_full sleep_loop_ends sleep_loop_latency

section \<open>The descriptors of the thread\<close>

text \<open>The thread owns exactly the descriptor in its record, beside the descriptors \<open>base\<close>.\<close>

definition owns :: "int list \<Rightarrow> connecting \<Rightarrow> bool" where
  "owns base st \<longleftrightarrow> (if 0 \<le> conn_input (cc_conn st) then cc_open st = conn_input (cc_conn st) # base else cc_open st = base)"

fun socket_valid :: "socket_obs \<Rightarrow> bool" where
  "socket_valid Socket_failed \<longleftrightarrow> True"
| "socket_valid (Option_failed fd) \<longleftrightarrow> 0 \<le> fd"
| "socket_valid (Socket_ok fd) \<longleftrightarrow> 0 \<le> fd"

definition connect_valid :: "connect_obs \<Rightarrow> bool" where
  "connect_valid ob \<longleftrightarrow> socket_valid (k_pause_socket ob) \<and> socket_valid (k_socket ob)"

lemma owns_close_input: "owns base st \<Longrightarrow> owns base (close_input_socket st) \<and> conn_input (cc_conn (close_input_socket st)) < 0"
  by (auto simp: owns_def close_input_socket_def)

lemma owns_init_input_sockets:
  assumes "socket_valid ob" "owns base st" "conn_input (cc_conn st) < 0" "init_input_sockets ob st = (r, st')"
  shows "owns base st' \<and> (r = 0 \<longrightarrow> 0 \<le> conn_input (cc_conn st'))"
  using assms by (cases ob) (auto simp: init_input_sockets_def owns_def)

lemma owns_thread_sleep [simp]: "owns base (thread_sleep ms st) = owns base st"
  by (simp add: owns_def thread_sleep_def)

lemma thread_sleep_conn [simp]: "cc_conn (thread_sleep ms st) = cc_conn st"
  by (simp add: thread_sleep_def)

text \<open>The thread has given back its descriptor and its flags.\<close>

definition given_back :: "int list \<Rightarrow> connecting \<Rightarrow> bool" where
  "given_back base st \<longleftrightarrow>
     cc_open st = base \<and> conn_input (cc_conn st) < 0 \<and> \<not> is_starting_input (cc_conn st) \<and> \<not> is_running_input (cc_conn st)"

lemma input_thread_return_gives_back: "owns base st \<Longrightarrow> given_back base (input_thread_return st)"
  by (drule owns_close_input) (simp add: input_thread_return_def given_back_def owns_def Let_def)

text \<open>What each way out of the loop leaves behind.\<close>

fun after_pass :: "int list \<Rightarrow> connect_end option \<Rightarrow> connecting \<Rightarrow> bool" where
  "after_pass base None st = owns base st"
| "after_pass base (Some Connected) st = (owns base st \<and> 0 \<le> conn_input (cc_conn st))"
| "after_pass base (Some Stopped) st = given_back base st"
| "after_pass base (Some Left) st = owns base st"

lemma connect_retry_owns:
  assumes "connect_valid ob" "owns base st" "connect_retry ob backoff st = (e, b, st')"
  shows "after_pass base e st'"
proof -
  let ?st2 = "thread_sleep (sleep_loop 200 (backoff * 1000) (k_wait ob) 0) (close_input_socket st)"
  have own: "owns base ?st2" "conn_input (cc_conn ?st2) < 0"
    using owns_close_input [OF assms(2)] by auto
  obtain r st3 where init: "init_input_sockets (k_socket ob) ?st2 = (r, st3)"
    by fastforce
  have "owns base st3"
    using owns_init_input_sockets [OF _ own init] assms(1) by (simp add: connect_valid_def)
  then show ?thesis
    using assms(3) input_thread_return_gives_back [OF own(1)]
    by (auto simp: connect_retry_def Let_def init split: if_splits)
qed

lemma connect_try_owns:
  assumes "connect_valid ob" "owns base st" "connect_try ob backoff st = (e, b, st')"
  shows "after_pass base e st'"
  using assms connect_retry_owns by (auto simp: connect_try_def split: if_splits)

lemma connect_pass_owns:
  assumes "connect_valid ob" "owns base st" "connect_pass ob backoff st = (e, b, st')"
  shows "after_pass base e st'"
proof (cases "k_revoked ob")
  case False
  then show ?thesis using assms connect_try_owns by (simp add: connect_pass_def)
next
  case True
  let ?st1 = "thread_sleep (sleep_loop 200 10000 (k_pause ob) 0) st"
  obtain r st2 where init: "init_input_sockets (k_pause_socket ob) (close_input_socket ?st1) = (r, st2)"
    by fastforce
  have own1: "owns base ?st1"
    using assms(2) by simp
  have own2: "owns base st2"
    using owns_init_input_sockets [OF _ _ _ init] owns_close_input [OF own1] assms(1) by (simp add: connect_valid_def)
  show ?thesis
    using assms(3) True own1 own2 input_thread_return_gives_back [OF own1] connect_try_owns [OF assms(1) own2]
    by (auto simp: connect_pass_def Let_def init split: if_splits)
qed

lemma connect_loop_owns:
  "list_all connect_valid obs \<Longrightarrow> owns base st \<Longrightarrow> connect_loop obs backoff st = Some (e, b, st') \<Longrightarrow> after_pass base (Some e) st'"
proof (induction obs arbitrary: backoff st)
  case Nil
  then show ?case by simp
next
  case (Cons ob obs)
  obtain e1 b1 st1 where pass: "connect_pass ob backoff st = (e1, b1, st1)"
    by (rule prod_cases3)
  have "after_pass base e1 st1"
    using connect_pass_owns [OF _ Cons.prems(2) pass] Cons.prems(1) by simp
  then show ?case
    using Cons pass by (cases e1) (auto split: if_splits)
qed

text \<open>
  An attempt in which nothing is lost: \<open>setsockopt\<close> does not fail on the first socket, and a stop request that ended the loop is still there when it is tested
  again.
\<close>

definition attempt_clean :: "attempt_obs \<Rightarrow> bool" where
  "attempt_clean ob \<longleftrightarrow> list_all connect_valid (a_connect ob) \<and> a_left_stop ob \<and>
     (case a_socket ob of Socket_failed \<Rightarrow> True | Option_failed fd \<Rightarrow> False | Socket_ok fd \<Rightarrow> 0 \<le> fd)"

fun after_attempt :: "int list \<Rightarrow> attempt_end \<Rightarrow> connecting \<Rightarrow> bool" where
  "after_attempt base Restart st = (cc_open st = base)"
| "after_attempt base Returned st = given_back base st"
| "after_attempt base Running st =
     (cc_open st = conn_input (cc_conn st) # base \<and> 0 \<le> conn_input (cc_conn st) \<and>
      is_running_input (cc_conn st) \<and> \<not> is_starting_input (cc_conn st))"

lemma tls_failure_pause_owns:
  assumes "owns base st" and "conn_input (cc_conn st) < 0" and "tls_failure_pause ob st = (e, st')"
  shows "e \<noteq> Running \<and> after_attempt base e st'"
  using assms input_thread_return_gives_back [of base "thread_sleep (sleep_loop 50 200 (a_pause ob) 0) st"]
  by (auto simp: tls_failure_pause_def Let_def owns_def thread_sleep_def split: if_splits)

lemma owns_conn_ssl [simp]: "owns base (st\<lparr>cc_conn := (cc_conn st)\<lparr>conn_ssl_input := b\<rparr>\<rparr>) = owns base st"
  by (simp add: owns_def)

lemma owns_tls_sync [simp]: "owns base (st\<lparr>cc_tls_sync := n\<rparr>) = owns base st"
  by (simp add: owns_def)

lemma tls_connect_owns:
  assumes "owns base st" and "tls_connect ob st = (e, st')"
  shows "if e = Running then owns base st' \<and> conn_input (cc_conn st') = conn_input (cc_conn st) else after_attempt base e st'"
proof -
  have close: "owns base (close_input_socket st1) \<and> conn_input (cc_conn (close_input_socket st1)) < 0" if "owns base st1" for st1
    using that by (rule owns_close_input)
  have "after_attempt base e st' \<and> e \<noteq> Running" if "tls_failure_pause ob (close_input_socket st1) = (e, st')" "owns base st1" for st1
    using tls_failure_pause_owns [OF _ _ that(1)] close [OF that(2)] by blast
  moreover have "owns base (st\<lparr>cc_conn := (cc_conn st)\<lparr>conn_ssl_input := False\<rparr>, cc_tls_sync := n\<rparr>)" for n
    using assms(1) by (simp add: owns_def)
  ultimately show ?thesis
    using assms input_thread_return_gives_back [OF assms(1)]
    by (auto simp: tls_connect_def owns_def split: if_splits)
qed

lemma connect_finish_owns:
  assumes "after_pass base (Some e) st" and "a_left_stop ob" and "connect_finish ssl ob e st = (e', st')"
  shows "after_attempt base e' st'"
proof (cases e)
  case Connected
  with assms(1) have own: "owns base st" "0 \<le> conn_input (cc_conn st)"
    by simp_all
  obtain e1 st1 where tls: "(if ssl then tls_connect ob st else (Running, st)) = (e1, st1)"
    by fastforce
  have "if e1 = Running then owns base st1 \<and> conn_input (cc_conn st1) = conn_input (cc_conn st) else after_attempt base e1 st1"
    using tls_connect_owns [OF own(1)] tls own(1) by (cases ssl) auto
  then show ?thesis
    using assms(3) Connected own(2) by (auto simp: connect_finish_def tls thread_running_def owns_def split: if_splits)
qed (use assms input_thread_return_gives_back in \<open>auto simp: connect_finish_def\<close>)

lemma connect_attempt_owns:
  assumes clean: "attempt_clean ob" and run: "connect_attempt ssl ob st = Some (e, st')"
  shows "after_attempt (cc_open st) e st'"
proof -
  define st1 where "st1 = thread_sleep 100 (st\<lparr>cc_conn := (cc_conn st)\<lparr>conn_input := -1\<rparr>\<rparr>)"
  have own1: "owns (cc_open st) st1" and no: "conn_input (cc_conn st1) < 0"
    by (simp_all add: st1_def owns_def thread_sleep_def)
  obtain r st2 where init: "init_input_sockets (a_socket ob) st1 = (r, st2)"
    by fastforce
  note run = run [unfolded connect_attempt_def, folded st1_def, simplified init Let_def]
  consider (stop) "a_stop ob" | (none) "\<not> a_stop ob" "a_socket ob = Socket_failed" | (ok) fd where "\<not> a_stop ob" "a_socket ob = Socket_ok fd"
    using clean by (auto simp: attempt_clean_def split: socket_obs.splits)
  then show ?thesis
  proof cases
    case stop
    then show ?thesis using run input_thread_return_gives_back [OF own1] by auto
  next
    case none
    then show ?thesis
      using run init by (auto simp: st1_def thread_sleep_def init_input_sockets_def)
  next
    case ok
    then have r: "r = 0" and own2: "owns (cc_open st) st2"
      using init owns_init_input_sockets [OF _ own1 no init] clean by (auto simp: init_input_sockets_def attempt_clean_def)
    from run ok r obtain e3 b3 st3
      where loop: "connect_loop (a_connect ob) 1 st2 = Some (e3, b3, st3)" and fin: "connect_finish ssl ob e3 st3 = (e, st')"
      by (auto split: option.splits)
    have "after_pass (cc_open st) (Some e3) st3"
      using connect_loop_owns [OF _ own2 loop] clean by (simp add: attempt_clean_def)
    then show ?thesis
      using connect_finish_owns [OF _ _ fin] clean by (simp add: attempt_clean_def)
  qed
qed

lemma connect_phase_owns:
  "list_all attempt_clean obs \<Longrightarrow> connect_phase ssl obs st = Some (e, st') \<Longrightarrow> e \<noteq> Restart \<and> after_attempt (cc_open st) e st'"
proof (induction obs arbitrary: st)
  case Nil
  then show ?case by simp
next
  case (Cons ob obs)
  obtain e1 st1 where one: "connect_attempt ssl ob st = Some (e1, st1)"
    using Cons.prems(2) by (auto split: option.splits)
  have "after_attempt (cc_open st) e1 st1"
    using connect_attempt_owns [OF _ one] Cons.prems(1) by simp
  then show ?case
    using Cons.prems Cons.IH [of st1] one by (cases e1) auto
qed

text \<open>
  What \<open>setsockopt\<close> failures cost: each one at the label leaves a descriptor behind that nobody closes.
\<close>

lemma setsockopt_failures_leak:
  "connect_phase ssl (map (\<lambda>fd. ob\<lparr>a_stop := False, a_socket := Option_failed fd\<rparr>) ds @ obs) st =
     connect_phase ssl obs
       (if ds = [] then st
        else st\<lparr>cc_conn := (cc_conn st)\<lparr>conn_input := last ds\<rparr>, cc_open := rev ds @ cc_open st, cc_slept := cc_slept st + 1100 * int (length ds)\<rparr>)"
proof (induction ds arbitrary: st)
  case Nil
  then show ?case by simp
next
  case (Cons fd ds)
  then show ?case
    by (simp add: connect_attempt_def init_input_sockets_def thread_sleep_def Let_def algebra_simps)
qed

section \<open>The growing delay\<close>

lemma backoff_step: "(if min (2 ^ i) 32 < (30::int) then min (2 ^ i) 32 * 2 else min (2 ^ i) 32) = (min (2 ^ Suc i) 32 :: int)"
proof (cases "i < 5")
  case True
  then have "i \<in> {0, 1, 2, 3, 4}" by auto
  then show ?thesis by auto
next
  case False
  then have "(2::int) ^ 5 \<le> 2 ^ i"
    by (intro power_increasing) auto
  then show ?thesis by simp
qed

text \<open>A pass in which the connection is refused: nothing stops the thread, the session is valid, the next socket is \<open>fd\<close>.\<close>

definition refused :: "int \<Rightarrow> connect_obs \<Rightarrow> bool" where
  "refused fd ob \<longleftrightarrow> \<not> k_head_stop ob \<and> \<not> k_revoked ob \<and> \<not> k_connect ob \<and> k_wait ob = (\<lambda>_. False) \<and> \<not> k_wait_stop ob \<and> k_socket ob = Socket_ok fd"

lemma refused_pass:
  assumes "refused fd ob" and "0 \<le> backoff"
  obtains st' where "connect_pass ob backoff st = (None, (if backoff < 30 then backoff * 2 else backoff), st')"
    and "conn_input (cc_conn st') = fd" and "cc_slept st' = cc_slept st + 1000 * backoff"
proof -
  have "sleep_loop 200 (backoff * 1000) (\<lambda>_. False) 0 = backoff * 1000"
    using assms(2) by (intro sleep_loop_full) auto
  then show thesis
    using assms(1)
    by (intro that) (auto simp: refused_def connect_pass_def connect_try_def connect_retry_def init_input_sockets_def thread_sleep_def close_input_socket_def Let_def)
qed

lemma refused_passes:
  assumes "list_all2 refused ds obs"
  shows "\<exists>st'. connect_loop (obs @ rest) (min (2 ^ i) 32) st = connect_loop rest (min (2 ^ (i + length obs)) 32) st' \<and>
     conn_input (cc_conn st') = last (conn_input (cc_conn st) # ds) \<and>
     cc_slept st' = cc_slept st + 1000 * (\<Sum>j \<in> {i..<i + length obs}. min (2 ^ j) 32)"
  using assms
proof (induction arbitrary: i st rule: list_all2_induct)
  case Nil
  then show ?case by auto
next
  case (Cons fd ds ob obs)
  obtain st1 where pass: "connect_pass ob (min (2 ^ i) 32) st = (None, min (2 ^ Suc i) 32, st1)"
    and st1: "conn_input (cc_conn st1) = fd" "cc_slept st1 = cc_slept st + 1000 * min (2 ^ i) 32"
    using refused_pass [OF Cons.hyps(1), of "min (2 ^ i) 32" st] unfolding backoff_step by auto
  have step: "connect_loop ((ob # obs) @ rest) (min (2 ^ i) 32) st = connect_loop (obs @ rest) (min (2 ^ Suc i) 32) st1"
    using Cons.hyps(1) pass by (simp add: refused_def)
  have sum: "(\<Sum>j \<in> {i..<i + length (ob # obs)}. min (2 ^ j) 32) = min (2 ^ i) 32 + (\<Sum>j \<in> {Suc i..<Suc i + length obs}. min (2 ^ j) (32::int))"
    by (simp add: sum.atLeast_Suc_lessThan)
  show ?case
    using Cons.IH [of "Suc i" st1] st1 unfolding step sum by (auto simp: algebra_simps)
qed

lemma connected_pass:
  "\<not> k_head_stop ob \<Longrightarrow> \<not> k_revoked ob \<Longrightarrow> k_connect ob \<Longrightarrow> 0 \<le> conn_input (cc_conn st) \<Longrightarrow>
   connect_loop (ob # obs) backoff st = Some (Connected, backoff, st)"
  by (simp add: connect_pass_def connect_try_def)

section \<open>Properties\<close>

text \<open>
  The connection phase of an input thread keeps exactly one descriptor: when the thread ends up running it holds one new open socket, the one in its
  connection record, and reports itself running; when it returns on a stop request it has closed every socket it created, its record holds none, and both its flags
  are reset. This holds for every sequence of failed attempts, pauses for a revoked session, refused connections and failed TLS handshakes, as long as
  \<open>setsockopt\<close> does not fail at the label and a stop request is not withdrawn.
\<close>

theorem connect_phase_single_socket:
  assumes "list_all attempt_clean obs" and "connect_phase ssl obs st = Some (e, st')"
  shows "e = Running \<and> (\<exists>fd \<ge> 0. conn_input (cc_conn st') = fd \<and> cc_open st' = fd # cc_open st) \<and>
           is_running_input (cc_conn st') \<and> \<not> is_starting_input (cc_conn st')
       \<or> e = Returned \<and> conn_input (cc_conn st') < 0 \<and> cc_open st' = cc_open st \<and>
           \<not> is_running_input (cc_conn st') \<and> \<not> is_starting_input (cc_conn st')"
  using connect_phase_owns [OF assms] by (cases e) (auto simp: given_back_def)

text \<open>
  An unreachable server is tried again until it answers: after any number of refused connections the first accepted one leaves the thread running
  (with TLS: when the handshake succeeds), and the time slept is exactly a tenth of a second plus delays of 1, 2, 4, 8, 16 and from then on 32 seconds.
\<close>

theorem reconnect_backoff:
  assumes "\<not> a_stop ob" and "a_socket ob = Socket_ok fd" and "a_connect ob = refusals @ [ok]"
    and "list_all2 refused ds refusals" and "0 \<le> fd" and "list_all (\<lambda>d. 0 \<le> d) ds"
    and "\<not> k_head_stop ok" and "\<not> k_revoked ok" and "k_connect ok"
    and "ssl \<Longrightarrow> \<not> a_tls_stop ob \<and> a_ssl_new ob \<and> a_handshake ob"
  shows "\<exists>st'. connect_phase ssl (ob # obs) st = Some (Running, st') \<and> is_running_input (cc_conn st') \<and>
           conn_input (cc_conn st') = last (fd # ds) \<and> (ssl \<longrightarrow> conn_ssl_input (cc_conn st')) \<and>
           cc_slept st' = cc_slept st + 100 + 1000 * (\<Sum>i<length refusals. min (2 ^ i) 32)"
proof -
  define st2 where "st2 = snd (init_input_sockets (Socket_ok fd) (thread_sleep 100 (st\<lparr>cc_conn := (cc_conn st)\<lparr>conn_input := -1\<rparr>\<rparr>)))"
  have st2: "conn_input (cc_conn st2) = fd" "cc_slept st2 = cc_slept st + 100"
    by (simp_all add: st2_def init_input_sockets_def thread_sleep_def)
  obtain st3 where loop: "connect_loop (refusals @ [ok]) 1 st2 = connect_loop [ok] (min (2 ^ length refusals) 32) st3"
    and st3: "conn_input (cc_conn st3) = last (fd # ds)" "cc_slept st3 = cc_slept st2 + 1000 * (\<Sum>i<length refusals. min (2 ^ i) 32)"
    using refused_passes [OF assms(4), of "[ok]" 0 st2] st2 by (auto simp: lessThan_atLeast0)
  have "0 \<le> last (fd # ds)"
    using assms(5,6) by (auto simp: list_all_iff)
  then have conn: "connect_loop (a_connect ob) 1 st2 = Some (Connected, min (2 ^ length refusals) 32, st3)"
    using connected_pass [OF assms(7-9), of st3 "[]"] loop st3(1) assms(3) by simp
  have attempt: "connect_attempt ssl ob st = Some (connect_finish ssl ob Connected st3)"
    using assms(1,2) conn by (simp add: connect_attempt_def st2_def Let_def init_input_sockets_def)
  show ?thesis
    using assms(10) st2 st3 attempt by (cases ssl) (auto simp: connect_finish_def tls_connect_def thread_running_def)
qed

text \<open>
  The thread's delays are bounded and a stop request ends them at once: a delay always ends; without a stop request it lasts exactly its time, and when the
  stop flags are set from \<open>t\<close> milliseconds on, a pass whose connection is refused returns within 200 milliseconds of that, with the socket
  closed and the thread's flags reset, however long the delay was to be.
\<close>

theorem stop_ends_connecting:
  assumes "\<not> k_head_stop ob" and "\<not> k_revoked ob" and "\<not> k_connect ob" and "k_wait_stop ob" and "\<And>s. t \<le> s \<Longrightarrow> k_wait ob s" and "0 \<le> t"
    and "owns base st"
  shows "\<exists>st' b. connect_loop (ob # obs) backoff st = Some (Stopped, b, st') \<and> cc_slept st' < cc_slept st + t + 200 \<and>
           cc_open st' = base \<and> \<not> is_running_input (cc_conn st') \<and> \<not> is_starting_input (cc_conn st')"
proof -
  define ms where "ms = sleep_loop 200 (backoff * 1000) (k_wait ob) 0"
  have "ms < t + 200"
    unfolding ms_def using assms(5,6) by (intro sleep_loop_latency) auto
  moreover have "given_back base (input_thread_return (thread_sleep ms (close_input_socket st)))"
    using owns_close_input [OF assms(7)] by (intro input_thread_return_gives_back) simp
  moreover have "cc_slept (input_thread_return (thread_sleep ms (close_input_socket st))) = cc_slept st + ms"
    by (simp add: input_thread_return_def close_input_socket_def thread_sleep_def Let_def)
  ultimately show ?thesis
    using assms(1-4) by (auto simp: connect_pass_def connect_try_def connect_retry_def ms_def [symmetric] given_back_def Let_def)
qed

section \<open>Concrete runs\<close>

definition example_connecting :: connecting where
  "example_connecting = \<lparr>cc_conn = zero_conn\<lparr>is_starting_input := True\<rparr>, cc_open = [], cc_slept = 0, cc_tls_sync = 0\<rparr>"

definition accepted_obs :: connect_obs where
  "accepted_obs = \<lparr>k_head_stop = False, k_revoked = False, k_pause = (\<lambda>_. False), k_pause_stop = False, k_still_revoked = False,
     k_pause_socket = Socket_ok 9, k_connect = True, k_wait = (\<lambda>_. False), k_wait_stop = False, k_socket = Socket_ok 8\<rparr>"

definition attempt_with :: "socket_obs \<Rightarrow> connect_obs list \<Rightarrow> attempt_obs" where
  "attempt_with s obs = \<lparr>a_stop = False, a_socket = s, a_connect = obs, a_left_stop = True, a_tls_stop = False, a_ssl_new = True,
     a_handshake = True, a_peer_certificate = True, a_pause = (\<lambda>_. False), a_pause_stop = False\<rparr>"

lemmas example_connect_defs = example_connecting_def accepted_obs_def attempt_with_def

text \<open>No socket at first; then one that is connected and passes the handshake.\<close>

theorem connect_phase_single_socket_witness:
  "\<exists>st'. connect_phase True [attempt_with Socket_failed [], attempt_with (Socket_ok 7) [accepted_obs]] example_connecting = Some (Running, st') \<and>
     cc_open st' = [7] \<and> is_running_input (cc_conn st')"
proof -
  let ?obs = "[attempt_with Socket_failed [], attempt_with (Socket_ok 7) [accepted_obs]]"
  have clean: "list_all attempt_clean ?obs"
    by (simp add: attempt_clean_def attempt_with_def connect_valid_def accepted_obs_def)
  obtain st' where run: "connect_phase True ?obs example_connecting = Some (Running, st')" and fd: "conn_input (cc_conn st') = 7"
    by (simp add: connect_attempt_def init_input_sockets_def thread_sleep_def connect_pass_def connect_try_def connect_finish_def tls_connect_def
        thread_running_def example_connect_defs Let_def)
  from connect_phase_single_socket [OF clean run] run fd show ?thesis
    by (auto simp: example_connecting_def)
qed

text \<open>Refused once: one second later the thread runs.\<close>

theorem reconnect_backoff_witness:
  "\<exists>st'. connect_phase False [attempt_with (Socket_ok 7) [accepted_obs\<lparr>k_connect := False\<rparr>, accepted_obs]] example_connecting = Some (Running, st') \<and>
     conn_input (cc_conn st') = 8 \<and> cc_slept st' = 1100"
  using reconnect_backoff [of "attempt_with (Socket_ok 7) [accepted_obs\<lparr>k_connect := False\<rparr>, accepted_obs]" 7
      "[accepted_obs\<lparr>k_connect := False\<rparr>]" accepted_obs "[8]" False "[]" example_connecting]
  by (auto simp: refused_def example_connect_defs)

text \<open>A stop request 300 milliseconds into a delay of 32 seconds.\<close>

theorem stop_ends_connecting_witness:
  "\<exists>st' b. connect_loop [accepted_obs\<lparr>k_connect := False, k_wait := (\<lambda>s. 300 \<le> s), k_wait_stop := True\<rparr>] 32
       (example_connecting\<lparr>cc_conn := zero_conn\<lparr>conn_input := 7\<rparr>, cc_open := [7]\<rparr>) = Some (Stopped, b, st') \<and>
     cc_slept st' < 500 \<and> cc_open st' = []"
  using stop_ends_connecting [of "accepted_obs\<lparr>k_connect := False, k_wait := (\<lambda>s. 300 \<le> s), k_wait_stop := True\<rparr>" 300 "[]"
      "example_connecting\<lparr>cc_conn := zero_conn\<lparr>conn_input := 7\<rparr>, cc_open := [7]\<rparr>" "[]" 32]
  by (auto simp: owns_def example_connect_defs)

end
