(* ===== verification/Client_Input_Thread.thy ===== *)
theory Client_Input_Thread
  imports Client_Connect Client_Relay
begin

text \<open>
  The whole of \<open>server_input_thread\<close> of \<open>src/client/proxy/client/proxy_client.c\<close>: the connection phase of \<open>Client_Connect\<close>, the main loop of
  \<open>Client_Relay\<close>, what follows the loop, and the ways back to \<open>restart_input_thread\<close>. One session is one stay in the main loop with the attempts before it.
\<close>

section \<open>The main loop and how it is left\<close>

text \<open>A \<open>break\<close> leaves the loop for the code behind it; the other ways out are a \<open>goto restart_input_thread\<close>.\<close>

definition leaves_by_break :: "client_in_obs \<Rightarrow> bool" where
  "leaves_by_break ob \<longleftrightarrow>
     ci_head_stop ob \<or> \<not> ci_inactive ob \<and> (ci_select ob = -1 \<or> ci_select ob \<noteq> 0 \<and> ci_stop ob)"

datatype loop_exit = Broken | Restarted

fun client_session_loop :: "client_in_obs list \<Rightarrow> client_relay \<Rightarrow> (loop_exit option \<times> client_relay) option" where
  "client_session_loop [] r = Some (None, r)"
| "client_session_loop (ob # obs) r =
     (case client_input_iteration ob r of
        None \<Rightarrow> None
      | Some (True, r1) \<Rightarrow> client_session_loop obs r1
      | Some (False, r1) \<Rightarrow> Some (Some (if leaves_by_break ob then Broken else Restarted), r1))"

section \<open>Sessions\<close>

text \<open>
  The attempts to connect, the passes of the main loop, and the stop flags as read behind the loop.
\<close>

record session_obs =
  s_attempts :: "attempt_obs list"
  s_passes :: "client_in_obs list"
  s_stop :: bool

datatype thread_stage = Relaying | Restarting | Ended

text \<open>
  The two views of the thread's state agree on the connection record: entering the loop copies it; the descriptor is no longer open when the loop or the
  code behind it has closed it.
\<close>

definition enter_loop :: "connecting \<Rightarrow> client_relay \<Rightarrow> client_relay" where
  "enter_loop st r = r\<lparr>cr_conn := cc_conn st\<rparr>"

definition leave_loop :: "client_relay \<Rightarrow> connecting \<Rightarrow> connecting" where
  "leave_loop r st =
     st\<lparr>cc_conn := cr_conn r,
        cc_open := (if conn_input (cr_conn r) = conn_input (cc_conn st) then cc_open st else remove1 (conn_input (cc_conn st)) (cc_open st))\<rparr>"

definition input_flags_off :: "connecting \<Rightarrow> connecting" where
  "input_flags_off st = st\<lparr>cc_conn := (cc_conn st)\<lparr>is_running_input := False, is_starting_input := False\<rparr>\<rparr>"

definition input_session :: "session_obs \<Rightarrow> connecting \<Rightarrow> client_relay \<Rightarrow> (thread_stage \<times> connecting \<times> client_relay) option" where
  "input_session ob st r =
     (case connect_phase (cr_enable_ssl r) (s_attempts ob) st of
        None \<Rightarrow> None
      | Some (e, st1) \<Rightarrow>
          if e \<noteq> Running then Some (Ended, st1, enter_loop st1 r)
          else
            case client_session_loop (s_passes ob) (enter_loop st1 r) of
              None \<Rightarrow> None
            | Some (None, r1) \<Rightarrow> Some (Relaying, leave_loop r1 st1, r1)
            | Some (Some Restarted, r1) \<Rightarrow> Some (Restarting, leave_loop r1 st1, r1)
            | Some (Some Broken, r1) \<Rightarrow>
                (let r2 = client_input_epilogue r1;
                     st2 = leave_loop r2 st1
                 in if s_stop ob then Some (Ended, input_flags_off st2, enter_loop (input_flags_off st2) r2)
                    else Some (Restarting, st2, r2)))"

text \<open>None while the thread is connecting, or in a send, when the observations are used up.\<close>

fun server_input_thread :: "session_obs list \<Rightarrow> connecting \<Rightarrow> client_relay \<Rightarrow> (thread_stage \<times> connecting \<times> client_relay) option" where
  "server_input_thread [] st r = Some (Restarting, st, r)"
| "server_input_thread (ob # obs) st r =
     (case input_session ob st r of
        Some (Restarting, st1, r1) \<Rightarrow> server_input_thread obs st1 r1
      | s \<Rightarrow> s)"

section \<open>Lemmas\<close>

lemma client_session_loop_is_loop:
  "client_input_loop obs r = map_option (\<lambda>(e, r'). (e = None, r')) (client_session_loop obs r)"
  unfolding client_input_loop_def
  by (induction obs arbitrary: r) (auto split: option.split bool.split)

text \<open>A pass that does not wait in vain for the output thread changes the tunnel's descriptor only by closing it, on the way to a restart.\<close>

lemma conn_after_helpers [simp]:
  "conn_input (cr_conn (stop_output r)) = conn_input (cr_conn r)" "conn_input (cr_conn (close_service r)) = conn_input (cr_conn r)"
  "is_running_input (cr_conn (stop_output r)) = is_running_input (cr_conn r)" "is_running_input (cr_conn (close_service r)) = is_running_input (cr_conn r)"
  "is_starting_input (cr_conn (stop_output r)) = is_starting_input (cr_conn r)" "is_starting_input (cr_conn (close_service r)) = is_starting_input (cr_conn r)"
  "is_running_input (cr_conn (close_tunnel r)) = is_running_input (cr_conn r)" "is_starting_input (cr_conn (close_tunnel r)) = is_starting_input (cr_conn r)"
  by (simp_all add: stop_output_def close_service_def close_tunnel_def)

lemma close_tunnel_input: "0 \<le> conn_input (cr_conn r) \<Longrightarrow> conn_input (cr_conn (close_tunnel r)) = -1"
  by (simp add: close_tunnel_def)

lemma input_forward_conn:
  "client_input_forward ob buf r = Some (b, r') \<Longrightarrow> \<not> ci_output_timeout ob \<Longrightarrow>
   b \<and> conn_input (cr_conn r') = conn_input (cr_conn r) \<and> is_running_input (cr_conn r') = is_running_input (cr_conn r) \<and>
   is_starting_input (cr_conn r') = is_starting_input (cr_conn r)"
  by (auto simp: client_input_forward_def Let_def split: option.splits)

lemma input_iteration_conn:
  assumes "client_input_iteration ob r = Some (b, r')" and "\<not> ci_output_timeout ob" and "0 \<le> conn_input (cr_conn r)"
  shows "conn_input (cr_conn r') = (if b \<or> leaves_by_break ob then conn_input (cr_conn r) else -1) \<and>
         is_running_input (cr_conn r') = is_running_input (cr_conn r) \<and> is_starting_input (cr_conn r') = is_starting_input (cr_conn r)"
  using assms
  by (auto simp: client_input_iteration_def leaves_by_break_def close_tunnel_input dest!: input_forward_conn split: if_splits read_obs.splits)

lemma session_loop_conn:
  assumes "client_session_loop obs r = Some (e, r')" and "list_all (\<lambda>ob. \<not> ci_output_timeout ob) obs" and "0 \<le> conn_input (cr_conn r)"
  shows "conn_input (cr_conn r') = (if e = Some Restarted then -1 else conn_input (cr_conn r)) \<and>
         is_running_input (cr_conn r') = is_running_input (cr_conn r) \<and> is_starting_input (cr_conn r') = is_starting_input (cr_conn r)"
  using assms
proof (induction obs arbitrary: r)
  case Nil
  then show ?case by auto
next
  case (Cons ob obs)
  then obtain b r1 where pass: "client_input_iteration ob r = Some (b, r1)" by (auto split: option.splits)
  note conn = input_iteration_conn [OF pass _ Cons.prems(3)]
  show ?case
  proof (cases b)
    case True
    with pass Cons.prems conn have "client_session_loop obs r1 = Some (e, r')" "0 \<le> conn_input (cr_conn r1)" by simp_all
    from Cons.IH [OF this(1) _ this(2)] Cons.prems(2) conn True show ?thesis by auto
  next
    case False
    with pass Cons.prems conn show ?thesis by auto
  qed
qed

lemma epilogue_conn:
  assumes "0 \<le> conn_input (cr_conn r)"
  shows "conn_input (cr_conn (client_input_epilogue r)) = -1 \<and>
    is_running_input (cr_conn (client_input_epilogue r)) = is_running_input (cr_conn r) \<and>
    is_starting_input (cr_conn (client_input_epilogue r)) = is_starting_input (cr_conn r)"
  using assms by (simp add: client_input_epilogue_def close_tunnel_def)

lemma input_epilogue_keeps [simp]:
  "cr_read (client_input_epilogue r) = cr_read r" "written_bytes (client_input_epilogue r) = written_bytes r"
  "cr_enable_ssl (client_input_epilogue r) = cr_enable_ssl r"
  by (simp_all add: client_input_epilogue_def written_bytes_def)

lemma enter_loop_simps [simp]:
  "cr_conn (enter_loop st r) = cc_conn st" "cr_read (enter_loop st r) = cr_read r" "written_bytes (enter_loop st r) = written_bytes r"
  by (simp_all add: enter_loop_def written_bytes_def)

lemma leave_loop_simps [simp]: "cc_conn (leave_loop r st) = cr_conn r"
  by (simp add: leave_loop_def)

section \<open>One session\<close>

definition session_clean :: "session_obs \<Rightarrow> bool" where
  "session_clean ob \<longleftrightarrow> list_all attempt_clean (s_attempts ob) \<and> list_all (\<lambda>p. \<not> ci_output_timeout p) (s_passes ob)"

definition session_valid :: "session_obs \<Rightarrow> bool" where
  "session_valid ob \<longleftrightarrow> list_all client_in_valid (s_passes ob)"

text \<open>What the thread has open at each stage, beside the descriptors \<open>base\<close>.\<close>

fun stage_holds :: "int list \<Rightarrow> thread_stage \<Rightarrow> connecting \<Rightarrow> bool" where
  "stage_holds base Relaying st =
     (0 \<le> conn_input (cc_conn st) \<and> cc_open st = conn_input (cc_conn st) # base \<and> is_running_input (cc_conn st) \<and> \<not> is_starting_input (cc_conn st))"
| "stage_holds base Restarting st = (cc_open st = base)"
| "stage_holds base Ended st =
     (conn_input (cc_conn st) < 0 \<and> cc_open st = base \<and> \<not> is_running_input (cc_conn st) \<and> \<not> is_starting_input (cc_conn st))"

lemma input_session_holds:
  assumes "session_clean ob" and "input_session ob st r = Some (stage, st', r')"
  shows "stage_holds (cc_open st) stage st'"
proof -
  obtain e st1 where phase: "connect_phase (cr_enable_ssl r) (s_attempts ob) st = Some (e, st1)"
    using assms(2) by (auto simp: input_session_def split: option.splits)
  have after: "e \<noteq> Restart \<and> after_attempt (cc_open st) e st1"
    using connect_phase_owns [OF _ phase] assms(1) by (simp add: session_clean_def)
  show ?thesis
  proof (cases "e = Running")
    case False
    then show ?thesis
      using after assms(2) phase by (cases e) (auto simp: input_session_def given_back_def)
  next
    case True
    then obtain x r1 where loop: "client_session_loop (s_passes ob) (enter_loop st1 r) = Some (x, r1)"
      using assms(2) phase by (auto simp: input_session_def split: option.splits)
    have held: "cc_open st1 = conn_input (cc_conn st1) # cc_open st" "0 \<le> conn_input (cc_conn st1)"
      "is_running_input (cc_conn st1)" "\<not> is_starting_input (cc_conn st1)"
      using after True by simp_all
    note conn = session_loop_conn [OF loop]
    have conn: "conn_input (cr_conn r1) = (if x = Some Restarted then -1 else conn_input (cc_conn st1)) \<and>
         is_running_input (cr_conn r1) \<and> \<not> is_starting_input (cr_conn r1)"
      using conn assms(1) held by (simp add: session_clean_def)
    consider "x = None" | "x = Some Restarted" | "x = Some Broken" by (metis loop_exit.exhaust option.exhaust)
    then show ?thesis
    proof cases
      case 1
      then show ?thesis using assms(2) phase True loop conn held by (auto simp: input_session_def leave_loop_def)
    next
      case 2
      then show ?thesis using assms(2) phase True loop conn held by (auto simp: input_session_def leave_loop_def)
    next
      case 3
      with conn held have "conn_input (cr_conn (client_input_epilogue r1)) = -1" using epilogue_conn by simp
      with 3 show ?thesis
        using assms(2) phase True loop held
        by (auto simp: input_session_def leave_loop_def input_flags_off_def Let_def split: if_splits)
    qed
  qed
qed

lemma session_loop_streams:
  assumes "list_all client_in_valid obs" and "client_session_loop obs r = Some (e, r')"
  shows "\<exists>chunks outs. cr_read r' = cr_read r @ concat chunks \<and> written_bytes r' = written_bytes r @ concat outs \<and> list_all2 prefix outs chunks"
proof (rule service_relay.loop_prefixes [OF refl assms(1)])
  show "relay_loop client_input_iteration obs r = Some (e = None, r')"
    using assms(2) client_session_loop_is_loop [of obs r] by (simp add: client_input_loop_def)
qed

lemma input_session_streams:
  assumes "session_valid ob" and "input_session ob st r = Some (stage, st', r')"
  shows "\<exists>chunks outs. cr_read r' = cr_read r @ concat chunks \<and> written_bytes r' = written_bytes r @ concat outs \<and> list_all2 prefix outs chunks"
proof -
  obtain e st1 where phase: "connect_phase (cr_enable_ssl r) (s_attempts ob) st = Some (e, st1)"
    using assms(2) by (auto simp: input_session_def split: option.splits)
  show ?thesis
  proof (cases "e = Running")
    case False
    then have "r' = enter_loop st1 r" using assms(2) phase by (auto simp: input_session_def)
    then show ?thesis by (intro exI [of _ "[]"]) simp
  next
    case True
    then obtain x r1 where loop: "client_session_loop (s_passes ob) (enter_loop st1 r) = Some (x, r1)"
      using assms(2) phase by (auto simp: input_session_def split: option.splits)
    have "cr_read r' = cr_read r1" "written_bytes r' = written_bytes r1"
      using assms(2) phase True loop by (auto simp: input_session_def Let_def split: option.splits loop_exit.splits if_splits)
    with session_loop_streams [OF _ loop] assms(1) show ?thesis by (simp add: session_valid_def)
  qed
qed

section \<open>The life of the thread\<close>

lemma thread_holds:
  "list_all session_clean obs \<Longrightarrow> server_input_thread obs st r = Some (stage, st', r') \<Longrightarrow> stage_holds (cc_open st) stage st'"
proof (induction obs arbitrary: st r)
  case Nil
  then show ?case by auto
next
  case (Cons ob obs)
  then obtain s1 st1 r1 where one: "input_session ob st r = Some (s1, st1, r1)" by (auto split: option.splits)
  have "stage_holds (cc_open st) s1 st1"
    using input_session_holds [OF _ one] Cons.prems(1) by simp
  then show ?case
    using Cons.prems Cons.IH [of st1 r1] one by (cases s1) auto
qed

lemma thread_streams:
  "list_all session_valid obs \<Longrightarrow> server_input_thread obs st r = Some (stage, st', r') \<Longrightarrow>
   \<exists>chunks outs. cr_read r' = cr_read r @ concat chunks \<and> written_bytes r' = written_bytes r @ concat outs \<and> list_all2 prefix outs chunks"
proof (induction obs arbitrary: st r)
  case Nil
  then show ?case by (auto intro: exI [of _ "[]"])
next
  case (Cons ob obs)
  then obtain s1 st1 r1 where one: "input_session ob st r = Some (s1, st1, r1)" by (auto split: option.splits)
  obtain cs us where first: "cr_read r1 = cr_read r @ concat cs" "written_bytes r1 = written_bytes r @ concat us" "list_all2 prefix us cs"
    using input_session_streams [OF _ one] Cons.prems(1) by auto
  show ?case
  proof (cases "s1 = Restarting")
    case True
    with Cons.prems one obtain cs' us' where "cr_read r' = cr_read r1 @ concat cs'" "written_bytes r' = written_bytes r1 @ concat us'" "list_all2 prefix us' cs'"
      using Cons.IH [of st1 r1] by auto
    with first show ?thesis by (intro exI [of _ "cs @ cs'"] exI [of _ "us @ us'"]) (simp add: list_all2_appendI)
  next
    case False
    with Cons.prems(2) one have "r' = r1" by (cases s1) auto
    with first show ?thesis by blast
  qed
qed

section \<open>Properties\<close>


text \<open>A first session that the server ends after three bytes, a second one that is stopped.\<close>

definition two_sessions :: "session_obs list" where
  "two_sessions =
     [\<lparr>s_attempts = [attempt_with (Socket_ok 7) [accepted_obs]],
       s_passes = [client_in_pass [1, 2, 3] [client_sent 2, client_sent 1], (client_in_pass [] [])\<lparr>ci_read := Read_closed\<rparr>], s_stop = False\<rparr>,
      \<lparr>s_attempts = [attempt_with Socket_failed [], attempt_with (Socket_ok 8) [accepted_obs]],
       s_passes = [client_in_pass [4] [client_sent 1], (client_in_pass [] [])\<lparr>ci_head_stop := True, ci_read := Read_closed\<rparr>], s_stop = True\<rparr>]"

lemma two_sessions_clean: "list_all session_clean two_sessions" "list_all session_valid two_sessions"
  by (simp_all add: two_sessions_def session_clean_def session_valid_def attempt_clean_def attempt_with_def connect_valid_def accepted_obs_def
      client_in_pass_def client_in_valid_def client_sent_def)

lemmas session_run_defs = input_session_def connect_attempt_def init_input_sockets_def thread_sleep_def connect_pass_def connect_try_def
  connect_finish_def thread_running_def enter_loop_def leave_loop_def client_input_iteration_def client_input_forward_def


end
