(* ===== verification/Client_Stop.thy ===== *)
theory Client_Stop
  imports Client_Connect Client_Properties
begin

text \<open>
  The output thread of the client up to its main loop (\<open>server_output_thread\<close>, \<open>server_output_start\<close>) and the orderly end of all threads
  (\<open>wait_for_proxy_connection_stop\<close>, \<open>switcher_servers_stop\<close>), in \<open>src/client/proxy/client/proxy_client.c\<close>. The state and the interruptible pauses are
  those of \<open>Client_Connect\<close>.
\<close>

section \<open>The output thread up to its main loop\<close>

text \<open>\<open>init_output_sockets\<close>, with one \<open>setsockopt\<close>.\<close>

definition init_output_sockets :: "socket_obs \<Rightarrow> connecting \<Rightarrow> int \<times> connecting" where
  "init_output_sockets ob st =
     (case ob of
        Socket_failed \<Rightarrow> (-2, st\<lparr>cc_conn := (cc_conn st)\<lparr>conn_output := -1\<rparr>\<rparr>)
      | Option_failed fd \<Rightarrow> (-2, st\<lparr>cc_conn := (cc_conn st)\<lparr>conn_output := fd\<rparr>, cc_open := fd # cc_open st\<rparr>)
      | Socket_ok fd \<Rightarrow> (0, st\<lparr>cc_conn := (cc_conn st)\<lparr>conn_output := fd\<rparr>, cc_open := fd # cc_open st\<rparr>))"

definition close_output_socket :: "connecting \<Rightarrow> connecting" where
  "close_output_socket st =
     (if 0 \<le> conn_output (cc_conn st)
      then st\<lparr>cc_open := remove1 (conn_output (cc_conn st)) (cc_open st), cc_conn := (cc_conn st)\<lparr>conn_output := -1\<rparr>\<rparr> else st)"

text \<open>
  The socket, \<open>connect\<close>, the stop flags before TLS, \<open>SSL_new\<close>, \<open>SSL_connect\<close>, the flags during the pause after a TLS failure and after it.
\<close>

record output_obs =
  o_socket :: socket_obs
  o_connect :: bool
  o_stop :: bool
  o_ssl_new :: bool
  o_handshake :: bool
  o_pause :: "int \<Rightarrow> bool"
  o_pause_stop :: bool

definition output_flags :: "bool \<Rightarrow> bool \<Rightarrow> connecting \<Rightarrow> connecting" where
  "output_flags starting running st = st\<lparr>cc_conn := (cc_conn st)\<lparr>is_starting_output := starting, is_running_output := running\<rparr>\<rparr>"

text \<open>After a TLS failure the thread returns in any case; only on a stop request it resets its flags.\<close>

definition output_tls_failure :: "output_obs \<Rightarrow> connecting \<Rightarrow> connecting" where
  "output_tls_failure ob st =
     (let st1 = thread_sleep (sleep_loop 50 200 (o_pause ob) 0) (close_output_socket st)
      in if o_pause_stop ob then close_output_socket (output_flags False False st1) else st1)"

text \<open>True: the thread enters its main loop; False: it has returned.\<close>

definition output_thread_start :: "bool \<Rightarrow> output_obs \<Rightarrow> connecting \<Rightarrow> bool \<times> connecting" where
  "output_thread_start ssl ob st =
     (let (r, st1) = init_output_sockets (o_socket ob) st;
          not_running = (\<lambda>s. s\<lparr>cc_conn := (cc_conn s)\<lparr>is_running_output := False\<rparr>\<rparr>)
      in if r \<noteq> 0 then (False, not_running st1)
         else if \<not> o_connect ob then (False, not_running (close_output_socket st1))
         else if \<not> ssl then (True, output_flags False True st1)
         else if o_stop ob then (False, output_flags False False (close_output_socket st1))
         else if \<not> o_ssl_new ob then (False, output_tls_failure ob (st1\<lparr>cc_conn := (cc_conn st1)\<lparr>conn_ssl_output := False\<rparr>\<rparr>))
         else if \<not> o_handshake ob then (False, output_tls_failure ob (st1\<lparr>cc_conn := (cc_conn st1)\<lparr>conn_ssl_output := False\<rparr>\<rparr>))
         else (True, output_flags False True (st1\<lparr>cc_conn := (cc_conn st1)\<lparr>conn_ssl_output := True\<rparr>\<rparr>)))"

text \<open>
  \<open>server_output_start\<close>: it starts the thread and waits until the thread says it is up, for at most 5 seconds. \<open>No_parameter\<close> and
  \<open>No_thread\<close> are the failures of \<open>malloc\<close> and \<open>Thread_create\<close>; the thread runs to its main loop or to its end.
\<close>

datatype output_start = No_memory | No_output_thread | Output_thread output_obs

definition server_output_start :: "bool \<Rightarrow> output_start \<Rightarrow> connecting \<Rightarrow> connecting" where
  "server_output_start ssl start st =
     (let c = cc_conn st
      in if is_running_output c \<or> is_starting_output c then st
         else
           let st1 = st\<lparr>cc_conn := c\<lparr>is_starting_output := True, stop_running_output := False\<rparr>\<rparr>;
               not_starting = (\<lambda>s. s\<lparr>cc_conn := (cc_conn s)\<lparr>is_starting_output := False\<rparr>\<rparr>)
           in case start of
                No_memory \<Rightarrow> not_starting st1
              | No_output_thread \<Rightarrow> not_starting st1
              | Output_thread ob \<Rightarrow> not_starting (snd (output_thread_start ssl ob st1)))"

section \<open>Stopping\<close>

text \<open>
  \<open>wait_for_proxy_connection_stop\<close>: \<open>stopped t\<close> is whether all four flags are clear after \<open>t\<close> milliseconds. The result is the time waited and whether they were clear.
\<close>

function wait_for_stop :: "(nat \<Rightarrow> bool) \<Rightarrow> nat \<Rightarrow> nat \<Rightarrow> bool \<times> nat" where
  "wait_for_stop stopped timeout_ms waited_ms =
     (if waited_ms < timeout_ms
      then if stopped waited_ms then (True, waited_ms) else wait_for_stop stopped timeout_ms (waited_ms + 10)
      else (False, waited_ms))"
  by pat_completeness auto
termination
  by (relation "measure (\<lambda>(stopped, timeout_ms, waited_ms). timeout_ms - waited_ms)") auto

declare wait_for_stop.simps [simp del]

text \<open>
  \<open>switcher_servers_stop\<close>; \<open>stops i\<close> are the observations of connection \<open>i\<close>. Beside the new state: the time waited for each connection, and the
  connections whose threads were still running when the array was freed.
\<close>

definition switcher_servers_stop_client ::
  "(nat \<Rightarrow> nat \<Rightarrow> bool) \<Rightarrow> client_state \<Rightarrow> client_state \<times> nat list \<times> nat list" where
  "switcher_servers_stop_client stops st =
     (case connections (threads_data st) of
        None \<Rightarrow> (st, [], [])
      | Some cs \<Rightarrow>
          if connections_count (threads_data st) \<le> 0 then (st, [], [])
          else
            let waits = map (\<lambda>i. wait_for_stop (stops i) 30000 0) [0..<length cs]
            in (st\<lparr>threads_data := (threads_data st)\<lparr>connections := None, connections_count := 0, ssl_ctx := False\<rparr>,
                   fd_log := fd_log st @ concat (map (\<lambda>c. map Fd_shutdown (open_fds c)) cs)\<rparr>,
                map snd waits, filter (\<lambda>i. \<not> fst (waits ! i)) [0..<length cs]))"

section \<open>Lemmas\<close>

lemma wait_for_stop_result:
  "wait_for_stop stopped n w = (b, w') \<Longrightarrow> w' < max (w + 1) (n + 10) \<and> (b \<longrightarrow> stopped w') \<and>
     (b \<longleftrightarrow> (\<exists>k. w + 10 * k < n \<and> stopped (w + 10 * k)))"
proof (induction stopped n w arbitrary: b w' rule: wait_for_stop.induct)
  case (1 stopped n w)
  show ?case
  proof (cases "w < n \<and> \<not> stopped w")
    case True
    then have step: "wait_for_stop stopped n (w + 10) = (b, w')"
      using "1.prems" by (subst (asm) wait_for_stop.simps) simp
    have "(\<exists>k. w + 10 * k < n \<and> stopped (w + 10 * k)) \<longleftrightarrow> (\<exists>k. w + 10 + 10 * k < n \<and> stopped (w + 10 + 10 * k))"
    proof
      assume "\<exists>k. w + 10 * k < n \<and> stopped (w + 10 * k)"
      then obtain k where k: "w + 10 * k < n" "stopped (w + 10 * k)" by blast
      with True have "k \<noteq> 0" by (metis add.right_neutral mult_0_right)
      then obtain j where "k = Suc j" by (cases k) auto
      with k show "\<exists>k. w + 10 + 10 * k < n \<and> stopped (w + 10 + 10 * k)" by (intro exI [of _ j]) (simp add: algebra_simps)
    next
      assume "\<exists>k. w + 10 + 10 * k < n \<and> stopped (w + 10 + 10 * k)"
      then obtain k where "w + 10 + 10 * k < n" "stopped (w + 10 + 10 * k)" by blast
      then show "\<exists>k. w + 10 * k < n \<and> stopped (w + 10 * k)" by (intro exI [of _ "Suc k"]) (simp add: algebra_simps)
    qed
    with "1.IH" [OF _ _ step] True show ?thesis by auto
  next
    case False
    with "1.prems" show ?thesis
      by (subst (asm) wait_for_stop.simps) (auto split: if_splits intro: exI [of _ 0])
  qed
qed

lemma wait_for_stop_multiple:
  "wait_for_stop stopped (10 * n) (10 * k) = (b, w) \<Longrightarrow> k \<le> n \<Longrightarrow> w \<le> 10 * n"
proof (induction "n - k" arbitrary: k)
  case 0
  then show ?case by (subst (asm) wait_for_stop.simps) simp
next
  case (Suc d)
  show ?case
  proof (cases "stopped (10 * k)")
    case True
    with Suc.prems show ?thesis by (subst (asm) wait_for_stop.simps) (auto split: if_splits)
  next
    case False
    with Suc.hyps(2) Suc.prems have "wait_for_stop stopped (10 * n) (10 * k + 10) = (b, w)"
      by (subst (asm) wait_for_stop.simps) (auto split: if_splits)
    then have "wait_for_stop stopped (10 * n) (10 * Suc k) = (b, w)"
      by (simp add: add.commute)
    with Suc.hyps show ?thesis by (intro Suc.hyps(1) [of "Suc k"]) auto
  qed
qed

lemma wait_for_stop_30s:
  "snd (wait_for_stop stopped 30000 0) \<le> 30000 \<and> (fst (wait_for_stop stopped 30000 0) \<longleftrightarrow> (\<exists>k < 3000. stopped (10 * k)))"
proof (cases "wait_for_stop stopped 30000 0")
  case (Pair b w)
  from wait_for_stop_result [OF Pair] wait_for_stop_multiple [of stopped 3000 0 b w] Pair show ?thesis
    by auto
qed

text \<open>The output thread's descriptor: nothing but \<open>base\<close> is open, or its socket in addition.\<close>

definition owns_output :: "int list \<Rightarrow> connecting \<Rightarrow> bool" where
  "owns_output base st =
     (if 0 \<le> conn_output (cc_conn st) then cc_open st = conn_output (cc_conn st) # base else cc_open st = base)"

lemma close_output_socket_owned:
  "owns_output base st \<Longrightarrow> owns_output base (close_output_socket st) \<and> conn_output (cc_conn (close_output_socket st)) < 0"
  by (auto simp: owns_output_def close_output_socket_def)

lemma close_output_socket_flags [simp]:
  "is_running_output (cc_conn (close_output_socket st)) = is_running_output (cc_conn st)"
  by (simp add: close_output_socket_def)

lemma close_output_socket_closed [simp]: "conn_output (cc_conn st) < 0 \<Longrightarrow> close_output_socket st = st"
  by (simp add: close_output_socket_def)

lemma output_tls_failure_closed:
  assumes "owns_output base st" and "\<not> is_running_output (cc_conn st)"
  shows "owns_output base (output_tls_failure ob st) \<and> conn_output (cc_conn (output_tls_failure ob st)) < 0 \<and>
           \<not> is_running_output (cc_conn (output_tls_failure ob st))"
  using close_output_socket_owned [OF assms(1)] assms(2)
  by (auto simp: output_tls_failure_def output_flags_def thread_sleep_def owns_output_def Let_def)

definition output_comes_up :: "bool \<Rightarrow> output_obs \<Rightarrow> bool" where
  "output_comes_up ssl ob =
     ((\<exists>fd. o_socket ob = Socket_ok fd) \<and> o_connect ob \<and> (ssl \<longrightarrow> \<not> o_stop ob \<and> o_ssl_new ob \<and> o_handshake ob))"

definition output_valid :: "output_obs \<Rightarrow> bool" where
  "output_valid ob = (case o_socket ob of Socket_failed \<Rightarrow> True | Option_failed fd \<Rightarrow> False | Socket_ok fd \<Rightarrow> 0 \<le> fd)"

lemma output_thread_start_result:
  assumes "output_valid ob" and "\<not> is_running_output (cc_conn st)" and "output_thread_start ssl ob st = (up, st')"
  shows "owns_output (cc_open st) st' \<and> (0 \<le> conn_output (cc_conn st') \<longleftrightarrow> up) \<and> (is_running_output (cc_conn st') \<longleftrightarrow> up) \<and>
           (up \<longleftrightarrow> output_comes_up ssl ob)"
proof (cases "o_socket ob")
  case (Socket_ok fd)
  define st1 where "st1 = st\<lparr>cc_conn := (cc_conn st)\<lparr>conn_output := fd\<rparr>, cc_open := fd # cc_open st\<rparr>"
  have fd: "0 \<le> fd" using assms(1) Socket_ok by (simp add: output_valid_def)
  have owned: "owns_output (cc_open st) st1" "\<not> is_running_output (cc_conn st1)"
    using fd assms(2) by (simp_all add: owns_output_def st1_def)
  let ?no_tls = "st1\<lparr>cc_conn := (cc_conn st1)\<lparr>conn_ssl_output := False\<rparr>\<rparr>"
  have "owns_output (cc_open st) ?no_tls" "\<not> is_running_output (cc_conn ?no_tls)"
    using owned by (simp_all add: owns_output_def)
  note failure = output_tls_failure_closed [OF this, of ob]
  have socket: "init_output_sockets (o_socket ob) st = (0, st1)"
    by (simp add: init_output_sockets_def Socket_ok st1_def)
  show ?thesis
    using assms(3) fd close_output_socket_owned [OF owned(1)] failure owned Socket_ok
    unfolding output_thread_start_def socket output_comes_up_def
    by (auto simp: Let_def output_flags_def owns_output_def st1_def split: if_splits)
qed (use assms in \<open>auto simp: output_thread_start_def init_output_sockets_def output_valid_def output_comes_up_def owns_output_def\<close>)

section \<open>Properties\<close>

text \<open>
  Starting the output thread ends in a definite state: the thread is no longer marked as starting, and it is running exactly when its socket was created and
  connected and, with TLS, no stop was requested and the handshake succeeded. A running thread has exactly one more open descriptor, a thread that did
  not come up has none.
\<close>

theorem output_start_definite:
  assumes "output_valid ob" and "\<not> is_running_output (cc_conn st)" and "\<not> is_starting_output (cc_conn st)"
    and "server_output_start ssl (Output_thread ob) st = st'"
  shows "\<not> is_starting_output (cc_conn st') \<and> (is_running_output (cc_conn st') \<longleftrightarrow> output_comes_up ssl ob) \<and>
           (if output_comes_up ssl ob then \<exists>fd \<ge> 0. conn_output (cc_conn st') = fd \<and> cc_open st' = fd # cc_open st
            else conn_output (cc_conn st') < 0 \<and> cc_open st' = cc_open st)"
proof -
  define st1 where "st1 = st\<lparr>cc_conn := (cc_conn st)\<lparr>is_starting_output := True, stop_running_output := False\<rparr>\<rparr>"
  obtain up st2 where run: "output_thread_start ssl ob st1 = (up, st2)" by fastforce
  have "\<not> is_running_output (cc_conn st1)" using assms(2) by (simp add: st1_def)
  note end_of_start = output_thread_start_result [OF assms(1) this run]
  have "st' = st2\<lparr>cc_conn := (cc_conn st2)\<lparr>is_starting_output := False\<rparr>\<rparr>" and "cc_open st1 = cc_open st"
    using assms(2-4) run by (simp_all add: server_output_start_def Let_def st1_def)
  with end_of_start show ?thesis
    by (cases up) (simp_all add: owns_output_def)
qed

text \<open>
  C20. Stopping the client ends: it waits at most 30 seconds for each connection, leaves no array of connections and no TLS context, and shuts every open
  descriptor down. It frees the array under the threads of exactly those connections whose flags were not all clear at any of the 3000 tests.
\<close>

theorem stop_waits_for_threads:
  assumes "connections (threads_data st) = Some cs" and "0 < connections_count (threads_data st)"
    and "switcher_servers_stop_client stops st = (st', waits, dangling)"
  shows "connections (threads_data st') = None \<and> connections_count (threads_data st') = 0 \<and> length waits = length cs \<and>
           list_all (\<lambda>w. w \<le> 30000) waits \<and> fd_log st' = fd_log st @ concat (map (\<lambda>c. map Fd_shutdown (open_fds c)) cs) \<and>
           set dangling = {i. i < length cs \<and> (\<forall>k < 3000. \<not> stops i (10 * k))}"
  using assms wait_for_stop_30s
  by (auto simp: switcher_servers_stop_client_def Let_def list_all_iff)

section \<open>Concrete runs\<close>

definition example_output :: output_obs where
  "example_output = \<lparr>o_socket = Socket_ok 5, o_connect = True, o_stop = False, o_ssl_new = True, o_handshake = False,
     o_pause = (\<lambda>_. False), o_pause_stop = False\<rparr>"

text \<open>A failed handshake: the thread is not running and its socket is closed.\<close>

theorem output_start_definite_witness:
  "\<exists>st'. server_output_start True (Output_thread example_output) example_connecting = st' \<and>
     \<not> is_starting_output (cc_conn st') \<and> \<not> is_running_output (cc_conn st') \<and> cc_open st' = []"
  using output_start_definite [of example_output example_connecting True]
  by (simp add: example_output_def example_connecting_def zero_conn_def output_valid_def output_comes_up_def)

text \<open>Two connections: the first stops after half a second, the second never.\<close>

definition two_connections :: client_state where
  "two_connections = initial_client_state\<lparr>threads_data := zero_settings\<lparr>
     connections := Some [zero_conn\<lparr>conn_input := 7, conn_output := -1\<rparr>, zero_conn\<lparr>conn_input := -1, conn_output := 9\<rparr>], connections_count := 2\<rparr>\<rparr>"

theorem stop_waits_for_threads_witness:
  "\<exists>st' waits dangling. switcher_servers_stop_client (\<lambda>i ms. i = 0 \<and> 500 \<le> ms) two_connections = (st', waits, dangling) \<and>
     connections (threads_data st') = None \<and> fd_log st' = [Fd_shutdown 7, Fd_shutdown 9] \<and> set dangling = {1}"
proof -
  let ?stops = "\<lambda>(i::nat) ms. i = 0 \<and> 500 \<le> (ms::nat)"
  obtain st' waits dangling where stop: "switcher_servers_stop_client ?stops two_connections = (st', waits, dangling)"
    by (cases "switcher_servers_stop_client ?stops two_connections")
  have idle: "connections (threads_data two_connections) = Some [zero_conn\<lparr>conn_input := 7, conn_output := -1\<rparr>, zero_conn\<lparr>conn_input := -1, conn_output := 9\<rparr>]"
    "0 < connections_count (threads_data two_connections)" "fd_log two_connections = []"
    by (simp_all add: two_connections_def initial_client_state_def)
  have "{i. i < Suc (Suc 0) \<and> (\<forall>k < 3000. \<not> ?stops i (10 * k))} = {1}"
    by (auto simp: less_Suc_eq dest: spec [of _ 50])
  with stop_waits_for_threads [OF idle(1,2) stop] stop idle(3) show ?thesis
    by (simp add: open_fds_def zero_conn_def)
qed

end
