(* ===== verification/Client_Output_Thread.thy ===== *)
theory Client_Output_Thread
  imports Client_Stop Client_Relay
begin

text \<open>
  The whole of \<open>server_output_thread\<close> of \<open>src/client/proxy/client/proxy_client.c\<close>: its start from \<open>Client_Stop\<close>, its main loop from \<open>Client_Relay\<close>, and what
  follows the loop.
\<close>

definition leave_output_loop :: "client_relay \<Rightarrow> connecting \<Rightarrow> connecting" where
  "leave_output_loop r st =
     st\<lparr>cc_conn := cr_conn r,
        cc_open := (if conn_output (cr_conn r) = conn_output (cc_conn st) then cc_open st else remove1 (conn_output (cc_conn st)) (cc_open st))\<rparr>"

text \<open>\<open>(True, _)\<close>: the thread is in its main loop; \<open>(False, _)\<close>: it has ended; None while it is sending when the observations are used up.\<close>

definition server_output_thread ::
  "output_obs \<Rightarrow> client_out_obs list \<Rightarrow> connecting \<Rightarrow> client_relay \<Rightarrow> (bool \<times> connecting \<times> client_relay) option" where
  "server_output_thread ob passes st r =
     (let (up, st1) = output_thread_start (cr_enable_output_ssl r) ob st;
          r1 = r\<lparr>cr_conn := cc_conn st1\<rparr>
      in if \<not> up then Some (False, st1, r1)
         else
           case client_output_loop passes r1 of
             None \<Rightarrow> None
           | Some (True, r2) \<Rightarrow> Some (True, leave_output_loop r2 st1, r2)
           | Some (False, r2) \<Rightarrow>
               (let r3 = client_output_epilogue r2 in Some (False, leave_output_loop r3 st1, r3)))"

lemma output_iteration_conn:
  "client_output_iteration ob r = Some (b, r') \<Longrightarrow>
   conn_output (cr_conn r') = conn_output (cr_conn r) \<and> is_running_output (cr_conn r') = is_running_output (cr_conn r)"
  by (auto simp: client_output_iteration_def client_output_forward_def Let_def split: if_splits read_obs.splits option.splits)

lemma output_loop_conn:
  "client_output_loop obs r = Some (b, r') \<Longrightarrow>
   conn_output (cr_conn r') = conn_output (cr_conn r) \<and> is_running_output (cr_conn r') = is_running_output (cr_conn r)"
  unfolding client_output_loop_def
proof (induction obs arbitrary: r)
  case Nil
  then show ?case by simp
next
  case (Cons ob obs)
  then obtain b1 r1 where "client_output_iteration ob r = Some (b1, r1)" by (auto split: option.splits)
  with Cons output_iteration_conn [OF this] show ?case by (cases b1) auto
qed

lemma output_epilogue_conn:
  "0 \<le> conn_output (cr_conn r) \<Longrightarrow> conn_output (cr_conn (client_output_epilogue r)) = -1 \<and>
     \<not> is_running_output (cr_conn (client_output_epilogue r)) \<and> \<not> is_starting_output (cr_conn (client_output_epilogue r)) \<and>
     \<not> stop_running_output (cr_conn (client_output_epilogue r))"
  by (simp add: client_output_epilogue_def close_service_def Let_def)

text \<open>The thread owns one descriptor while it relays, and none afterwards; \<open>is_running_output\<close> says which.\<close>

lemma output_thread_life:
  assumes "output_valid ob" and "\<not> is_running_output (cc_conn st)"
    and "server_output_thread ob passes st r = Some (up, st', r')"
  shows "is_running_output (cc_conn st') = up \<and>
         (if up then 0 \<le> conn_output (cc_conn st') \<and> cc_open st' = conn_output (cc_conn st') # cc_open st
          else conn_output (cc_conn st') < 0 \<and> cc_open st' = cc_open st)"
proof -
  obtain begun st1 where start: "output_thread_start (cr_enable_output_ssl r) ob st = (begun, st1)" by fastforce
  note started = output_thread_start_result [OF assms(1,2) start]
  show ?thesis
  proof (cases begun)
    case False
    then show ?thesis using started assms(3) start by (auto simp: server_output_thread_def owns_output_def)
  next
    case True
    then obtain b r2 where loop: "client_output_loop passes (r\<lparr>cr_conn := cc_conn st1\<rparr>) = Some (b, r2)"
      using assms(3) start by (auto simp: server_output_thread_def split: option.splits)
    have held: "0 \<le> conn_output (cc_conn st1)" "cc_open st1 = conn_output (cc_conn st1) # cc_open st" "is_running_output (cc_conn st1)"
      using started True by (auto simp: owns_output_def)
    show ?thesis
      using output_loop_conn [OF loop] output_epilogue_conn [of r2] held True assms(3) start loop
      by (cases b) (auto simp: server_output_thread_def leave_output_loop_def Let_def)
  qed
qed

text \<open>After its end another output thread can be started: the flags that would prevent it are clear.\<close>

lemma output_thread_can_restart:
  "\<not> is_running_output (cr_conn (client_output_epilogue r)) \<and> \<not> is_starting_output (cr_conn (client_output_epilogue r))"
  by (simp add: client_output_epilogue_def close_service_def Let_def)

end
