(* ===== verification/Client_Windows.thy ===== *)
theory Client_Windows
  imports Command_Line Client_Connect Client_Relay
begin

text \<open>
  The Windows client, \<open>src/client_win\<close>: its command line (\<open>main.c\<close>) and its two threads (\<open>proxy/client/proxy_client.c\<close>). It has one connection, no TLS and
  no registration, and its loops are an older form of those of \<open>src/client\<close>. The threads run against the observations of \<open>Client_Relay\<close> and
  \<open>Client_Connect\<close>, which makes the two programs comparable: without TLS they relay the same bytes.
\<close>

section \<open>State\<close>

text \<open>
  \<open>proxy_server_t\<close>, beside it the open sockets and the bytes one direction has read and written. \<open>INVALID_SOCKET\<close> is -1; \<open>closesocket\<close> does not
  change the variable that holds the handle.
\<close>

record win_client =
  wc_is_starting_input :: bool
  wc_is_running_input :: bool
  wc_stop_running_input :: bool
  wc_input :: int
  wc_is_starting_output :: bool
  wc_is_running_output :: bool
  wc_stop_running_output :: bool
  wc_output :: int
  wc_open :: "int list"
  wc_read :: "u8 list"
  wc_written :: "u8 list"

definition win_init_input_sockets :: "socket_obs \<Rightarrow> win_client \<Rightarrow> int \<times> win_client" where
  "win_init_input_sockets ob st =
     (case ob of
        Socket_failed \<Rightarrow> (-2, st\<lparr>wc_input := -1\<rparr>)
      | Option_failed fd \<Rightarrow> (-2, st\<lparr>wc_input := fd, wc_open := fd # wc_open st\<rparr>)
      | Socket_ok fd \<Rightarrow> (0, st\<lparr>wc_input := fd, wc_open := fd # wc_open st\<rparr>))"

definition win_init_output_sockets :: "socket_obs \<Rightarrow> win_client \<Rightarrow> int \<times> win_client" where
  "win_init_output_sockets ob st =
     (case ob of
        Socket_failed \<Rightarrow> (-2, st\<lparr>wc_output := -1\<rparr>)
      | Option_failed fd \<Rightarrow> (-2, st\<lparr>wc_output := fd, wc_open := fd # wc_open st\<rparr>)
      | Socket_ok fd \<Rightarrow> (0, st\<lparr>wc_output := fd, wc_open := fd # wc_open st\<rparr>))"

definition win_close :: "int \<Rightarrow> win_client \<Rightarrow> win_client" where
  "win_close fd st = st\<lparr>wc_open := remove1 fd (wc_open st)\<rparr>"

section \<open>The threads\<close>

text \<open>The \<open>do .. while\<close> that sends one buffer: \<open>sent\<close> and the bytes written; None while it runs.\<close>

fun win_send_loop :: "u8 list \<Rightarrow> client_send_obs list \<Rightarrow> int \<Rightarrow> u8 list \<Rightarrow> (int \<times> u8 list) option" where
  "win_send_loop buf [] sent out = None"
| "win_send_loop buf (ob # obs) sent out =
     (if co_result ob \<noteq> -1 then
        (let sent' = sent + co_result ob;
             out' = out @ take (nat (co_result ob)) (drop (nat sent) buf)
         in if int (length buf) - sent' \<le> 0 then Some (sent', out')
            else if co_running ob then win_send_loop buf obs sent' out' else Some (sent', out'))
      else if co_eagain ob then
        (if co_select_failed ob \<or> \<not> co_running_after_wait ob then Some (sent, out)
         else if co_running ob then win_send_loop buf obs sent out else Some (sent, out))
      else Some (sent, out))"

text \<open>
  The output thread up to its loop: neither the result of \<open>init_output_sockets\<close> nor that of \<open>connect\<close> (which is only logged) has an effect.
\<close>

definition win_output_thread_start :: "socket_obs \<Rightarrow> win_client \<Rightarrow> win_client" where
  "win_output_thread_start ob st = (snd (win_init_output_sockets ob st))\<lparr>wc_is_running_output := True, wc_is_starting_output := False\<rparr>"

definition win_server_output_start :: "socket_obs \<Rightarrow> win_client \<Rightarrow> win_client" where
  "win_server_output_start ob st =
     (if \<not> wc_is_running_output st
      then win_output_thread_start ob (st\<lparr>wc_is_starting_output := True, wc_stop_running_output := False\<rparr>)
      else st)"

text \<open>How a pass leaves the loop of the input thread: \<open>break\<close>, or \<open>goto restart_input_thread\<close>.\<close>

datatype win_exit = Win_break | Win_restart

text \<open>One pass is observed as in \<open>Client_Relay\<close>; in addition, the socket an output thread started by it gets.\<close>

record win_in_obs =
  wi_base :: client_in_obs
  wi_output_socket :: socket_obs

definition win_input_forward :: "win_in_obs \<Rightarrow> u8 list \<Rightarrow> win_client \<Rightarrow> (win_exit option \<times> win_client) option" where
  "win_input_forward ob buf st =
     (let st1 = win_server_output_start (wi_output_socket ob) (st\<lparr>wc_read := wc_read st @ buf\<rparr>)
      in if ci_output_timeout (wi_base ob) then Some (Some Win_restart, st1)
         else case win_send_loop buf (ci_send (wi_base ob)) 0 [] of
                None \<Rightarrow> None
              | Some (sent, out) \<Rightarrow> Some (None, st1\<lparr>wc_written := wc_written st1 @ out\<rparr>))"

definition win_input_iteration :: "win_in_obs \<Rightarrow> win_client \<Rightarrow> (win_exit option \<times> win_client) option" where
  "win_input_iteration ob st =
     (let base = wi_base ob;
          restart = Some (Some Win_restart, win_close (wc_input st) (st\<lparr>wc_stop_running_output := True\<rparr>))
      in if ci_head_stop base then Some (Some Win_break, st)
         else if ci_inactive base then restart
         else if ci_select base = -1 then Some (Some Win_break, st)
         else if ci_select base = 0 then Some (None, st)
         else if ci_stop base then Some (Some Win_break, st)
         else case ci_read base of Read buf \<Rightarrow> win_input_forward ob buf st | _ \<Rightarrow> restart)"

text \<open>A loop over passes that can be left in two ways; None for the exit while it runs.\<close>

fun win_loop :: "('o \<Rightarrow> 's \<Rightarrow> ('e option \<times> 's) option) \<Rightarrow> 'o list \<Rightarrow> 's \<Rightarrow> ('e option \<times> 's) option" where
  "win_loop pass [] st = Some (None, st)"
| "win_loop pass (ob # obs) st =
     (case pass ob st of None \<Rightarrow> None
      | Some (None, st1) \<Rightarrow> win_loop pass obs st1
      | Some (Some e, st1) \<Rightarrow> Some (Some e, st1))"

definition win_input_loop :: "win_in_obs list \<Rightarrow> win_client \<Rightarrow> (win_exit option \<times> win_client) option" where
  "win_input_loop = win_loop win_input_iteration"

text \<open>
  The input thread from \<open>restart_input_thread\<close> on: the socket, the passes of the loop, and \<open>stop_running_input\<close> as read after a \<open>break\<close>. Again the result
  of \<open>connect\<close> is only logged.
\<close>

record win_attempt =
  wa_socket :: socket_obs
  wa_passes :: "win_in_obs list"
  wa_stop :: bool

datatype win_end = Win_runs | Win_restarts | Win_returns

definition win_input_attempt :: "win_attempt \<Rightarrow> win_client \<Rightarrow> (win_end \<times> win_client) option" where
  "win_input_attempt ob st =
     (let st1 = (snd (win_init_input_sockets (wa_socket ob) st))\<lparr>wc_is_running_input := True, wc_is_starting_input := False\<rparr>
      in case win_input_loop (wa_passes ob) st1 of
           None \<Rightarrow> None
         | Some (None, st2) \<Rightarrow> Some (Win_runs, st2)
         | Some (Some Win_restart, st2) \<Rightarrow> Some (Win_restarts, st2)
         | Some (Some Win_break, st2) \<Rightarrow>
             (let st3 = win_close (wc_input st2) st2
              in if wa_stop ob then Some (Win_returns, st3\<lparr>wc_is_running_input := False\<rparr>) else Some (Win_restarts, st3)))"

fun win_input_thread :: "win_attempt list \<Rightarrow> win_client \<Rightarrow> (win_end \<times> win_client) option" where
  "win_input_thread [] st = Some (Win_restarts, st)"
| "win_input_thread (ob # obs) st =
     (case win_input_attempt ob st of
        Some (Win_restarts, st1) \<Rightarrow> win_input_thread obs st1
      | r \<Rightarrow> r)"

definition win_server_input_start :: "win_attempt list \<Rightarrow> win_client \<Rightarrow> (win_end \<times> win_client) option" where
  "win_server_input_start obs st =
     (if \<not> wc_is_running_input st
      then win_input_thread obs (st\<lparr>wc_is_starting_input := True, wc_stop_running_input := False\<rparr>)
      else Some (Win_runs, st))"

text \<open>The output thread: there is no test for inactivity, and the stop flag is read before the wait for the input thread, not after it.\<close>

definition win_output_forward :: "client_out_obs \<Rightarrow> u8 list \<Rightarrow> win_client \<Rightarrow> (unit option \<times> win_client) option" where
  "win_output_forward ob buf st =
     (let st1 = st\<lparr>wc_read := wc_read st @ buf\<rparr>
      in if cx_stop_after_wait ob then Some (Some (), st1)
         else case win_send_loop buf (cx_send ob) 0 [] of
                None \<Rightarrow> None
              | Some (sent, out) \<Rightarrow> Some (None, st1\<lparr>wc_written := wc_written st1 @ out\<rparr>))"

definition win_output_iteration :: "client_out_obs \<Rightarrow> win_client \<Rightarrow> (unit option \<times> win_client) option" where
  "win_output_iteration ob st =
     (if cx_head_stop ob then Some (Some (), st)
      else if cx_select ob = -1 then Some (Some (), st)
      else if cx_select ob = 0 then Some (None, st)
      else if cx_stop ob then Some (Some (), st)
      else case cx_read ob of Read buf \<Rightarrow> win_output_forward ob buf st | _ \<Rightarrow> Some (Some (), st))"

definition win_output_loop :: "client_out_obs list \<Rightarrow> win_client \<Rightarrow> (unit option \<times> win_client) option" where
  "win_output_loop = win_loop win_output_iteration"

definition win_output_epilogue :: "win_client \<Rightarrow> win_client" where
  "win_output_epilogue st = (win_close (wc_output st) st)\<lparr>wc_is_running_output := False, wc_stop_running_output := False\<rparr>"

definition input_server_stop :: "win_client \<Rightarrow> win_client" where
  "input_server_stop st = (if wc_is_running_input st then st\<lparr>wc_stop_running_input := True\<rparr> else st)"

section \<open>Command line\<close>

record win_options =
  wo_input_address :: string
  wo_output_address :: string
  wo_input_port :: u16
  wo_output_port :: u16
  wo_show_help :: bool
  wo_verbose :: "int option"

definition default_win_options :: win_options where
  "default_win_options =
     \<lparr>wo_input_address = ''82.146.44.140'', wo_output_address = ''127.0.0.1'', wo_input_port = 0, wo_output_port = 0, wo_show_help = True,
      wo_verbose = None\<rparr>"

text \<open>\<open>verbose_level\<close> has no initial value.\<close>

definition win_verbose :: "string \<Rightarrow> win_options \<Rightarrow> win_options parsed" where
  "win_verbose a opts =
     (if strstr a ''-v'' then
        (case scan_d (drop 2 a) of
           Scanned n \<Rightarrow> if 0 < n \<and> n \<le> 7 then Parsed (opts\<lparr>wo_verbose := Some n\<rparr>) else Exits (-1)
         | _ \<Rightarrow> Undefined)
      else Parsed opts)"

text \<open>\<open>sscanf (v, "%s", address)\<close> into 32 bytes: one word; a longer one is written past the end of the array.\<close>

definition win_scan_address :: "(string \<Rightarrow> win_options \<Rightarrow> win_options) \<Rightarrow> string \<Rightarrow> win_options \<Rightarrow> win_options parsed" where
  "win_scan_address f v opts =
     (let w = takeWhile (\<lambda>c. \<not> is_space c) (dropWhile is_space v)
      in if w = [] then Parsed opts else if length w < 32 then Parsed (f w opts) else Undefined)"

text \<open>
  \<open>sscanf (v, "%d", &port)\<close> with a \<open>u_short\<close>: the lower half of the number becomes the port (the upper half goes to the padding before the next field).
\<close>

definition win_scan_port :: "(u16 \<Rightarrow> win_options \<Rightarrow> win_options) \<Rightarrow> string \<Rightarrow> win_options \<Rightarrow> win_options parsed" where
  "win_scan_port f v opts = (case scan_d v of Scanned n \<Rightarrow> Parsed (f (word_of_int n) opts) | No_match \<Rightarrow> Parsed opts | Scan_undefined \<Rightarrow> Undefined)"

definition win_value ::
  "string \<Rightarrow> (string \<Rightarrow> win_options \<Rightarrow> win_options parsed) \<Rightarrow> string \<Rightarrow> string list \<Rightarrow> win_options \<Rightarrow> win_options parsed" where
  "win_value key scan a rest opts =
     (case rest of
        v # _ \<Rightarrow> if strstr a key then bind_parsed (scan v opts) (\<lambda>o1. Parsed (o1\<lparr>wo_show_help := False\<rparr>)) else Parsed opts
      | [] \<Rightarrow> Parsed opts)"

text \<open>The tests on one argument, in the order of the code; the loop does not skip the values.\<close>

definition win_arg :: "string \<Rightarrow> string list \<Rightarrow> win_options \<Rightarrow> win_options parsed" where
  "win_arg a rest opts =
     bind_parsed (bind_parsed (bind_parsed (bind_parsed (win_verbose a opts)
       (win_value ''--host_in'' (win_scan_address (\<lambda>w o1. o1\<lparr>wo_input_address := w\<rparr>)) a rest))
       (win_value ''--host_out'' (win_scan_address (\<lambda>w o1. o1\<lparr>wo_output_address := w\<rparr>)) a rest))
       (win_value ''-p_in'' (win_scan_port (\<lambda>p o1. o1\<lparr>wo_input_port := p\<rparr>)) a rest))
       (win_value ''-p_out'' (win_scan_port (\<lambda>p o1. o1\<lparr>wo_output_port := p\<rparr>)) a rest)"

fun parse_win_args :: "string list \<Rightarrow> win_options \<Rightarrow> win_options parsed" where
  "parse_win_args [] opts = Parsed opts"
| "parse_win_args (a # rest) opts = bind_parsed (win_arg a rest opts) (parse_win_args rest)"

text \<open>The options the client starts with; without any it prints its usage and ends with status 0.\<close>

definition win_main :: "string list \<Rightarrow> win_options parsed" where
  "win_main args =
     bind_parsed (parse_win_args args default_win_options) (\<lambda>opts. if wo_show_help opts then Exits 0 else Parsed opts)"

section \<open>Equivalence with the client's loops without TLS\<close>

text \<open>The two states have read and written the same.\<close>

definition same_streams :: "win_client \<Rightarrow> client_relay \<Rightarrow> bool" where
  "same_streams w st \<longleftrightarrow> cr_read st = wc_read w \<and> cr_written st = map (Pair False) (wc_written w)"

text \<open>What a loop has come to: whether it still runs, what it has read and written.\<close>

definition win_view :: "'e option \<times> win_client \<Rightarrow> bool \<times> u8 list \<times> (bool \<times> u8) list" where
  "win_view r = (fst r = None, wc_read (snd r), map (Pair False) (wc_written (snd r)))"

definition client_view :: "bool \<times> client_relay \<Rightarrow> bool \<times> u8 list \<times> (bool \<times> u8) list" where
  "client_view r = (fst r, cr_read (snd r), cr_written (snd r))"

lemma client_send_loop_plain:
  "client_send_loop False buf obs sent obj (map (Pair False) out) =
     map_option (\<lambda>(s, out'). (s, obj, map (Pair False) out')) (win_send_loop buf obs sent out)"
proof (induction obs arbitrary: sent out)
  case Nil
  then show ?case by simp
next
  case (Cons ob obs)
  show ?case
    using Cons.IH [of "sent + co_result ob" "out @ take (nat (co_result ob)) (drop (nat sent) buf)"] Cons.IH [of sent out]
    by (simp add: Let_def)
qed

lemma client_send_loop_plain_Nil:
  "client_send_loop False buf obs 0 obj [] = map_option (\<lambda>(s, out'). (s, obj, map (Pair False) out')) (win_send_loop buf obs 0 [])"
  using client_send_loop_plain [of buf obs 0 obj "[]"] by simp

text \<open>Loops whose passes stay in a relation stay in it.\<close>

definition same_run :: "('w \<Rightarrow> 's \<Rightarrow> bool) \<Rightarrow> 'e option \<times> 'w \<Rightarrow> bool \<times> 's \<Rightarrow> bool" where
  "same_run R r s \<longleftrightarrow> (fst s \<longleftrightarrow> fst r = None) \<and> R (snd r) (snd s)"

lemma win_loop_simulates:
  assumes "\<And>ob w st. valid ob \<Longrightarrow> R w st \<Longrightarrow> rel_option (same_run R) (pass ob w) (pass' (f ob) st)"
    and "list_all valid obs" and "R w st"
  shows "rel_option (same_run R) (win_loop pass obs w) (relay_loop pass' (map f obs) st)"
  using assms(2,3)
proof (induction obs arbitrary: w st)
  case Nil
  then show ?case by (simp add: same_run_def)
next
  case (Cons ob obs)
  from Cons.prems assms(1) have "rel_option (same_run R) (pass ob w) (pass' (f ob) st)" by simp
  then show ?case
  proof (cases rule: option.rel_cases)
    case None
    then show ?thesis by simp
  next
    case (Some r s)
    then obtain e w1 b st1 where rs: "r = (e, w1)" "s = (b, st1)" "b \<longleftrightarrow> e = None" "R w1 st1"
      by (cases r, cases s) (auto simp: same_run_def)
    with Some Cons show ?thesis by (cases e) (auto simp: same_run_def)
  qed
qed

definition plain_pair :: "win_client \<Rightarrow> client_relay \<Rightarrow> bool" where
  "plain_pair w st \<longleftrightarrow> same_streams w st \<and> \<not> cr_enable_ssl st \<and> \<not> cr_enable_output_ssl st"

lemma win_output_start_streams [simp]:
  "wc_read (win_server_output_start ob w) = wc_read w" "wc_written (win_server_output_start ob w) = wc_written w"
  by (simp_all add: win_server_output_start_def win_output_thread_start_def win_init_output_sockets_def split: socket_obs.split)

lemma win_close_streams [simp]: "wc_read (win_close fd w) = wc_read w" "wc_written (win_close fd w) = wc_written w"
  by (simp_all add: win_close_def)

lemma input_forward_plain:
  "plain_pair w st \<Longrightarrow> rel_option (same_run plain_pair) (win_input_forward ob buf w) (client_input_forward (wi_base ob) buf st)"
  by (cases "win_send_loop buf (ci_send (wi_base ob)) 0 []")
    (auto simp: win_input_forward_def client_input_forward_def client_send_loop_plain_Nil plain_pair_def same_streams_def same_run_def Let_def)

lemma input_iteration_plain:
  "plain_pair w st \<Longrightarrow> rel_option (same_run plain_pair) (win_input_iteration ob w) (client_input_iteration (wi_base ob) st)"
  using input_forward_plain [of w st ob]
  by (cases "ci_read (wi_base ob)")
    (auto simp: win_input_iteration_def client_input_iteration_def plain_pair_def same_streams_def same_run_def Let_def)

lemma output_forward_plain:
  "plain_pair w st \<Longrightarrow> rel_option (same_run plain_pair) (win_output_forward ob buf w) (client_output_forward ob buf st)"
  by (cases "win_send_loop buf (cx_send ob) 0 []")
    (auto simp: win_output_forward_def client_output_forward_def client_send_loop_plain_Nil plain_pair_def same_streams_def same_run_def Let_def)

lemma output_iteration_plain:
  "\<not> cx_inactive ob \<Longrightarrow> plain_pair w st \<Longrightarrow> rel_option (same_run plain_pair) (win_output_iteration ob w) (client_output_iteration ob st)"
  using output_forward_plain [of w st ob]
  by (cases "cx_read ob")
    (auto simp: win_output_iteration_def client_output_iteration_def plain_pair_def same_streams_def same_run_def Let_def)

lemma same_run_view: "rel_option (same_run plain_pair) r s \<Longrightarrow> map_option win_view r = map_option client_view s"
  by (cases r; cases s) (auto simp: same_run_def plain_pair_def same_streams_def win_view_def client_view_def)

section \<open>Restarting and starting\<close>

text \<open>
  When the output thread does not come up within 120 seconds the input thread starts again without closing its socket; the next attempt puts a new one
  in its place.
\<close>

lemma win_restart_leaks:
  assumes "wa_socket ob = Socket_ok fd" and "wa_passes ob = [p]" and "ci_output_timeout (wi_base p)"
    and "\<not> ci_head_stop (wi_base p)" and "\<not> ci_inactive (wi_base p)" and "ci_select (wi_base p) = 1" and "\<not> ci_stop (wi_base p)"
    and "ci_read (wi_base p) = Read buf" and "wa_socket ob' = Socket_ok fd'" and "wa_passes ob' = []"
  shows "\<exists>st'. win_input_thread [ob, ob'] st = Some (Win_runs, st') \<and> wc_input st' = fd' \<and> fd \<in> set (wc_open st')"
  using assms
  by (auto simp: win_input_attempt_def win_init_input_sockets_def win_input_loop_def win_input_iteration_def win_input_forward_def
      win_server_output_start_def win_output_thread_start_def win_init_output_sockets_def Let_def split: socket_obs.split)

text \<open>An output thread counts as running whatever became of its socket and its connection.\<close>

lemma win_output_start_runs: "wc_is_running_output (win_server_output_start ob st)"
  by (simp add: win_server_output_start_def win_output_thread_start_def)

section \<open>The command line\<close>

text \<open>A word without an option in it: an argument that only serves as a value.\<close>

definition win_word :: "string \<Rightarrow> bool" where
  "win_word w \<longleftrightarrow> w \<noteq> [] \<and> length w < 32 \<and> list_all (\<lambda>c. \<not> is_space c) w \<and> \<not> strstr w ''-''"

lemma strstr_dash: "\<not> strstr w ''-'' \<Longrightarrow> \<not> strstr w (CHR ''-'' # pat)"
  by (induction w) auto

lemma win_arg_word: "win_word w \<Longrightarrow> win_arg w rest opts = Parsed opts"
  by (simp add: win_arg_def win_verbose_def win_value_def win_word_def strstr_dash split: list.split)

lemma win_word_print: "n < 2 ^ 16 \<Longrightarrow> win_arg (print_base 10 n) rest opts = Parsed opts"
  by (simp add: win_arg_def win_verbose_def win_value_def print_base_no_option split: list.split)

lemma win_scan_address_one_word:
  "w \<noteq> [] \<Longrightarrow> list_all (\<lambda>c. \<not> is_space c) w \<Longrightarrow> win_scan_address f w opts = (if length w < 32 then Parsed (f w opts) else Undefined)"
proof -
  assume w: "w \<noteq> []" "list_all (\<lambda>c. \<not> is_space c) w"
  then have word: "dropWhile is_space w = w" "takeWhile (\<lambda>c. \<not> is_space c) w = w"
    by (auto simp: list_all_iff dropWhile_eq_self_iff takeWhile_eq_all_conv)
  show ?thesis using w(1) by (simp only: win_scan_address_def word Let_def if_False)
qed

lemma win_scan_address_word: "win_word w \<Longrightarrow> win_scan_address f w opts = Parsed (f w opts)"
  by (simp add: win_scan_address_one_word win_word_def)

lemma win_scan_port_print: "n < 2 ^ 16 \<Longrightarrow> win_scan_port f (print_base 10 n) opts = Parsed (f (of_nat n) opts)"
  using scan_d_print [of n] by (simp add: win_scan_port_def)

lemma win_value_other: "\<not> strstr a key \<Longrightarrow> win_value key scan a rest = Parsed"
  by (rule ext) (simp add: win_value_def split: list.split)

lemma bind_parsed_Parsed: "bind_parsed m Parsed = m"
  by (cases m) simp_all

lemma win_keys_differ:
  "\<not> strstr ''--host_in'' ''-v''" "\<not> strstr ''--host_out'' ''-v''" "\<not> strstr ''-p_in'' ''-v''" "\<not> strstr ''-p_out'' ''-v''"
  "\<not> strstr ''--host_in'' ''--host_out''" "\<not> strstr ''--host_in'' ''-p_in''" "\<not> strstr ''--host_in'' ''-p_out''"
  "\<not> strstr ''--host_out'' ''--host_in''" "\<not> strstr ''--host_out'' ''-p_in''" "\<not> strstr ''--host_out'' ''-p_out''"
  "\<not> strstr ''-p_in'' ''--host_in''" "\<not> strstr ''-p_in'' ''--host_out''" "\<not> strstr ''-p_in'' ''-p_out''"
  "\<not> strstr ''-p_out'' ''--host_in''" "\<not> strstr ''-p_out'' ''--host_out''" "\<not> strstr ''-p_out'' ''-p_in''"
  by simp_all

lemma win_arg_keys:
  "win_arg ''--host_in'' (v # rest) opts = win_value ''--host_in'' (win_scan_address (\<lambda>w o1. o1\<lparr>wo_input_address := w\<rparr>)) ''--host_in'' (v # rest) opts"
  "win_arg ''--host_out'' (v # rest) opts = win_value ''--host_out'' (win_scan_address (\<lambda>w o1. o1\<lparr>wo_output_address := w\<rparr>)) ''--host_out'' (v # rest) opts"
  "win_arg ''-p_in'' (v # rest) opts = win_value ''-p_in'' (win_scan_port (\<lambda>p o1. o1\<lparr>wo_input_port := p\<rparr>)) ''-p_in'' (v # rest) opts"
  "win_arg ''-p_out'' (v # rest) opts = win_value ''-p_out'' (win_scan_port (\<lambda>p o1. o1\<lparr>wo_output_port := p\<rparr>)) ''-p_out'' (v # rest) opts"
  by (simp_all only: win_arg_def win_verbose_def win_keys_differ win_value_other not_False_eq_True bind_parsed.simps if_False bind_parsed_Parsed)

text \<open>The four options of the usage text are read as they are written.\<close>

lemma win_args_read:
  assumes "win_word host" and "win_word service" and "p < 2 ^ 16" and "q < 2 ^ 16"
  shows "win_main [''--host_in'', host, ''-p_in'', print_base 10 p, ''--host_out'', service, ''-p_out'', print_base 10 q] =
           Parsed \<lparr>wo_input_address = host, wo_output_address = service, wo_input_port = of_nat p, wo_output_port = of_nat q,
                   wo_show_help = False, wo_verbose = None\<rparr>"
  using assms
  by (simp add: win_main_def win_arg_keys win_value_def win_scan_address_word win_scan_port_print win_arg_word win_word_print
      default_win_options_def)

text \<open>A host of 32 characters is written past the end of its array.\<close>

lemma win_long_host_overflows:
  assumes "32 \<le> length host" and "list_all (\<lambda>c. \<not> is_space c) host"
  shows "win_main (''--host_in'' # host # rest) = Undefined"
proof -
  have "host \<noteq> []" using assms(1) by auto
  with assms show ?thesis
    by (simp add: win_main_def win_arg_keys win_value_def win_scan_address_one_word)
qed

section \<open>Properties\<close>

text \<open>
  C19. The Windows client relays like the client of \<open>src/client\<close> without TLS: on the same observations (and no inactivity test in the output thread, which the
  Windows client does not have) both loops are left at the same pass, have read the same bytes and have written the same bytes.
\<close>

theorem windows_relays_like_client:
  assumes "same_streams w st" and "\<not> cr_enable_ssl st" and "\<not> cr_enable_output_ssl st" and "list_all (\<lambda>ob. \<not> cx_inactive ob) outs"
  shows "map_option win_view (win_input_loop ins w) = map_option client_view (client_input_loop (map wi_base ins) st) \<and>
         map_option win_view (win_output_loop outs w) = map_option client_view (client_output_loop outs st)"
proof (intro conjI same_run_view)
  have pair: "plain_pair w st" using assms(1-3) by (simp add: plain_pair_def)
  show "rel_option (same_run plain_pair) (win_input_loop ins w) (client_input_loop (map wi_base ins) st)"
    unfolding win_input_loop_def client_input_loop_def
    by (rule win_loop_simulates [where valid = "\<lambda>_. True"]) (simp_all add: input_iteration_plain pair list_all_iff)
  show "rel_option (same_run plain_pair) (win_output_loop outs w) (client_output_loop outs st)"
    using win_loop_simulates [where valid = "\<lambda>ob. \<not> cx_inactive ob" and f = "\<lambda>ob. ob", OF output_iteration_plain assms(4) pair]
    by (simp add: win_output_loop_def client_output_loop_def)
qed

section \<open>Concrete runs\<close>

definition example_win :: win_client where
  "example_win = \<lparr>wc_is_starting_input = False, wc_is_running_input = True, wc_stop_running_input = False, wc_input = 3, wc_is_starting_output = False,
     wc_is_running_output = True, wc_stop_running_output = False, wc_output = 4, wc_open = [4, 3], wc_read = [], wc_written = []\<rparr>"

definition example_plain :: client_relay where
  "example_plain = \<lparr>cr_conn = zero_conn, cr_enable_ssl = False, cr_enable_output_ssl = False, cr_read = [], cr_written = [], cr_counted = 0, cr_closed = []\<rparr>"

definition send_result :: "int \<Rightarrow> client_send_obs" where
  "send_result n = \<lparr>co_result = n, co_ssl_error = SSL_fatal, co_eagain = False, co_select_failed = False, co_running_after_wait = True, co_running = True\<rparr>"

definition chunk_from_tunnel :: client_in_obs where
  "chunk_from_tunnel = \<lparr>ci_head_stop = False, ci_inactive = False, ci_select = 1, ci_stop = False, ci_read = Read [1, 2, 3], ci_output_timeout = False,
     ci_ssl_output = False, ci_send = [send_result 2, send_result 1]\<rparr>"

text \<open>A chunk of three bytes in two sends, then the end of the tunnel: both clients have written the three bytes and left the loop.\<close>

theorem windows_relays_like_client_witness:
  "\<exists>ins. map_option win_view (win_input_loop ins example_win) = Some (False, [1, 2, 3], map (Pair False) [1, 2, 3]) \<and>
     map_option client_view (client_input_loop (map wi_base ins) example_plain) = Some (False, [1, 2, 3], map (Pair False) [1, 2, 3])"
proof -
  let ?ins = "[\<lparr>wi_base = chunk_from_tunnel, wi_output_socket = Socket_failed\<rparr>,
    \<lparr>wi_base = chunk_from_tunnel\<lparr>ci_read := Read_closed\<rparr>, wi_output_socket = Socket_failed\<rparr>]"
  have "map_option win_view (win_input_loop ?ins example_win) = Some (False, [1, 2, 3], map (Pair False) [1, 2, 3])"
    by (simp add: win_input_loop_def win_input_iteration_def win_input_forward_def chunk_from_tunnel_def send_result_def win_view_def
        win_close_def win_server_output_start_def example_win_def Let_def)
  moreover have "map_option win_view (win_input_loop ?ins example_win) = map_option client_view (client_input_loop (map wi_base ?ins) example_plain)"
    using windows_relays_like_client [of example_win example_plain "[]" ?ins] by (simp add: same_streams_def example_win_def example_plain_def)
  ultimately show ?thesis by metis
qed

end
