(* ===== verification/Server_Startup.thy ===== *)
theory Server_Startup
  imports Server_Statistics
begin

text \<open>
  The start of the configured servers in \<open>src/server/proxy/server/proxy_server.c\<close>: \<open>servers_init\<close> reads the rows of a user from the database and binds
  the listeners, \<open>servers_init_no_db\<close> does so for one server given on the command line, \<open>switcher_servers_start\<close> copies every entry of the
  array to the heap and starts its two listener threads. The array, the descriptors, the contexts and the heap are those of \<open>Dynamic_Servers\<close>.
\<close>

section \<open>State\<close>

text \<open>
  Beside the state of the servers: \<open>proxy_settings\<close>, whether the semaphore is initialised, the addresses of the copies whose
  threads were started, of those that were freed although their input thread still runs on them, and of those nobody refers to any more.
\<close>

record startup_state =
  sv_dyn :: dyn_state
  sv_local_address :: string
  sv_retention :: time_t
  sv_semaphore :: bool
  sv_started :: "nat list"
  sv_dangling :: "nat list"
  sv_lost :: "nat list"

definition initial_startup :: startup_state where
  "initial_startup = \<lparr>sv_dyn = initial_dyn_state, sv_local_address = [], sv_retention = 0, sv_semaphore = False,
     sv_started = [], sv_dangling = [], sv_lost = []\<rparr>"

section \<open>Addresses\<close>

text \<open>\<open>getenv (..)\<close> is the argument.\<close>

definition init_proxy_bind_address :: "string option \<Rightarrow> startup_state \<Rightarrow> startup_state" where
  "init_proxy_bind_address bind_addr st =
     st\<lparr>sv_local_address := (case bind_addr of None \<Rightarrow> ''127.0.0.1'' | Some a \<Rightarrow> if a \<noteq> [] then strncpy 31 a else ''127.0.0.1'')\<rparr>"

text \<open>
  The address a listener is bound to, in \<open>init_input_socket\<close> and \<open>init_output_socket\<close>. \<open>inet_addr\<close> is the library function, with \<open>INADDR_NONE\<close> as None; \<open>INADDR_ANY\<close>
  is 0.
\<close>

definition connection_address :: "(string \<Rightarrow> u32 option) \<Rightarrow> string \<Rightarrow> proxy_server \<Rightarrow> u32" where
  "connection_address inet_addr local_address srv =
     (if \<not> ps_is_dynamic_port srv \<and> local_address \<noteq> []
      then (case inet_addr local_address of None \<Rightarrow> 0 | Some a \<Rightarrow> a) else 0)"

section \<open>Initialisation\<close>

definition path_of :: "string option \<Rightarrow> string" where
  "path_of f = (case f of None \<Rightarrow> [] | Some s \<Rightarrow> strncpy 255 s)"

text \<open>The context, then both listeners; a failure switches that side off and leaves its descriptor open.\<close>

definition init_server_sockets :: "start_env \<Rightarrow> proxy_server \<Rightarrow> dyn_state \<Rightarrow> proxy_server \<times> dyn_state" where
  "init_server_sockets env srv st =
     (let (srv1, st1) = init_ssl_context env srv st;
          (in_ok, srv2, st2) = server_input_init env srv1 st1;
          srv3 = srv2\<lparr>ps_is_input_enabled := in_ok\<rparr>;
          (out_ok, srv4, st4) = server_output_init env srv3 st2
      in (srv4\<lparr>ps_is_output_enabled := out_ok\<rparr>, st4))"

text \<open>The body of the loop of \<open>servers_init\<close>.\<close>

definition init_configured_server :: "start_env \<Rightarrow> string option \<Rightarrow> string option \<Rightarrow> proxy_server \<Rightarrow> dyn_state \<Rightarrow> proxy_server \<times> dyn_state" where
  "init_configured_server env cert_file key_file srv st =
     (if \<not> ps_enable srv then (srv, st)
      else init_server_sockets env (srv\<lparr>ps_cert_file := path_of cert_file, ps_key_file := path_of key_file\<rparr>) st)"

fun init_configured_servers ::
  "start_env list \<Rightarrow> string option \<Rightarrow> string option \<Rightarrow> proxy_server list \<Rightarrow> dyn_state \<Rightarrow> proxy_server list \<times> dyn_state" where
  "init_configured_servers (env # envs) cert_file key_file (s # ss) st =
     (let (s', st1) = init_configured_server env cert_file key_file s st;
          (ss', st2) = init_configured_servers envs cert_file key_file ss st1
      in (s' # ss', st2))"
| "init_configured_servers _ cert_file key_file ss st = (ss, st)"

text \<open>What start-up sees of its surroundings.\<close>

record init_env =
  ie_sql_ok :: "nat \<Rightarrow> bool"
  ie_malloc_ok :: bool
  ie_now :: time_t
  ie_bind_address :: "string option"
  ie_sem_ok :: bool
  ie_servers :: "start_env list"

text \<open>\<open>servers_init\<close>; None where \<open>exit_nicely\<close> ends the process. Otherwise the result is 0.\<close>

definition servers_init ::
  "init_env \<Rightarrow> int \<Rightarrow> string option \<Rightarrow> string option \<Rightarrow> time_t \<Rightarrow> stats_db \<Rightarrow> startup_state \<Rightarrow> (startup_state \<times> stats_db) option" where
  "servers_init env user_id cert_file key_file retention db st =
     (case get_user_server_ports (ie_sql_ok env) (ie_malloc_ok env) (ie_now env) user_id db of
        (None, db1) \<Rightarrow> None
      | (Some (ss, count), db1) \<Rightarrow>
          let st1 = (init_proxy_bind_address (ie_bind_address env) st)\<lparr>sv_retention := retention\<rparr>
          in if \<not> ie_sem_ok env then None
             else
               let (ss', d) = init_configured_servers (ie_servers env) cert_file key_file ss (sv_dyn st1)
               in Some (st1\<lparr>sv_semaphore := True, sv_dyn := d\<lparr>servers := ss', servers_count := count\<rparr>\<rparr>, db1))"

definition cli_server :: "time_t \<Rightarrow> string option \<Rightarrow> string option \<Rightarrow> u16 \<Rightarrow> u16 \<Rightarrow> bool \<Rightarrow> bool \<Rightarrow> proxy_server" where
  "cli_server now cert_file key_file input_port output_port output_ssl input_ssl =
     zero_server\<lparr>ps_enable := True, ps_input_port := input_port, ps_output_port := output_port, ps_is_input_enabled := True,
       ps_is_output_enabled := True, ps_enable_output_ssl := output_ssl, ps_enable_input_ssl := input_ssl,
       ps_statistics := zero_statistics\<lparr>ss_last_update := now\<rparr>, ps_cert_file := path_of cert_file, ps_key_file := path_of key_file\<rparr>"

text \<open>
  \<open>servers_init_no_db\<close>. When \<open>malloc\<close> fails it returns -1 with \<open>servers_count\<close> already 1 and no array.
\<close>

definition servers_init_no_db ::
  "init_env \<Rightarrow> start_env \<Rightarrow> string option \<Rightarrow> string option \<Rightarrow> u16 \<Rightarrow> u16 \<Rightarrow> bool \<Rightarrow> bool \<Rightarrow> time_t \<Rightarrow> startup_state \<Rightarrow> int \<times> startup_state" where
  "servers_init_no_db env senv cert_file key_file input_port output_port output_ssl input_ssl retention st =
     (let d = sv_dyn st;
          d1 = snd (cleanup_all_ssl (take (unat (servers_count d)) (servers d)) d)\<lparr>servers := [], servers_count := 1\<rparr>
      in if \<not> ie_malloc_ok env then (-1, st\<lparr>sv_dyn := d1\<rparr>)
         else if \<not> ie_sem_ok env then (-1, st\<lparr>sv_dyn := d1\<lparr>servers_count := 0\<rparr>\<rparr>)
         else
           let (srv, d2) = init_server_sockets senv
                 (cli_server (ie_now env) cert_file key_file input_port output_port output_ssl input_ssl) d1
           in (0, (init_proxy_bind_address (ie_bind_address env) st)\<lparr>sv_retention := retention, sv_semaphore := True,
                     sv_dyn := d2\<lparr>servers := [srv]\<rparr>\<rparr>))"

section \<open>Starting the threads\<close>

text \<open>
  The loop body of \<open>switcher_servers_start\<close> for one array entry: the copy and its \<open>threads\<close> connection slots, the input thread, the output thread. A disabled server's
  copy is forgotten; a copy whose output thread does not run is freed whatever its input thread does.
\<close>

definition start_configured_server :: "start_env \<Rightarrow> nat \<Rightarrow> proxy_server \<Rightarrow> startup_state \<Rightarrow> startup_state" where
  "start_configured_server env threads srv st =
     (if \<not> e_malloc_ok env then st
      else
        let d = sv_dyn st; a = next_address d;
            d1 = d\<lparr>next_address := Suc a\<rparr>;
            copy = (\<lambda>s. d1\<lparr>heap := (heap d)(a \<mapsto> \<lparr>td_local_sockets = replicate threads zero_local_socket, td_data = s\<rparr>)\<rparr>);
            freed = d1\<lparr>heap := (heap d)(a := None)\<rparr>;
            in_running = (if ps_is_input_enabled srv then ps_is_input_running srv \<or> e_in_thread_ok env else ps_is_input_running srv);
            out_running = (if ps_is_output_enabled srv then ps_is_output_running srv \<or> e_out_thread_ok env else ps_is_output_running srv)
        in if \<not> ps_enable srv then st\<lparr>sv_dyn := copy srv, sv_lost := a # sv_lost st\<rparr>
           else if ps_is_input_enabled srv \<and> \<not> in_running then st\<lparr>sv_dyn := freed\<rparr>
           else if ps_is_output_enabled srv \<and> \<not> out_running then
             st\<lparr>sv_dyn := freed, sv_dangling := (if ps_is_input_enabled srv then a # sv_dangling st else sv_dangling st)\<rparr>
           else st\<lparr>sv_dyn := copy (srv\<lparr>ps_is_input_running := in_running, ps_is_output_running := out_running\<rparr>),
                   sv_started := a # sv_started st\<rparr>)"

fun start_configured_servers :: "start_env list \<Rightarrow> nat \<Rightarrow> proxy_server list \<Rightarrow> startup_state \<Rightarrow> startup_state" where
  "start_configured_servers (env # envs) threads (s # ss) st =
     start_configured_servers envs threads ss (start_configured_server env threads s st)"
| "start_configured_servers _ threads ss st = st"

text \<open>None when the loop reads behind the array.\<close>

definition switcher_servers_start :: "start_env list \<Rightarrow> nat \<Rightarrow> startup_state \<Rightarrow> startup_state option" where
  "switcher_servers_start envs threads st =
     (let d = sv_dyn st; n = unat (servers_count d)
      in if length (servers d) < n then None else Some (start_configured_servers envs threads (take n (servers d)) st))"

section \<open>Listeners\<close>

definition listening :: "fd_object option list \<Rightarrow> int \<Rightarrow> u16 \<Rightarrow> bool" where
  "listening t fd port \<longleftrightarrow> 0 \<le> fd \<and> fd < int (length t) \<and> t ! nat fd = Some (Listener port)"

text \<open>Every listener of \<open>t\<close> is one of \<open>t'\<close>.\<close>

definition keeps_listeners :: "fd_object option list \<Rightarrow> fd_object option list \<Rightarrow> bool" where
  "keeps_listeners t t' \<longleftrightarrow> (\<forall>fd port. listening t fd port \<longrightarrow> listening t' fd port)"

lemma keeps_listeners_refl [simp, intro]: "keeps_listeners t t"
  by (simp add: keeps_listeners_def)

lemma keeps_listeners_trans: "keeps_listeners t t' \<Longrightarrow> keeps_listeners t' t'' \<Longrightarrow> keeps_listeners t t''"
  by (simp add: keeps_listeners_def)

lemma keeps_listenersD: "keeps_listeners t t' \<Longrightarrow> listening t fd port \<Longrightarrow> listening t' fd port"
  by (simp add: keeps_listeners_def)

lemma os_socket_keeps:
  assumes "os_socket t = (fd, t')"
  shows "keeps_listeners t t'" and "0 \<le> fd" and "fd < int (length t')" and "t' ! nat fd = Some Plain_socket"
  using assms
  by (auto simp: os_socket_def keeps_listeners_def listening_def nth_append nth_list_update first_index_Some_iff split: option.splits)

lemma os_listen_keeps:
  assumes "0 \<le> fd" "fd < int (length t)" "t ! nat fd = Some Plain_socket"
  shows "keeps_listeners t (os_listen fd port t)" and "listening (os_listen fd port t) fd port"
  using assms by (auto simp: os_listen_def keeps_listeners_def listening_def nth_list_update)

lemma init_listener_keeps:
  assumes "init_listener a b c port t = (ok, fd, t')"
  shows "keeps_listeners t t'" and "ok = (a \<and> b \<and> c)" and "ok \<Longrightarrow> listening t' fd port"
proof -
  obtain fd1 t1 where s: "os_socket t = (fd1, t1)" by fastforce
  note k = os_socket_keeps [OF s]
  note l = os_listen_keeps [OF k(2-4), of port]
  have r: "(ok, fd, t') = (if \<not> a then (False, -1, t) else if \<not> b \<or> \<not> c then (False, fd1, t1) else (True, fd1, os_listen fd1 port t1))"
    using assms s by (auto simp: init_listener_def split: if_splits)
  show "keeps_listeners t t'"
    using r k(1) l(1) by (auto intro: keeps_listeners_trans split: if_splits)
  show "ok = (a \<and> b \<and> c)" using r by (auto split: if_splits)
  show "ok \<Longrightarrow> listening t' fd port" using r l(2) by (auto split: if_splits)
qed

text \<open>Each side of the server that is switched on has its listener.\<close>

definition bound :: "fd_object option list \<Rightarrow> proxy_server \<Rightarrow> bool" where
  "bound t s \<longleftrightarrow> (ps_is_input_enabled s \<longrightarrow> listening t (ps_input s) (ps_input_port s)) \<and>
                  (ps_is_output_enabled s \<longrightarrow> listening t (ps_output s) (ps_output_port s))"

lemma bound_mono: "keeps_listeners t t' \<Longrightarrow> bound t s \<Longrightarrow> bound t' s"
  by (auto simp: bound_def dest: keeps_listenersD)

text \<open>The parts of the state that initialising a server leaves alone, and what it makes of the server's own settings.\<close>

definition same_configuration :: "proxy_server \<Rightarrow> proxy_server \<Rightarrow> bool" where
  "same_configuration s s' \<longleftrightarrow>
     ps_id s' = ps_id s \<and> ps_enable s' = ps_enable s \<and> ps_input_port s' = ps_input_port s \<and> ps_output_port s' = ps_output_port s \<and>
     ps_is_dynamic_port s' = ps_is_dynamic_port s \<and> ps_statistics s' = ps_statistics s"

definition same_ssl :: "proxy_server \<Rightarrow> proxy_server \<Rightarrow> bool" where
  "same_ssl s s' \<longleftrightarrow> ps_enable_input_ssl s' = ps_enable_input_ssl s \<and> ps_enable_output_ssl s' = ps_enable_output_ssl s"

lemma init_ssl_context_result:
  assumes "init_ssl_context env s st = (s', st')"
  shows "same_configuration s s'" "fds st' = fds st" "heap st' = heap st" "next_address st' = next_address st"
    "e_ctx_ok env \<and> ps_cert_file s \<noteq> [] \<and> ps_key_file s \<noteq> [] \<Longrightarrow> same_ssl s s'"
    "(ps_enable_input_ssl s' \<or> ps_enable_output_ssl s') \<Longrightarrow> same_ssl s s' \<and> ps_ssl_ctx s' \<noteq> None"
  using assms
  by (auto simp: init_ssl_context_def create_server_ssl_context_def same_configuration_def same_ssl_def Let_def split: if_splits)

lemma init_server_sockets_result:
  assumes "init_server_sockets env s st = (s', st')"
  shows "same_configuration s s'" and "keeps_listeners (fds st) (fds st')" and "bound (fds st') s'"
    and "ps_is_input_enabled s' = (e_in_socket_ok env \<and> e_in_options_ok env \<and> e_in_bind_ok env)"
    and "ps_is_output_enabled s' = (e_out_socket_ok env \<and> e_out_options_ok env \<and> e_out_bind_ok env)"
    and "\<not> ps_is_input_running s'" and "\<not> ps_is_output_running s'"
    and "heap st' = heap st" and "next_address st' = next_address st"
    and "e_ctx_ok env \<and> ps_cert_file s \<noteq> [] \<and> ps_key_file s \<noteq> [] \<Longrightarrow> same_ssl s s'"
proof -
  obtain s1 st1 where ssl: "init_ssl_context env s st = (s1, st1)" by fastforce
  note c = init_ssl_context_result [OF ssl]
  obtain in_ok fd1 t1 where i: "init_listener (e_in_socket_ok env) (e_in_options_ok env) (e_in_bind_ok env) (ps_input_port s1) (fds st1) = (in_ok, fd1, t1)"
    by (rule prod_cases3)
  obtain out_ok fd2 t2 where o: "init_listener (e_out_socket_ok env) (e_out_options_ok env) (e_out_bind_ok env) (ps_output_port s1) t1 = (out_ok, fd2, t2)"
    by (rule prod_cases3)
  note ii = init_listener_keeps [OF i] and oo = init_listener_keeps [OF o]
  have r: "s' = s1\<lparr>ps_stop_input_running := False, ps_is_input_running := False, ps_input := fd1, ps_is_input_enabled := in_ok,
        ps_stop_output_running := False, ps_is_output_running := False, ps_output := fd2, ps_is_output_enabled := out_ok\<rparr>"
    "st' = st1\<lparr>fds := t2\<rparr>"
    using assms ssl i o by (auto simp: init_server_sockets_def server_input_init_def server_output_init_def Let_def)
  show "same_configuration s s'" using c(1) by (simp add: r same_configuration_def)
  show "keeps_listeners (fds st) (fds st')" using c(2) ii(1) oo(1) by (auto simp: r intro: keeps_listeners_trans)
  show "bound (fds st') s'" using ii(3) oo(1,3) by (auto simp: r bound_def dest: keeps_listenersD)
  show "ps_is_input_enabled s' = (e_in_socket_ok env \<and> e_in_options_ok env \<and> e_in_bind_ok env)"
    "ps_is_output_enabled s' = (e_out_socket_ok env \<and> e_out_options_ok env \<and> e_out_bind_ok env)"
    using ii(2) oo(2) by (simp_all add: r)
  show "\<not> ps_is_input_running s'" "\<not> ps_is_output_running s'" by (simp_all add: r)
  show "heap st' = heap st" "next_address st' = next_address st" using c(3,4) by (simp_all add: r)
  show "e_ctx_ok env \<and> ps_cert_file s \<noteq> [] \<and> ps_key_file s \<noteq> [] \<Longrightarrow> same_ssl s s'" using c(5) by (simp add: r same_ssl_def)
qed

definition sockets_ok :: "start_env \<Rightarrow> bool" where
  "sockets_ok env \<longleftrightarrow> e_in_socket_ok env \<and> e_in_options_ok env \<and> e_in_bind_ok env \<and> e_out_socket_ok env \<and> e_out_options_ok env \<and> e_out_bind_ok env"

text \<open>What initialisation makes of one entry; \<open>certs\<close>: both paths are given.\<close>

definition initialised :: "start_env \<Rightarrow> bool \<Rightarrow> fd_object option list \<Rightarrow> proxy_server \<Rightarrow> proxy_server \<Rightarrow> bool" where
  "initialised env certs t s s' \<longleftrightarrow>
     same_configuration s s' \<and>
     (ps_enable s \<longrightarrow>
        bound t s' \<and> \<not> ps_is_input_running s' \<and> \<not> ps_is_output_running s' \<and>
        (sockets_ok env \<longrightarrow> ps_is_input_enabled s' \<and> ps_is_output_enabled s') \<and>
        (e_ctx_ok env \<and> certs \<longrightarrow> same_ssl s s'))"

lemma initialised_mono: "keeps_listeners t t' \<Longrightarrow> initialised env certs t s s' \<Longrightarrow> initialised env certs t' s s'"
  by (auto simp: initialised_def intro: bound_mono)

definition certs_given :: "string option \<Rightarrow> string option \<Rightarrow> bool" where
  "certs_given cert_file key_file \<longleftrightarrow> path_of cert_file \<noteq> [] \<and> path_of key_file \<noteq> []"

lemma init_configured_server_result:
  assumes "init_configured_server env cert_file key_file s st = (s', st')"
  shows "keeps_listeners (fds st) (fds st')" and "heap st' = heap st" and "next_address st' = next_address st"
    and "initialised env (certs_given cert_file key_file) (fds st') s s'"
proof -
  let ?s = "s\<lparr>ps_cert_file := path_of cert_file, ps_key_file := path_of key_file\<rparr>"
  have same: "same_configuration s s" by (simp add: same_configuration_def)
  have "keeps_listeners (fds st) (fds st') \<and> heap st' = heap st \<and> next_address st' = next_address st \<and>
      initialised env (certs_given cert_file key_file) (fds st') s s'"
  proof (cases "ps_enable s")
    case False
    with assms same show ?thesis by (auto simp: init_configured_server_def initialised_def)
  next
    case True
    with assms have i: "init_server_sockets env ?s st = (s', st')" by (simp add: init_configured_server_def)
    note r = init_server_sockets_result [OF i]
    have same: "same_configuration s s'" "e_ctx_ok env \<and> certs_given cert_file key_file \<Longrightarrow> same_ssl s s'"
      using r(1,10) by (simp_all add: same_configuration_def same_ssl_def certs_given_def)
    have "sockets_ok env \<Longrightarrow> ps_is_input_enabled s' \<and> ps_is_output_enabled s'"
      using r(4,5) by (simp add: sockets_ok_def)
    with r(2,3,6-9) same show ?thesis
      by (simp add: initialised_def)
  qed
  then show "keeps_listeners (fds st) (fds st')" "heap st' = heap st" "next_address st' = next_address st"
    "initialised env (certs_given cert_file key_file) (fds st') s s'" by auto
qed

lemma init_configured_servers_result:
  "length ss \<le> length envs \<Longrightarrow> init_configured_servers envs cert_file key_file ss st = (ss', st') \<Longrightarrow>
   keeps_listeners (fds st) (fds st') \<and> heap st' = heap st \<and> next_address st' = next_address st \<and> length ss' = length ss \<and>
   (\<forall>i < length ss. initialised (envs ! i) (certs_given cert_file key_file) (fds st') (ss ! i) (ss' ! i))"
proof (induction ss arbitrary: envs st ss' st')
  case (Cons s ss)
  then obtain env envs' where e: "envs = env # envs'" by (cases envs) auto
  obtain s1 st1 where one: "init_configured_server env cert_file key_file s st = (s1, st1)" by fastforce
  obtain ss2 st2 where rest: "init_configured_servers envs' cert_file key_file ss st1 = (ss2, st2)" by fastforce
  note r1 = init_configured_server_result [OF one]
  have r2: "keeps_listeners (fds st1) (fds st2)" "heap st2 = heap st1" "next_address st2 = next_address st1" "length ss2 = length ss"
    "\<forall>i < length ss. initialised (envs' ! i) (certs_given cert_file key_file) (fds st2) (ss ! i) (ss2 ! i)"
    using Cons.IH [OF _ rest] Cons.prems(1) by (auto simp: e)
  have "ss' = s1 # ss2" "st' = st2" using Cons.prems(2) one rest by (auto simp: e)
  moreover have "initialised env (certs_given cert_file key_file) (fds st2) s s1"
    using initialised_mono [OF r2(1) r1(4)] .
  ultimately show ?case
    using r1 r2 by (auto simp: e nth_Cons split: nat.splits intro: keeps_listeners_trans)
qed simp

section \<open>Running copies\<close>

text \<open>What a start leaves alone: the descriptors, the array, the copies already on the heap, and what was started.\<close>

definition start_extends :: "startup_state \<Rightarrow> startup_state \<Rightarrow> bool" where
  "start_extends st st' \<longleftrightarrow>
     fds (sv_dyn st') = fds (sv_dyn st) \<and> next_address (sv_dyn st) \<le> next_address (sv_dyn st') \<and>
     (\<forall>a < next_address (sv_dyn st). heap (sv_dyn st') a = heap (sv_dyn st) a) \<and> set (sv_started st) \<subseteq> set (sv_started st')"

lemma start_configured_server_extends: "start_extends st (start_configured_server env threads s st)"
  by (auto simp: start_extends_def start_configured_server_def Let_def)

lemma start_extends_trans: "start_extends st st' \<Longrightarrow> start_extends st' st'' \<Longrightarrow> start_extends st st''"
  by (auto simp: start_extends_def)

lemma start_configured_servers_extends: "start_extends st (start_configured_servers envs threads ss st)"
proof (induction envs threads ss st rule: start_configured_servers.induct)
  case (1 env envs threads s ss st)
  then show ?case using start_extends_trans [OF start_configured_server_extends] by simp
qed (auto simp: start_extends_def)

text \<open>A copy of the server \<open>s\<close> that both threads run on.\<close>

definition running_copy :: "nat \<Rightarrow> proxy_server \<Rightarrow> startup_state \<Rightarrow> bool" where
  "running_copy threads s st \<longleftrightarrow>
     (\<exists>a td. a \<in> set (sv_started st) \<and> heap (sv_dyn st) a = Some td \<and> a < next_address (sv_dyn st) \<and>
        td_local_sockets td = replicate threads zero_local_socket \<and>
        td_data td = s\<lparr>ps_is_input_running := True, ps_is_output_running := True\<rparr>)"

lemma running_copy_extends: "start_extends st st' \<Longrightarrow> running_copy threads s st \<Longrightarrow> running_copy threads s st'"
  unfolding start_extends_def running_copy_def by (metis less_le_trans subsetD)

definition threads_ok :: "start_env \<Rightarrow> bool" where
  "threads_ok env \<longleftrightarrow> e_malloc_ok env \<and> e_in_thread_ok env \<and> e_out_thread_ok env"

lemma start_configured_server_runs:
  assumes "threads_ok env" "ps_enable s" "ps_is_input_enabled s" "ps_is_output_enabled s"
  shows "running_copy threads s (start_configured_server env threads s st)"
  using assms by (auto simp: threads_ok_def start_configured_server_def running_copy_def Let_def)

lemma start_configured_servers_runs:
  "length ss \<le> length envs \<Longrightarrow> i < length ss \<Longrightarrow> threads_ok (envs ! i) \<Longrightarrow> ps_enable (ss ! i) \<Longrightarrow> ps_is_input_enabled (ss ! i) \<Longrightarrow>
   ps_is_output_enabled (ss ! i) \<Longrightarrow> running_copy threads (ss ! i) (start_configured_servers envs threads ss st)"
proof (induction envs threads ss st arbitrary: i rule: start_configured_servers.induct)
  case (1 env envs threads s ss st)
  show ?case
  proof (cases i)
    case 0
    with 1 have "running_copy threads s (start_configured_server env threads s st)"
      by (intro start_configured_server_runs) simp_all
    with 0 show ?thesis
      using running_copy_extends [OF start_configured_servers_extends] by simp
  next
    case (Suc j)
    with 1 show ?thesis by simp
  qed
qed auto

section \<open>From the database to running servers\<close>

lemma load_server_statistics_server:
  "load_server_statistics ok now s db = (s', db') \<Longrightarrow> \<exists>x. s' = s\<lparr>ps_statistics := x\<rparr>"
  by (auto simp: load_server_statistics_def Let_def case_prod_beta split: if_splits)

lemma load_rows_servers:
  "load_rows ok now rs db = (ss, db') \<Longrightarrow> length ss = length rs \<and> (\<forall>i < length rs. \<exists>x. ss ! i = (server_of_row (rs ! i))\<lparr>ps_statistics := x\<rparr>)"
proof (induction rs arbitrary: db ss db')
  case (Cons r rs)
  obtain s db1 where one: "load_server_statistics ok now (server_of_row r) db = (s, db1)" by fastforce
  obtain ss2 db2 where rest: "load_rows ok now rs db1 = (ss2, db2)" by fastforce
  have "ss = s # ss2" using Cons.prems one rest by simp
  then show ?case
    using Cons.IH [OF rest] load_server_statistics_server [OF one] by (auto simp: nth_Cons split: nat.splits)
qed simp

definition rows_of_user :: "int \<Rightarrow> stats_db \<Rightarrow> server_row list" where
  "rows_of_user user_id db = sort_key sr_id (filter (\<lambda>r. sr_user_id r = Some user_id) (server_rows db))"

lemma get_user_server_ports_servers:
  assumes "get_user_server_ports ok m now user_id db = (Some (ss, n), db')" and "length (rows_of_user user_id db) < 2 ^ 16"
  shows "length ss = length (rows_of_user user_id db)" and "unat n = length ss"
    and "i < length ss \<Longrightarrow> \<exists>x. ss ! i = (server_of_row (rows_of_user user_id db ! i))\<lparr>ps_statistics := x\<rparr>"
proof -
  let ?rows = "rows_of_user user_id db"
  have n: "unat (of_nat (length ?rows) :: u16) = length ?rows"
    using assms(2) by (simp add: unat_of_nat take_bit_nat_eq_self)
  have "length ss = length ?rows \<and> unat n = length ss \<and> (\<forall>i < length ss. \<exists>x. ss ! i = (server_of_row (?rows ! i))\<lparr>ps_statistics := x\<rparr>)"
  proof (cases "?rows = []")
    case True
    with assms(1) show ?thesis
      by (auto simp: get_user_server_ports_def sql_exec_def rows_of_user_def Let_def split: if_splits)
  next
    case False
    then have "(of_nat (length ?rows) :: u16) \<noteq> 0"
      using n by (metis length_0_conv unat_0)
    then obtain db1 where "load_rows ok now ?rows db1 = (ss, db')" and "n = of_nat (length ?rows)"
      using assms(1) n
      by (auto simp: get_user_server_ports_def sql_exec_def rows_of_user_def Let_def split: if_splits prod.splits)
    then show ?thesis
      using load_rows_servers n by fastforce
  qed
  then show "length ss = length ?rows" "unat n = length ss"
    "i < length ss \<Longrightarrow> \<exists>x. ss ! i = (server_of_row (?rows ! i))\<lparr>ps_statistics := x\<rparr>" by auto
qed

lemma servers_init_result:
  assumes "servers_init env user_id cert_file key_file retention db st = Some (st1, db1)"
    and "length (rows_of_user user_id db) < 2 ^ 16" and "length (rows_of_user user_id db) \<le> length (ie_servers env)"
  shows "length (servers (sv_dyn st1)) = length (rows_of_user user_id db)" 
    and "unat (servers_count (sv_dyn st1)) = length (servers (sv_dyn st1))"
    and "i < length (rows_of_user user_id db) \<Longrightarrow> \<exists>x. initialised (ie_servers env ! i) (certs_given cert_file key_file) (fds (sv_dyn st1))
           ((server_of_row (rows_of_user user_id db ! i))\<lparr>ps_statistics := x\<rparr>) (servers (sv_dyn st1) ! i)"
proof -
  obtain ss n where g: "get_user_server_ports (ie_sql_ok env) (ie_malloc_ok env) (ie_now env) user_id db = (Some (ss, n), db1)"
    using assms(1) by (auto simp: servers_init_def Let_def split: prod.splits option.splits if_splits)
  note r = get_user_server_ports_servers [OF g assms(2)]
  define d0 where "d0 = sv_dyn (init_proxy_bind_address (ie_bind_address env) st)"
  obtain ss' d where c: "init_configured_servers (ie_servers env) cert_file key_file ss d0 = (ss', d)" by fastforce
  have "sv_dyn st1 = d\<lparr>servers := ss', servers_count := n\<rparr>"
    using assms(1) c by (auto simp: servers_init_def g d0_def Let_def split: if_splits)
  moreover have "length ss' = length ss" "\<forall>i < length ss. initialised (ie_servers env ! i) (certs_given cert_file key_file) (fds d) (ss ! i) (ss' ! i)"
    using init_configured_servers_result [OF _ c] r(1) assms(3) by auto
  ultimately show "length (servers (sv_dyn st1)) = length (rows_of_user user_id db)"
    "unat (servers_count (sv_dyn st1)) = length (servers (sv_dyn st1))"
    "i < length (rows_of_user user_id db) \<Longrightarrow> \<exists>x. initialised (ie_servers env ! i) (certs_given cert_file key_file) (fds (sv_dyn st1))
           ((server_of_row (rows_of_user user_id db ! i))\<lparr>ps_statistics := x\<rparr>) (servers (sv_dyn st1) ! i)"
    using r by (auto, metis)
qed


definition all_ok_env :: start_env where
  "all_ok_env = \<lparr>e_realloc_ok = True, e_ctx_ok = True, e_in_socket_ok = True, e_in_options_ok = True, e_in_bind_ok = True,
     e_out_socket_ok = True, e_out_options_ok = True, e_out_bind_ok = True, e_malloc_ok = True, e_in_thread_ok = True, e_out_thread_ok = True\<rparr>"

definition example_init_env :: init_env where
  "example_init_env = \<lparr>ie_sql_ok = (\<lambda>_. True), ie_malloc_ok = True, ie_now = 0, ie_bind_address = None, ie_sem_ok = True, ie_servers = [all_ok_env]\<rparr>"

definition example_servers_db :: stats_db where
  "example_servers_db = \<lparr>server_rows = [\<lparr>sr_id = 5, sr_user_id = Some 1, sr_input_port = Some 7000, sr_output_port = Some 7001,
     sr_enable = None, sr_enable_ssl = Some True, sr_enable_input_ssl = Some False, sr_total_received = 0, sr_total_sent = 0\<rparr>],
     statistic = [], sd_statements = 0\<rparr>"

lemma example_servers_init:
  "\<exists>st1 db1. servers_init example_init_env 1 (Some ''c'') (Some ''k'') 0 example_servers_db initial_startup = Some (st1, db1)"
  by (simp add: servers_init_def get_user_server_ports_def sql_exec_def example_init_env_def example_servers_db_def
      load_server_statistics_def fetch_persisted_server_totals_def fetch_peak_statistic_totals_def Let_def split_def)


section \<open>What can go wrong\<close>

text \<open>A bind address that is not in dotted notation, a host name for instance, binds the configured servers to every interface of the machine.\<close>

lemma unparsable_bind_address_listens_everywhere:
  assumes "inet_addr (strncpy 31 a) = None" and "a \<noteq> []"
  shows "connection_address inet_addr (sv_local_address (init_proxy_bind_address (Some a) st)) srv = 0"
  using assms by (simp add: connection_address_def init_proxy_bind_address_def)

text \<open>When the output thread does not run, the copy is freed under the input thread that runs on it.\<close>

lemma output_failure_frees_running_input:
  assumes "e_malloc_ok env" and "ps_enable s" and "ps_is_input_enabled s" and "e_in_thread_ok env" and "ps_is_output_enabled s"
    and "\<not> ps_is_output_running s" and "\<not> e_out_thread_ok env"
  shows "\<exists>a. a \<in> set (sv_dangling (start_configured_server env threads s st)) \<and> heap (sv_dyn (start_configured_server env threads s st)) a = None"
  using assms by (intro exI [of _ "next_address (sv_dyn st)"]) (simp add: start_configured_server_def Let_def)

text \<open>Without memory \<open>servers_init_no_db\<close> returns -1, which \<open>main\<close> ignores: \<open>switcher_servers_start\<close> then reads an array that is not there.\<close>

lemma no_db_without_memory_crashes:
  assumes "\<not> ie_malloc_ok env" and "servers_init_no_db env senv c k p q os is t st = (r, st1)"
  shows "r = -1 \<and> switcher_servers_start envs threads st1 = None"
  using assms by (auto simp: servers_init_no_db_def switcher_servers_start_def Let_def)

text \<open>The server of the command line runs when its surroundings allow it.\<close>

theorem no_db_server_runs:
  assumes "servers_init_no_db env senv cert_file key_file p q output_ssl input_ssl retention st = (r, st1)"
    and "ie_malloc_ok env" and "ie_sem_ok env" and "sockets_ok senv" and "threads_ok tenv"
  shows "r = 0 \<and> (\<exists>st2 a td. switcher_servers_start [tenv] threads st1 = Some st2 \<and> a \<in> set (sv_started st2) \<and>
     heap (sv_dyn st2) a = Some td \<and> is_runtime_listener_active (sv_dyn st2) (td_data td) p False \<and>
     is_runtime_listener_active (sv_dyn st2) (td_data td) q True)"
proof -
  define cli where "cli = cli_server (ie_now env) cert_file key_file p q output_ssl input_ssl"
  define d1 where "d1 = snd (cleanup_all_ssl (take (unat (servers_count (sv_dyn st))) (servers (sv_dyn st))) (sv_dyn st))\<lparr>servers := [], servers_count := 1\<rparr>"
  obtain s d2 where i: "init_server_sockets senv cli d1 = (s, d2)" by fastforce
  note r = init_server_sockets_result [OF i]
  have count: "servers_count d2 = 1"
  proof -
    have "servers_count d2 = servers_count d1"
      using i by (auto simp: init_server_sockets_def server_input_init_def server_output_init_def init_ssl_context_def create_server_ssl_context_def
          Let_def split: prod.splits if_splits option.splits)
    then show ?thesis by (simp add: d1_def)
  qed
  have st1: "r = 0" "sv_dyn st1 = d2\<lparr>servers := [s]\<rparr>"
    using assms(1-3) i by (auto simp: servers_init_no_db_def cli_def d1_def Let_def)
  have en: "ps_enable s" "ps_input_port s = p" "ps_output_port s = q" "ps_is_input_enabled s" "ps_is_output_enabled s"
    using r(1,4,5) assms(4) by (auto simp: cli_def cli_server_def same_configuration_def sockets_ok_def)
  let ?st2 = "start_configured_server tenv threads s st1"
  have start: "switcher_servers_start [tenv] threads st1 = Some ?st2"
    by (simp add: switcher_servers_start_def st1 count Let_def)
  obtain a td where run: "a \<in> set (sv_started ?st2)" "heap (sv_dyn ?st2) a = Some td" "td_data td = s\<lparr>ps_is_input_running := True, ps_is_output_running := True\<rparr>"
    using start_configured_server_runs [OF assms(5) en(1,4,5), of threads st1] by (auto simp: running_copy_def)
  have "fds (sv_dyn ?st2) = fds d2"
    using start_configured_server_extends [of st1 tenv threads s] by (simp add: start_extends_def st1)
  then have "is_runtime_listener_active (sv_dyn ?st2) (td_data td) p False" "is_runtime_listener_active (sv_dyn ?st2) (td_data td) q True"
    using r(3) en by (auto simp: run(3) is_runtime_listener_active_def bound_def listening_def os_accepting_def Let_def)
  with st1(1) start run show ?thesis by blast
qed

end
