(* ===== verification/Server_Main.thy ===== *)
theory Server_Main
  imports Command_Line Server_Startup Device_Manager
begin

text \<open>
  \<open>src/server/main.c\<close>: the command line of the server and the choice of what to start. \<open>argv\<close> is without \<open>argv[0]\<close>; behind its last element is NULL.
\<close>

section \<open>Options\<close>

record server_options =
  so_ip :: string
  so_port :: string
  so_username :: "string option"
  so_password :: "string option"
  so_user_id :: u32
  so_cert_file :: "string option"
  so_key_file :: "string option"
  so_no_db :: bool
  so_input_port :: u16
  so_output_port :: u16
  so_enable_output_ssl :: bool
  so_enable_input_ssl :: bool
  so_retention :: time_t
  so_device_management :: bool
  so_control_port :: u16
  so_verbose :: int
  so_threads :: nat

definition default_options :: server_options where
  "default_options =
     \<lparr>so_ip = ''127.1'', so_port = ''5432'', so_username = None, so_password = None, so_user_id = 0, so_cert_file = None,
      so_key_file = None, so_no_db = False, so_input_port = 0, so_output_port = 0, so_enable_output_ssl = False,
      so_enable_input_ssl = False, so_retention = 90 * 24 * 60 * 60, so_device_management = False, so_control_port = 8443,
      so_verbose = 7, so_threads = count_socket_thread\<rparr>"

text \<open>An option with a value: \<open>if (argv[i+1] != NULL) { ..; i++; }\<close>.\<close>

definition with_value :: "string list \<Rightarrow> (string \<Rightarrow> server_options parsed) \<Rightarrow> server_options \<Rightarrow> (bool \<times> server_options) parsed" where
  "with_value rest f opts = (case rest of [] \<Rightarrow> Parsed (False, opts) | v # _ \<Rightarrow> bind_parsed (f v) (\<lambda>opts'. Parsed (True, opts')))"

definition set_verbose :: "string \<Rightarrow> server_options \<Rightarrow> server_options parsed" where
  "set_verbose a opts =
     (let check = (\<lambda>n. if 0 < n \<and> n \<le> 7 then Parsed (opts\<lparr>so_verbose := n\<rparr>) else Exits (-1))
      in case scan_d (drop 2 a) of No_match \<Rightarrow> check (so_verbose opts) | Scanned n \<Rightarrow> check n | Scan_undefined \<Rightarrow> Undefined)"

definition set_user_id :: "server_options \<Rightarrow> string \<Rightarrow> server_options parsed" where
  "set_user_id opts v = (case scan_d v of No_match \<Rightarrow> Parsed opts | Scanned n \<Rightarrow> Parsed (opts\<lparr>so_user_id := word_of_int n\<rparr>) | Scan_undefined \<Rightarrow> Undefined)"

text \<open>\<open>thread_count\<close> has no initial value.\<close>

definition set_threads :: "server_options \<Rightarrow> string \<Rightarrow> server_options parsed" where
  "set_threads opts v =
     (case scan_d v of No_match \<Rightarrow> Undefined | Scan_undefined \<Rightarrow> Undefined
      | Scanned n \<Rightarrow> if 0 < n \<and> n \<le> 1000 then Parsed (opts\<lparr>so_threads := nat n\<rparr>) else Exits (-1))"

definition port_value :: "string \<Rightarrow> u16 parsed" where
  "port_value v =
     (case scan_d v of No_match \<Rightarrow> Exits (-1) | Scan_undefined \<Rightarrow> Undefined
      | Scanned n \<Rightarrow> if 0 < n \<and> n \<le> 65535 then Parsed (word_of_int n) else Exits (-1))"

definition set_retention :: "server_options \<Rightarrow> string \<Rightarrow> server_options parsed" where
  "set_retention opts v =
     (case scan_d v of No_match \<Rightarrow> Parsed opts | Scan_undefined \<Rightarrow> Undefined
      | Scanned n \<Rightarrow> if 0 < n then Parsed (opts\<lparr>so_retention := n * 24 * 60 * 60\<rparr>) else Parsed opts)"

text \<open>The chain of \<open>else if\<close> for \<open>argv[i]\<close>; the first component says whether the next argument is skipped.\<close>

definition server_arg :: "string \<Rightarrow> string list \<Rightarrow> server_options \<Rightarrow> (bool \<times> server_options) parsed" where
  "server_arg a rest opts =
     (let flag = (\<lambda>opts'. Parsed (False, opts')); ok = (\<lambda>opts'. Parsed opts')
      in if strstr a ''-v'' then bind_parsed (set_verbose a opts) flag
         else if strstr a ''--host'' then flag (case rest of [] \<Rightarrow> opts | v # _ \<Rightarrow> opts\<lparr>so_ip := v\<rparr>)
         else if a = ''-p'' then with_value rest (\<lambda>v. ok (opts\<lparr>so_port := v\<rparr>)) opts
         else if strstr a ''--username'' then with_value rest (\<lambda>v. ok (opts\<lparr>so_username := Some v\<rparr>)) opts
         else if strstr a ''--password'' then with_value rest (\<lambda>v. ok (opts\<lparr>so_password := Some v\<rparr>)) opts
         else if strstr a ''--user'' then with_value rest (set_user_id opts) opts
         else if strstr a ''--cert'' then with_value rest (\<lambda>v. ok (opts\<lparr>so_cert_file := Some v\<rparr>)) opts
         else if strstr a ''--key'' then with_value rest (\<lambda>v. ok (opts\<lparr>so_key_file := Some v\<rparr>)) opts
         else if strstr a ''--threads'' \<or> strstr a ''-t'' then with_value rest (set_threads opts) opts
         else if a = ''--no-db'' then flag (opts\<lparr>so_no_db := True\<rparr>)
         else if a = ''--input-port'' then
           (if rest = [] then Exits (-1)
            else with_value rest (\<lambda>v. bind_parsed (port_value v) (\<lambda>p. ok (opts\<lparr>so_input_port := p\<rparr>))) opts)
         else if a = ''--output-port'' then
           (if rest = [] then Exits (-1)
            else with_value rest (\<lambda>v. bind_parsed (port_value v) (\<lambda>p. ok (opts\<lparr>so_output_port := p\<rparr>))) opts)
         else if strstr a ''--enable-output-ssl'' then flag (opts\<lparr>so_enable_output_ssl := True\<rparr>)
         else if strstr a ''--enable-input-ssl'' then flag (opts\<lparr>so_enable_input_ssl := True\<rparr>)
         else if strstr a ''--statistics-retention'' then with_value rest (set_retention opts) opts
         else if a = ''--enable-device-management'' then flag (opts\<lparr>so_device_management := True\<rparr>)
         else if a = ''--device-control-port'' then with_value rest (\<lambda>v. ok (opts\<lparr>so_control_port := word_of_int (atoi v)\<rparr>)) opts
         else flag opts)"

function parse_server_args :: "string list \<Rightarrow> server_options \<Rightarrow> server_options parsed" where
  "parse_server_args [] opts = Parsed opts"
| "parse_server_args (a # rest) opts =
     (case server_arg a rest opts of
        Parsed (skip, opts') \<Rightarrow> parse_server_args (if skip then tl rest else rest) opts'
      | Exits n \<Rightarrow> Exits n
      | Undefined \<Rightarrow> Undefined)"
  by pat_completeness auto
termination
  by (relation "measure (\<lambda>(args, opts). length args)") auto

text \<open>\<open>main\<close> up to the start: help and version end the process; without a database and device management both ports must be given.\<close>

definition server_command_line :: "string list \<Rightarrow> server_options parsed" where
  "server_command_line argv =
     (if argv = [] \<or> argv = [''--help''] \<or> argv = [''-h''] then Exits 0
      else if argv = [''--version''] \<or> argv = [''-v''] then Exits 0
      else bind_parsed (parse_server_args argv default_options)
        (\<lambda>opts. if \<not> so_device_management opts \<and> so_no_db opts \<and> (so_input_port opts = 0 \<or> so_output_port opts = 0)
                then Exits (-1) else Parsed opts))"

section \<open>Starting\<close>

text \<open>
  The three ways to start, then \<open>switcher_servers_start\<close>, whose environment is \<open>envs\<close>. Without \<open>db_init\<close> there is no connection, and every statement fails. The
  result is None when the process ends or crashes; with device management it includes the state of the device manager.
\<close>

definition server_start ::
  "init_env \<Rightarrow> start_env \<Rightarrow> start_env list \<Rightarrow> startup_env \<Rightarrow> server_options \<Rightarrow> stats_db \<Rightarrow> startup_state \<Rightarrow> dm_state \<Rightarrow>
   (startup_state \<times> stats_db \<times> bool \<times> dm_state) option" where
  "server_start ienv senv envs denv opts sdb st dm =
     (let user_id = sint (so_user_id opts);
          ienv' = (if so_no_db opts then ienv\<lparr>ie_sql_ok := \<lambda>_. False\<rparr> else ienv);
          launch = (\<lambda>st1 sdb1 dm1. map_option (\<lambda>st2. (st2, sdb1, dm1)) (switcher_servers_start envs (so_threads opts) st1))
      in if so_device_management opts then
           (case servers_init ienv' user_id (so_cert_file opts) (so_key_file opts) (so_retention opts) sdb st of
              None \<Rightarrow> None
            | Some (st1, sdb1) \<Rightarrow>
                launch st1 sdb1 (snd (servers_init_with_device_management denv 0 (so_control_port opts) (so_cert_file opts)
                                        (so_key_file opts) (False, dm))))
         else if \<not> so_no_db opts then
           (case servers_init ienv' user_id (so_cert_file opts) (so_key_file opts) (so_retention opts) sdb st of
              None \<Rightarrow> None
            | Some (st1, sdb1) \<Rightarrow> launch st1 sdb1 (False, dm))
         else
           launch (snd (servers_init_no_db ienv senv (so_cert_file opts) (so_key_file opts)
                          (so_input_port opts) (so_output_port opts) (so_enable_output_ssl opts) (so_enable_input_ssl opts)
                          (so_retention opts) st)) sdb (False, dm))"

section \<open>Writing a command line\<close>

text \<open>The arguments that say \<open>opts\<close>, one group per option.\<close>

definition optional :: "string \<Rightarrow> string option \<Rightarrow> string list" where
  "optional flag v = (case v of None \<Rightarrow> [] | Some s \<Rightarrow> [flag, s])"

definition option_port :: "string \<Rightarrow> u16 \<Rightarrow> string list" where
  "option_port flag p = (if p = 0 then [] else [flag, print_base 10 (unat p)])"

definition option_flag :: "string \<Rightarrow> bool \<Rightarrow> string list" where
  "option_flag flag b = (if b then [flag] else [])"

definition server_argv :: "server_options \<Rightarrow> string list" where
  "server_argv opts =
     [''-v'' @ print_base 10 (nat (so_verbose opts)), ''--host'', so_ip opts, ''-p'', so_port opts] @
     optional ''--username'' (so_username opts) @ optional ''--password'' (so_password opts) @
     [''--user'', print_base 10 (unat (so_user_id opts))] @
     optional ''--cert'' (so_cert_file opts) @ optional ''--key'' (so_key_file opts) @
     [''--threads'', print_base 10 (so_threads opts)] @
     option_flag ''--no-db'' (so_no_db opts) @ option_port ''--input-port'' (so_input_port opts) @
     option_port ''--output-port'' (so_output_port opts) @ option_flag ''--enable-output-ssl'' (so_enable_output_ssl opts) @
     option_flag ''--enable-input-ssl'' (so_enable_input_ssl opts) @
     [''--statistics-retention'', print_base 10 (nat (so_retention opts div 86400))] @
     option_flag ''--enable-device-management'' (so_device_management opts) @
     [''--device-control-port'', print_base 10 (unat (so_control_port opts))]"

text \<open>
  An argument that no test of the chain recognises. The database host has to be such an argument: it is the only value that is not skipped.
\<close>

definition plain_argument :: "string \<Rightarrow> bool" where
  "plain_argument a \<longleftrightarrow>
     \<not> list_ex (strstr a) [''-v'', ''--host'', ''--username'', ''--password'', ''--user'', ''--cert'', ''--key'', ''--threads'', ''-t'',
        ''--enable-output-ssl'', ''--enable-input-ssl'', ''--statistics-retention''] \<and>
     a \<notin> {''-p'', ''--no-db'', ''--input-port'', ''--output-port'', ''--enable-device-management'', ''--device-control-port''}"

definition options_valid :: "server_options \<Rightarrow> bool" where
  "options_valid opts \<longleftrightarrow>
     plain_argument (so_ip opts) \<and> 1 \<le> so_verbose opts \<and> so_verbose opts \<le> 7 \<and> 1 \<le> so_threads opts \<and> so_threads opts \<le> 1000 \<and>
     unat (so_user_id opts) < 2 ^ 31 \<and> (\<exists>days. 0 < days \<and> days < 2 ^ 31 \<and> so_retention opts = 86400 * days)"

lemma plain_server_arg: "plain_argument a \<Longrightarrow> server_arg a rest opts = Parsed (False, opts)"
  by (simp add: plain_argument_def server_arg_def Let_def)

lemma parse_plain: "plain_argument a \<Longrightarrow> parse_server_args (a # rest) opts = parse_server_args rest opts"
  by (simp add: plain_server_arg)

text \<open>How each group is read.\<close>

lemma parse_strings:
  "parse_server_args (''--host'' # v # rest) opts = parse_server_args (v # rest) (opts\<lparr>so_ip := v\<rparr>)"
  "parse_server_args (''-p'' # v # rest) opts = parse_server_args rest (opts\<lparr>so_port := v\<rparr>)"
  "parse_server_args (''--username'' # v # rest) opts = parse_server_args rest (opts\<lparr>so_username := Some v\<rparr>)"
  "parse_server_args (''--password'' # v # rest) opts = parse_server_args rest (opts\<lparr>so_password := Some v\<rparr>)"
  "parse_server_args (''--cert'' # v # rest) opts = parse_server_args rest (opts\<lparr>so_cert_file := Some v\<rparr>)"
  "parse_server_args (''--key'' # v # rest) opts = parse_server_args rest (opts\<lparr>so_key_file := Some v\<rparr>)"
  "parse_server_args (''--device-control-port'' # v # rest) opts = parse_server_args rest (opts\<lparr>so_control_port := word_of_int (atoi v)\<rparr>)"
  by (simp_all add: server_arg_def with_value_def Let_def)

lemma parse_flags:
  "parse_server_args (''--no-db'' # rest) opts = parse_server_args rest (opts\<lparr>so_no_db := True\<rparr>)"
  "parse_server_args (''--enable-output-ssl'' # rest) opts = parse_server_args rest (opts\<lparr>so_enable_output_ssl := True\<rparr>)"
  "parse_server_args (''--enable-input-ssl'' # rest) opts = parse_server_args rest (opts\<lparr>so_enable_input_ssl := True\<rparr>)"
  "parse_server_args (''--enable-device-management'' # rest) opts = parse_server_args rest (opts\<lparr>so_device_management := True\<rparr>)"
  by (simp_all add: server_arg_def Let_def)

lemma parse_verbose:
  assumes "1 \<le> n" "n \<le> 7"
  shows "parse_server_args ((CHR ''-'' # CHR ''v'' # print_base 10 n) # rest) opts = parse_server_args rest (opts\<lparr>so_verbose := int n\<rparr>)"
proof -
  have "strstr (CHR ''-'' # CHR ''v'' # print_base 10 n) ''-v''" by simp
  then show ?thesis
    using assms scan_d_print [of n] by (simp add: server_arg_def set_verbose_def Let_def del: strstr.simps)
qed

lemma parse_numbers:
  "n < 2 ^ 31 \<Longrightarrow> parse_server_args (''--user'' # print_base 10 n # rest) opts = parse_server_args rest (opts\<lparr>so_user_id := of_nat n\<rparr>)"
  "1 \<le> n \<Longrightarrow> n \<le> 1000 \<Longrightarrow> parse_server_args (''--threads'' # print_base 10 n # rest) opts = parse_server_args rest (opts\<lparr>so_threads := n\<rparr>)"
  "1 \<le> n \<Longrightarrow> n < 2 ^ 31 \<Longrightarrow> parse_server_args (''--statistics-retention'' # print_base 10 n # rest) opts =
     parse_server_args rest (opts\<lparr>so_retention := 86400 * int n\<rparr>)"
  "1 \<le> n \<Longrightarrow> n < 2 ^ 16 \<Longrightarrow> parse_server_args (''--input-port'' # print_base 10 n # rest) opts =
     parse_server_args rest (opts\<lparr>so_input_port := of_nat n\<rparr>)"
  "1 \<le> n \<Longrightarrow> n < 2 ^ 16 \<Longrightarrow> parse_server_args (''--output-port'' # print_base 10 n # rest) opts =
     parse_server_args rest (opts\<lparr>so_output_port := of_nat n\<rparr>)"
  using scan_d_print [of n]
  by (simp_all add: server_arg_def with_value_def set_user_id_def set_threads_def set_retention_def port_value_def Let_def)

lemma same_options:
  "so_username opts = None \<Longrightarrow> opts\<lparr>so_username := None\<rparr> = opts" "so_password opts = None \<Longrightarrow> opts\<lparr>so_password := None\<rparr> = opts"
  "so_cert_file opts = None \<Longrightarrow> opts\<lparr>so_cert_file := None\<rparr> = opts" "so_key_file opts = None \<Longrightarrow> opts\<lparr>so_key_file := None\<rparr> = opts"
  "\<not> so_no_db opts \<Longrightarrow> opts\<lparr>so_no_db := False\<rparr> = opts"
  "\<not> so_enable_output_ssl opts \<Longrightarrow> opts\<lparr>so_enable_output_ssl := False\<rparr> = opts"
  "\<not> so_enable_input_ssl opts \<Longrightarrow> opts\<lparr>so_enable_input_ssl := False\<rparr> = opts"
  "\<not> so_device_management opts \<Longrightarrow> opts\<lparr>so_device_management := False\<rparr> = opts"
  "so_input_port opts = 0 \<Longrightarrow> opts\<lparr>so_input_port := 0\<rparr> = opts" "so_output_port opts = 0 \<Longrightarrow> opts\<lparr>so_output_port := 0\<rparr> = opts"
  by (cases opts; simp)+

lemma parse_optional:
  "so_username opts = None \<Longrightarrow> parse_server_args (optional ''--username'' v @ rest) opts = parse_server_args rest (opts\<lparr>so_username := v\<rparr>)"
  "so_password opts = None \<Longrightarrow> parse_server_args (optional ''--password'' v @ rest) opts = parse_server_args rest (opts\<lparr>so_password := v\<rparr>)"
  "so_cert_file opts = None \<Longrightarrow> parse_server_args (optional ''--cert'' v @ rest) opts = parse_server_args rest (opts\<lparr>so_cert_file := v\<rparr>)"
  "so_key_file opts = None \<Longrightarrow> parse_server_args (optional ''--key'' v @ rest) opts = parse_server_args rest (opts\<lparr>so_key_file := v\<rparr>)"
  by (cases v; simp add: optional_def parse_strings same_options del: parse_server_args.simps)+

lemma parse_option_flag:
  "\<not> so_no_db opts \<Longrightarrow> parse_server_args (option_flag ''--no-db'' b @ rest) opts = parse_server_args rest (opts\<lparr>so_no_db := b\<rparr>)"
  "\<not> so_enable_output_ssl opts \<Longrightarrow>
     parse_server_args (option_flag ''--enable-output-ssl'' b @ rest) opts = parse_server_args rest (opts\<lparr>so_enable_output_ssl := b\<rparr>)"
  "\<not> so_enable_input_ssl opts \<Longrightarrow>
     parse_server_args (option_flag ''--enable-input-ssl'' b @ rest) opts = parse_server_args rest (opts\<lparr>so_enable_input_ssl := b\<rparr>)"
  "\<not> so_device_management opts \<Longrightarrow>
     parse_server_args (option_flag ''--enable-device-management'' b @ rest) opts = parse_server_args rest (opts\<lparr>so_device_management := b\<rparr>)"
  by (cases b; simp add: option_flag_def parse_flags same_options del: parse_server_args.simps)+

lemma parse_option_port:
  assumes "so_input_port opts = 0"
  shows "parse_server_args (option_port ''--input-port'' p @ rest) opts = parse_server_args rest (opts\<lparr>so_input_port := p\<rparr>)"
proof (cases "p = 0")
  case False
  then have "1 \<le> unat p" by (metis One_nat_def Suc_leI unat_gt_0)
  moreover have "unat p < 2 ^ 16" using unsigned_less [of p, where ?'a = nat] by simp
  ultimately show ?thesis
    using False parse_numbers(4) [of "unat p" rest opts] by (simp add: option_port_def del: parse_server_args.simps)
qed (use assms in \<open>simp add: option_port_def same_options\<close>)

lemma parse_option_output_port:
  assumes "so_output_port opts = 0"
  shows "parse_server_args (option_port ''--output-port'' p @ rest) opts = parse_server_args rest (opts\<lparr>so_output_port := p\<rparr>)"
proof (cases "p = 0")
  case False
  then have "1 \<le> unat p" by (metis One_nat_def Suc_leI unat_gt_0)
  moreover have "unat p < 2 ^ 16" using unsigned_less [of p, where ?'a = nat] by simp
  ultimately show ?thesis
    using False parse_numbers(5) [of "unat p" rest opts] by (simp add: option_port_def del: parse_server_args.simps)
qed (use assms in \<open>simp add: option_port_def same_options\<close>)

lemmas parse_groups = parse_strings parse_optional parse_option_flag parse_option_port parse_option_output_port parse_verbose parse_numbers parse_plain

text \<open>
  C38. Every setting of the server can be given on its command line: parsing the arguments written for a set of options gives these options back, whatever the values are, as
  long as they are in range and the database host contains none of the option names.
\<close>

theorem server_args_roundtrip:
  assumes "options_valid opts"
  shows "parse_server_args (server_argv opts) default_options = Parsed opts"
proof -
  obtain days where v: "plain_argument (so_ip opts)" "1 \<le> so_verbose opts" "so_verbose opts \<le> 7" "1 \<le> so_threads opts" "so_threads opts \<le> 1000"
    "unat (so_user_id opts) < 2 ^ 31" "0 < days" "days < 2 ^ 31" "so_retention opts = 86400 * days"
    using assms unfolding options_valid_def by blast
  have ctl: "(word_of_int (atoi (print_base 10 (unat (so_control_port opts)))) :: u16) = so_control_port opts"
    by (simp add: atoi_print)
  have verbose: "parse_server_args ((CHR ''-'' # CHR ''v'' # print_base 10 (nat (so_verbose opts))) # rest) default_options =
      parse_server_args rest (default_options\<lparr>so_verbose := so_verbose opts\<rparr>)" for rest
    using parse_verbose [of "nat (so_verbose opts)" rest default_options] v(2,3) by (simp del: parse_server_args.simps)
  have retention: "parse_server_args (''--statistics-retention'' # print_base 10 (nat (so_retention opts div 86400)) # rest) o1 =
      parse_server_args rest (o1\<lparr>so_retention := so_retention opts\<rparr>)" for rest o1
    using parse_numbers(3) [of "nat days" rest o1] v(7,8) by (simp add: v(9) del: parse_server_args.simps)
  have user: "(of_nat (unat (so_user_id opts)) :: u32) = so_user_id opts" by simp
  show ?thesis
    using v
    by (simp add: server_argv_def verbose parse_groups retention ctl default_options_def del: parse_server_args.simps(2))
qed

definition example_options :: server_options where
  "example_options = default_options\<lparr>so_ip := ''192.168.1.100'', so_username := Some ''net'', so_user_id := 100, so_input_port := 7000,
     so_no_db := True, so_output_port := 7001, so_threads := 40\<rparr>"

theorem server_args_roundtrip_witness:
  "parse_server_args (server_argv example_options) default_options = Parsed example_options \<and> so_threads example_options = 40"
proof -
  have "options_valid example_options"
    by (simp add: options_valid_def plain_argument_def example_options_def default_options_def count_socket_thread_def)
  from server_args_roundtrip [OF this] show ?thesis by (simp add: example_options_def)
qed

text \<open>
  The value of \<open>--host\<close> is read as an option as well. A database host whose name contains \<open>-t\<close>, as in \<open>db-test\<close>, is taken for the option \<open>-t\<close>: the next argument
  is then read as the number of threads, and when it is no number, as with the name of the next option, the server goes on with an uninitialised
  variable.
\<close>

theorem host_name_parsed_as_option:
  assumes "strstr h ''-t''" and "scan_d v = No_match" and "h \<noteq> ''-p''"
    and "\<not> list_ex (strstr h) [''-v'', ''--host'', ''--username'', ''--password'', ''--user'', ''--cert'', ''--key'']"
  shows "parse_server_args (''--host'' # h # v # rest) opts = Undefined"
proof -
  have "server_arg h (v # rest) opts' = Undefined" for opts'
    using assms by (simp add: server_arg_def with_value_def set_threads_def Let_def)
  then show ?thesis by (simp only: parse_strings(1)) simp
qed

theorem host_name_parsed_as_option_witness:
  "parse_server_args [''--host'', ''db-test'', ''-p'', ''5432''] default_options = Undefined"
  by (rule host_name_parsed_as_option) (simp_all add: scan_d_def scan_number_def is_space_def is_digit_def)

text \<open>\<open>--no-db\<close> together with device management never starts: \<open>servers_init\<close> finds no connection.\<close>

lemma no_db_with_device_management_ends:
  assumes "so_no_db opts" and "so_device_management opts"
  shows "server_start ienv senv envs denv opts sdb st dm = None"
  using assms by (simp add: server_start_def servers_init_def get_user_server_ports_def sql_exec_def Let_def)

text \<open>With a database and without device management, starting is \<open>servers_init\<close> followed by \<open>switcher_servers_start\<close>.\<close>

lemma server_start_configured:
  assumes "\<not> so_no_db opts" and "\<not> so_device_management opts"
    and "servers_init ienv (sint (so_user_id opts)) (so_cert_file opts) (so_key_file opts) (so_retention opts) sdb st = Some (st1, sdb1)"
    and "switcher_servers_start envs (so_threads opts) st1 = Some st2"
  shows "server_start ienv senv envs denv opts sdb st dm = Some (st2, sdb1, False, dm)"
  using assms by (simp add: server_start_def Let_def)

end
