(* ===== verification/Client_Update.thy ===== *)
theory Client_Update
  imports Client_Device
begin

text \<open>
  The self-update of the client, \<open>src/client/resources/client_update.c\<close>. It works through shell commands: what a command does is the parameter \<open>sh\<close>, from
  the command and the files to its output, its exit status and the new files; \<open>popen\<close> failing is a status other than 0. The state also keeps the
  commands in the order in which they were run. The version and the architecture of the build, \<open>realpath\<close> and the result of \<open>rename\<close> are parameters as well.
\<close>

section \<open>The shell\<close>

type_synonym files = "string \<Rightarrow> string option"
type_synonym shell = "string \<Rightarrow> files \<Rightarrow> (string \<times> int) \<times> files"

record update_state =
  us_files :: files
  us_commands :: "string list"

definition run_shell :: "shell \<Rightarrow> string \<Rightarrow> update_state \<Rightarrow> (string \<times> int) \<times> update_state" where
  "run_shell sh cmd st =
     (case sh cmd (us_files st) of (res, fs) \<Rightarrow> (res, st\<lparr>us_files := fs, us_commands := us_commands st @ [cmd]\<rparr>))"

text \<open>At most \<open>output_size - 1\<close> bytes of the output, None for -1.\<close>

definition run_command_capture :: "shell \<Rightarrow> string \<Rightarrow> nat \<Rightarrow> update_state \<Rightarrow> string option \<times> update_state" where
  "run_command_capture sh cmd output_size st =
     (case run_shell sh cmd st of ((output, status), st') \<Rightarrow> (if status \<noteq> 0 then None else Some (take (output_size - 1) output), st'))"

definition fetch_command :: "string \<Rightarrow> string" where
  "fetch_command url = take 2047 (''curl -sf --max-time 30 '' @ [CHR 0x27] @ url @ [CHR 0x27])"

definition fetch_json :: "shell \<Rightarrow> string \<Rightarrow> nat \<Rightarrow> update_state \<Rightarrow> string option \<times> update_state" where
  "fetch_json sh url buffer_size st =
     run_command_capture sh (fetch_command url) buffer_size st"

definition download_command :: "string \<Rightarrow> string \<Rightarrow> string" where
  "download_command url target_path =
     take 4095 (''curl -sf --max-time 120 '' @ [CHR 0x27] @ url @ [CHR 0x27] @ '' -o '' @ [CHR 0x27] @ target_path @ [CHR 0x27])"

definition download_file :: "shell \<Rightarrow> string \<Rightarrow> string \<Rightarrow> update_state \<Rightarrow> int \<times> update_state" where
  "download_file sh url target_path st =
     (case run_shell sh (download_command url target_path) st of ((_, status), st') \<Rightarrow> (if status = 0 then 0 else -1, st'))"

definition digest_command :: "string \<Rightarrow> string" where
  "digest_command file_path = take 4159 (''sha256sum '' @ [CHR 0x27] @ file_path @ [CHR 0x27])"

text \<open>Without an expected digest there is nothing to check.\<close>

definition verify_sha256 :: "shell \<Rightarrow> string \<Rightarrow> string option \<Rightarrow> update_state \<Rightarrow> int \<times> update_state" where
  "verify_sha256 sh file_path expected st =
     (case expected of
        None \<Rightarrow> (0, st)
      | Some digest \<Rightarrow>
          if digest = [] then (0, st)
          else (case run_command_capture sh (digest_command file_path) 128 st of
                  (None, st') \<Rightarrow> (-1, st')
                | (Some output, st') \<Rightarrow> (if take 64 output = take 64 digest then 0 else -1, st')))"

definition symlink_command :: "string \<Rightarrow> string \<Rightarrow> string" where
  "symlink_command install_dir filename =
     take 4351 (''ln -sf '' @ [CHR 0x27] @ filename @ [CHR 0x27] @ '' '' @ [CHR 0x27] @ install_dir @ ''/module_net_port_client'' @ [CHR 0x27])"

definition install_symlink :: "shell \<Rightarrow> string \<Rightarrow> string \<Rightarrow> update_state \<Rightarrow> int \<times> update_state" where
  "install_symlink sh install_dir filename st =
     (case run_shell sh (symlink_command install_dir filename) st of ((_, status), st') \<Rightarrow> (if status = 0 then 0 else -1, st'))"

section \<open>Arguments\<close>

text \<open>The arguments are those after \<open>argv[0]\<close>; the last one has no value behind it.\<close>

fun find_arg_value :: "string list \<Rightarrow> string \<Rightarrow> string option" where
  "find_arg_value (a # v # rest) flag = (if a = flag then Some v else find_arg_value (v # rest) flag)"
| "find_arg_value _ flag = None"

text \<open>\<open>arg && arg[0]\<close>.\<close>

definition nonempty_arg :: "string list \<Rightarrow> string \<Rightarrow> string option" where
  "nonempty_arg args flag = (case find_arg_value args flag of None \<Rightarrow> None | Some v \<Rightarrow> if v = [] then None else Some v)"

definition build_api_base :: "string list \<Rightarrow> string" where
  "build_api_base args =
     (case nonempty_arg args ''--update-server'' of
        Some s \<Rightarrow> take 511 s
      | None \<Rightarrow> (case nonempty_arg args ''--registration-server'' of Some r \<Rightarrow> take 511 (''http://'' @ r) | None \<Rightarrow> []))"

function trim_trailing_slash :: "string \<Rightarrow> string" where
  "trim_trailing_slash s = (if s \<noteq> [] \<and> last s = CHR ''/'' then trim_trailing_slash (butlast s) else s)"
  by pat_completeness auto
termination
  by (relation "measure length") auto

declare trim_trailing_slash.simps [simp del]

definition resolve_arch :: "string \<Rightarrow> string list \<Rightarrow> string" where
  "resolve_arch default_arch args = c_string_or default_arch (nonempty_arg args ''--update-arch'')"

text \<open>\<open>strrchr (resolved, '/')\<close> cuts the path there.\<close>

definition directory_of :: "string \<Rightarrow> string" where
  "directory_of path = rev (tl (dropWhile (\<lambda>c. c \<noteq> CHR ''/'') (rev path)))"

definition resolve_install_dir :: "(string \<Rightarrow> string option) \<Rightarrow> string \<Rightarrow> string list \<Rightarrow> string" where
  "resolve_install_dir realpath argv0 args =
     (case find_arg_value args ''--install-dir'' of
        Some d \<Rightarrow> take 4095 d
      | None \<Rightarrow> (case realpath argv0 of
                    Some resolved \<Rightarrow> if CHR ''/'' \<in> set resolved then take 4095 (directory_of resolved) else ''.''
                  | None \<Rightarrow> ''.''))"

section \<open>The update\<close>

text \<open>What the build and the system contribute.\<close>

record update_env =
  ue_version :: string
  ue_arch :: string
  ue_realpath :: "string \<Rightarrow> string option"
  ue_argv0 :: string
  ue_rename_ok :: bool

text \<open>The function returns, or the process becomes the program \<open>execv\<close> was given.\<close>

datatype update_result = Returns int | Executes string

definition rename_file :: "bool \<Rightarrow> string \<Rightarrow> string \<Rightarrow> update_state \<Rightarrow> bool \<times> update_state" where
  "rename_file ok old new st =
     (case us_files st old of
        None \<Rightarrow> (False, st)
      | Some c \<Rightarrow> if ok then (True, st\<lparr>us_files := (us_files st)(old := None, new := Some c)\<rparr>) else (False, st))"

definition unlink_file :: "string \<Rightarrow> update_state \<Rightarrow> update_state" where
  "unlink_file path st = st\<lparr>us_files := (us_files st)(path := None)\<rparr>"

definition check_url :: "update_env \<Rightarrow> string list \<Rightarrow> string" where
  "check_url env args =
     take 1023 (trim_trailing_slash (build_api_base args) @ ''/api/v1/clients/latest/check?platform=linux&arch='' @
       resolve_arch (ue_arch env) args @ ''&current='' @ ue_version env)"

definition target_path :: "string \<Rightarrow> string \<Rightarrow> string" where
  "target_path install_dir filename = take 4095 (install_dir @ ''/'' @ filename)"

definition temp_path :: "string \<Rightarrow> string \<Rightarrow> string" where
  "temp_path install_dir filename = take 4111 (target_path install_dir filename @ ''.download'')"

text \<open>From the download to \<open>execv\<close>; \<open>execs\<close>: whether \<open>execv\<close> succeeds.\<close>

definition install_update ::
  "shell \<Rightarrow> update_env \<Rightarrow> bool \<Rightarrow> string \<Rightarrow> string \<Rightarrow> string \<Rightarrow> string \<Rightarrow> string option \<Rightarrow> update_state \<Rightarrow> update_result \<times> update_state" where
  "install_update sh env execs api_base install_dir filename download_path sha256 st =
     (let target = target_path install_dir filename; temp = temp_path install_dir filename;
          (r1, st1) = download_file sh (take 1023 (api_base @ download_path)) temp st
      in if r1 \<noteq> 0 then (Returns (-1), st1)
         else
           let (r2, st2) = verify_sha256 sh temp sha256 st1
           in if r2 \<noteq> 0 then (Returns (-1), unlink_file temp st2)
              else
                let (renamed, st3) = rename_file (ue_rename_ok env) temp target st2
                in if \<not> renamed then (Returns (-1), unlink_file temp st3)
                   else
                     let (r4, st4) = install_symlink sh install_dir filename st3
                     in if r4 \<noteq> 0 then (Returns (-1), st4)
                        else if execs then (Executes (take 4095 (install_dir @ ''/module_net_port_client'')), st4)
                        else (Returns 1, st4))"

definition client_check_and_update ::
  "'j jansson \<Rightarrow> shell \<Rightarrow> update_env \<Rightarrow> bool \<Rightarrow> string list \<Rightarrow> bool \<Rightarrow> update_state \<Rightarrow> update_result \<times> update_state" where
  "client_check_and_update J sh env execs args auto_apply st =
     (if \<not> argv_has_flag args ''--check-update'' \<and> \<not> auto_apply then (Returns 0, st)
      else if build_api_base args = [] then (Returns (-1), st)
      else
        let api_base = trim_trailing_slash (build_api_base args)
        in case fetch_json sh (check_url env args) 8192 st of
             (None, st1) \<Rightarrow> (Returns (-1), st1)
           | (Some response, st1) \<Rightarrow>
               (case json_loads J response of
                  None \<Rightarrow> (Returns (-1), st1)
                | Some root \<Rightarrow>
                    if boolean_member J root ''update_available'' \<noteq> Some True then (Returns 0, st1)
                    else (case json_object_get J root ''latest'' of
                            None \<Rightarrow> (Returns (-1), st1)
                          | Some latest \<Rightarrow>
                              if \<not> auto_apply then (Returns 2, st1)
                              else (case (string_member J latest ''filename'', string_member J latest ''download_path'') of
                                      (Some filename, Some download_path) \<Rightarrow>
                                        install_update sh env execs api_base (resolve_install_dir (ue_realpath env) (ue_argv0 env) args)
                                          filename download_path (string_member J latest ''sha256'') st1
                                    | _ \<Rightarrow> (Returns (-1), st1)))))"

section \<open>What the commands are documented to do\<close>

definition unquoted_free :: "string \<Rightarrow> bool" where
  "unquoted_free s \<longleftrightarrow> CHR 0x27 \<notin> set s"

text \<open>
  On names without a single quote, and short enough for the buffers: \<open>curl -o\<close> changes at most its output file, the query changes no file, \<open>sha256sum\<close> changes
  no file and when it succeeds prints the digest of the file first, \<open>ln -sf\<close> changes at most the link.
\<close>

definition documented_commands :: "shell \<Rightarrow> (string \<Rightarrow> string) \<Rightarrow> bool" where
  "documented_commands sh digest \<longleftrightarrow>
     (\<forall>u fs. unquoted_free u \<and> length u \<le> 1023 \<longrightarrow> snd (sh (fetch_command u) fs) = fs) \<and>
     (\<forall>u p fs q. unquoted_free u \<and> unquoted_free p \<and> length u + length p \<le> 4000 \<and> q \<noteq> p \<longrightarrow> snd (sh (download_command u p) fs) q = fs q) \<and>
     (\<forall>p fs. unquoted_free p \<and> length p \<le> 4000 \<longrightarrow>
        snd (sh (digest_command p) fs) = fs \<and>
        (snd (fst (sh (digest_command p) fs)) = 0 \<longrightarrow> (\<exists>c. fs p = Some c \<and> take 64 (fst (fst (sh (digest_command p) fs))) = digest c))) \<and>
     (\<forall>d f fs q. unquoted_free d \<and> unquoted_free f \<and> length d + length f \<le> 4000 \<and> q \<noteq> d @ ''/module_net_port_client'' \<longrightarrow>
        snd (sh (symlink_command d f) fs) q = fs q)"

lemma documented_download:
  "documented_commands sh digest \<Longrightarrow> unquoted_free u \<Longrightarrow> unquoted_free p \<Longrightarrow> length u + length p \<le> 4000 \<Longrightarrow> q \<noteq> p \<Longrightarrow>
   download_file sh u p st = (r, st') \<Longrightarrow> us_files st' q = us_files st q"
  by (auto simp: documented_commands_def download_file_def run_shell_def split: prod.splits) (metis snd_conv)

lemma documented_symlink:
  "documented_commands sh digest \<Longrightarrow> unquoted_free d \<Longrightarrow> unquoted_free f \<Longrightarrow> length d + length f \<le> 4000 \<Longrightarrow> q \<noteq> d @ ''/module_net_port_client'' \<Longrightarrow>
   install_symlink sh d f st = (r, st') \<Longrightarrow> us_files st' q = us_files st q"
  by (auto simp: documented_commands_def install_symlink_def run_shell_def split: prod.splits) (metis snd_conv)

lemma documented_verify:
  assumes "documented_commands sh digest" "unquoted_free p" "length p \<le> 4000" "d \<noteq> []" "verify_sha256 sh p (Some d) st = (r, st')"
  shows "us_files st' = us_files st" and "r = 0 \<Longrightarrow> \<exists>c. us_files st p = Some c \<and> digest c = take 64 d"
proof -
  obtain out status fs where run: "sh (digest_command p) (us_files st) = ((out, status), fs)"
    by (metis prod.exhaust)
  have doc: "fs = us_files st" "status = 0 \<Longrightarrow> \<exists>c. us_files st p = Some c \<and> take 64 out = digest c"
    using assms(1-3) run unfolding documented_commands_def by (metis fst_conv snd_conv)+
  show "us_files st' = us_files st"
    using assms(4,5) doc(1) by (auto simp: verify_sha256_def run_command_capture_def run_shell_def run split: if_splits)
  have "take 64 (take 127 out) = take 64 out" by simp
  then show "\<exists>c. us_files st p = Some c \<and> digest c = take 64 d" if "r = 0"
    using assms(4,5) doc(2) that by (auto simp: verify_sha256_def run_command_capture_def run_shell_def run split: if_splits)
qed

section \<open>Only verified programs are installed\<close>

lemma temp_path_not_target: "length (target_path d f) \<le> 4095 \<and> temp_path d f \<noteq> target_path d f"
proof -
  have "temp_path d f = target_path d f @ ''.download''"
    by (simp add: temp_path_def target_path_def)
  then show ?thesis by (simp add: target_path_def)
qed

definition verified :: "(string \<Rightarrow> string) \<Rightarrow> string \<Rightarrow> string option \<Rightarrow> bool" where
  "verified digest d file \<longleftrightarrow> (\<exists>c. file = Some c \<and> digest c = take 64 d)"

lemma install_update_verified:
  assumes doc: "documented_commands sh digest" and run: "install_update sh env execs b dir f p (Some d) st = (r, st')" and d: "d \<noteq> []"
    and quotes: "unquoted_free b" "unquoted_free p" "unquoted_free dir" "unquoted_free f" and len: "length dir + length f \<le> 2900"
    and link: "target_path dir f \<noteq> dir @ ''/module_net_port_client''"
  shows "(us_files st' (target_path dir f) = us_files st (target_path dir f) \<and> r = Returns (-1)) \<or> verified digest d (us_files st' (target_path dir f))"
proof -
  let ?t = "target_path dir f" and ?temp = "temp_path dir f" and ?u = "take 1023 (b @ p)"
  have temp: "?temp = ?t @ ''.download''" "length ?t \<le> 2901"
    using len by (simp_all add: temp_path_def target_path_def)
  have u: "unquoted_free ?u" "length ?u \<le> 1023"
    using quotes by (auto simp: unquoted_free_def dest: in_set_takeD)
  have q: "unquoted_free ?temp"
    using quotes unfolding temp(1) by (auto simp: unquoted_free_def target_path_def dest: in_set_takeD)
  obtain r1 st1 where one: "download_file sh ?u ?temp st = (r1, st1)" by fastforce
  obtain r2 st2 where two: "verify_sha256 sh ?temp (Some d) st1 = (r2, st2)" by fastforce
  obtain ren st3 where three: "rename_file (ue_rename_ok env) ?temp ?t st2 = (ren, st3)" by fastforce
  obtain r4 st4 where four: "install_symlink sh dir f st3 = (r4, st4)" by fastforce
  have k1: "us_files st1 ?t = us_files st ?t"
    using documented_download [OF doc u(1) q _ _ one] u(2) temp by simp
  note v = documented_verify [OF doc q _ d two]
  have k2: "us_files st2 = us_files st1" "r2 = 0 \<Longrightarrow> verified digest d (us_files st1 ?temp)"
    using v temp by (auto simp: verified_def)
  have k3: "ren \<Longrightarrow> us_files st3 ?t = us_files st2 ?temp" "\<not> ren \<Longrightarrow> st3 = st2"
    using three temp by (auto simp: rename_file_def split: option.splits if_splits)
  have k4: "us_files st4 ?t = us_files st3 ?t"
    using documented_symlink [OF doc quotes(3,4) _ link four] len by simp
  have other: "?t \<noteq> ?temp" using temp_path_not_target [of dir f] by metis
  show ?thesis
    using run k1 k2 k3 k4 other
    by (auto simp: install_update_def one two three four Let_def unlink_file_def simp del: take_append split: if_splits)
qed

lemma documented_fetch:
  "documented_commands sh digest \<Longrightarrow> unquoted_free u \<Longrightarrow> length u \<le> 1023 \<Longrightarrow> fetch_json sh u n st = (x, st') \<Longrightarrow> us_files st' = us_files st"
  by (auto simp: documented_commands_def fetch_json_def run_command_capture_def run_shell_def split: prod.splits) (metis snd_conv)


section \<open>What the shell makes of the server's text\<close>

text \<open>The characters of a command outside single quotes; the shell reads those as its own.\<close>

fun outside_quotes :: "bool \<Rightarrow> string \<Rightarrow> string" where
  "outside_quotes quoted [] = []"
| "outside_quotes quoted (c # cs) =
     (if c = CHR 0x27 then outside_quotes (\<not> quoted) cs
      else if quoted then outside_quotes quoted cs else c # outside_quotes quoted cs)"

lemma outside_quotes_free:
  "unquoted_free s \<Longrightarrow> outside_quotes q (s @ cs) = (if q then [] else s) @ outside_quotes q cs"
  by (induction s) (auto simp: unquoted_free_def)

text \<open>Every command that was run stays in the log.\<close>

lemma verify_sha256_logs: "verify_sha256 sh p d st = (r, st') \<Longrightarrow> set (us_commands st) \<subseteq> set (us_commands st')"
  by (auto simp: verify_sha256_def run_command_capture_def run_shell_def split: option.splits prod.splits if_splits)

lemma rename_file_logs: "rename_file ok old new st = (r, st') \<Longrightarrow> us_commands st' = us_commands st"
  by (auto simp: rename_file_def split: option.splits if_splits)

lemma install_symlink_logs: "install_symlink sh d f st = (r, st') \<Longrightarrow> set (us_commands st) \<subseteq> set (us_commands st')"
  by (auto simp: install_symlink_def run_shell_def split: prod.splits)

lemma install_update_logs:
  assumes "install_update sh env execs b dir f p sha st = (r, st')"
  shows "download_command (take 1023 (b @ p)) (temp_path dir f) \<in> set (us_commands st')"
proof -
  obtain r1 st1 where one: "download_file sh (take 1023 (b @ p)) (temp_path dir f) st = (r1, st1)" by fastforce
  obtain r2 st2 where two: "verify_sha256 sh (temp_path dir f) sha st1 = (r2, st2)" by fastforce
  obtain ren st3 where three: "rename_file (ue_rename_ok env) (temp_path dir f) (target_path dir f) st2 = (ren, st3)" by fastforce
  obtain r4 st4 where four: "install_symlink sh dir f st3 = (r4, st4)" by fastforce
  have log: "download_command (take 1023 (b @ p)) (temp_path dir f) \<in> set (us_commands st1)"
    using one by (auto simp: download_file_def run_shell_def split: prod.splits)
  have "us_commands st' \<in> us_commands ` {st1, st2, st3, st4}"
    using assms by (auto simp: install_update_def one two three four unlink_file_def Let_def simp del: take_append split: if_splits)
  then show ?thesis
    using log verify_sha256_logs [OF two] rename_file_logs [OF three] install_symlink_logs [OF four] by auto
qed

text \<open>
  C40. The server's answer reaches the shell: a download path with a single quote in it ends the quoting of the download command, and what follows up to the next quote is
  read by the shell as part of the command, outside of all quotes.
\<close>

theorem download_path_reaches_shell:
  assumes "install_update sh env execs b dir f (a @ [CHR 0x27] @ payload @ [CHR 0x27]) sha st = (r, st')"
    and "unquoted_free b" and "unquoted_free a" and "unquoted_free payload" and "length b + length a + length payload \<le> 1000"
  shows "\<exists>cmd \<in> set (us_commands st'). sublist payload (outside_quotes False cmd)"
proof -
  let ?p = "a @ [CHR 0x27] @ payload @ [CHR 0x27]" and ?temp = "temp_path dir f"
  let ?cmd = "download_command (take 1023 (b @ ?p)) ?temp"
  have "take 1023 (b @ ?p) = b @ ?p" using assms(5) by simp
  then have "?cmd = take 4095 (''curl -sf --max-time 120 '' @ [CHR 0x27] @ (b @ ?p) @ [CHR 0x27] @ '' -o '' @ [CHR 0x27] @ ?temp @ [CHR 0x27])"
    by (simp only: download_command_def)
  also have "\<dots> = take 4095 ((''curl -sf --max-time 120 '' @ [CHR 0x27] @ b @ a @ [CHR 0x27] @ payload @ [CHR 0x27]) @
      [CHR 0x27] @ '' -o '' @ [CHR 0x27] @ ?temp @ [CHR 0x27])"
    by (simp only: append_assoc)
  finally obtain tail where cmd: "?cmd = ''curl -sf --max-time 120 '' @ [CHR 0x27] @ b @ a @ [CHR 0x27] @ payload @ [CHR 0x27] @ tail"
    using assms(5) unfolding take_append by simp
  have free: "unquoted_free ''curl -sf --max-time 120 ''" by (simp add: unquoted_free_def)
  have "sublist payload (outside_quotes False ?cmd)"
    unfolding cmd outside_quotes_free [OF free]
    by (simp add: outside_quotes_free assms(2-4) sublist_append sublist_Cons_right)
  moreover have "?cmd \<in> set (us_commands st')"
    by (rule install_update_logs [OF assms(1)])
  ultimately show ?thesis by blast
qed

section \<open>A concrete update\<close>

text \<open>The text between the last two quotes of a command.\<close>

definition last_quoted :: "string \<Rightarrow> string" where
  "last_quoted cmd = rev (takeWhile (\<lambda>c. c \<noteq> CHR 0x27) (tl (rev cmd)))"

definition toy_digest :: "string \<Rightarrow> string" where
  "toy_digest c = take 64 (c @ replicate 64 (CHR ''0''))"

text \<open>Downloads bring the file \<open>new\<close>; the commands are told apart by their first character and their options.\<close>

definition example_shell :: shell where
  "example_shell cmd fs =
     (if prefix ''s'' cmd then
        (case fs (last_quoted cmd) of None \<Rightarrow> (([], 1), fs) | Some c \<Rightarrow> ((toy_digest c, 0), fs))
      else if prefix ''l'' cmd then (([], 0), fs(last_quoted cmd := Some ''link''))
      else if prefix ''curl -sf --max-time 1'' cmd then (([], 0), fs(last_quoted cmd := Some ''new''))
      else ((''{}'', 0), fs))"

lemma last_quoted_append: "unquoted_free p \<Longrightarrow> last_quoted (s @ [CHR 0x27] @ p @ [CHR 0x27]) = p"
proof -
  assume "unquoted_free p"
  then have "takeWhile (\<lambda>c. c \<noteq> CHR 0x27) (rev p @ CHR 0x27 # rev s) = rev p"
    by (subst takeWhile_append2) (auto simp: unquoted_free_def)
  then show ?thesis by (simp add: last_quoted_def)
qed

lemma example_shell_commands:
  "length u \<le> 1023 \<Longrightarrow> example_shell (fetch_command u) fs = ((''{}'', 0), fs)"
  "unquoted_free p \<Longrightarrow> length u + length p \<le> 4000 \<Longrightarrow> example_shell (download_command u p) fs = (([], 0), fs(p := Some ''new''))"
  "unquoted_free p \<Longrightarrow> length p \<le> 4000 \<Longrightarrow> example_shell (digest_command p) fs =
     (case fs p of None \<Rightarrow> (([], 1), fs) | Some c \<Rightarrow> ((toy_digest c, 0), fs))"
  "unquoted_free d \<Longrightarrow> length d + length f \<le> 4000 \<Longrightarrow> example_shell (symlink_command d f) fs =
     (([], 0), fs(d @ ''/module_net_port_client'' := Some ''link''))"
proof -
  assume "length u \<le> 1023"
  then show "example_shell (fetch_command u) fs = ((''{}'', 0), fs)"
    by (simp add: fetch_command_def example_shell_def)
next
  assume p: "unquoted_free p" "length u + length p \<le> 4000"
  then have "download_command u p = (''curl -sf --max-time 120 '' @ [CHR 0x27] @ u @ [CHR 0x27] @ '' -o '') @ [CHR 0x27] @ p @ [CHR 0x27]"
    by (simp add: download_command_def)
  then have "last_quoted (download_command u p) = p" "prefix ''curl -sf --max-time 1'' (download_command u p)"
    "\<not> prefix ''s'' (download_command u p)" "\<not> prefix ''l'' (download_command u p)"
    by (simp_all only: last_quoted_append [OF p(1)]) simp_all
  then show "example_shell (download_command u p) fs = (([], 0), fs(p := Some ''new''))"
    by (simp add: example_shell_def)
next
  assume p: "unquoted_free p" "length p \<le> 4000"
  then have "digest_command p = ''sha256sum '' @ [CHR 0x27] @ p @ [CHR 0x27]"
    by (simp add: digest_command_def)
  then have "last_quoted (digest_command p) = p" "prefix ''s'' (digest_command p)"
    by (simp_all only: last_quoted_append [OF p(1)]) simp_all
  then show "example_shell (digest_command p) fs = (case fs p of None \<Rightarrow> (([], 1), fs) | Some c \<Rightarrow> ((toy_digest c, 0), fs))"
    by (simp add: example_shell_def)
next
  assume p: "unquoted_free d" "length d + length f \<le> 4000"
  then have d: "unquoted_free (d @ ''/module_net_port_client'')"
    and "symlink_command d f = (''ln -sf '' @ [CHR 0x27] @ f @ [CHR 0x27] @ '' '') @ [CHR 0x27] @ (d @ ''/module_net_port_client'') @ [CHR 0x27]"
    by (simp_all add: symlink_command_def unquoted_free_def)
  from this(2) have "last_quoted (symlink_command d f) = d @ ''/module_net_port_client''" "prefix ''l'' (symlink_command d f)"
    "\<not> prefix ''s'' (symlink_command d f)"
    by (simp_all only: last_quoted_append [OF d]) simp_all
  then show "example_shell (symlink_command d f) fs = (([], 0), fs(d @ ''/module_net_port_client'' := Some ''link''))"
    by (simp add: example_shell_def)
qed

lemma example_shell_documented: "documented_commands example_shell toy_digest"
  by (auto simp: documented_commands_def example_shell_commands toy_digest_def split: option.splits)

datatype release_json = RRoot | RLatest | RTrue | RText string

definition example_release :: "string \<Rightarrow> release_json jansson" where
  "example_release d =
     \<lparr>json_loads = (\<lambda>s. Some RRoot),
      json_object_get = (\<lambda>o1 k. case o1 of
          RRoot \<Rightarrow> if k = ''update_available'' then Some RTrue else if k = ''latest'' then Some RLatest else None
        | RLatest \<Rightarrow> if k = ''filename'' then Some (RText ''f'') else if k = ''download_path'' then Some (RText ''/d'')
                    else if k = ''sha256'' then Some (RText d) else None
        | _ \<Rightarrow> None),
      json_view = (\<lambda>v. case v of RTrue \<Rightarrow> JBoolean True | RText t \<Rightarrow> JString t | _ \<Rightarrow> JObject)\<rparr>"

definition example_update_env :: update_env where
  "example_update_env = \<lparr>ue_version = ''1'', ue_arch = ''amd64'', ue_realpath = (\<lambda>_. None), ue_argv0 = ''c'', ue_rename_ok = True\<rparr>"

definition example_update :: "string \<Rightarrow> update_result \<times> update_state" where
  "example_update d = client_check_and_update (example_release d) example_shell example_update_env True [''--update-server'', ''u''] True
     \<lparr>us_files = (\<lambda>_. None), us_commands = []\<rparr>"

lemma example_update_facts:
  "resolve_install_dir (ue_realpath example_update_env) (ue_argv0 example_update_env) [''--update-server'', ''u''] = ''.''"
  "build_api_base [''--update-server'', ''u''] = ''u''" "trim_trailing_slash ''u'' = ''u''"
  "length (check_url example_update_env [''--update-server'', ''u'']) \<le> 1023"
  "unquoted_free (check_url example_update_env [''--update-server'', ''u''])"
  "target_path ''.'' ''f'' = ''./f''" "temp_path ''.'' ''f'' = ''./f.download''"
  by (simp_all add: resolve_install_dir_def example_update_env_def build_api_base_def nonempty_arg_def trim_trailing_slash.simps
      check_url_def unquoted_free_def target_path_def temp_path_def resolve_arch_def c_string_or_def)

lemma example_update_runs:
  "\<exists>st'. example_update (toy_digest ''new'') = (Executes ''./module_net_port_client'', st') \<and> us_files st' ''./f'' = Some ''new'' \<and>
     us_files st' ''./f.download'' = None"
proof -
  have free: "unquoted_free ''.''" "unquoted_free ''./f.download''" by (simp_all add: unquoted_free_def)
  show ?thesis
    by (simp add: example_update_def client_check_and_update_def fetch_json_def run_command_capture_def run_shell_def example_shell_commands
        example_update_facts example_release_def boolean_member_def string_member_def install_update_def download_file_def verify_sha256_def
        rename_file_def install_symlink_def free toy_digest_def Let_def)
      (simp add: example_update_env_def)
qed


theorem download_path_reaches_shell_witness:
  "\<exists>r st'. install_update example_shell example_update_env True ''u'' ''.'' ''f'' (''/d'' @ [CHR 0x27] @ '';reboot;'' @ [CHR 0x27]) None
       \<lparr>us_files = (\<lambda>_. None), us_commands = []\<rparr> = (r, st') \<and>
     (\<exists>cmd \<in> set (us_commands st'). sublist '';reboot;'' (outside_quotes False cmd))"
proof -
  obtain r st' where run: "install_update example_shell example_update_env True ''u'' ''.'' ''f'' (''/d'' @ [CHR 0x27] @ '';reboot;'' @ [CHR 0x27]) None
       \<lparr>us_files = (\<lambda>_. None), us_commands = []\<rparr> = (r, st')" by (metis prod.exhaust)
  from download_path_reaches_shell [OF run] show ?thesis
    using run by (simp add: unquoted_free_def)
qed

end
