(* ===== verification/Client_Main.thy ===== *)
theory Client_Main
  imports Command_Line Client_Update
begin

text \<open>
  \<open>src/client/main.c\<close>: the command line of the client and the choice of what to start. The loop over the arguments tests each of them against a chain of
  \<open>if\<close>s without \<open>else\<close>; an option with a value moves \<open>i\<close> to the value, so the tests further down the chain see the value. The state of the loop is
  therefore the rest of the arguments from \<open>argv[i]\<close> on, with the options read so far.
\<close>

section \<open>Options\<close>

record client_options =
  cm_input_address :: string
  cm_output_address :: string
  cm_input_port :: u16
  cm_output_port :: u16
  cm_connections_count :: int
  cm_timeout_seconds :: int
  cm_disable_timeout :: bool
  cm_enable_ssl :: bool
  cm_enable_output_ssl :: bool
  cm_ca_file :: string
  cm_has_device_args :: bool
  cm_show_help :: bool
  cm_verbose :: "int option"

definition default_client_options :: client_options where
  "default_client_options =
     \<lparr>cm_input_address = ''82.146.44.140'', cm_output_address = ''127.0.0.1'', cm_input_port = 0, cm_output_port = 22,
      cm_connections_count = 1, cm_timeout_seconds = 900, cm_disable_timeout = False, cm_enable_ssl = False,
      cm_enable_output_ssl = False, cm_ca_file = [], cm_has_device_args = False, cm_show_help = True, cm_verbose = None\<rparr>"

type_synonym arg_state = "string list \<times> client_options"

text \<open>\<open>verbose_level\<close> has no initial value.\<close>

definition verbose_if :: "arg_state \<Rightarrow> arg_state parsed" where
  "verbose_if s =
     (case s of (args, opts) \<Rightarrow>
        if strstr (hd args) ''-v'' then
          (case scan_d (drop 2 (hd args)) of
             Scanned n \<Rightarrow> if 0 < n \<and> n \<le> 7 then Parsed (args, opts\<lparr>cm_verbose := Some n\<rparr>) else Exits (-1)
           | _ \<Rightarrow> Undefined)
        else Parsed s)"

text \<open>\<open>if (.. argv[i] ..) { if (i + 1 < argc) { ..; show_help = false; i++; } }\<close>.\<close>

definition value_if :: "(string \<Rightarrow> bool) \<Rightarrow> (string \<Rightarrow> client_options \<Rightarrow> client_options parsed) \<Rightarrow> arg_state \<Rightarrow> arg_state parsed" where
  "value_if test read s =
     (case s of
        (a # v # rest, opts) \<Rightarrow>
          if test a then bind_parsed (read v opts) (\<lambda>opts'. Parsed (v # rest, opts'\<lparr>cm_show_help := False\<rparr>)) else Parsed s
      | _ \<Rightarrow> Parsed s)"

definition flag_if :: "(string \<Rightarrow> bool) \<Rightarrow> (client_options \<Rightarrow> client_options) \<Rightarrow> arg_state \<Rightarrow> arg_state parsed" where
  "flag_if test f s = (case s of (args, opts) \<Rightarrow> Parsed (args, if test (hd args) then f opts else opts))"

definition read_port :: "(u16 \<Rightarrow> client_options \<Rightarrow> client_options) \<Rightarrow> string \<Rightarrow> client_options \<Rightarrow> client_options parsed" where
  "read_port f v opts = (case scan_hu v of Scanned n \<Rightarrow> Parsed (f (word_of_int n) opts) | No_match \<Rightarrow> Exits (-1) | Scan_undefined \<Rightarrow> Undefined)"

definition read_positive :: "(int \<Rightarrow> client_options \<Rightarrow> client_options) \<Rightarrow> string \<Rightarrow> client_options \<Rightarrow> client_options parsed" where
  "read_positive f v opts =
     (case scan_d v of Scanned n \<Rightarrow> if n \<le> 0 then Exits (-1) else Parsed (f n opts) | No_match \<Rightarrow> Exits (-1) | Scan_undefined \<Rightarrow> Undefined)"

text \<open>The chain, in the order of the code.\<close>

definition client_chain :: "(arg_state \<Rightarrow> arg_state parsed) list" where
  "client_chain =
     [verbose_if,
      value_if (\<lambda>a. strstr a ''--host_in'') (\<lambda>v opts. Parsed (opts\<lparr>cm_input_address := strncpy 31 v\<rparr>)),
      value_if (\<lambda>a. strstr a ''--host_out'') (\<lambda>v opts. Parsed (opts\<lparr>cm_output_address := strncpy 31 v\<rparr>)),
      value_if (\<lambda>a. strstr a ''-p_in'') (read_port (\<lambda>p opts. opts\<lparr>cm_input_port := p\<rparr>)),
      value_if (\<lambda>a. strstr a ''-p_out'') (read_port (\<lambda>p opts. opts\<lparr>cm_output_port := p\<rparr>)),
      value_if (\<lambda>a. a = ''--connections'' \<or> a = ''-c'') (read_positive (\<lambda>n opts. opts\<lparr>cm_connections_count := n\<rparr>)),
      value_if (\<lambda>a. a = ''--timeout'' \<or> a = ''-t'') (read_positive (\<lambda>n opts. opts\<lparr>cm_timeout_seconds := n\<rparr>)),
      flag_if (\<lambda>a. a = ''--disable-timeout'') (\<lambda>opts. opts\<lparr>cm_disable_timeout := True, cm_show_help := False\<rparr>),
      flag_if (\<lambda>a. a = ''--help'' \<or> a = ''--h'') (\<lambda>opts. opts\<lparr>cm_show_help := True\<rparr>),
      flag_if (\<lambda>a. a = ''--ssl'' \<or> a = ''-e'') (\<lambda>opts. opts\<lparr>cm_enable_ssl := True, cm_show_help := False\<rparr>),
      flag_if (\<lambda>a. a = ''--ssl-output'' \<or> a = ''-o'') (\<lambda>opts. opts\<lparr>cm_enable_output_ssl := True, cm_show_help := False\<rparr>),
      value_if (\<lambda>a. a = ''--ca-file'' \<or> a = ''-a'') (\<lambda>v opts. Parsed (opts\<lparr>cm_ca_file := strncpy 255 v\<rparr>)),
      flag_if (\<lambda>a. a = ''--device-id'') (\<lambda>opts. opts\<lparr>cm_has_device_args := True, cm_show_help := False\<rparr>),
      flag_if (\<lambda>a. a \<in> {''--check-update'', ''--auto-update'', ''--update-server'', ''--update-arch'', ''--install-dir''})
        (\<lambda>opts. opts\<lparr>cm_show_help := False\<rparr>)]"

fun run_chain :: "(arg_state \<Rightarrow> arg_state parsed) list \<Rightarrow> arg_state \<Rightarrow> arg_state parsed" where
  "run_chain [] s = Parsed s"
| "run_chain (f # fs) s = bind_parsed (f s) (run_chain fs)"

text \<open>No step of the chain makes the arguments longer, so the loop ends.\<close>

definition shortens :: "(arg_state \<Rightarrow> arg_state parsed) \<Rightarrow> bool" where
  "shortens f \<longleftrightarrow> (\<forall>s s'. f s = Parsed s' \<longrightarrow> length (fst s') \<le> length (fst s))"

lemma step_shortens: "shortens verbose_if" "shortens (value_if t r)" "shortens (flag_if t f)"
  by (auto simp: shortens_def verbose_if_def value_if_def flag_if_def bind_parsed_eq_Parsed split: if_splits scan.splits list.splits prod.splits)

lemma run_chain_shorter: "list_all shortens fs \<Longrightarrow> run_chain fs s = Parsed s' \<Longrightarrow> length (fst s') \<le> length (fst s)"
proof (induction fs arbitrary: s)
  case (Cons f fs)
  then obtain s1 where s1: "f s = Parsed s1" "run_chain fs s1 = Parsed s'" by (auto simp: bind_parsed_eq_Parsed)
  have "length (fst s') \<le> length (fst s1)"
    using Cons.IH [OF _ s1(2)] Cons.prems(1) by simp
  also have "length (fst s1) \<le> length (fst s)"
    using Cons.prems(1) s1(1) unfolding shortens_def list.pred_inject by blast
  finally show ?case .
qed simp

lemma client_chain_shorter: "run_chain client_chain s = Parsed s' \<Longrightarrow> length (fst s') \<le> length (fst s)"
  by (rule run_chain_shorter [of client_chain]) (simp_all add: client_chain_def step_shortens)

function parse_client_args :: "string list \<Rightarrow> client_options \<Rightarrow> client_options parsed" where
  "parse_client_args [] opts = Parsed opts"
| "parse_client_args (a # rest) opts =
     (case run_chain client_chain (a # rest, opts) of
        Parsed (args', opts') \<Rightarrow> parse_client_args (tl args') opts'
      | Exits n \<Rightarrow> Exits n
      | Undefined \<Rightarrow> Undefined)"
  by pat_completeness auto
termination
proof (relation "measure (\<lambda>(args, opts). length args)", goal_cases)
  case (2 a rest opts x args' opts')
  then have "length args' \<le> length (a # rest)"
    using client_chain_shorter [OF 2(1)] 2(2) by (metis fst_conv)
  then show ?case by auto
qed simp

section \<open>Starting\<close>

text \<open>The settings the options stand for; everything else keeps its static value.\<close>

definition apply_client_options :: "client_options \<Rightarrow> client_settings \<Rightarrow> client_settings" where
  "apply_client_options opts s =
     s\<lparr>input_address := cm_input_address opts, output_address := cm_output_address opts, input_port := cm_input_port opts,
       output_port := cm_output_port opts, connections_count := cm_connections_count opts, timeout_seconds := cm_timeout_seconds opts,
       disable_timeout := cm_disable_timeout opts, enable_tunnel_ssl := cm_enable_ssl opts, enable_output_ssl := cm_enable_output_ssl opts,
       ca_file := cm_ca_file opts\<rparr>"

text \<open>What becomes of the process: it ends, becomes another program, or enters its main loop with the given state.\<close>

datatype client_fate = Ended int | Replaced string | Main_loop client_state | Never

record client_env =
  ce_shell :: shell
  ce_update :: update_env
  ce_execs :: bool
  ce_files :: files
  ce_obs :: "(bool \<times> exchange) list"
  ce_thread_ok :: bool
  ce_malloc_ok :: bool
  ce_apply :: apply_env

definition update_check :: "'j jansson \<Rightarrow> client_env \<Rightarrow> string list \<Rightarrow> bool \<Rightarrow> update_result" where
  "update_check J env args auto_apply =
     fst (client_check_and_update J (ce_shell env) (ce_update env) (ce_execs env) args auto_apply
            \<lparr>us_files = ce_files env, us_commands = []\<rparr>)"

text \<open>\<open>Never\<close>: \<open>exit\<close> in the TLS set-up, or still waiting for a registration when the observations are used up. The result of the registration is not looked at.\<close>

definition client_start :: "'j jansson \<Rightarrow> client_env \<Rightarrow> string list \<Rightarrow> client_options \<Rightarrow> client_state \<Rightarrow> client_fate" where
  "client_start J env args opts st =
     (let st1 = st\<lparr>threads_data := apply_client_options opts (threads_data st)\<rparr>;
          started = (if cm_has_device_args opts
                     then main_with_device_registration J (ce_obs env) (ce_thread_ok env) (ce_malloc_ok env) (ce_apply env) args st1
                     else switcher_servers_start_client (ae_ctx_ok (ce_apply env)) (ae_load_ok (ce_apply env)) (ce_malloc_ok env)
                            (ae_starts (ce_apply env)) st1)
      in case started of None \<Rightarrow> Never | Some (_, st2) \<Rightarrow> Main_loop st2)"

definition client_main :: "'j jansson \<Rightarrow> client_env \<Rightarrow> string list \<Rightarrow> client_state \<Rightarrow> client_fate parsed" where
  "client_main J env args st =
     bind_parsed (parse_client_args args default_client_options)
       (\<lambda>opts.
          if cm_show_help opts then Exits 0
          else if argv_has_flag args ''--check-update'' \<and> \<not> argv_has_flag args ''--auto-update'' then
            (case update_check J env args False of Returns n \<Rightarrow> Exits n | Executes p \<Rightarrow> Parsed (Replaced p))
          else if argv_has_flag args ''--auto-update'' then
            (case update_check J env args True of
               Executes p \<Rightarrow> Parsed (Replaced p)
             | Returns n \<Rightarrow> if n < 0 then Exits 1 else Parsed (client_start J env args opts st))
          else Parsed (client_start J env args opts st))"

section \<open>Writing a command line\<close>

text \<open>
  The command line of a client without registration. Its values must be no option, also not for the tests further down the chain.
\<close>

definition client_argv :: "client_options \<Rightarrow> string list" where
  "client_argv opts =
     [''--host_in'', cm_input_address opts, ''-p_in'', print_base 10 (unat (cm_input_port opts)),
      ''--host_out'', cm_output_address opts, ''-p_out'', print_base 10 (unat (cm_output_port opts)),
      ''--connections'', print_base 10 (nat (cm_connections_count opts)), ''--timeout'', print_base 10 (nat (cm_timeout_seconds opts))] @
     (if cm_disable_timeout opts then [''--disable-timeout''] else []) @ (if cm_enable_ssl opts then [''--ssl''] else []) @
     (if cm_enable_output_ssl opts then [''--ssl-output''] else []) @ [''--ca-file'', cm_ca_file opts]"

definition plain_value :: "string \<Rightarrow> bool" where
  "plain_value v \<longleftrightarrow>
     \<not> list_ex (strstr v) [''--host_out'', ''-p_in'', ''-p_out''] \<and>
     v \<notin> {''--connections'', ''-c'', ''--timeout'', ''-t'', ''--disable-timeout'', ''--help'', ''--h'', ''--ssl'', ''-e'', ''--ssl-output'', ''-o'',
          ''--ca-file'', ''-a'', ''--device-id'', ''--check-update'', ''--auto-update'', ''--update-server'', ''--update-arch'', ''--install-dir''}"

definition client_options_valid :: "client_options \<Rightarrow> bool" where
  "client_options_valid opts \<longleftrightarrow>
     plain_value (cm_input_address opts) \<and> plain_value (cm_output_address opts) \<and> plain_value (cm_ca_file opts) \<and>
     length (cm_input_address opts) \<le> 31 \<and> length (cm_output_address opts) \<le> 31 \<and> length (cm_ca_file opts) \<le> 255 \<and>
     0 < cm_connections_count opts \<and> cm_connections_count opts < 2 ^ 31 \<and> 0 < cm_timeout_seconds opts \<and> cm_timeout_seconds opts < 2 ^ 31 \<and>
     \<not> cm_has_device_args opts \<and> \<not> cm_show_help opts \<and> cm_verbose opts = None"

lemma print_plain: "plain_value (print_base 10 n)"
  by (simp add: plain_value_def print_base_no_option)

lemmas chain_defs = client_chain_def verbose_if_def value_if_def flag_if_def

lemma chain_values:
  "plain_value v \<Longrightarrow> run_chain client_chain (''--host_in'' # v # rest, opts) =
     Parsed (v # rest, opts\<lparr>cm_input_address := strncpy 31 v, cm_show_help := False\<rparr>)"
  "plain_value v \<Longrightarrow> run_chain client_chain (''--host_out'' # v # rest, opts) =
     Parsed (v # rest, opts\<lparr>cm_output_address := strncpy 31 v, cm_show_help := False\<rparr>)"
  "plain_value v \<Longrightarrow> run_chain client_chain (''--ca-file'' # v # rest, opts) =
     Parsed (v # rest, opts\<lparr>cm_ca_file := strncpy 255 v, cm_show_help := False\<rparr>)"
  by (simp_all add: chain_defs plain_value_def split: list.splits)

lemma chain_ports:
  "n < 2 ^ 16 \<Longrightarrow> run_chain client_chain (''-p_in'' # print_base 10 n # rest, opts) =
     Parsed (print_base 10 n # rest, opts\<lparr>cm_input_port := of_nat n, cm_show_help := False\<rparr>)"
  "n < 2 ^ 16 \<Longrightarrow> run_chain client_chain (''-p_out'' # print_base 10 n # rest, opts) =
     Parsed (print_base 10 n # rest, opts\<lparr>cm_output_port := of_nat n, cm_show_help := False\<rparr>)"
  using scan_hu_print [of n] by (simp_all add: chain_defs print_base_no_option read_port_def split: list.splits)

lemma chain_counts:
  "0 < n \<Longrightarrow> n < 2 ^ 31 \<Longrightarrow> run_chain client_chain (''--connections'' # print_base 10 n # rest, opts) =
     Parsed (print_base 10 n # rest, opts\<lparr>cm_connections_count := int n, cm_show_help := False\<rparr>)"
  "0 < n \<Longrightarrow> n < 2 ^ 31 \<Longrightarrow> run_chain client_chain (''--timeout'' # print_base 10 n # rest, opts) =
     Parsed (print_base 10 n # rest, opts\<lparr>cm_timeout_seconds := int n, cm_show_help := False\<rparr>)"
  using scan_d_print [of n] by (simp_all add: chain_defs print_base_no_option read_positive_def split: list.splits)

lemma chain_flags:
  "run_chain client_chain (''--disable-timeout'' # rest, opts) =
     Parsed (''--disable-timeout'' # rest, opts\<lparr>cm_disable_timeout := True, cm_show_help := False\<rparr>)"
  "run_chain client_chain (''--ssl'' # rest, opts) = Parsed (''--ssl'' # rest, opts\<lparr>cm_enable_ssl := True, cm_show_help := False\<rparr>)"
  "run_chain client_chain (''--ssl-output'' # rest, opts) =
     Parsed (''--ssl-output'' # rest, opts\<lparr>cm_enable_output_ssl := True, cm_show_help := False\<rparr>)"
  by (simp_all add: chain_defs split: list.splits)

lemmas chain_options = chain_values chain_ports chain_counts chain_flags

text \<open>
  The settings of a client without registration can be given on its command line: parsing the arguments written for them gives them back, when the values are in range, fit
  their buffers and are no options themselves.
\<close>

theorem client_args_roundtrip:
  assumes "client_options_valid opts"
  shows "parse_client_args (client_argv opts) default_client_options = Parsed opts"
proof -
  have v: "plain_value (cm_input_address opts)" "plain_value (cm_output_address opts)" "plain_value (cm_ca_file opts)"
    "strncpy 31 (cm_input_address opts) = cm_input_address opts" "strncpy 31 (cm_output_address opts) = cm_output_address opts"
    "strncpy 255 (cm_ca_file opts) = cm_ca_file opts" "\<not> cm_has_device_args opts" "\<not> cm_show_help opts" "cm_verbose opts = None"
    using assms by (auto simp: client_options_valid_def cstring_simps)
  obtain n where c: "cm_connections_count opts = int n" "0 < n" "n < 2147483648"
    using assms by (auto simp: client_options_valid_def dest!: zero_less_imp_eq_int)
  obtain m where t: "cm_timeout_seconds opts = int m" "0 < m" "m < 2147483648"
    using assms by (auto simp: client_options_valid_def dest!: zero_less_imp_eq_int)
  have port: "unat (p :: u16) < 65536" for p
    using unsigned_less [of p, where ?'a = nat] by simp
  show ?thesis
    using v(7-9)
    by (cases "cm_disable_timeout opts"; cases "cm_enable_ssl opts"; cases "cm_enable_output_ssl opts";
        simp add: client_argv_def chain_options v(1-6) c t port default_client_options_def del: run_chain.simps)
qed

definition example_client_options :: client_options where
  "example_client_options = default_client_options\<lparr>cm_input_address := ''82.146.44.140'', cm_input_port := 6000, cm_connections_count := 5,
     cm_timeout_seconds := 60, cm_enable_ssl := True, cm_ca_file := ''ca.pem'', cm_show_help := False\<rparr>"

theorem client_args_roundtrip_witness:
  "parse_client_args (client_argv example_client_options) default_client_options = Parsed example_client_options \<and>
     cm_connections_count example_client_options = 5"
proof -
  have "client_options_valid example_client_options"
    by (simp add: client_options_valid_def plain_value_def example_client_options_def default_client_options_def)
  from client_args_roundtrip [OF this] show ?thesis by (simp add: example_client_options_def)
qed

text \<open>
  The test for the verbosity option looks for \<open>-v\<close> anywhere in an argument, and the values of the device options are arguments like any other for
  it. A device token with \<open>-v\<close> inside, whose third character on is no number, makes the client read an uninitialised level: the behaviour of the
  program is undefined from there on.
\<close>

theorem token_read_as_verbosity:
  assumes "strstr token ''-v''" and "scan_d (drop 2 token) = No_match"
    and "plain_value dev" and "\<not> strstr dev ''-v''" and "\<not> strstr dev ''--host_in''"
  shows "parse_client_args (''--device-id'' # dev # ''--device-token'' # token # rest) opts = Undefined"
proof -
  have token: "run_chain client_chain (token # rest, opts') = Undefined" for opts'
    using assms(1,2) by (simp add: client_chain_def verbose_if_def)
  have token_flag: "run_chain client_chain (''--device-token'' # token # rest, opts') = Parsed (''--device-token'' # token # rest, opts')" for opts'
    by (simp add: chain_defs split: list.splits)
  have dev: "run_chain client_chain (dev # ''--device-token'' # token # rest, opts') = Parsed (dev # ''--device-token'' # token # rest, opts')" for opts'
    using assms(3-5) by (simp add: chain_defs plain_value_def)
  have id_flag: "run_chain client_chain (''--device-id'' # dev # ''--device-token'' # token # rest, opts) =
      Parsed (''--device-id'' # dev # ''--device-token'' # token # rest, opts\<lparr>cm_has_device_args := True, cm_show_help := False\<rparr>)"
    by (simp add: chain_defs)
  show ?thesis
    by (simp add: id_flag dev token_flag token del: run_chain.simps)
qed

theorem token_read_as_verbosity_witness:
  "parse_client_args [''--device-id'', ''dev1'', ''--device-token'', ''k3-vQ'', ''--registration-server'', ''h''] default_client_options = Undefined"
  by (rule token_read_as_verbosity) (simp_all add: plain_value_def scan_d_def scan_number_def is_space_def is_digit_def)

text \<open>
  A device started without its token: \<open>main_with_device_registration\<close> fails, \<open>main\<close> does not look at its result, and the client idles in its main loop without
  ever registering.
\<close>

lemma failed_device_mode_idles:
  assumes "cm_has_device_args opts" and "cli_auth_token (parse_device_args args initial_cli) = None"
  shows "\<exists>st'. client_start J env args opts st = Main_loop st' \<and> connections (threads_data st') = connections (threads_data st)"
  using assms by (simp add: client_start_def main_with_device_registration_def apply_client_options_def Let_def)

end
