(* ===== verification/Main_Loops.thy ===== *)
theory Main_Loops
  imports Server_Main Client_Stop Control_Plane
begin

text \<open>
  The loops in which the programs wait for their end (\<open>src/server/main.c\<close>, \<open>src/client/main.c\<close>, \<open>src/client_win/main.c\<close>), with the clock they read
  (\<open>common/hal/time/unix/time.c\<close>), the counter of seconds that all idle times are measured with (\<open>resources/time_counter.c\<close>), the handling of signals
  (\<open>resources/signal_handler.c\<close>), and what is done when the loop has ended. Client and server have the same clock and counter.
\<close>

section \<open>The clock\<close>

record timespec =
  tv_sec :: int
  tv_nsec :: int

text \<open>The reading of the clock, and the variable \<open>msMonotonicTimeStart\<close>.\<close>

definition Hal_getMonotonicTimeInMs :: "timespec \<Rightarrow> u64 \<Rightarrow> u64 \<times> u64" where
  "Hal_getMonotonicTimeInMs t start =
     (let msTime = word_of_int (tv_sec t) * 1000 + word_of_int (tv_nsec t) div 1000000
      in (msTime, if start = 0 then msTime else start))"

definition Hal_getTimeInNs :: "timespec \<Rightarrow> u64" where
  "Hal_getTimeInNs t = word_of_int (tv_sec t) * 1000000000 + word_of_int (tv_nsec t)"

definition Hal_setTimeInNs :: "u64 \<Rightarrow> timespec" where
  "Hal_setTimeInNs nsTime = \<lparr>tv_sec = uint (nsTime div 1000000000), tv_nsec = uint (nsTime mod 1000000000)\<rparr>"

text \<open>On Windows the clock is the number of 100 ns since 1601, in two halves.\<close>

definition Hal_getTimeInMs_win :: "u32 \<Rightarrow> u32 \<Rightarrow> u64" where
  "Hal_getTimeInMs_win low high = (ucast low + push_bit 32 (ucast high)) div 10000 - 11644473600000"

definition Hal_getTimeInNs_win :: "u32 \<Rightarrow> u32 \<Rightarrow> u64" where
  "Hal_getTimeInNs_win low high = (ucast low + push_bit 32 (ucast high)) * 100 - 11644473600000000000"

definition Hal_setTimeInNs_win :: "u64 \<Rightarrow> u32 \<times> u32" where
  "Hal_setTimeInNs_win nsTime = (let t = nsTime div 100 + 116444736000000000 in (ucast (and t 0xffffffff), ucast (drop_bit 32 t)))"

section \<open>Signals\<close>

text \<open>SIGINT is 2, SIGTERM 15; SIGPIPE (13) and SIGALRM (14) only keep the process alive. The client sets two flags at once.\<close>

definition server_sigHandler :: "int \<Rightarrow> bool \<Rightarrow> bool" where
  "server_sigHandler sigNum stop_requested = (if sigNum = 2 then True else if sigNum = 15 then True else stop_requested)"

definition client_sigHandler :: "int \<Rightarrow> bool \<times> bool \<Rightarrow> bool \<times> bool" where
  "client_sigHandler sigNum flags = (if sigNum = 2 \<or> sigNum = 15 then (True, True) else flags)"

section \<open>The loops\<close>

record main_state =
  counter_task_time :: int
  last_monotonic_time :: u64

text \<open>A pass: the signals handled since the last one, and the readings of the clock before and in the branch.\<close>

record main_pass =
  mp_signals :: "int list"
  mp_now :: u64
  mp_after :: u64

definition main_tick :: "main_pass \<Rightarrow> main_state \<Rightarrow> main_state" where
  "main_tick p s =
     (if mp_now p - last_monotonic_time s > 1000
      then s\<lparr>counter_task_time := counter_task_time s + 1, last_monotonic_time := mp_after p\<rparr> else s)"

text \<open>The result says whether the loop has ended, or is still running when the passes are used up. The server tests its flag after the clock, the client before.\<close>

fun server_main_loop :: "main_pass list \<Rightarrow> bool \<Rightarrow> main_state \<Rightarrow> bool \<times> main_state" where
  "server_main_loop [] stop s = (False, s)"
| "server_main_loop (p # ps) stop s =
     (let stop1 = fold server_sigHandler (mp_signals p) stop; s1 = main_tick p s
      in if stop1 then (True, s1) else server_main_loop ps stop1 s1)"

fun client_main_loop :: "main_pass list \<Rightarrow> bool \<times> bool \<Rightarrow> main_state \<Rightarrow> bool \<times> main_state" where
  "client_main_loop [] flags s = (False, s)"
| "client_main_loop (p # ps) flags s =
     (let flags1 = fold client_sigHandler (mp_signals p) flags
      in if fst flags1 \<or> snd flags1 then (True, s) else client_main_loop ps flags1 (main_tick p s))"

text \<open>
  The Windows client has the same loop without a test, over a clock that can be set; its handler ends the process with status 1. The result is the status,
  or None while it runs.
\<close>

definition win_sigHandler :: "int \<Rightarrow> int option" where
  "win_sigHandler sigNum = (if sigNum = 2 then Some 1 else if sigNum = 15 then Some 1 else None)"

fun win_main_loop :: "main_pass list \<Rightarrow> main_state \<Rightarrow> int option \<times> main_state" where
  "win_main_loop [] s = (None, s)"
| "win_main_loop (p # ps) s =
     (case filter (\<lambda>x. x \<noteq> None) (map win_sigHandler (mp_signals p)) of
        x # _ \<Rightarrow> (x, s)
      | [] \<Rightarrow> win_main_loop ps (main_tick p s))"

section \<open>The end\<close>

text \<open>
  The server: the device manager if it was asked for, the contexts, and \<open>exit\<close>, whose status is 1 through \<open>exit_nicely\<close>. The servers of both kinds are
  those of the manager's state.
\<close>

definition server_shutdown :: "server_options \<Rightarrow> bool \<times> dm_state \<Rightarrow> int \<times> bool \<times> dm_state" where
  "server_shutdown opts s =
     (let (enabled, dm) = (if so_device_management opts then device_management_shutdown s else s)
      in (if \<not> so_no_db opts then 1 else 0, enabled, dm\<lparr>dyn := switcher_servers_stop (dyn dm)\<rparr>))"

text \<open>The client: the heartbeat, then the connections, whose threads are waited for.\<close>

definition client_shutdown :: "(nat \<Rightarrow> nat \<Rightarrow> bool) \<Rightarrow> client_state \<Rightarrow> int \<times> client_state \<times> nat list \<times> nat list" where
  "client_shutdown stops st = (0, switcher_servers_stop_client stops (device_registration_cleanup st))"

section \<open>When the loops end\<close>

definition asks_stop :: "main_pass \<Rightarrow> bool" where
  "asks_stop p \<longleftrightarrow> 2 \<in> set (mp_signals p) \<or> 15 \<in> set (mp_signals p)"

lemma fold_server_sigHandler: "fold server_sigHandler sigs stop \<longleftrightarrow> stop \<or> 2 \<in> set sigs \<or> 15 \<in> set sigs"
  by (induction sigs arbitrary: stop) (auto simp: server_sigHandler_def)

lemma fold_client_sigHandler:
  "fold client_sigHandler sigs (b, b) = (let b' = b \<or> 2 \<in> set sigs \<or> 15 \<in> set sigs in (b', b'))"
  by (induction sigs arbitrary: b) (auto simp: client_sigHandler_def Let_def)

lemma main_loops_result:
  "server_main_loop ps False s =
     (list_ex asks_stop ps, fold main_tick (take (Suc (length (takeWhile (\<lambda>p. \<not> asks_stop p) ps))) ps) s)"
  "client_main_loop ps (False, False) s = (list_ex asks_stop ps, fold main_tick (takeWhile (\<lambda>p. \<not> asks_stop p) ps) s)"
  by (induction ps arbitrary: s) (simp_all add: fold_server_sigHandler fold_client_sigHandler asks_stop_def Let_def)

text \<open>
  SIGINT and SIGTERM end either program within one pass of its loop, and nothing else does: a lost connection (SIGPIPE) or an alarm leaves both
  running. The server still counts the second of the pass in which it stops.
\<close>

theorem main_loops_end:
  "server_main_loop ps False s =
     (list_ex asks_stop ps, fold main_tick (take (Suc (length (takeWhile (\<lambda>p. \<not> asks_stop p) ps))) ps) s) \<and>
   client_main_loop ps (False, False) s = (list_ex asks_stop ps, fold main_tick (takeWhile (\<lambda>p. \<not> asks_stop p) ps) s)"
  using main_loops_result by blast

section \<open>The counter of seconds\<close>

text \<open>
  The clock never goes back, and the time from one reading to the end of the next pass is at most \<open>g\<close> milliseconds; \<open>t\<close> and \<open>u\<close> are the last two readings.
\<close>

fun chronological :: "nat \<Rightarrow> u64 \<Rightarrow> u64 \<Rightarrow> main_pass list \<Rightarrow> bool" where
  "chronological g t u [] \<longleftrightarrow> True"
| "chronological g t u (p # ps) \<longleftrightarrow>
     u \<le> mp_now p \<and> mp_now p \<le> mp_after p \<and> unat (mp_after p) \<le> unat t + g \<and> chronological g (mp_now p) (mp_after p) ps"

lemma chronological_prefix: "chronological g t u (ps @ qs) \<Longrightarrow> chronological g t u ps"
  by (induction ps arbitrary: t u) auto

lemma chronological_take: "chronological g t u ps \<Longrightarrow> chronological g t u (take n ps)"
  using chronological_prefix [of g t u "take n ps" "drop n ps"] by simp

lemma chronological_takeWhile: "chronological g t u ps \<Longrightarrow> chronological g t u (takeWhile P ps)"
  using chronological_prefix [of g t u "takeWhile P ps" "dropWhile P ps"] by simp

text \<open>\<open>counted g c l s\<close>: since the counter was \<open>c\<close> at time \<open>l\<close>, each of its steps took between 1001 and \<open>1000 + g\<close> milliseconds.\<close>

definition counted :: "nat \<Rightarrow> int \<Rightarrow> u64 \<Rightarrow> main_state \<Rightarrow> bool" where
  "counted g c l s \<longleftrightarrow>
     1001 * (counter_task_time s - c) \<le> uint (last_monotonic_time s) - uint l \<and>
     uint (last_monotonic_time s) - uint l \<le> (1000 + int g) * (counter_task_time s - c)"

lemma main_tick_counted:
  assumes "counted g c l s" and "uint t - uint (last_monotonic_time s) \<le> 1000" and "last_monotonic_time s \<le> u"
    and "u \<le> mp_now p" and "mp_now p \<le> mp_after p" and "unat (mp_after p) \<le> unat t + g"
  shows "counted g c l (main_tick p s) \<and> uint (mp_now p) - uint (last_monotonic_time (main_tick p s)) \<le> 1000 \<and>
     last_monotonic_time (main_tick p s) \<le> mp_after p"
proof -
  have "last_monotonic_time s \<le> mp_now p" using assms(3,4) by (rule order_trans)
  then have sub: "uint (mp_now p - last_monotonic_time s) = uint (mp_now p) - uint (last_monotonic_time s)"
    by (simp add: uint_sub_lem word_le_def)
  have after: "uint (mp_after p) \<le> uint t + int g"
    using assms(6) by (metis of_nat_add of_nat_le_iff uint_nat)
  have le: "uint (last_monotonic_time s) \<le> uint (mp_now p)" "uint (mp_now p) \<le> uint (mp_after p)"
    using \<open>last_monotonic_time s \<le> mp_now p\<close> assms(5) by (simp_all add: word_le_def)
  show ?thesis
  proof (cases "mp_now p - last_monotonic_time s > 1000")
    case True
    then have "1000 < uint (mp_now p) - uint (last_monotonic_time s)" using sub by (simp add: word_less_def)
    then show ?thesis
      using True assms(1,2,5) after le by (simp add: main_tick_def counted_def algebra_simps)
  next
    case False
    then have "uint (mp_now p) - uint (last_monotonic_time s) \<le> 1000" using sub by (simp add: word_less_def)
    then show ?thesis
      using False assms(1) le by (simp add: main_tick_def word_le_def)
  qed
qed

lemma ticks_counted:
  assumes "counted g c l s" and "uint t - uint (last_monotonic_time s) \<le> 1000" and "last_monotonic_time s \<le> u"
    and "chronological g t u ps"
  shows "counted g c l (fold main_tick ps s) \<and>
     (ps \<noteq> [] \<longrightarrow> uint (mp_now (last ps)) - uint (last_monotonic_time (fold main_tick ps s)) \<le> 1000)"
  using assms
proof (induction ps arbitrary: s t u)
  case Nil
  then show ?case by simp
next
  case (Cons p ps)
  from Cons.prems(4) have c: "u \<le> mp_now p" "mp_now p \<le> mp_after p" "unat (mp_after p) \<le> unat t + g"
    "chronological g (mp_now p) (mp_after p) ps" by simp_all
  note one = main_tick_counted [OF Cons.prems(1-3) c(1-3)]
  from one Cons.IH [OF _ _ _ c(4), of "main_tick p s"] show ?case by (cases ps) simp_all
qed

text \<open>
  C26. The counter of seconds that both programs measure idle times with: while no signal asks for the end, both loops advance it alike; over any passes
  of a clock that does not go back, each step of the counter stands for at least 1001 ms and for at most 1000 ms and the length \<open>g\<close> of a pass, and the
  last step is at most 1000 ms old when the clock is read.
\<close>

theorem time_counter_bounds:
  assumes "chronological g (last_monotonic_time s) (last_monotonic_time s) ps" and "list_all (\<lambda>p. \<not> asks_stop p) ps"
    and "server_main_loop ps False s = (b, s')"
  shows "\<not> b \<and> client_main_loop ps (False, False) s = (b, s') \<and>
     1001 * (counter_task_time s' - counter_task_time s) \<le> uint (last_monotonic_time s') - uint (last_monotonic_time s) \<and>
     uint (last_monotonic_time s') - uint (last_monotonic_time s) \<le> (1000 + int g) * (counter_task_time s' - counter_task_time s) \<and>
     (ps \<noteq> [] \<longrightarrow> uint (mp_now (last ps)) - uint (last_monotonic_time s') \<le> 1000)"
proof -
  have tw: "takeWhile (\<lambda>p. \<not> asks_stop p) ps = ps" and "\<not> list_ex asks_stop ps"
    using assms(2) by (simp_all add: takeWhile_eq_all_conv list_all_iff list_ex_iff)
  then have "server_main_loop ps False s = (False, fold main_tick ps s)"
    and cl: "client_main_loop ps (False, False) s = (False, fold main_tick ps s)"
    by (simp_all only: main_loops_result tw) simp_all
  then have r: "\<not> b" "s' = fold main_tick ps s" and c: "client_main_loop ps (False, False) s = (b, s')"
    using assms(3) by simp_all
  have "counted g (counter_task_time s) (last_monotonic_time s) s" by (simp add: counted_def)
  note q = ticks_counted [OF this _ _ assms(1)]
  with r c show ?thesis by (simp add: counted_def)
qed

text \<open>Three passes at 900, 1900 and 2000 ms, with a SIGPIPE in between.\<close>

definition example_passes :: "main_pass list" where
  "example_passes =
     [\<lparr>mp_signals = [], mp_now = 900, mp_after = 900\<rparr>, \<lparr>mp_signals = [13], mp_now = 1900, mp_after = 1901\<rparr>,
      \<lparr>mp_signals = [], mp_now = 2000, mp_after = 2000\<rparr>]"

theorem time_counter_bounds_witness:
  "\<exists>s'. server_main_loop example_passes False \<lparr>counter_task_time = 0, last_monotonic_time = 0\<rparr> = (False, s') \<and>
     counter_task_time s' = 1 \<and> 1001 * counter_task_time s' \<le> uint (last_monotonic_time s') \<and>
     uint (last_monotonic_time s') \<le> 2010 * counter_task_time s'"
proof -
  let ?s = "\<lparr>counter_task_time = 0, last_monotonic_time = 0\<rparr>"
  obtain b s' where r: "server_main_loop example_passes False ?s = (b, s')" by fastforce
  have s': "counter_task_time s' = 1"
    using r by (auto simp: example_passes_def server_sigHandler_def main_tick_def word_less_def)
  have "chronological 1010 (last_monotonic_time ?s) (last_monotonic_time ?s) example_passes"
    "list_all (\<lambda>p. \<not> asks_stop p) example_passes"
    by (simp_all add: example_passes_def asks_stop_def word_le_def)
  from time_counter_bounds [OF this r] s' r show ?thesis by auto
qed

text \<open>A clock set back, as the one of the Windows client can be, costs at most one wrong second: the difference wraps around and the new time is taken over.\<close>

lemma clock_set_back_counts_once:
  assumes "mp_now p < last_monotonic_time s" and "uint (last_monotonic_time s) - uint (mp_now p) < 2 ^ 64 - 1000"
  shows "main_tick p s = s\<lparr>counter_task_time := counter_task_time s + 1, last_monotonic_time := mp_after p\<rparr>"
proof -
  have "uint (mp_now p) < uint (last_monotonic_time s)" using assms(1) by (simp add: word_less_def)
  then have "uint (mp_now p - last_monotonic_time s) = 2 ^ 64 + uint (mp_now p) - uint (last_monotonic_time s)"
    by (simp add: uint_sub_if')
  with assms(2) have "1000 < mp_now p - last_monotonic_time s" by (simp add: word_less_def)
  then show ?thesis by (simp add: main_tick_def)
qed

text \<open>The loop of the Windows client ends at the first pass with SIGINT or SIGTERM.\<close>

lemma win_main_loop_result:
  "win_main_loop ps s = (if list_ex asks_stop ps then Some 1 else None, fold main_tick (takeWhile (\<lambda>p. \<not> asks_stop p) ps) s)"
proof (induction ps arbitrary: s)
  case (Cons p ps)
  have quiet: "filter (\<lambda>x. x \<noteq> None) (map win_sigHandler sigs) = []" if "2 \<notin> set sigs" "15 \<notin> set sigs" for sigs
    using that by (induction sigs) (auto simp: win_sigHandler_def)
  have ends: "\<exists>xs. filter (\<lambda>x. x \<noteq> None) (map win_sigHandler sigs) = Some 1 # xs" if "2 \<in> set sigs \<or> 15 \<in> set sigs" for sigs
    using that by (induction sigs) (auto simp: win_sigHandler_def)
  show ?case
  proof (cases "asks_stop p")
    case True
    then obtain xs where "filter (\<lambda>x. x \<noteq> None) (map win_sigHandler (mp_signals p)) = Some 1 # xs"
      using ends by (auto simp: asks_stop_def)
    with True show ?thesis by simp
  next
    case False
    then have "filter (\<lambda>x. x \<noteq> None) (map win_sigHandler (mp_signals p)) = []" using quiet by (simp add: asks_stop_def)
    with False Cons.IH show ?thesis by simp
  qed
qed simp

section \<open>Readings of the clock\<close>

text \<open>In range the reading is the time in milliseconds, so it does not go back when the time does not.\<close>

lemma Hal_getMonotonicTimeInMs_reading:
  assumes "0 \<le> tv_sec t" "tv_sec t < 2 ^ 53" "0 \<le> tv_nsec t" "tv_nsec t < 1000000000"
  shows "uint (fst (Hal_getMonotonicTimeInMs t start)) = tv_sec t * 1000 + tv_nsec t div 1000000"
proof -
  have n: "uint (word_of_int (tv_nsec t) div 1000000 :: u64) = tv_nsec t div 1000000"
    using assms by (simp add: uint_div uint_word_of_int)
  have s: "uint (word_of_int (tv_sec t) * 1000 :: u64) = tv_sec t * 1000"
    using assms by (simp add: uint_mult_lem [THEN iffD1] uint_word_of_int)
  have "tv_nsec t div 1000000 \<le> 999" using assms by simp
  then have "uint (word_of_int (tv_sec t) * 1000 + word_of_int (tv_nsec t) div 1000000 :: u64) = tv_sec t * 1000 + tv_nsec t div 1000000"
    using assms s n by (subst uint_add_lem [THEN iffD1]) simp_all
  then show ?thesis by (simp add: Hal_getMonotonicTimeInMs_def Let_def)
qed

text \<open>Setting the clock to what was read gives back the time, until the year 2554.\<close>

lemma Hal_setTimeInNs_getTimeInNs:
  assumes "0 \<le> tv_sec t" "tv_sec t < 18446744073" "0 \<le> tv_nsec t" "tv_nsec t < 1000000000"
  shows "Hal_setTimeInNs (Hal_getTimeInNs t) = t"
proof -
  have s: "uint (word_of_int (tv_sec t) * 1000000000 :: u64) = tv_sec t * 1000000000"
    using assms by (simp add: uint_mult_lem [THEN iffD1] uint_word_of_int)
  have "uint (Hal_getTimeInNs t) = tv_sec t * 1000000000 + tv_nsec t"
    using assms s unfolding Hal_getTimeInNs_def by (subst uint_add_lem [THEN iffD1]) (simp_all add: uint_word_of_int)
  then show ?thesis using assms by (cases t) (simp add: Hal_setTimeInNs_def uint_div uint_mod)
qed

section \<open>The server's contexts at its end\<close>

lemma cleanup_all_ssl_frame:
  "heap (snd (cleanup_all_ssl ss st)) = heap st" "fds (snd (cleanup_all_ssl ss st)) = fds st"
  "g_dynamic_runtimes (snd (cleanup_all_ssl ss st)) = g_dynamic_runtimes st"
  by (induction ss arbitrary: st)
    (simp_all add: cleanup_ssl_context_def ssl_ctx_free_def case_prod_beta split: option.split)

lemma cleanup_all_ssl_dead: "c \<notin> set (ssl_live st) \<Longrightarrow> c \<notin> set (ssl_live (snd (cleanup_all_ssl ss st)))"
  by (induction ss arbitrary: st) (auto simp: cleanup_ssl_context_def ssl_ctx_free_dead case_prod_beta split: option.split)

lemma cleanup_all_ssl_frees:
  assumes "s \<in> set ss" and "ps_ssl_ctx s = Some c" and "distinct (ssl_live st)"
  shows "c \<notin> set (ssl_live (snd (cleanup_all_ssl ss st)))"
  using assms(1,3)
proof (induction ss arbitrary: st)
  case Nil
  then show ?case by simp
next
  case (Cons t ss)
  let ?st1 = "snd (cleanup_ssl_context t st)"
  have "distinct (ssl_live ?st1)"
    using Cons.prems(2) by (simp add: cleanup_ssl_context_def ssl_ctx_free_def split: option.split)
  moreover have "c \<notin> set (ssl_live ?st1)" if "t = s"
    using that assms(2) Cons.prems(2) by (simp add: cleanup_ssl_context_def ssl_ctx_free_def)
  ultimately show ?case
    using Cons.IH [of ?st1] Cons.prems(1) cleanup_all_ssl_dead [of c ?st1 ss] by (auto simp: case_prod_beta)
qed

lemma switcher_servers_stop_parts:
  "heap (switcher_servers_stop st) = heap st" "fds (switcher_servers_stop st) = fds st"
  "ssl_live (switcher_servers_stop st) = ssl_live (snd (cleanup_all_ssl (take (unat (servers_count st)) (servers st)) st))"
  by (simp_all add: switcher_servers_stop_def Let_def case_prod_beta cleanup_all_ssl_frame)

lemma device_management_shutdown_dyn: "dyn (snd (device_management_shutdown s)) = dyn (snd s)"
  by (simp add: device_management_shutdown_def device_manager_stop_def)

text \<open>
  The end of the server frees contexts that are in use: when a running copy of a server uses the context of its array entry, then after the shutdown
  of \<open>main\<close> the copy is still there with its threads running and its listeners open, while the context its next connection needs is
  freed. And a server with a database, stopped by a signal, reports failure to the system.
\<close>

theorem shutdown_frees_contexts_in_use:
  assumes "heap (dyn dm) a = Some td" and "ps_is_input_running (td_data td)" and "ps_ssl_ctx (td_data td) = Some c"
    and "distinct (ssl_live (dyn dm))" and "j < unat (servers_count (dyn dm))" and "j < length (servers (dyn dm))"
    and "ps_ssl_ctx (servers (dyn dm) ! j) = Some c"
    and "server_shutdown opts (enabled, dm) = (status, enabled', dm')"
  shows "heap (dyn dm') a = Some td \<and> fds (dyn dm') = fds (dyn dm) \<and> c \<notin> set (ssl_live (dyn dm')) \<and>
     status = (if so_no_db opts then 0 else 1)"
proof -
  have d: "dyn dm' = switcher_servers_stop (dyn dm)"
    using assms(8) device_management_shutdown_dyn [of "(enabled, dm)"]
    by (auto simp: server_shutdown_def Let_def case_prod_beta)
  have "servers (dyn dm) ! j \<in> set (take (unat (servers_count (dyn dm))) (servers (dyn dm)))"
    using assms(5,6) by (auto simp: in_set_conv_nth intro: exI [of _ j])
  from cleanup_all_ssl_frees [OF this assms(7,4)] have "c \<notin> set (ssl_live (dyn dm'))"
    by (simp add: d switcher_servers_stop_parts)
  moreover have "status = (if so_no_db opts then 0 else 1)" using assms(8) by (auto simp: server_shutdown_def Let_def case_prod_beta)
  ultimately show ?thesis by (simp add: d switcher_servers_stop_parts assms(1))
qed

text \<open>The array entry and the copy of a dynamic server with a context, on a server with a database.\<close>

theorem shutdown_frees_contexts_in_use_witness:
  "\<exists>srv dm status enabled dm' td.
     server_shutdown default_options (False, dm) = (status, enabled, dm') \<and> servers (dyn dm) = [srv] \<and> ps_ssl_ctx srv = Some 7 \<and>
     heap (dyn dm') 0 = Some td \<and> ps_ssl_ctx (td_data td) = Some 7 \<and> ps_is_input_running (td_data td) \<and>
     7 \<notin> set (ssl_live (dyn dm')) \<and> status = 1"
proof -
  define srv where "srv = (fresh_dynamic_server 0 ''A'' 6000 6001)\<lparr>ps_ssl_ctx := Some 7, ps_is_input_running := True\<rparr>"
  define td where "td = \<lparr>td_local_sockets = [], td_data = srv\<rparr>"
  define dm where "dm = (initial_dm_state (initial_db []))\<lparr>dyn := initial_dyn_state\<lparr>servers := [srv], servers_count := 1,
    ssl_live := [7], heap := (\<lambda>_. None)(0 \<mapsto> td)\<rparr>\<rparr>"
  obtain status enabled dm' where r: "server_shutdown default_options (False, dm) = (status, enabled, dm')"
    by (metis prod_cases3)
  have "heap (dyn dm) 0 = Some td" "ps_is_input_running (td_data td)" "ps_ssl_ctx (td_data td) = Some 7"
    "distinct (ssl_live (dyn dm))" "0 < unat (servers_count (dyn dm))" "0 < length (servers (dyn dm))"
    "ps_ssl_ctx (servers (dyn dm) ! 0) = Some 7"
    by (simp_all add: dm_def td_def srv_def)
  from shutdown_frees_contexts_in_use [OF this r] r show ?thesis
    by (intro exI [of _ srv] exI [of _ dm] exI [of _ status] exI [of _ enabled] exI [of _ dm'] exI [of _ td])
      (simp add: dm_def td_def srv_def default_options_def)
qed

end
