(* ===== verification/Client_Registration_Threads.thy ===== *)
theory Client_Registration_Threads
  imports Client_Device
begin

text \<open>
  The heartbeat thread and the registration threads of the client interleaved (\<open>heartbeat_thread_func\<close> of
  \<open>src/client/proxy/client/device_heartbeat.c\<close>, \<open>device_start_registration_wait\<close> and \<open>registration_wait_thread\<close> of
  \<open>src/client/proxy/client/proxy_client_device_integration.c\<close>), over the two flags they share without a lock:
  \<open>g_registration_wait_running\<close> and \<open>g_device_session_revoked\<close>. Every read and write of a flag is a step of its own.
\<close>

section \<open>Program points\<close>

text \<open>
  Of the heartbeat thread: at the head of its loop; in \<open>send_heartbeat\<close>; in \<open>device_start_registration_wait\<close> at the test of the flag, after setting
  it, and after revoking the session; ended.
\<close>

datatype heartbeat_place = Hp_loop | Hp_sending | Hp_testing | Hp_marked | Hp_revoked | Hp_ended

text \<open>
  Of a registration thread: in \<open>device_register_until_allowed\<close>; back from it; in \<open>device_apply_reregistration\<close>; after its failure; before it
  clears the flag; returned.
\<close>

datatype registration_place = Rg_registering | Rg_allowed | Rg_applying | Rg_failed | Rg_finishing | Rg_ended

record registration_threads =
  rt_running :: bool
  rt_revoked :: bool
  rt_shutdown :: bool
  rt_heartbeat :: heartbeat_place
  rt_threads :: "registration_place list"

definition registration_start :: registration_threads where
  "registration_start = \<lparr>rt_running = False, rt_revoked = False, rt_shutdown = False, rt_heartbeat = Hp_loop, rt_threads = []\<rparr>"

section \<open>Steps\<close>

text \<open>\<open>faults\<close>: creating the thread may fail, and so may applying a registration (the output target is invalid).\<close>

inductive wait_start_step :: "bool \<Rightarrow> registration_threads \<Rightarrow> registration_threads \<Rightarrow> bool" for faults :: bool where
  head: "rt_heartbeat s = Hp_loop \<Longrightarrow> \<not> rt_shutdown s \<Longrightarrow> \<not> rt_revoked s \<Longrightarrow> wait_start_step faults s (s\<lparr>rt_heartbeat := Hp_sending\<rparr>)"
| loop_ends: "rt_heartbeat s = Hp_loop \<Longrightarrow> rt_shutdown s \<Longrightarrow> wait_start_step faults s (s\<lparr>rt_heartbeat := Hp_ended\<rparr>)"
| goes_on: "rt_heartbeat s = Hp_sending \<Longrightarrow> wait_start_step faults s (s\<lparr>rt_heartbeat := Hp_loop\<rparr>)"
| gives_up: "rt_heartbeat s = Hp_sending \<Longrightarrow> wait_start_step faults s (s\<lparr>rt_heartbeat := Hp_testing\<rparr>)"
| already: "rt_heartbeat s = Hp_testing \<Longrightarrow> rt_running s \<Longrightarrow> wait_start_step faults s (s\<lparr>rt_heartbeat := Hp_loop\<rparr>)"
| mark: "rt_heartbeat s = Hp_testing \<Longrightarrow> \<not> rt_running s \<Longrightarrow>
    wait_start_step faults s (s\<lparr>rt_heartbeat := Hp_marked, rt_running := True\<rparr>)"
| revoke: "rt_heartbeat s = Hp_marked \<Longrightarrow> wait_start_step faults s (s\<lparr>rt_heartbeat := Hp_revoked, rt_revoked := True\<rparr>)"
| create: "rt_heartbeat s = Hp_revoked \<Longrightarrow>
    wait_start_step faults s (s\<lparr>rt_heartbeat := Hp_loop, rt_threads := rt_threads s @ [Rg_registering]\<rparr>)"
| create_fails: "rt_heartbeat s = Hp_revoked \<Longrightarrow> faults \<Longrightarrow>
    wait_start_step faults s (s\<lparr>rt_heartbeat := Hp_loop, rt_running := False\<rparr>)"

inductive wait_thread_step :: "bool \<Rightarrow> nat \<Rightarrow> registration_threads \<Rightarrow> registration_threads \<Rightarrow> bool" for faults :: bool and i :: nat where
  allowed: "i < length (rt_threads s) \<Longrightarrow> rt_threads s ! i = Rg_registering \<Longrightarrow>
    wait_thread_step faults i s (s\<lparr>rt_threads := (rt_threads s)[i := Rg_allowed], rt_revoked := False\<rparr>)"
| stopped: "i < length (rt_threads s) \<Longrightarrow> rt_threads s ! i = Rg_registering \<Longrightarrow> rt_shutdown s \<Longrightarrow>
    wait_thread_step faults i s (s\<lparr>rt_threads := (rt_threads s)[i := Rg_finishing]\<rparr>)"
| unrevoke: "i < length (rt_threads s) \<Longrightarrow> rt_threads s ! i = Rg_allowed \<Longrightarrow>
    wait_thread_step faults i s (s\<lparr>rt_threads := (rt_threads s)[i := Rg_applying], rt_revoked := False\<rparr>)"
| applied: "i < length (rt_threads s) \<Longrightarrow> rt_threads s ! i = Rg_applying \<Longrightarrow>
    wait_thread_step faults i s (s\<lparr>rt_threads := (rt_threads s)[i := Rg_finishing]\<rparr>)"
| apply_fails: "i < length (rt_threads s) \<Longrightarrow> rt_threads s ! i = Rg_applying \<Longrightarrow> faults \<Longrightarrow>
    wait_thread_step faults i s (s\<lparr>rt_threads := (rt_threads s)[i := Rg_failed]\<rparr>)"
| revoke_again: "i < length (rt_threads s) \<Longrightarrow> rt_threads s ! i = Rg_failed \<Longrightarrow>
    wait_thread_step faults i s (s\<lparr>rt_threads := (rt_threads s)[i := Rg_finishing], rt_revoked := True\<rparr>)"
| finish: "i < length (rt_threads s) \<Longrightarrow> rt_threads s ! i = Rg_finishing \<Longrightarrow>
    wait_thread_step faults i s (s\<lparr>rt_threads := (rt_threads s)[i := Rg_ended], rt_running := False\<rparr>)"

inductive registration_step :: "bool \<Rightarrow> registration_threads \<Rightarrow> registration_threads \<Rightarrow> bool" for faults :: bool where
  by_heartbeat: "wait_start_step faults s s' \<Longrightarrow> registration_step faults s s'"
| by_thread: "wait_thread_step faults i s s' \<Longrightarrow> registration_step faults s s'"
| by_signal: "registration_step faults s (s\<lparr>rt_shutdown := True\<rparr>)"

inductive_cases wait_start_stepE: "wait_start_step faults s s'"
inductive_cases wait_thread_stepE: "wait_thread_step faults i s s'"

section \<open>At most one registration at a time\<close>

text \<open>The registrations under way: threads that have not returned, and the heartbeat thread between setting the flag and creating the thread.\<close>

definition under_way :: "registration_threads \<Rightarrow> nat" where
  "under_way s = length (filter (\<lambda>p. p \<noteq> Rg_ended) (rt_threads s)) + (if rt_heartbeat s \<in> {Hp_marked, Hp_revoked} then 1 else 0)"

definition registration_inv :: "registration_threads \<Rightarrow> bool" where
  "registration_inv s \<longleftrightarrow> under_way s = (if rt_running s then 1 else 0)"

text \<open>Without faults, a revoked session is being registered anew, unless the client is shutting down.\<close>

definition revoked_inv :: "registration_threads \<Rightarrow> bool" where
  "revoked_inv s \<longleftrightarrow>
     Rg_failed \<notin> set (rt_threads s) \<and>
     (rt_revoked s \<and> \<not> rt_shutdown s \<longrightarrow> rt_heartbeat s = Hp_revoked \<or> Rg_registering \<in> set (rt_threads s))"

lemma length_filter_update:
  "i < length xs \<Longrightarrow> P (xs ! i) = P y \<Longrightarrow> length (filter P (xs[i := y])) = length (filter P xs)"
  "i < length xs \<Longrightarrow> P (xs ! i) \<Longrightarrow> \<not> P y \<Longrightarrow> Suc (length (filter P (xs[i := y]))) = length (filter P xs)"
  by (induction xs arbitrary: i) (auto split: nat.splits simp: nth_Cons)

lemma wait_start_step_inv: "wait_start_step faults s s' \<Longrightarrow> registration_inv s \<Longrightarrow> registration_inv s'"
  by (induction rule: wait_start_step.induct) (auto simp: registration_inv_def under_way_def split: if_splits)

lemma wait_thread_step_inv: "wait_thread_step faults i s s' \<Longrightarrow> registration_inv s \<Longrightarrow> registration_inv s'"
proof (induction rule: wait_thread_step.induct)
  case (finish s)
  then show ?case
    using length_filter_update(2) [of i "rt_threads s" "\<lambda>p. p \<noteq> Rg_ended" Rg_ended]
    by (auto simp: registration_inv_def under_way_def split: if_splits)
qed (auto simp: registration_inv_def under_way_def length_filter_update(1) split: if_splits)

lemma registration_step_inv: "registration_step faults s s' \<Longrightarrow> registration_inv s \<Longrightarrow> registration_inv s'"
proof (induction rule: registration_step.induct)
  case (by_signal s)
  then show ?case by (simp add: registration_inv_def under_way_def)
qed (blast dest: wait_start_step_inv wait_thread_step_inv)+

lemma registration_start_inv: "registration_inv registration_start"
  by (simp add: registration_start_def registration_inv_def under_way_def)

lemma reachable_registration_inv: "(registration_step faults)\<^sup>*\<^sup>* registration_start s \<Longrightarrow> registration_inv s"
  by (induction rule: rtranclp_induct) (blast intro: registration_step_inv registration_start_inv)+

lemma registering_kept:
  "i < length xs \<Longrightarrow> xs ! i \<noteq> Rg_registering \<Longrightarrow> Rg_registering \<in> set xs \<Longrightarrow> Rg_registering \<in> set (xs[i := p])"
  by (metis in_set_conv_nth length_list_update nth_list_update_neq)

lemma failed_absent: "Rg_failed \<notin> set xs \<Longrightarrow> p \<noteq> Rg_failed \<Longrightarrow> Rg_failed \<notin> set (xs[i := p])"
  using set_update_subset_insert [of xs i p] by auto

lemma wait_start_step_revoked: "wait_start_step False s s' \<Longrightarrow> revoked_inv s \<Longrightarrow> revoked_inv s'"
  by (induction rule: wait_start_step.induct) (auto simp: revoked_inv_def)

lemma wait_thread_step_revoked: "wait_thread_step False i s s' \<Longrightarrow> revoked_inv s \<Longrightarrow> revoked_inv s'"
proof (induction rule: wait_thread_step.induct)
  case (revoke_again s)
  then have "Rg_failed \<in> set (rt_threads s)" by (metis nth_mem)
  with revoke_again show ?case by (simp add: revoked_inv_def)
qed (auto simp: revoked_inv_def failed_absent registering_kept)

lemma registration_step_revoked: "registration_step False s s' \<Longrightarrow> revoked_inv s \<Longrightarrow> revoked_inv s'"
proof (induction rule: registration_step.induct)
  case (by_signal s)
  then show ?case by (simp add: revoked_inv_def)
qed (blast dest: wait_start_step_revoked wait_thread_step_revoked)+

lemma reachable_revoked_inv: "(registration_step False)\<^sup>*\<^sup>* registration_start s \<Longrightarrow> revoked_inv s"
  by (induction rule: rtranclp_induct) (simp add: registration_start_def revoked_inv_def, blast intro: registration_step_revoked)

section \<open>A revoked session without a registration\<close>

text \<open>The session is revoked, nobody registers, and the heartbeat thread only sleeps, since it does nothing while the session is revoked.\<close>

definition stalled :: "registration_threads \<Rightarrow> bool" where
  "stalled s \<longleftrightarrow> rt_revoked s \<and> \<not> rt_running s \<and> rt_heartbeat s \<in> {Hp_loop, Hp_ended} \<and> set (rt_threads s) \<subseteq> {Rg_ended}"

lemma stalled_step: "registration_step faults s s' \<Longrightarrow> stalled s \<Longrightarrow> stalled s'"
proof (induction rule: registration_step.induct)
  case (by_heartbeat s s')
  then show ?case by (auto simp: stalled_def elim!: wait_start_stepE)
next
  case (by_thread i s s')
  then have "rt_threads s ! i = Rg_ended" if "i < length (rt_threads s)"
    using that nth_mem by (fastforce simp: stalled_def)
  with by_thread show ?case by (auto elim!: wait_thread_stepE)
qed (simp add: stalled_def)

lemma stalled_forever: "(registration_step faults)\<^sup>*\<^sup>* s s' \<Longrightarrow> stalled s \<Longrightarrow> stalled s'"
  by (induction rule: rtranclp_induct) (blast dest: stalled_step)+

text \<open>From here on, whatever is done, the session is revoked and no registration is under way.\<close>

definition registers_no_more :: "registration_threads \<Rightarrow> bool" where
  "registers_no_more s \<longleftrightarrow> (\<forall>s'. (registration_step True)\<^sup>*\<^sup>* s s' \<longrightarrow> rt_revoked s' \<and> \<not> rt_running s' \<and> under_way s' = 0)"

lemma stalled_no_more: "stalled s \<Longrightarrow> registers_no_more s"
  unfolding registers_no_more_def by (auto dest!: stalled_forever simp: stalled_def under_way_def filter_empty_conv)

section \<open>The functions of the client as steps\<close>

text \<open>\<open>device_start_registration_wait\<close> run by the heartbeat thread without another thread between its reads and writes, and the whole of a
  registration thread, on the two flags as the client's functions leave them.\<close>

lemma wait_start_steps:
  assumes "rt_heartbeat s = Hp_testing" and "\<not> rt_running s"
  shows "(wait_start_step faults)\<^sup>*\<^sup>* s
           (s\<lparr>rt_heartbeat := Hp_loop, rt_running := True, rt_revoked := True, rt_threads := rt_threads s @ [Rg_registering]\<rparr>)"
    and "faults \<Longrightarrow> (wait_start_step faults)\<^sup>*\<^sup>* s (s\<lparr>rt_heartbeat := Hp_loop, rt_running := False, rt_revoked := True\<rparr>)"
proof -
  let ?m = "s\<lparr>rt_heartbeat := Hp_marked, rt_running := True\<rparr>"
  let ?r = "?m\<lparr>rt_heartbeat := Hp_revoked, rt_revoked := True\<rparr>"
  have m: "wait_start_step faults s ?m" by (rule mark [OF assms])
  have "wait_start_step faults ?m ?r" by (rule revoke) simp
  with m have r: "(wait_start_step faults)\<^sup>*\<^sup>* s ?r" by simp
  have "wait_start_step faults ?r (?r\<lparr>rt_heartbeat := Hp_loop, rt_threads := rt_threads ?r @ [Rg_registering]\<rparr>)"
    by (rule create) simp
  with r show "(wait_start_step faults)\<^sup>*\<^sup>* s
      (s\<lparr>rt_heartbeat := Hp_loop, rt_running := True, rt_revoked := True, rt_threads := rt_threads s @ [Rg_registering]\<rparr>)"
    by (elim rtranclp.rtrancl_into_rtrancl) (cases s, simp)
  assume faults
  then have "wait_start_step faults ?r (?r\<lparr>rt_heartbeat := Hp_loop, rt_running := False\<rparr>)" by (intro create_fails) simp
  with r show "(wait_start_step faults)\<^sup>*\<^sup>* s (s\<lparr>rt_heartbeat := Hp_loop, rt_running := False, rt_revoked := True\<rparr>)"
    by (elim rtranclp.rtrancl_into_rtrancl) (cases s, simp)
qed

text \<open>The only registration thread, allowed by the server, fails to apply the registration and returns.\<close>

lemma failed_apply_steps:
  assumes "rt_threads s = [Rg_registering]"
  shows "(registration_step True)\<^sup>*\<^sup>* s (s\<lparr>rt_running := False, rt_revoked := True, rt_threads := [Rg_ended]\<rparr>)"
proof -
  let ?a = "s\<lparr>rt_threads := [Rg_allowed], rt_revoked := False\<rparr>"
  let ?b = "?a\<lparr>rt_threads := [Rg_applying], rt_revoked := False\<rparr>"
  let ?c = "?b\<lparr>rt_threads := [Rg_failed]\<rparr>"
  let ?d = "?c\<lparr>rt_threads := [Rg_finishing], rt_revoked := True\<rparr>"
  let ?e = "?d\<lparr>rt_threads := [Rg_ended], rt_running := False\<rparr>"
  note step = registration_step.by_thread [of True 0]
  have "registration_step True s ?a" using step [OF allowed [of 0 s]] assms by simp
  moreover have "registration_step True ?a ?b" using step [OF unrevoke [of 0 ?a]] by simp
  moreover have "registration_step True ?b ?c" using step [OF apply_fails [of 0 ?b]] by simp
  moreover have "registration_step True ?c ?d" using step [OF revoke_again [of 0 ?c]] by simp
  moreover have "registration_step True ?d ?e" using step [OF finish [of 0 ?d]] by simp
  ultimately have "(registration_step True)\<^sup>*\<^sup>* s ?e" by (meson converse_rtranclp_into_rtranclp rtranclp.rtrancl_refl)
  then show ?thesis by (cases s) simp
qed

lemma wait_start_steps_registration:
  "(wait_start_step faults)\<^sup>*\<^sup>* s s' \<Longrightarrow> (registration_step faults)\<^sup>*\<^sup>* s s'"
  by (induction rule: rtranclp_induct) (auto intro: rtranclp.rtrancl_into_rtrancl registration_step.by_heartbeat)

lemma registration_start_testing:
  "(registration_step faults)\<^sup>*\<^sup>* registration_start (registration_start\<lparr>rt_heartbeat := Hp_testing\<rparr>)"
proof -
  let ?s = "registration_start\<lparr>rt_heartbeat := Hp_sending\<rparr>"
  have "wait_start_step faults registration_start ?s" by (rule head) (simp_all add: registration_start_def)
  moreover have "wait_start_step faults ?s (?s\<lparr>rt_heartbeat := Hp_testing\<rparr>)" by (rule gives_up) simp
  ultimately have "(wait_start_step faults)\<^sup>*\<^sup>* registration_start (?s\<lparr>rt_heartbeat := Hp_testing\<rparr>)"
    by (meson converse_rtranclp_into_rtranclp r_into_rtranclp)
  from wait_start_steps_registration [OF this] show ?thesis by simp
qed

section \<open>Properties\<close>

text \<open>
  C17. Whatever the interleaving of the heartbeat thread, the registration threads and the signal handler, and whether or not threads fail to be
  created, at most one registration is under way, and exactly when the flag \<open>g_registration_wait_running\<close> is set; and when nothing fails, a session
  that is revoked while the client is not shutting down is being registered anew or about to be.
\<close>

theorem single_registration_thread:
  assumes "(registration_step faults)\<^sup>*\<^sup>* registration_start s"
  shows "under_way s = (if rt_running s then 1 else 0) \<and>
     (\<not> faults \<and> rt_revoked s \<and> \<not> rt_shutdown s \<longrightarrow> rt_heartbeat s = Hp_revoked \<or> Rg_registering \<in> set (rt_threads s))"
  using reachable_registration_inv [OF assms] reachable_revoked_inv [of s] assms
  by (auto simp: registration_inv_def revoked_inv_def)

text \<open>
  C33. The client can stop registering for good, without any signal: when the registration thread cannot be created, and also when the server has
  allowed the registration but it cannot be applied, the state reached is one from which, whatever happens, the session stays revoked and no
  registration is ever under way again.
\<close>

theorem failed_reregistration_stalls:
  "(\<exists>s. (registration_step True)\<^sup>*\<^sup>* registration_start s \<and> \<not> rt_shutdown s \<and> rt_threads s = [] \<and> registers_no_more s) \<and>
   (\<exists>s. (registration_step True)\<^sup>*\<^sup>* registration_start s \<and> \<not> rt_shutdown s \<and> rt_threads s = [Rg_ended] \<and> registers_no_more s)"
proof
  let ?t = "registration_start\<lparr>rt_heartbeat := Hp_testing\<rparr>"
  let ?s = "?t\<lparr>rt_heartbeat := Hp_loop, rt_running := False, rt_revoked := True\<rparr>"
  have "(wait_start_step True)\<^sup>*\<^sup>* ?t ?s" by (rule wait_start_steps(2)) (simp_all add: registration_start_def)
  from registration_start_testing wait_start_steps_registration [OF this]
  have "(registration_step True)\<^sup>*\<^sup>* registration_start ?s" by (rule rtranclp_trans)
  then show "\<exists>s. (registration_step True)\<^sup>*\<^sup>* registration_start s \<and> \<not> rt_shutdown s \<and> rt_threads s = [] \<and> registers_no_more s"
    by (intro exI [of _ ?s]) (simp add: registration_start_def stalled_no_more stalled_def)
  let ?c = "?t\<lparr>rt_heartbeat := Hp_loop, rt_running := True, rt_revoked := True, rt_threads := rt_threads ?t @ [Rg_registering]\<rparr>"
  let ?e = "?c\<lparr>rt_running := False, rt_revoked := True, rt_threads := [Rg_ended]\<rparr>"
  have "(wait_start_step True)\<^sup>*\<^sup>* ?t ?c" by (rule wait_start_steps(1)) (simp_all add: registration_start_def)
  from registration_start_testing wait_start_steps_registration [OF this]
  have "(registration_step True)\<^sup>*\<^sup>* registration_start ?c" by (rule rtranclp_trans)
  moreover have "(registration_step True)\<^sup>*\<^sup>* ?c ?e"
    by (rule failed_apply_steps) (simp add: registration_start_def)
  ultimately have "(registration_step True)\<^sup>*\<^sup>* registration_start ?e" by (rule rtranclp_trans)
  then show "\<exists>s. (registration_step True)\<^sup>*\<^sup>* registration_start s \<and> \<not> rt_shutdown s \<and> rt_threads s = [Rg_ended] \<and> registers_no_more s"
    by (intro exI [of _ ?e]) (simp add: registration_start_def stalled_no_more stalled_def)
qed

text \<open>The heartbeat thread has given up and created a registration thread.\<close>

lemma single_registration_thread_witness:
  "under_way \<lparr>rt_running = True, rt_revoked = True, rt_shutdown = False, rt_heartbeat = Hp_loop, rt_threads = [Rg_registering]\<rparr> = 1 \<and>
   Rg_registering \<in> set (rt_threads \<lparr>rt_running = True, rt_revoked = True, rt_shutdown = False, rt_heartbeat = Hp_loop,
     rt_threads = [Rg_registering]\<rparr>)"
proof -
  let ?s = "\<lparr>rt_running = True, rt_revoked = True, rt_shutdown = False, rt_heartbeat = Hp_loop, rt_threads = [Rg_registering]\<rparr>"
  let ?t = "registration_start\<lparr>rt_heartbeat := Hp_testing\<rparr>"
  have "(wait_start_step False)\<^sup>*\<^sup>* ?t ?s"
    using wait_start_steps(1) [of ?t False] by (simp add: registration_start_def)
  from registration_start_testing wait_start_steps_registration [OF this]
  have "(registration_step False)\<^sup>*\<^sup>* registration_start ?s" by (rule rtranclp_trans)
  from single_registration_thread [OF this] show ?thesis by simp
qed

end
