(* ===== verification/Log_Files.thy ===== *)
theory Log_Files
  imports Command_Line
begin

text \<open>
  The log of both programs, \<open>src/server/common/log/logMsg.c\<close> (the client has a copy that differs in the level after opening): priorities, writing a line, and the
  rotation of the log file through its numbered backups. The files are a map from names to contents; what the calls answer during one message is
  \<open>log_env\<close>. Opening a file logs a line itself, so a message may cause another one: there is one \<open>log_env\<close> for each.
\<close>

section \<open>Priorities\<close>

definition priName :: "string list" where
  "priName = [''EMERG'', ''ALERT'', ''CRIT'', ''ERR'', ''WARNING'', ''NOTICE'', ''INFO'', ''DEBUG'']"

definition logMsgStrToPriority :: "string \<Rightarrow> int" where
  "logMsgStrToPriority priority =
     (let p = (if priority = ''LOG_'' then drop 4 priority else priority)
      in case first_index (\<lambda>n. p = n) priName of None \<Rightarrow> -1 | Some i \<Rightarrow> int i)"

definition logMsgPriorityToStr :: "int \<Rightarrow> string option" where
  "logMsgPriorityToStr priority = (if 0 \<le> priority \<and> priority < int (length priName) then Some (priName ! nat priority) else None)"

section \<open>State\<close>

type_synonym log_files = "string \<Rightarrow> string option"

text \<open>\<open>mlog\<close>; \<open>ml_file_open\<close>: \<open>logFd\<close> is the log file, not standard error.\<close>

record log_state =
  ml_priority :: int
  ml_filename :: string
  ml_file_open :: bool
  ml_backups :: nat
  ml_counter :: u64
  ml_files :: log_files

definition size_per_logfile :: nat where
  "size_per_logfile = 5000000"

definition logMsgInit :: "log_state \<Rightarrow> log_state" where
  "logMsgInit st = st\<lparr>ml_priority := 7, ml_filename := [], ml_file_open := False, ml_backups := 3, ml_counter := 0\<rparr>"

text \<open>
  The answers during one message: the two calls of \<open>stat\<close> on the log file, \<open>fclose\<close>, for the \<open>i\<close>-th file whether \<open>stat\<close> fails with another error than
  \<open>ENOENT\<close> and whether \<open>rename\<close> succeeds, \<open>fopen\<close>, and the line that opening the file logs.
\<close>

record log_env =
  le_stat_ok :: bool
  le_restat_ok :: bool
  le_fclose_ok :: bool
  le_stat_error :: "nat \<Rightarrow> bool"
  le_rename_ok :: "nat \<Rightarrow> bool"
  le_fopen_ok :: bool
  le_opened_line :: string

definition handleCriticalError :: "log_state \<Rightarrow> log_state" where
  "handleCriticalError st = st\<lparr>ml_file_open := False, ml_filename := []\<rparr>"

section \<open>Rotation\<close>

definition backup_name :: "string \<Rightarrow> nat \<Rightarrow> string" where
  "backup_name name i = (if i = 0 then name else name @ print_base 10 i)"

text \<open>The loop of \<open>rotateFiles\<close>, from the last backup to the log file itself.\<close>

fun move_files :: "log_env \<Rightarrow> nat \<Rightarrow> log_state \<Rightarrow> bool \<times> log_state" where
  "move_files e 0 st = (True, st)"
| "move_files e (Suc i) st =
     (let old = backup_name (ml_filename st) i; new = backup_name (ml_filename st) (Suc i)
      in if le_stat_error e i then (False, handleCriticalError st)
         else case ml_files st old of
                None \<Rightarrow> move_files e i st
              | Some c \<Rightarrow>
                  if le_rename_ok e i then move_files e i (st\<lparr>ml_files := (ml_files st)(old := None, new := Some c)\<rparr>)
                  else (False, handleCriticalError st))"

text \<open>\<open>fopen (.., "a+")\<close>, without the line it logs.\<close>

definition open_file :: "log_env \<Rightarrow> log_state \<Rightarrow> bool \<times> log_state" where
  "open_file e st =
     (if le_fopen_ok e then
        (True, st\<lparr>ml_file_open := True,
                  ml_files := (case ml_files st (ml_filename st) of None \<Rightarrow> (ml_files st)(ml_filename st := Some []) | Some _ \<Rightarrow> ml_files st)\<rparr>)
      else (False, handleCriticalError st))"

definition append_line :: "string \<Rightarrow> log_state \<Rightarrow> log_state" where
  "append_line line st =
     (let st1 = st\<lparr>ml_counter := ml_counter st + 1\<rparr>
      in if ml_file_open st
         then st1\<lparr>ml_files := (ml_files st)(ml_filename st := Some (c_string_or [] (ml_files st (ml_filename st)) @ line))\<rparr>
         else st1)"

text \<open>
  \<open>vlogMsg\<close> with \<open>rotateFilesIfNecessary\<close>, \<open>rotateFiles\<close> and \<open>openLogFile\<close>, which logs at the level INFO. None: the size is read from an uninitialised structure after
  a failed \<open>stat\<close>, or the observations are used up.
\<close>

fun vlogMsg :: "log_env list \<Rightarrow> string \<Rightarrow> log_state \<Rightarrow> log_state option" where
  "vlogMsg [] line st = None"
| "vlogMsg (e # es) line st =
     (let st1 = append_line line st
      in if \<not> ml_file_open st1 then Some st1
         else case (if le_stat_ok e then ml_files st1 (ml_filename st1) else None) of
                None \<Rightarrow> Some (handleCriticalError st1)
              | Some c \<Rightarrow>
                  if length c < size_per_logfile then Some st1
                  else if \<not> le_restat_ok e then None
                  else
                    (case move_files e (ml_backups st1) (if le_fclose_ok e then st1 else handleCriticalError st1) of
                       (False, st2) \<Rightarrow> Some st2
                     | (True, st2) \<Rightarrow>
                         (case open_file e st2 of
                            (False, st3) \<Rightarrow> Some st3
                          | (True, st3) \<Rightarrow> if 6 \<le> ml_priority st3 then vlogMsg es (le_opened_line e) st3 else Some st3)))"

text \<open>\<open>logMsg\<close>; the assertion ends the process for any other priority that passes the test.\<close>

definition logMsg :: "log_env list \<Rightarrow> int \<Rightarrow> string \<Rightarrow> log_state \<Rightarrow> log_state option" where
  "logMsg es pri line st =
     (if pri \<le> ml_priority st then (if 0 \<le> pri \<and> pri \<le> 7 then vlogMsg es line st else None) else Some st)"

text \<open>\<open>logMsgOpen\<close>: after it only emergencies are logged, until \<open>logMsgSetPriority\<close>; so the line of \<open>openLogFile\<close> is not.\<close>

definition logMsgOpen :: "log_env \<Rightarrow> string \<Rightarrow> log_state \<Rightarrow> int \<times> log_state" where
  "logMsgOpen e filename st =
     (case open_file e (st\<lparr>ml_filename := filename, ml_priority := 0\<rparr>) of (ok, st') \<Rightarrow> (if ok then 0 else -1, st'))"

definition logMsgSetPriority :: "int \<Rightarrow> log_state \<Rightarrow> log_state option" where
  "logMsgSetPriority pri st = (if 0 \<le> pri \<and> pri \<le> 7 then Some (st\<lparr>ml_priority := pri\<rparr>) else None)"

section \<open>Lemmas on priorities\<close>

text \<open>Names and numbers of priorities correspond; with the prefix \<open>LOG_\<close> no name is recognised, since it is compared as a whole.\<close>

lemma priority_roundtrip: "0 \<le> p \<Longrightarrow> p \<le> 7 \<Longrightarrow> \<exists>s. logMsgPriorityToStr p = Some s \<and> logMsgStrToPriority s = p"
proof -
  assume "0 \<le> p" "p \<le> 7"
  then have "p \<in> {0, 1, 2, 3, 4, 5, 6, 7}" by auto
  then show ?thesis by (auto simp: logMsgPriorityToStr_def logMsgStrToPriority_def priName_def)
qed

lemma log_prefix_not_recognised: "logMsgStrToPriority (''LOG_'' @ s) = -1"
  by (cases s) (simp_all add: logMsgStrToPriority_def priName_def)

section \<open>Lemmas on rotation\<close>

lemma print_base_inj: "print_base 10 i = print_base 10 j \<Longrightarrow> i = j"
  by (metis digits_value_print of_nat_eq_iff)

lemma backup_name_inj [simp]: "backup_name name i = backup_name name j \<longleftrightarrow> i = j"
  by (auto simp: backup_name_def print_base_not_Nil dest: print_base_inj)

text \<open>What a rotation through \<open>n\<close> backups does to the files: every name takes what the name before it had.\<close>

definition shifted :: "string \<Rightarrow> nat \<Rightarrow> log_files \<Rightarrow> log_files \<Rightarrow> bool" where
  "shifted name n fs fs' \<longleftrightarrow>
     (\<forall>i < n. fs' (backup_name name (Suc i)) =
        (case fs (backup_name name i) of Some c \<Rightarrow> Some c | None \<Rightarrow> if Suc i = n then fs (backup_name name n) else None)) \<and>
     fs' name = (if 0 < n then None else fs name) \<and> (\<forall>p. (\<forall>i \<le> n. p \<noteq> backup_name name i) \<longrightarrow> fs' p = fs p)"

definition moves_ok :: "log_env \<Rightarrow> bool" where
  "moves_ok e \<longleftrightarrow> (\<forall>i. \<not> le_stat_error e i \<and> le_rename_ok e i)"

lemma move_files_shifts:
  assumes "moves_ok e"
  shows "\<exists>fs'. move_files e n st = (True, st\<lparr>ml_files := fs'\<rparr>) \<and> shifted (ml_filename st) n (ml_files st) fs'"
proof (induction n arbitrary: st)
  case 0
  show ?case by (intro exI [of _ "ml_files st"]) (simp add: shifted_def backup_name_def)
next
  case (Suc n)
  let ?name = "backup_name (ml_filename st)"
  define fs1 where "fs1 = (case ml_files st (?name n) of None \<Rightarrow> ml_files st | Some c \<Rightarrow> (ml_files st)(?name n := None, ?name (Suc n) := Some c))"
  obtain fs' where run: "move_files e n (st\<lparr>ml_files := fs1\<rparr>) = (True, st\<lparr>ml_files := fs'\<rparr>)" and sh: "shifted (ml_filename st) n fs1 fs'"
    using Suc.IH [of "st\<lparr>ml_files := fs1\<rparr>"] by auto
  have step: "move_files e (Suc n) st = (True, st\<lparr>ml_files := fs'\<rparr>)"
    using assms run by (auto simp: moves_ok_def fs1_def Let_def split: option.splits)
  have gone: "fs1 (?name n) = None" and before: "\<And>i. i < n \<Longrightarrow> fs1 (?name i) = ml_files st (?name i)"
    and last: "fs1 (?name (Suc n)) = (case ml_files st (?name n) of Some c \<Rightarrow> Some c | None \<Rightarrow> ml_files st (?name (Suc n)))"
    and rest: "\<And>p. (\<forall>i \<le> Suc n. p \<noteq> ?name i) \<Longrightarrow> fs1 p = ml_files st p"
    by (auto simp: fs1_def split: option.splits)
  have tail: "fs' (?name (Suc n)) = fs1 (?name (Suc n))" and others: "\<And>p. (\<forall>i \<le> Suc n. p \<noteq> ?name i) \<Longrightarrow> fs' p = ml_files st p"
    using sh rest by (auto simp: shifted_def)
  have inner: "fs' (?name (Suc i)) = ml_files st (?name i)" if "i < n" for i
    using sh that gone before [OF that] by (auto simp: shifted_def split: option.splits)
  have head: "fs' (ml_filename st) = None"
    using sh gone by (cases n) (auto simp: shifted_def backup_name_def split: option.splits)
  have "shifted (ml_filename st) (Suc n) (ml_files st) fs'"
    unfolding shifted_def
  proof (intro conjI allI impI)
    fix i assume "i < Suc n"
    then show "fs' (?name (Suc i)) = (case ml_files st (?name i) of None \<Rightarrow> if Suc i = Suc n then ml_files st (?name (Suc n)) else None | Some c \<Rightarrow> Some c)"
      using inner tail last by (cases "i = n") (auto split: option.splits)
  qed (use head others in auto)
  with step show ?case by blast
qed

section \<open>Writing and rotating\<close>

definition log_ready :: "log_state \<Rightarrow> bool" where
  "log_ready st \<longleftrightarrow> ml_file_open st \<and> 0 < ml_backups st \<and>
     (\<exists>c. ml_files st (ml_filename st) = Some c \<and> length c < size_per_logfile)"

definition log_healthy :: "log_env \<Rightarrow> bool" where
  "log_healthy e \<longleftrightarrow> le_stat_ok e \<and> le_restat_ok e \<and> le_fclose_ok e \<and> moves_ok e \<and> le_fopen_ok e \<and> length (le_opened_line e) < size_per_logfile"

text \<open>The configuration of the log, which a message does not change.\<close>

definition same_log :: "log_state \<Rightarrow> log_state \<Rightarrow> bool" where
  "same_log st st' \<longleftrightarrow> ml_priority st' = ml_priority st \<and> ml_filename st' = ml_filename st \<and> ml_backups st' = ml_backups st"

lemma vlogMsg_small:
  assumes "ml_file_open st" and "ml_files st (ml_filename st) = Some c" and "length (c @ line) < size_per_logfile" and "le_stat_ok e"
  shows "vlogMsg (e # es) line st = Some (append_line line st)"
  using assms by (simp add: append_line_def c_string_or_def Let_def)

lemma append_line_facts:
  assumes "ml_file_open st" and "ml_files st (ml_filename st) = Some c"
  shows "ml_files (append_line line st) = (ml_files st)(ml_filename st := Some (c @ line))" "ml_file_open (append_line line st)"
    "same_log st (append_line line st)"
  using assms by (simp_all add: append_line_def c_string_or_def same_log_def Let_def)

text \<open>A line that fills the file: the files move on, and the new file holds the line about its opening if that level is logged.\<close>

lemma vlogMsg_full:
  assumes "ml_file_open st" "0 < ml_backups st" and c: "ml_files st (ml_filename st) = Some c" and full: "size_per_logfile \<le> length (c @ line)"
    and e1: "log_healthy e1" and e2: "le_stat_ok e2"
  shows "\<exists>st' fs'. vlogMsg [e1, e2] line st = Some st' \<and> same_log st st' \<and> ml_file_open st' \<and>
     shifted (ml_filename st) (ml_backups st) ((ml_files st)(ml_filename st := Some (c @ line))) fs' \<and>
     ml_files st' = fs'(ml_filename st := Some (if 6 \<le> ml_priority st then le_opened_line e1 else []))"
proof -
  let ?st1 = "append_line line st"
  note a = append_line_facts [OF assms(1) c, of line]
  obtain fs' where mv: "move_files e1 (ml_backups st) ?st1 = (True, ?st1\<lparr>ml_files := fs'\<rparr>)"
    and sh: "shifted (ml_filename st) (ml_backups st) ((ml_files st)(ml_filename st := Some (c @ line))) fs'"
    using move_files_shifts [of e1 "ml_backups st" ?st1] e1 a by (auto simp: log_healthy_def same_log_def)
  define st3 where "st3 = ?st1\<lparr>ml_file_open := True, ml_files := fs'(ml_filename st := Some [])\<rparr>"
  have op: "open_file e1 (?st1\<lparr>ml_files := fs'\<rparr>) = (True, st3)"
    using e1 sh a(3) assms(2) by (simp add: open_file_def st3_def log_healthy_def shifted_def same_log_def)
  have st3: "ml_file_open st3" "ml_filename st3 = ml_filename st" "ml_priority st3 = ml_priority st" "ml_backups st3 = ml_backups st"
    "ml_files st3 (ml_filename st3) = Some []" "ml_files st3 = fs'(ml_filename st := Some [])"
    using a(3) by (simp_all add: st3_def same_log_def)
  have run: "vlogMsg [e1, e2] line st = (if 6 \<le> ml_priority st then vlogMsg [e2] (le_opened_line e1) st3 else Some st3)"
    using e1 full a mv op st3 by (simp add: log_healthy_def same_log_def Let_def)
  show ?thesis
  proof (cases "6 \<le> ml_priority st")
    case True
    have "vlogMsg [e2] (le_opened_line e1) st3 = Some (append_line (le_opened_line e1) st3)"
      using e1 e2 st3 by (intro vlogMsg_small [where c = "[]"]) (simp_all add: log_healthy_def)
    with True run sh append_line_facts [OF st3(1,5), of "le_opened_line e1"] st3 show ?thesis
      by (auto simp: same_log_def)
  next
    case False
    with run sh st3 show ?thesis by (auto simp: same_log_def)
  qed
qed

text \<open>The names of the files after a rotation that started with the content \<open>c\<close> in the log file and left \<open>new\<close> there.\<close>

lemma shifted_files:
  assumes "shifted name n (fs(name := Some c)) fs'" and "0 < n" and "fs'' = fs'(name := Some new)"
  shows "fs'' (backup_name name 1) = Some c"
    and "0 < i \<Longrightarrow> i < n \<Longrightarrow> fs (backup_name name i) \<noteq> None \<Longrightarrow> fs'' (backup_name name (Suc i)) = fs (backup_name name i)"
    and "(\<forall>i \<le> n. p \<noteq> backup_name name i) \<Longrightarrow> fs'' p = fs p"
proof -
  have name0: "backup_name name 0 = name" by (simp add: backup_name_def)
  have ne: "backup_name name (Suc i) \<noteq> name" for i
    by (metis name0 backup_name_inj nat.distinct(1))
  have step: "fs' (backup_name name (Suc i)) = (case (fs(name := Some c)) (backup_name name i) of Some c \<Rightarrow> Some c
      | None \<Rightarrow> if Suc i = n then (fs(name := Some c)) (backup_name name n) else None)" if "i < n" for i
    using assms(1) that by (simp add: shifted_def)
  show "fs'' (backup_name name 1) = Some c"
    using step [OF assms(2)] ne [of 0] by (simp add: assms(3) name0)
  show "fs'' (backup_name name (Suc i)) = fs (backup_name name i)" if i: "0 < i" "i < n" "fs (backup_name name i) \<noteq> None"
    using step [OF i(2)] i(3) ne gr0_implies_Suc [OF i(1)] by (auto simp: assms(3))
  show "fs'' p = fs p" if p: "\<forall>i \<le> n. p \<noteq> backup_name name i"
  proof -
    have "p \<noteq> name" using p name0 by (metis le0)
    with assms(1) p show ?thesis by (simp add: assms(3) shifted_def)
  qed
qed

text \<open>
  C39. Logging loses nothing but the oldest backup: when its file operations succeed, a message that is due at the level is appended to the log file, and if that fills the
  file, the log file with the message becomes backup 1 and every backup \<open>i\<close> becomes backup \<open>i + 1\<close>, with only the last one overwritten; logging returns, the log file is
  below its limit again, and no other file is touched.
\<close>

theorem rotation_keeps_log:
  assumes "log_ready st" and "ml_files st (ml_filename st) = Some c" and "log_healthy e1" and "le_stat_ok e2"
    and "0 \<le> pri" and "pri \<le> 7" and "pri \<le> ml_priority st"
  shows "\<exists>st'. logMsg [e1, e2] pri line st = Some st' \<and> log_ready st' \<and> same_log st st' \<and>
     (if length c + length line < size_per_logfile then ml_files st' = (ml_files st)(ml_filename st := Some (c @ line))
      else ml_files st' (backup_name (ml_filename st) 1) = Some (c @ line) \<and>
        (\<forall>i. 0 < i \<and> i < ml_backups st \<and> ml_files st (backup_name (ml_filename st) i) \<noteq> None \<longrightarrow>
           ml_files st' (backup_name (ml_filename st) (Suc i)) = ml_files st (backup_name (ml_filename st) i)) \<and>
        (\<forall>p. (\<forall>i \<le> ml_backups st. p \<noteq> backup_name (ml_filename st) i) \<longrightarrow> ml_files st' p = ml_files st p))"
proof -
  have msg: "logMsg [e1, e2] pri line st = vlogMsg [e1, e2] line st"
    using assms(5-7) by (simp add: logMsg_def)
  have ready: "ml_file_open st" "0 < ml_backups st" using assms(1) by (auto simp: log_ready_def)
  show ?thesis
  proof (cases "length c + length line < size_per_logfile")
    case True
    then have "vlogMsg [e1, e2] line st = Some (append_line line st)"
      using assms(2,3) ready by (intro vlogMsg_small) (auto simp: log_healthy_def)
    with True msg append_line_facts [OF ready(1) assms(2), of line] ready show ?thesis
      by (auto simp: log_ready_def same_log_def)
  next
    case False
    then have "size_per_logfile \<le> length (c @ line)" by simp
    from vlogMsg_full [OF ready assms(2) this assms(3,4)] obtain st' fs'
      where run: "vlogMsg [e1, e2] line st = Some st'" "same_log st st'" "ml_file_open st'"
        and sh: "shifted (ml_filename st) (ml_backups st) ((ml_files st)(ml_filename st := Some (c @ line))) fs'"
        and files: "ml_files st' = fs'(ml_filename st := Some (if 6 \<le> ml_priority st then le_opened_line e1 else []))" by blast
    have "log_ready st'"
      using run(2,3) files ready assms(3) by (auto simp: log_ready_def same_log_def log_healthy_def size_per_logfile_def)
    moreover note shifted_files [OF sh ready(2) files]
    ultimately show ?thesis using False msg run by auto
  qed
qed

section \<open>The size of the log\<close>

text \<open>Messages one after another, each with its own answers.\<close>

fun log_all :: "(log_env list \<times> int \<times> string) list \<Rightarrow> log_state \<Rightarrow> log_state option" where
  "log_all [] st = Some st"
| "log_all ((es, pri, line) # ms) st = (case logMsg es pri line st of None \<Rightarrow> None | Some st' \<Rightarrow> log_all ms st')"

definition message_ok :: "nat \<Rightarrow> log_env list \<times> int \<times> string \<Rightarrow> bool" where
  "message_ok n m \<longleftrightarrow>
     (case m of (es, pri, line) \<Rightarrow> (\<exists>e1 e2. es = [e1, e2] \<and> log_healthy e1 \<and> le_stat_ok e2) \<and> 0 \<le> pri \<and> pri \<le> 7 \<and> length line \<le> n)"

definition log_bounded :: "nat \<Rightarrow> log_state \<Rightarrow> bool" where
  "log_bounded n st \<longleftrightarrow> log_ready st \<and>
     (\<forall>i \<le> ml_backups st. \<forall>c. ml_files st (backup_name (ml_filename st) i) = Some c \<longrightarrow> length c < size_per_logfile + n)"

lemma shifted_bounded:
  assumes sh: "shifted name k fs fs'" and b: "\<And>i c. i \<le> k \<Longrightarrow> fs (backup_name name i) = Some c \<Longrightarrow> length c < m"
    and "i \<le> k" and "fs' (backup_name name i) = Some c"
  shows "length c < m"
proof (cases i)
  case 0
  with sh assms(3,4) b show ?thesis by (auto simp: shifted_def backup_name_def split: if_splits)
next
  case (Suc j)
  then have "fs' (backup_name name i) = (case fs (backup_name name j) of Some c \<Rightarrow> Some c | None \<Rightarrow> if i = k then fs (backup_name name k) else None)"
    using sh assms(3) by (auto simp: shifted_def)
  then show ?thesis
    using assms(3,4) b [of j] b [of k] Suc by (auto split: option.splits if_splits)
qed

lemma vlogMsg_bounded:
  assumes bnd: "log_bounded n st" and e: "log_healthy e1" "le_stat_ok e2" and len: "length line \<le> n"
  shows "\<exists>st'. vlogMsg [e1, e2] line st = Some st' \<and> log_bounded n st' \<and> same_log st st'"
proof -
  obtain c where ready: "ml_file_open st" "0 < ml_backups st" and c: "ml_files st (ml_filename st) = Some c" "length c < size_per_logfile"
    using bnd by (auto simp: log_bounded_def log_ready_def)
  have name0: "backup_name (ml_filename st) 0 = ml_filename st" by (simp add: backup_name_def)
  have ne: "backup_name (ml_filename st) i = ml_filename st \<longleftrightarrow> i = 0" for i
    by (metis name0 backup_name_inj)
  have old: "length d < size_per_logfile + n" if "i \<le> ml_backups st" "((ml_files st)(ml_filename st := Some (c @ line))) (backup_name (ml_filename st) i) = Some d" for i d
    using that bnd c(2) len by (auto simp: log_bounded_def ne split: if_splits)
  show ?thesis
  proof (cases "length (c @ line) < size_per_logfile")
    case True
    have "vlogMsg [e1, e2] line st = Some (append_line line st)"
      using True e ready c by (intro vlogMsg_small) (auto simp: log_healthy_def)
    moreover have "log_bounded n (append_line line st)"
      using append_line_facts [OF ready(1) c(1), of line] ready True old by (auto simp: log_bounded_def log_ready_def same_log_def)
    ultimately show ?thesis using append_line_facts [OF ready(1) c(1), of line] by blast
  next
    case False
    then have full: "size_per_logfile \<le> length (c @ line)" by simp
    from vlogMsg_full [OF ready c(1) full e] obtain st' fs'
      where run: "vlogMsg [e1, e2] line st = Some st'" "same_log st st'" "ml_file_open st'"
        and sh: "shifted (ml_filename st) (ml_backups st) ((ml_files st)(ml_filename st := Some (c @ line))) fs'"
        and files: "ml_files st' = fs'(ml_filename st := Some (if 6 \<le> ml_priority st then le_opened_line e1 else []))" by blast
    have small: "length (if 6 \<le> ml_priority st then le_opened_line e1 else []) < size_per_logfile"
      using e by (simp add: log_healthy_def size_per_logfile_def)
    have "length d < size_per_logfile + n" if "i \<le> ml_backups st" "ml_files st' (backup_name (ml_filename st) i) = Some d" for i d
      using shifted_bounded [OF sh old that(1)] that(2) small by (auto simp: files ne split: if_splits)
    then have "log_bounded n st'"
      using run(2,3) ready files small by (auto simp: log_bounded_def log_ready_def same_log_def)
    with run show ?thesis by blast
  qed
qed

text \<open>
  The log cannot fill the disk: however many messages are logged, each of at most \<open>n\<close> characters and with its file operations succeeding, every one of them
  returns, and afterwards the log file is shorter than the limit of five million bytes and every backup shorter than the limit plus \<open>n\<close>.
\<close>

theorem log_size_bounded:
  assumes "list_all (message_ok n) ms" and "log_bounded n st"
  shows "\<exists>st'. log_all ms st = Some st' \<and> log_bounded n st' \<and> ml_backups st' = ml_backups st"
  using assms
proof (induction ms arbitrary: st)
  case (Cons m ms)
  obtain e1 e2 pri line where m: "m = ([e1, e2], pri, line)" and e: "log_healthy e1" "le_stat_ok e2" and p: "0 \<le> pri" "pri \<le> 7" "length line \<le> n"
    using Cons.prems(1) by (auto simp: message_ok_def split: prod.splits)
  obtain st' where v: "vlogMsg [e1, e2] line st = Some st'" "log_bounded n st'" "same_log st st'"
    using vlogMsg_bounded [OF Cons.prems(2) e p(3)] by blast
  define st1 where "st1 = (if pri \<le> ml_priority st then st' else st)"
  have one: "logMsg [e1, e2] pri line st = Some st1" "log_bounded n st1" "ml_backups st1 = ml_backups st"
    using v p Cons.prems(2) by (simp_all add: logMsg_def same_log_def st1_def del: vlogMsg.simps)
  with Cons.IH [OF _ one(2)] Cons.prems(1) m show ?case by (simp add: one)
qed auto

section \<open>Concrete runs\<close>

definition example_log_env :: log_env where
  "example_log_env = \<lparr>le_stat_ok = True, le_restat_ok = True, le_fclose_ok = True, le_stat_error = (\<lambda>_. False), le_rename_ok = (\<lambda>_. True),
     le_fopen_ok = True, le_opened_line = ''opened''\<rparr>"

definition example_log :: "string \<Rightarrow> log_state" where
  "example_log c = \<lparr>ml_priority = 7, ml_filename = ''l'', ml_file_open = True, ml_backups = 3, ml_counter = 0, ml_files = [''l'' \<mapsto> c]\<rparr>"

text \<open>A log file of 4999999 characters and one more.\<close>

theorem rotation_keeps_log_witness:
  "\<exists>c st'. length c = 4999999 \<and> logMsg [example_log_env, example_log_env] 6 ''x'' (example_log c) = Some st' \<and>
     ml_files st' (backup_name ''l'' 1) = Some (c @ ''x'')"
proof -
  obtain c :: string where c: "length c = 4999999" using Ex_list_of_length by blast
  have "log_ready (example_log c)" "log_healthy example_log_env"
    using c by (auto simp: log_ready_def example_log_def size_per_logfile_def log_healthy_def example_log_env_def moves_ok_def)
  from rotation_keeps_log [OF this(1) _ this(2), of c example_log_env 6 "''x''"] c show ?thesis
    by (auto simp: example_log_def example_log_env_def size_per_logfile_def)
qed

theorem log_size_bounded_witness:
  "\<exists>st'. log_all [([example_log_env, example_log_env], 6, ''first''), ([example_log_env, example_log_env], 3, ''second'')] (example_log ''a'') = Some st' \<and>
     log_bounded 10 st'"
proof -
  have "list_all (message_ok 10) [([example_log_env, example_log_env], 6, ''first''), ([example_log_env, example_log_env], 3, ''second'')]"
    by (simp add: message_ok_def log_healthy_def example_log_env_def moves_ok_def size_per_logfile_def)
  moreover have "log_bounded 10 (example_log ''a'')"
    by (auto simp: log_bounded_def log_ready_def example_log_def size_per_logfile_def split: if_splits)
  ultimately show ?thesis
    using log_size_bounded [of 10 _ "example_log ''a''"] by blast
qed

section \<open>The text of a line\<close>

definition priNameShort :: "string list" where
  "priNameShort = [''EMRG'', ''ALRT'', ''CRIT'', ''ERR '', ''WARN'', ''NOTC'', ''INFO'', ''DBUG'']"

text \<open>\<open>struct tm\<close> as \<open>localtime_r\<close> fills it; without an answer the date is replaced.\<close>

record broken_time =
  tm_mday :: nat
  tm_mon :: nat
  tm_year :: nat
  tm_hour :: nat
  tm_min :: nat
  tm_sec :: nat

definition local_time :: "broken_time option \<Rightarrow> broken_time" where
  "local_time answer =
     (case answer of Some t \<Rightarrow> t
      | None \<Rightarrow> \<lparr>tm_mday = 1, tm_mon = 0, tm_year = 123, tm_hour = 0, tm_min = 0, tm_sec = 0\<rparr>)"

text \<open>\<open>%0nd\<close> of a number that is not negative.\<close>

definition zero_padded :: "nat \<Rightarrow> nat \<Rightarrow> string" where
  "zero_padded n x = replicate (n - length (print_base 10 x)) (CHR ''0'') @ print_base 10 x"

text \<open>\<open>strftime (.., "%d.%m.%Y-%H:%M:%S", ..)\<close> and the milliseconds, in a buffer of 256 bytes.\<close>

definition log_date :: "broken_time \<Rightarrow> nat \<Rightarrow> string" where
  "log_date t usec =
     take 255 (zero_padded 2 (tm_mday t) @ ''.'' @ zero_padded 2 (tm_mon t + 1) @ ''.'' @ print_base 10 (tm_year t + 1900) @ ''-'' @
               zero_padded 2 (tm_hour t) @ '':'' @ zero_padded 2 (tm_min t) @ '':'' @ zero_padded 2 (tm_sec t) @
               ''.'' @ zero_padded 3 (usec div 1000))"

text \<open>The three \<open>fprintf\<close>s; \<open>cntr\<close> is the counter after its increment, \<open>text\<close> what the format of the message comes to.\<close>

definition log_line :: "broken_time option \<Rightarrow> nat \<Rightarrow> u64 \<Rightarrow> string \<Rightarrow> nat \<Rightarrow> int \<Rightarrow> string \<Rightarrow> string" where
  "log_line answer usec cntr file line pri text =
     zero_padded 5 (unat (cntr mod 100000)) @ '' '' @ log_date (local_time answer) usec @ '' : '' @ file @ '':'' @ print_base 10 line @
     '' ['' @ priNameShort ! nat pri @ '']:'' @ text @ [CHR 0x0A]"

definition logMsg_impl :: "log_env list \<Rightarrow> broken_time option \<Rightarrow> nat \<Rightarrow> int \<Rightarrow> string \<Rightarrow> nat \<Rightarrow> string \<Rightarrow> log_state \<Rightarrow> log_state option" where
  "logMsg_impl es answer usec pri file line text st = logMsg es pri (log_line answer usec (ml_counter st + 1) file line pri text) st"

lemma digits_value_zeros: "digits_value (replicate n (CHR ''0'') @ s) = digits_value s"
proof (induction n)
  case (Suc n)
  have "is_digit (CHR ''0'')" by (simp add: is_digit_def)
  with Suc show ?case by (simp add: digits_value_def)
qed simp

text \<open>A line starts with its number, which can be read back; the numbers go from 0 to 99999.\<close>

lemma log_line_number: "digits_value (log_line answer usec cntr file line pri text) = int (unat (cntr mod 100000))"
proof -
  have d: "c \<in> set (zero_padded 5 x) \<Longrightarrow> is_digit c" for c x
    using print_base_digits [of x] by (auto simp: zero_padded_def list_all_iff is_digit_def)
  have "takeWhile is_digit (zero_padded 5 x @ CHR '' '' # s) = zero_padded 5 x" for x s
    using d by (subst takeWhile_append2) (simp_all add: is_digit_def)
  moreover have "takeWhile is_digit (zero_padded 5 x) = zero_padded 5 x" for x
    using d by (simp add: takeWhile_eq_all_conv)
  ultimately have "digits_value (zero_padded 5 x @ CHR '' '' # s) = digits_value (zero_padded 5 x)" for x s
    by (simp only: digits_value_def)
  then show ?thesis by (simp add: log_line_def) (simp add: zero_padded_def digits_value_zeros digits_value_print)
qed

end
