(* ===== verification/Spec2Isabelle.thy ===== *)
theory Spec2Isabelle
  imports Control_Plane Control_Exchange Server_Listeners Database_Connection Monitoring Client_Properties Client_Threads Client_Relay Client_Input_Thread Client_Output_Thread Client_Windows Server_Main Client_Main Main_Loops Client_Registration_Threads Log_Files
begin

text \<open>
  A verification library for net_port, a reverse proxy for devices behind NAT.

  \<^bold>\<open>The program.\<close> A device runs the client (\<open>src/client\<close>). It registers with the server (\<open>src/server\<close>) on the control port, a JSON
  protocol over TCP or TLS: the server checks the device's token against its PostgreSQL tables, allocates a pair of ports for the session, starts
  a pair of listeners on them, and answers with a session token. The client then keeps a tunnel connection to the second port and sends
  heartbeats. A user who connects to the first port is joined to the tunnel: the server relays bytes between the two sockets, and the client
  relays them between the tunnel and a local service. A local web interface (not modelled) can disconnect a device, ask for a TLS
  reload or reset the rate limits through the same control port.

  \<^bold>\<open>Theories, in the order of their imports.\<close>

  \<^item> \<open>Prelude\<close>: machine integers, C strings and the string functions, array scans, with the lemmas the components share.
  \<^item> \<open>Keyed_Store\<close>: the locale \<open>keyed_store\<close>, the contract of a table with one entry per key, and what follows for runs of operations: the answers
    a key gets do not depend on the operations of other keys. Interpreted by the rate limiter (\<open>limiter\<close>, in \<open>Security\<close>) and by the
    table of device snapshots (\<open>snapshots\<close>, in \<open>Monitoring\<close>).
  \<^item> \<open>Security\<close>: \<open>src/server/proxy/server/security_features.c\<close>. The limiter with windows and penalties, white and black lists, port-scan detector,
    screening of JSON text, token generator. Refinement of the limiter to a per-key specification, bounds per window, memory safety of every
    sequence of operations.
  \<^item> \<open>Device_DB\<close>, \<open>Device_Sessions\<close>, \<open>Port_Ownership\<close>: the tables of \<open>src/db\<close> and the statements and transactions of
    \<open>device_manager.c\<close> on them. The invariant is that active sessions own disjoint port pairs, for every sequence of operations
    in which any statement may fail; then the exact effect of authentication, registration, heartbeat and statistics.
  \<^item> \<open>TLS_Reload\<close>: the list of pending TLS reloads of \<open>device_manager.c\<close>, as an implementation of the locale \<open>flag_set\<close> (interpretation
    \<open>tls_flags\<close>): a request is announced exactly once.
  \<^item> \<open>Dynamic_Servers\<close>, \<open>Dynamic_Properties\<close>: the listeners that \<open>proxy_server.c\<close> starts and stops at run time: the array of servers, the registry of
    running ones, TLS contexts. A successful start leaves a healthy pair of listeners on the requested ports with the requested TLS settings.
  \<^item> \<open>Device_Manager\<close>, \<open>Control_Plane\<close>: the control protocol of \<open>device_manager.c\<close> and the start-up of
    \<open>proxy_server_device_integration.c\<close>, over the components above. Every request is answered, whatever it holds; \<open>authenticated\<close> means what it
    says; port ownership is an invariant of the running server; administrative requests are accepted from the local host only.
  \<^item> \<open>Server_Statistics\<close>: the cumulative statistics of \<open>src/server/db/db_func.c\<close> and their saver thread: no saved byte is lost over clean-ups
    and restarts.
  \<^item> \<open>Relay\<close>: slot assignment and the two relay threads of the server. The locale \<open>stream_relay\<close> is the contract of one pass of a relay loop;
    the server's two handlers (\<open>input_relay\<close>, \<open>output_relay\<close>) and, in \<open>Client_Relay\<close>, the client's two threads (\<open>service_relay\<close>,
    \<open>server_relay\<close>) interpret it. What is written is always made of prefixes of the chunks read, in order.
  \<^item> \<open>Server_Listeners\<close>: the two accept loops of a server, their start over the thread wrapper, and their interleaving with the handlers of \<open>Relay\<close> as a step
    relation over the shared slots: handlers and flags stay consistent, and when no created handler is left waiting no slot is shared.
  \<^item> \<open>Monitoring\<close>: \<open>monitoring_statistics.c\<close>. The sums and metrics are exact and the text fits its buffer, but the entry points that would publish
    them lock a mutex twice.
  \<^item> \<open>Client_Device\<close>, \<open>Client_Properties\<close>: registration, settings, heartbeats of the client (\<open>proxy_client_device_integration.c\<close>,
    \<open>device_heartbeat.c\<close>, parts of \<open>proxy_client.c\<close>). Client and server composed: a registration leaves both sides with the same session; the traffic
    reports balance; a lost server is noticed and an accepted registration restores the tunnel.
  \<^item> \<open>Control_Exchange\<close>: heartbeats from end to end. An admitted heartbeat leaves both sides with the same TLS settings and a renewed session; a disconnect on the
    server makes the client leave; so does a database statement that fails.
  \<^item> \<open>Client_Registration_Threads\<close>: the heartbeat thread and the registration threads of the client interleaved, over the two flags they share: at
    most one registration at a time, and two ways in which the client stops registering for good.
  \<^item> \<open>Client_Threads\<close>: the heartbeat thread and the input threads of the client interleaved, as a step relation: a reachable deadlock, and a reachable
    state with two input threads for one connection.
  \<^item> \<open>Client_Relay\<close>: the relay threads of the client, and the tunnel from end to end.
  \<^item> \<open>Client_Connect\<close>, \<open>Client_Stop\<close>: how the client's threads reach the main loops of \<open>Client_Relay\<close> and how they end: sockets, the growing delay
    between attempts, the pause for registration, the TLS handshake, stop requests, and \<open>switcher_servers_stop\<close>. One open socket per running
    thread, none after an end; bounds on every wait; what a stop leaves behind.
  \<^item> \<open>Client_Input_Thread\<close>, \<open>Client_Output_Thread\<close>: \<open>server_input_thread\<close> as a whole, over any number of sessions, and \<open>server_output_thread\<close>: one
    descriptor while a thread relays, none at its end, and the bytes in order across restarts.
  \<^item> \<open>Client_Windows\<close>: the client of \<open>src/client_win\<close>, with the equivalence of its relay loops and those of \<open>Client_Relay\<close> without TLS, and its command line.
  \<^item> \<open>Server_Startup\<close>: the statically configured servers of \<open>proxy_server.c\<close>, with a database and with \<open>--no-db\<close>: after the start every enabled row has
    its running listeners.
  \<^item> \<open>Command_Line\<close>, \<open>Server_Main\<close>, \<open>Client_Main\<close>: the command lines of server and client (\<open>src/server/main.c\<close>, \<open>src/client/main.c\<close>) and what
    they start. Arguments written for given options are read back as these options.
  \<^item> \<open>Main_Loops\<close>: the loops of the \<open>main\<close> functions, with clock, counter of seconds, signals and shutdown: what a step of the counter stands for, which
    signals end the programs, and what the server's shutdown leaves running.
  \<^item> \<open>Database_Connection\<close>: \<open>src/server/common/db/db.c\<close>, opening the connection every statement uses.
  \<^item> \<open>Client_Update\<close>: the self-update of the client, with its shell commands as texts given to a shell that is a parameter. With an announced digest only a
    file with that digest is installed; text of the server can reach the shell.
  \<^item> \<open>Log_Files\<close>: priorities, lines and rotation of the log files (\<open>logMsg.c\<close>): nothing but the oldest backup is lost, and the sizes are bounded.

  \<^bold>\<open>How code became definitions.\<close> A C struct is a record with its fields, the static variables of a file are one record, a function is a definition
  from its arguments and that record to its result and the new record. Unsigned integers are words of their width, so that counters wrap around as in C;
  \<open>time_t\<close> is an integer. A NULL pointer is \<open>None\<close>. Behaviour that C leaves undefined is the value \<open>None\<close> (or \<open>Undefined\<close>), so a theorem that
  a result exists includes that it is defined.
  What the code does not decide itself is an argument: the results of system calls, allocations and library calls, the clock,
  and the failure of each database statement. Loops over arrays are recursions over lists. A thread that runs until its surroundings stop it is
  given a list of observations, one per pass; the theorems hold for every list, and the result says whether it is still running when they are used
  up. No fuel is used otherwise. The JSON library is a parameter (the record \<open>jansson\<close>); where both sides talk to each other, the
  hypothesis is that the documents exchanged are read as they were written.

  \<^bold>\<open>Not modelled.\<close> The wrappers of \<open>malloc\<close>, the client's copies of the clock, log and thread wrappers, which repeat the server's, the vendored \<open>getopt\<close>
  of the Windows client, which its command line does not use, headers that only declare what is modelled, and the web interface, which is JavaScript. A thread
  that another one starts is run to its main loop or its end where it is started; the interleavings treated are those of \<open>Client_Threads\<close>, of
  \<open>Client_Registration_Threads\<close>, of \<open>Server_Listeners\<close>, and the runs of operations of the database and the limiter. A control connection delivers a request or an
  answer by one read, as the code has it; how TCP may split it is an argument. The counter of seconds is an unbounded integer, where C has an
  \<open>int\<close> that overflows after 68 years. Floating-point formatting and log texts are left out where nothing depends on them.
\<close>

end
